(* ===== verification/Prelude.thy ===== *)
theory Prelude
  imports Main "HOL-Library.Word"
begin

text \<open>
  Shared vocabulary of the development.

  \<^item> Machine integers: \<open>u8\<close>, \<open>u16\<close>, \<open>u32\<close>, \<open>u64\<close> are words of that width; \<open>usize\<close> quantities
    (lengths, offsets) are natural numbers, since no buffer reaches \<open>2 ^ 64\<close> bytes.
  \<^item> Buffers: a byte slice, a \<open>Vec<u8>\<close>, a \<open>Bytes\<close> and a \<open>BytesMut\<close> all are the list of bytes they
    hold (type \<open>bytes\<close>).
  \<^item> Outcomes: a fallible operation of type \<open>Result<T, E>\<close> is \<open>'e fault + 'a\<close>. Its left summand
    distinguishes the error value the code returns (\<open>Err e\<close>) from a panic (\<open>Panic\<close>: an index or a
    slice out of range, a cursor read past the end), so that absence of panics is a statement
    about the model and not an assumption of it.
  \<^item> The big-endian codecs (\<open>to_be_bytes\<close>, \<open>from_be_bytes\<close>), the indexed reads of a slice, the
    cursor reads of a buffer, and the lemmas that let \<open>simp\<close> run a decoder over the output of an
    encoder (collections \<open>be_simps\<close>, \<open>read_simps\<close>).
\<close>

unbundle bit_operations_syntax

type_synonym u8 = "8 word"
type_synonym u16 = "16 word"
type_synonym u32 = "32 word"
type_synonym u64 = "64 word"
type_synonym bytes = "u8 list"

named_theorems be_simps "big-endian codecs: lengths, inverses"
named_theorems read_simps "indexed and cursor reads over appended buffers"

section \<open>Outcomes: values, errors and panics\<close>

datatype 'e fault = Err 'e | Panic

abbreviation Ok :: "'a \<Rightarrow> 'e fault + 'a" where
  "Ok x \<equiv> Inr x"

abbreviation Fail :: "'e \<Rightarrow> 'e fault + 'a" where
  "Fail e \<equiv> Inl (Err e)"

abbreviation Panicked :: "'e fault + 'a" where
  "Panicked \<equiv> Inl Panic"

text \<open>The \<open>?\<close> operator: stop at the first fault, otherwise continue with the value.\<close>

fun rbind :: "'f + 'a \<Rightarrow> ('a \<Rightarrow> 'f + 'b) \<Rightarrow> 'f + 'b" where
  "rbind (Inl f) k = Inl f"
| "rbind (Inr x) k = k x"

lemma rbind_cong [fundef_cong]:
  "m = m' \<Longrightarrow> (\<And>x. m' = Inr x \<Longrightarrow> k x = k' x) \<Longrightarrow> rbind m k = rbind m' k'"
  by (cases m') auto

lemma rbind_Inr_iff: "rbind m k = Inr y \<longleftrightarrow> (\<exists>x. m = Inr x \<and> k x = Inr y)"
  by (cases m) auto

lemma rbind_Inl_iff: "rbind m k = Inl f \<longleftrightarrow> m = Inl f \<or> (\<exists>x. m = Inr x \<and> k x = Inl f)"
  by (cases m) auto

lemma rbind_assoc: "rbind (rbind m k) h = rbind m (\<lambda>x. rbind (k x) h)"
  by (cases m) auto

text \<open>The rule by which a composition does not panic.\<close>

lemma rbind_no_panic [intro?]:
  "m \<noteq> Panicked \<Longrightarrow> (\<And>x. m = Inr x \<Longrightarrow> k x \<noteq> Panicked) \<Longrightarrow> rbind m k \<noteq> Panicked"
  by (cases m) auto

text \<open>\<open>Option::ok_or\<close>.\<close>

definition ok_or :: "'a option \<Rightarrow> 'e \<Rightarrow> 'e fault + 'a" where
  "ok_or v e = (case v of None \<Rightarrow> Fail e | Some x \<Rightarrow> Ok x)"

lemma ok_or_simps [simp]: "ok_or None e = Fail e" "ok_or (Some x) e = Ok x"
  by (simp_all add: ok_or_def)

section \<open>Big-endian codecs\<close>

definition u16_be :: "u16 \<Rightarrow> bytes" where
  "u16_be w = [ucast (drop_bit 8 w), ucast w]"

definition u24_be :: "u32 \<Rightarrow> bytes" where
  "u24_be w = [ucast (drop_bit 16 w), ucast (drop_bit 8 w), ucast w]"

definition u32_be :: "u32 \<Rightarrow> bytes" where
  "u32_be w = [ucast (drop_bit 24 w), ucast (drop_bit 16 w), ucast (drop_bit 8 w), ucast w]"

definition u64_be :: "u64 \<Rightarrow> bytes" where
  "u64_be w = [ucast (drop_bit 56 w), ucast (drop_bit 48 w), ucast (drop_bit 40 w),
     ucast (drop_bit 32 w), ucast (drop_bit 24 w), ucast (drop_bit 16 w),
     ucast (drop_bit 8 w), ucast w]"

definition be16 :: "u8 \<Rightarrow> u8 \<Rightarrow> u16" where
  "be16 a b = push_bit 8 (ucast a) OR ucast b"

definition be32 :: "u8 \<Rightarrow> u8 \<Rightarrow> u8 \<Rightarrow> u8 \<Rightarrow> u32" where
  "be32 a b c d = push_bit 24 (ucast a) OR push_bit 16 (ucast b) OR push_bit 8 (ucast c) OR ucast d"

lemma bit_u8_beyond [simp]: "8 \<le> n \<Longrightarrow> \<not> bit (w :: u8) n"
  using bit_imp_le_length by fastforce

lemma length_be [simp, be_simps]:
  "length (u16_be a) = 2" "length (u24_be w) = 3" "length (u32_be w) = 4" "length (u64_be v) = 8"
  by (simp_all add: u16_be_def u24_be_def u32_be_def u64_be_def)

lemma be16_bytes [simp]: "be16 (ucast (drop_bit 8 w)) (ucast w) = w"
  unfolding be16_def by (rule bit_word_eqI) (auto simp: bit_simps)

lemma be32_bytes [simp]:
  "be32 (ucast (drop_bit 24 w)) (ucast (drop_bit 16 w)) (ucast (drop_bit 8 w)) (ucast w) = w"
proof (rule bit_word_eqI)
  fix n assume "n < LENGTH(32)"
  then consider "n < 8" | "8 \<le> n" "n < 16" | "16 \<le> n" "n < 24" | "24 \<le> n" "n < 32" by force
  then show "bit (be32 (ucast (drop_bit 24 w)) (ucast (drop_bit 16 w)) (ucast (drop_bit 8 w)) (ucast w)) n
      = bit w n"
    by cases (auto simp: be32_def bit_simps)
qed

text \<open>A 24-bit field holds the value exactly when its upper byte is clear.\<close>

lemma be24_bytes:
  "be32 0 (ucast (drop_bit 16 w)) (ucast (drop_bit 8 w)) (ucast w) = w AND 0x00FFFFFF"
proof (rule bit_word_eqI)
  fix n assume "n < LENGTH(32)"
  then have n: "n < 32" by simp
  have mask: "(0x00FFFFFF :: u32) = mask 24" by (simp add: mask_eq_exp_minus_1)
  from n consider "n < 8" | "8 \<le> n" "n < 16" | "16 \<le> n" "n < 24" | "24 \<le> n" "n < 32" by force
  then show "bit (be32 0 (ucast (drop_bit 16 w)) (ucast (drop_bit 8 w)) (ucast w)) n
      = bit (w AND 0x00FFFFFF) n"
    unfolding mask by cases (auto simp: be32_def bit_simps)
qed

lemma u16_be_be16 [simp]: "u16_be (be16 a b) = [a, b]"
  unfolding u16_be_def be16_def by (auto intro!: bit_word_eqI simp: bit_simps)

lemma u32_be_be32 [simp]: "u32_be (be32 a b c d) = [a, b, c, d]"
  unfolding u32_be_def be32_def by (auto intro!: bit_word_eqI simp: bit_simps)

lemma u16_be_inj [simp]: "u16_be a = u16_be b \<longleftrightarrow> a = b"
proof
  assume "u16_be a = u16_be b"
  then have "be16 (ucast (drop_bit 8 a)) (ucast a) = be16 (ucast (drop_bit 8 b)) (ucast b)"
    by (simp add: u16_be_def)
  then show "a = b" by simp
qed simp

lemma u32_be_inj [simp]: "u32_be a = u32_be b \<longleftrightarrow> a = b"
proof
  assume "u32_be a = u32_be b"
  then have "be32 (ucast (drop_bit 24 a)) (ucast (drop_bit 16 a)) (ucast (drop_bit 8 a)) (ucast a)
      = be32 (ucast (drop_bit 24 b)) (ucast (drop_bit 16 b)) (ucast (drop_bit 8 b)) (ucast b)"
    by (simp add: u32_be_def)
  then show "a = b" by simp
qed simp

lemma u64_be_inj [simp]: "u64_be a = u64_be b \<longleftrightarrow> a = b"
proof
  assume *: "u64_be a = u64_be b"
  show "a = b"
  proof (rule bit_word_eqI)
    fix n assume "n < LENGTH(64)"
    then have n: "n < 64" by simp
    have "(ucast (drop_bit (8 * (n div 8)) a) :: u8) = ucast (drop_bit (8 * (n div 8)) b)"
    proof -
      have "n div 8 \<in> {0, 1, 2, 3, 4, 5, 6, 7}" using n by auto
      then show ?thesis using * by (auto simp: u64_be_def)
    qed
    then have "bit (ucast (drop_bit (8 * (n div 8)) a) :: u8) (n mod 8) = bit (ucast (drop_bit (8 * (n div 8)) b) :: u8) (n mod 8)"
      by simp
    then show "bit a n = bit b n" by (simp add: bit_simps)
  qed
qed simp

section \<open>Indexed reads of a slice\<close>

text \<open>\<open>buf[i]\<close>, \<open>u16::from_be_bytes([buf[i], buf[i+1]])\<close>, ..., \<open>&buf[i..j]\<close>: out of range is a panic.\<close>

definition at8 :: "bytes \<Rightarrow> nat \<Rightarrow> 'e fault + u8" where
  "at8 bs i = (if i < length bs then Ok (bs ! i) else Panicked)"

definition at16 :: "bytes \<Rightarrow> nat \<Rightarrow> 'e fault + u16" where
  "at16 bs i = (if i + 2 \<le> length bs then Ok (be16 (bs ! i) (bs ! (i + 1))) else Panicked)"

definition at24 :: "bytes \<Rightarrow> nat \<Rightarrow> 'e fault + u32" where
  "at24 bs i = (if i + 3 \<le> length bs
     then Ok (be32 0 (bs ! i) (bs ! (i + 1)) (bs ! (i + 2))) else Panicked)"

definition at32 :: "bytes \<Rightarrow> nat \<Rightarrow> 'e fault + u32" where
  "at32 bs i = (if i + 4 \<le> length bs
     then Ok (be32 (bs ! i) (bs ! (i + 1)) (bs ! (i + 2)) (bs ! (i + 3))) else Panicked)"

definition slice :: "bytes \<Rightarrow> nat \<Rightarrow> nat \<Rightarrow> 'e fault + bytes" where
  "slice bs i j = (if i \<le> j \<and> j \<le> length bs then Ok (take (j - i) (drop i bs)) else Panicked)"

lemma at8_append [read_simps]: "length xs \<le> i \<Longrightarrow> at8 (xs @ ys) i = at8 ys (i - length xs)"
  by (auto simp: at8_def nth_append)

lemma at16_append [read_simps]: "length xs \<le> i \<Longrightarrow> at16 (xs @ ys) i = at16 ys (i - length xs)"
  by (auto simp: at16_def nth_append Suc_diff_le)

lemma at24_append [read_simps]: "length xs \<le> i \<Longrightarrow> at24 (xs @ ys) i = at24 ys (i - length xs)"
  by (auto simp: at24_def nth_append Suc_diff_le)

lemma at32_append [read_simps]: "length xs \<le> i \<Longrightarrow> at32 (xs @ ys) i = at32 ys (i - length xs)"
  by (auto simp: at32_def nth_append Suc_diff_le)

lemma at8_Cons [read_simps]: "at8 (x # xs) i = (if i = 0 then Ok x else at8 xs (i - 1))"
  by (auto simp: at8_def nth_Cons')

lemma at16_Cons [read_simps]: "0 < i \<Longrightarrow> at16 (x # xs) i = at16 xs (i - 1)"
  using at16_append [of "[x]" i xs] by simp

lemma at24_Cons [read_simps]: "0 < i \<Longrightarrow> at24 (x # xs) i = at24 xs (i - 1)"
  using at24_append [of "[x]" i xs] by simp

lemma at32_Cons [read_simps]: "0 < i \<Longrightarrow> at32 (x # xs) i = at32 xs (i - 1)"
  using at32_append [of "[x]" i xs] by simp

lemma at16_head [read_simps]: "at16 (u16_be w @ ys) 0 = Ok w" "at16 (u16_be w) 0 = Ok w"
  by (simp_all add: at16_def u16_be_def)

lemma at24_head [read_simps]: "at24 (u24_be w @ ys) 0 = Ok (w AND 0x00FFFFFF)"
    "at24 (u24_be w) 0 = Ok (w AND 0x00FFFFFF)"
  by (simp_all add: at24_def u24_be_def be24_bytes)

lemma at32_head [read_simps]: "at32 (u32_be w @ ys) 0 = Ok w" "at32 (u32_be w) 0 = Ok w"
  by (simp_all add: at32_def u32_be_def)

lemma slice_append [read_simps]:
  "length xs \<le> i \<Longrightarrow> length xs \<le> j \<Longrightarrow> slice (xs @ ys) i j = slice ys (i - length xs) (j - length xs)"
  by (auto simp: slice_def)

lemma slice_Cons [read_simps]:
  "0 < i \<Longrightarrow> 0 < j \<Longrightarrow> slice (x # xs) i j = slice xs (i - 1) (j - 1)"
  using slice_append [of "[x]" i j xs] by simp

lemma slice_head [read_simps]: "n = length xs \<Longrightarrow> slice (xs @ ys) 0 n = Ok xs"
  by (simp add: slice_def)

lemma slice_all [read_simps]: "n = length xs \<Longrightarrow> slice xs 0 n = Ok xs"
  by (simp add: slice_def)

lemma slice_length: "slice bs i j = Ok v \<Longrightarrow> length v = j - i"
  by (auto simp: slice_def split: if_splits)

lemma at_in_range:
  "i < length bs \<Longrightarrow> \<exists>v. at8 bs i = (Ok v :: 'e fault + u8)"
  "i + 2 \<le> length bs \<Longrightarrow> \<exists>v. at16 bs i = (Ok v :: 'e fault + u16)"
  "i + 3 \<le> length bs \<Longrightarrow> \<exists>v. at24 bs i = (Ok v :: 'e fault + u32)"
  "i + 4 \<le> length bs \<Longrightarrow> \<exists>v. at32 bs i = (Ok v :: 'e fault + u32)"
  "i \<le> j \<Longrightarrow> j \<le> length bs \<Longrightarrow> \<exists>v. slice bs i j = (Ok v :: 'e fault + bytes)"
  by (simp_all add: at8_def at16_def at24_def at32_def slice_def)

lemma at_no_panic [simp]:
  "at8 bs i = Panicked \<longleftrightarrow> \<not> i < length bs"
  "at16 bs i = Panicked \<longleftrightarrow> \<not> i + 2 \<le> length bs"
  "at24 bs i = Panicked \<longleftrightarrow> \<not> i + 3 \<le> length bs"
  "at32 bs i = Panicked \<longleftrightarrow> \<not> i + 4 \<le> length bs"
  "slice bs i j = Panicked \<longleftrightarrow> \<not> (i \<le> j \<and> j \<le> length bs)"
  by (simp_all add: at8_def at16_def at24_def at32_def slice_def)

lemma at_no_err [simp]:
  "at8 bs i \<noteq> Fail e" "at16 bs i \<noteq> Fail e" "at24 bs i \<noteq> Fail e" "at32 bs i \<noteq> Fail e"
  "slice bs i j \<noteq> Fail e"
  by (simp_all add: at8_def at16_def at24_def at32_def slice_def)

section \<open>Cursor reads of a buffer\<close>

text \<open>
  The cursor reads consume their bytes from the front: \<open>get_u8\<close>, \<open>get_u16\<close>, \<open>get_u32\<close> and
  \<open>split_to\<close> (also \<open>copy_to_bytes\<close>), which panic when the buffer is too short.
\<close>

text \<open>\<open>+= 1\<close> on an unsigned integer, with the overflow check.\<close>

definition checked_suc :: "'a::len word \<Rightarrow> 'e fault + 'a word" where
  "checked_suc w = (if w = - 1 then Panicked else Ok (w + 1))"

lemma checked_suc_simps [simp]: "checked_suc (- 1) = Panicked" "w \<noteq> - 1 \<Longrightarrow> checked_suc w = Ok (w + 1)"
  by (simp_all add: checked_suc_def)

lemma checked_suc_iff [simp]:
  "checked_suc w = Inl f \<longleftrightarrow> w = - 1 \<and> f = Panic" "checked_suc w = Inr n \<longleftrightarrow> w \<noteq> - 1 \<and> n = w + 1"
  by (auto simp: checked_suc_def)

definition split_to :: "nat \<Rightarrow> bytes \<Rightarrow> 'e fault + (bytes \<times> bytes)" where
  "split_to n bs = (if n \<le> length bs then Ok (take n bs, drop n bs) else Panicked)"

definition get_u8 :: "bytes \<Rightarrow> 'e fault + (u8 \<times> bytes)" where
  "get_u8 bs = (case bs of b # rest \<Rightarrow> Ok (b, rest) | [] \<Rightarrow> Panicked)"

definition get_u16 :: "bytes \<Rightarrow> 'e fault + (u16 \<times> bytes)" where
  "get_u16 bs = (case bs of a # b # rest \<Rightarrow> Ok (be16 a b, rest) | _ \<Rightarrow> Panicked)"

definition get_u32 :: "bytes \<Rightarrow> 'e fault + (u32 \<times> bytes)" where
  "get_u32 bs = (case bs of a # b # c # d # rest \<Rightarrow> Ok (be32 a b c d, rest) | _ \<Rightarrow> Panicked)"

lemma get_u8_Cons [read_simps]: "get_u8 (b # rest) = Ok (b, rest)"
  by (simp add: get_u8_def)

lemma get_u16_be [read_simps]: "get_u16 (u16_be w @ rest) = Ok (w, rest)" "get_u16 (u16_be w) = Ok (w, [])"
  by (simp_all add: get_u16_def u16_be_def)

lemma get_u32_be [read_simps]: "get_u32 (u32_be w @ rest) = Ok (w, rest)" "get_u32 (u32_be w) = Ok (w, [])"
  by (simp_all add: get_u32_def u32_be_def)

lemma split_to_append [read_simps]: "n = length xs \<Longrightarrow> split_to n (xs @ ys) = Ok (xs, ys)"
    "n = length xs \<Longrightarrow> split_to n xs = Ok (xs, [])"
  by (simp_all add: split_to_def)

lemma length_ge_2_E: "2 \<le> length bs \<Longrightarrow> \<exists>a b rest. bs = a # b # rest"
  by (cases bs; cases "tl bs") auto

lemma length_ge_4_E: "4 \<le> length bs \<Longrightarrow> \<exists>a b c d rest. bs = a # b # c # d # rest"
  by (cases bs; cases "tl bs"; cases "tl (tl bs)"; cases "tl (tl (tl bs))") auto

lemma get_u8_ok: "get_u8 bs = Ok (v, rest) \<longleftrightarrow> bs = v # rest"
  by (auto simp: get_u8_def split: list.splits)

lemma get_u16_ok: "get_u16 bs = Ok (v, rest) \<longleftrightarrow> bs = u16_be v @ rest"
  by (auto simp: get_u16_be) (auto simp: get_u16_def split: list.splits)

lemma get_u32_ok: "get_u32 bs = Ok (v, rest) \<longleftrightarrow> bs = u32_be v @ rest"
  by (auto simp: get_u32_be) (auto simp: get_u32_def split: list.splits)

lemma split_to_ok: "split_to n bs = Ok (v, rest) \<longleftrightarrow> bs = v @ rest \<and> length v = n"
  by (auto simp: split_to_def append_eq_conv_conj)

lemmas cursor_ok = get_u8_ok get_u16_ok get_u32_ok split_to_ok

lemma cursor_no_panic [simp]:
  "get_u8 bs = Panicked \<longleftrightarrow> length bs < 1"
  "get_u16 bs = Panicked \<longleftrightarrow> length bs < 2"
  "get_u32 bs = Panicked \<longleftrightarrow> length bs < 4"
  "split_to n bs = Panicked \<longleftrightarrow> length bs < n"
  by (auto simp: get_u8_def get_u16_def get_u32_def split_to_def split: list.splits)

lemma cursor_no_err [simp]:
  "get_u8 bs \<noteq> Fail e" "get_u16 bs \<noteq> Fail e" "get_u32 bs \<noteq> Fail e" "split_to n bs \<noteq> Fail e"
  by (auto simp: get_u8_def get_u16_def get_u32_def split_to_def split: list.splits)

section \<open>Padding to a 32-bit boundary\<close>

definition pad_len :: "nat \<Rightarrow> nat" where
  "pad_len n = (4 - n mod 4) mod 4"

lemma pad_len_less [simp]: "pad_len n < 4"
  by (simp add: pad_len_def)

lemma pad_len_aligned [simp]: "4 dvd (n + pad_len n)"
proof -
  consider "n mod 4 = 0" | "n mod 4 = 1" | "n mod 4 = 2" | "n mod 4 = 3" by linarith
  then have "(n + pad_len n) mod 4 = 0"
    by cases (simp_all add: pad_len_def, presburger+)
  then show ?thesis by (simp add: dvd_eq_mod_eq_0)
qed

lemma pad_len_eq_0 [simp]: "4 dvd n \<Longrightarrow> pad_len n = 0"
  by (simp add: pad_len_def dvd_eq_mod_eq_0)

lemma pad_len_add4 [simp]:
  "4 dvd k \<Longrightarrow> pad_len (k + n) = pad_len n"
  "4 dvd k \<Longrightarrow> pad_len (n + k) = pad_len n"
  by (simp_all add: pad_len_def mod_add_eq [of k 4 n, symmetric] mod_add_eq [of n 4 k, symmetric]
      dvd_eq_mod_eq_0)

lemma pad_len_Suc4 [simp]: "pad_len (Suc (Suc (Suc (Suc n)))) = pad_len n"
  using pad_len_add4(1) [of 4 n] by (simp add: eval_nat_numeral)

lemma dvd_Suc4 [simp]: "4 dvd Suc (Suc (Suc (Suc n))) \<longleftrightarrow> 4 dvd n"
  by (simp add: dvd_eq_mod_eq_0 mod_Suc)

section \<open>Small numbers in words\<close>

lemma unat_of_nat_u8 [simp]: "n < 256 \<Longrightarrow> unat (of_nat n :: u8) = n"
  by (simp add: unat_of_nat)

lemma unat_of_nat_u16 [simp]: "n < 65536 \<Longrightarrow> unat (of_nat n :: u16) = n"
  by (simp add: unat_of_nat)

lemma unat_u8_less [simp]: "unat (w :: u8) < 256"
  using unsigned_less [of w, where ?'a = nat] by simp

lemma unat_u16_less [simp]: "unat (w :: u16) < 65536"
  using unsigned_less [of w, where ?'a = nat] by simp

section \<open>Bits of a byte\<close>

lemma bit_exp_u8: "bit ((2 :: u8) ^ k) n \<longleftrightarrow> k < 8 \<and> n = k"
  by (auto simp: bit_exp_iff)

lemma bit_mask_u8: "k \<le> 8 \<Longrightarrow> bit (mask k :: u8) n \<longleftrightarrow> n < k"
  by (auto simp: bit_mask_iff)

lemma byte_consts:
  "(0x0F :: u8) = mask 4" "(0x10 :: u8) = 2 ^ 4" "(0x20 :: u8) = 2 ^ 5" "(0x7F :: u8) = mask 7"
  by (simp_all add: mask_eq_exp_minus_1)

lemma bit_byte_consts:
  "bit (0x0F :: u8) n \<longleftrightarrow> n < 4" "bit (0x10 :: u8) n \<longleftrightarrow> n = 4" "bit (0x20 :: u8) n \<longleftrightarrow> n = 5"
  "bit (0x7F :: u8) n \<longleftrightarrow> n < 7"
  by (simp_all only: byte_consts bit_exp_u8 bit_mask_u8, simp_all)

lemma and_single_bit: "(b :: u8) AND 2 ^ k = (if bit b k then 2 ^ k else 0)"
  by (rule bit_word_eqI) (auto simp: bit_simps)

lemma single_bit_cases:
  "(b :: u8) AND 0x10 = 0 \<or> b AND 0x10 = 0x10" "b AND 0x20 = 0 \<or> b AND 0x20 = 0x20"
  "b AND 0x80 = 0 \<or> b AND 0x80 = 0x80"
  using and_single_bit [of b 4] and_single_bit [of b 5] and_single_bit [of b 7]
  by (auto split: if_splits)

lemma bit_0x80: "bit (0x80 :: u8) n \<longleftrightarrow> n = 7"
  using bit_exp_u8 [of 7 n] by simp

lemma unat_and_le: "unat ((a :: 'a::len word) AND m) \<le> unat m"
  using word_and_le1 [of a m] by (simp add: word_le_nat_alt)

lemma unat_and_15 [simp]: "unat ((b :: u8) AND 0x0F) < 16"
  using unat_and_le [of b 15] by simp

lemma take_bit_small: "unat (w :: 'a::len word) < 2 ^ k \<Longrightarrow> take_bit k w = w"
  by (simp add: word_unat_eq_iff unsigned_take_bit_eq take_bit_nat_eq_self)

lemma unat_drop_bit_div: "unat (drop_bit n w) = unat w div 2 ^ n"
  by (simp only: unat_drop_bit_eq) (simp add: drop_bit_eq_div)

lemma unat_push_bit_small: "unat w * 2 ^ n < 2 ^ LENGTH('a) \<Longrightarrow> unat (push_bit n w) = unat w * 2 ^ n"
  for w :: "'a::len word"
  by (simp only: unsigned_push_bit_eq) (simp add: push_bit_eq_mult take_bit_eq_mod)

end
