(* ===== verification/Rtp.thy ===== *)
theory Rtp
  imports Prelude
begin

text \<open>
  The RTP packet codec of \<open>src/rtp.rs\<close>: \<open>RtpHeader::parse\<close> and \<open>write_to\<close>, \<open>RtpPacket::parse\<close>,
  \<open>marshal\<close>, \<open>marshal_to\<close> and \<open>marshal_into\<close>, the validation of a header, and the abs-send-time
  stamp. The header extension block is opaque here; its elements are the subject of \<open>Rtp_Ext\<close>.
\<close>

unbundle bit_operations_syntax

section \<open>Data\<close>

datatype rtp_error =
    PacketTooShort
  | UnsupportedVersion u8
  | InvalidHeader string
  | InvalidRtcp string
  | LengthMismatch

record rtp_header_extension =
  profile :: u16
  ext_data :: bytes

record rtp_header =
  marker :: bool
  payload_type :: u8
  sequence_number :: u16
  timestamp :: u32
  ssrc :: u32
  csrcs :: "u32 list"
  extension :: "rtp_header_extension option"

record rtp_packet =
  header :: rtp_header
  payload :: bytes
  padding_len :: u8

definition RTP_VERSION :: u8 where
  "RTP_VERSION = 2"

definition rtp_header_new :: "u8 \<Rightarrow> u16 \<Rightarrow> u32 \<Rightarrow> u32 \<Rightarrow> rtp_header" where
  "rtp_header_new pt seq ts ss = \<lparr>marker = False, payload_type = pt, sequence_number = seq,
     timestamp = ts, ssrc = ss, csrcs = [], extension = None\<rparr>"

definition rtp_packet_new :: "rtp_header \<Rightarrow> bytes \<Rightarrow> rtp_packet" where
  "rtp_packet_new h p = \<lparr>header = h, payload = p, padding_len = 0\<rparr>"

section \<open>Parsing\<close>

fun get_u32s :: "nat \<Rightarrow> bytes \<Rightarrow> 'e fault + (u32 list \<times> bytes)" where
  "get_u32s 0 raw = Ok ([], raw)"
| "get_u32s (Suc n) raw =
     rbind (get_u32 raw) (\<lambda>(w, raw). rbind (get_u32s n raw) (\<lambda>(ws, raw). Ok (w # ws, raw)))"

definition parse_extension :: "bool \<Rightarrow> bytes \<Rightarrow> rtp_error fault + (rtp_header_extension option \<times> bytes)" where
  "parse_extension has_ext raw =
     (if has_ext then
        if length raw < 4 then Fail PacketTooShort
        else rbind (get_u16 raw) (\<lambda>(prof, raw).
          rbind (get_u16 raw) (\<lambda>(words, raw).
          let extension_len = unat words * 4
          in if length raw < extension_len then Fail PacketTooShort
             else rbind (split_to extension_len raw) (\<lambda>(d, raw).
               Ok (Some \<lparr>profile = prof, ext_data = d\<rparr>, raw))))
      else Ok (None, raw))"

definition rtp_header_parse :: "bytes \<Rightarrow> rtp_error fault + ((rtp_header \<times> bool) \<times> bytes)" where
  "rtp_header_parse raw =
     (if length raw < 12 then Fail PacketTooShort
      else rbind (get_u8 raw) (\<lambda>(b0, raw).
        rbind (get_u8 raw) (\<lambda>(b1, raw).
        let version = drop_bit 6 b0
        in if version \<noteq> RTP_VERSION then Fail (UnsupportedVersion version)
        else let padding = (b0 AND 0x20 \<noteq> 0);
                 has_ext = (b0 AND 0x10 \<noteq> 0);
                 csrc_count = unat (b0 AND 0x0F);
                 mark = (b1 AND 0x80 \<noteq> 0);
                 pt = b1 AND 0x7F
        in rbind (get_u16 raw) (\<lambda>(seq, raw).
           rbind (get_u32 raw) (\<lambda>(ts, raw).
           rbind (get_u32 raw) (\<lambda>(ss, raw).
           if length raw < csrc_count * 4 then Fail PacketTooShort
           else rbind (get_u32s csrc_count raw) (\<lambda>(cs, raw).
           rbind (parse_extension has_ext raw) (\<lambda>(ext, raw).
           Ok ((\<lparr>marker = mark, payload_type = pt, sequence_number = seq, timestamp = ts,
                 ssrc = ss, csrcs = cs, extension = ext\<rparr>, padding), raw)))))))))"

definition rtp_packet_parse :: "bytes \<Rightarrow> rtp_error fault + rtp_packet" where
  "rtp_packet_parse raw =
     rbind (rtp_header_parse raw) (\<lambda>((h, padding), buf).
       if padding then
         rbind (ok_or (if buf = [] then None else Some (last buf)) PacketTooShort) (\<lambda>pad.
           if unat pad > length buf then Fail (InvalidHeader ''padding larger than payload'')
           else rbind (slice buf 0 (length buf - unat pad)) (\<lambda>p.
             Ok \<lparr>header = h, payload = p, padding_len = pad\<rparr>))
       else Ok \<lparr>header = h, payload = buf, padding_len = 0\<rparr>)"

section \<open>Serialising\<close>

definition rtp_header_validate :: "rtp_header \<Rightarrow> rtp_error fault + unit" where
  "rtp_header_validate h =
     (if length (csrcs h) > 15 then Fail (InvalidHeader ''too many CSRC entries'')
      else case extension h of
        Some ext \<Rightarrow>
          if length (ext_data ext) mod 4 \<noteq> 0
          then Fail (InvalidHeader ''header extension payload must be 32-bit aligned'')
          else Ok ()
      | None \<Rightarrow> Ok ())"

definition rtp_header_encoded_len :: "rtp_header \<Rightarrow> nat" where
  "rtp_header_encoded_len h = 12 + length (csrcs h) * 4 +
     (case extension h of None \<Rightarrow> 0 | Some ext \<Rightarrow> 4 + length (ext_data ext))"

definition rtp_packet_encoded_len :: "rtp_packet \<Rightarrow> nat" where
  "rtp_packet_encoded_len p =
     rtp_header_encoded_len (header p) + length (payload p) + unat (padding_len p)"

text \<open>Sequential \<open>put_*\<close> calls into a slice overwrite its front and panic when it is full.\<close>

definition put_all :: "bytes \<Rightarrow> bytes \<Rightarrow> 'e fault + bytes" where
  "put_all src buf = (if length src \<le> length buf then Ok (src @ drop (length src) buf) else Panicked)"

definition first_byte :: "rtp_header \<Rightarrow> bool \<Rightarrow> u8" where
  "first_byte h has_padding =
     push_bit 6 RTP_VERSION
       OR (if has_padding then 0x20 else 0)
       OR (if extension h \<noteq> None then 0x10 else 0)
       OR of_nat (length (csrcs h) AND 0x0F)"

definition second_byte :: "rtp_header \<Rightarrow> u8" where
  "second_byte h = (payload_type h AND 0x7F) OR (if marker h then 0x80 else 0)"

definition rtp_extension_wire :: "rtp_header_extension option \<Rightarrow> bytes" where
  "rtp_extension_wire e =
     (case e of None \<Rightarrow> []
      | Some ext \<Rightarrow> u16_be (profile ext) @ u16_be (of_nat (length (ext_data ext) div 4))
                    @ ext_data ext)"

definition rtp_header_wire :: "rtp_header \<Rightarrow> bool \<Rightarrow> bytes" where
  "rtp_header_wire h has_padding =
     [first_byte h has_padding, second_byte h]
       @ u16_be (sequence_number h) @ u32_be (timestamp h) @ u32_be (ssrc h)
       @ concat (map u32_be (csrcs h))
       @ rtp_extension_wire (extension h)"

definition rtp_header_write_to :: "rtp_header \<Rightarrow> bool \<Rightarrow> bytes \<Rightarrow> rtp_error fault + bytes" where
  "rtp_header_write_to h has_padding buffer = put_all (rtp_header_wire h has_padding) buffer"

text \<open>
  \<open>marshal_impl\<close> writes the header into \<open>buffer[..header_len]\<close>, copies the payload behind it
  and fills what is left with the padding length.
\<close>

definition marshal_impl :: "rtp_packet \<Rightarrow> bytes \<Rightarrow> rtp_error fault + bytes" where
  "marshal_impl p buffer =
     (let header_len = rtp_header_encoded_len (header p);
          payload_end = header_len + length (payload p)
      in rbind (slice buffer 0 header_len) (\<lambda>hbuf.
         rbind (rtp_header_write_to (header p) (padding_len p \<noteq> 0) hbuf) (\<lambda>hbuf.
         rbind (slice buffer header_len payload_end) (\<lambda>pbuf.
         rbind (slice buffer payload_end (length buffer)) (\<lambda>rest.
         Ok (hbuf @ payload p @
             (if padding_len p \<noteq> 0 then replicate (length rest) (padding_len p) else rest)))))))"

definition rtp_packet_marshal_to :: "rtp_packet \<Rightarrow> bytes \<Rightarrow> rtp_error fault + bytes" where
  "rtp_packet_marshal_to p buffer =
     rbind (rtp_header_validate (header p)) (\<lambda>_.
       if length buffer \<noteq> rtp_packet_encoded_len p then Fail LengthMismatch
       else marshal_impl p buffer)"

definition rtp_packet_marshal :: "rtp_packet \<Rightarrow> rtp_error fault + bytes" where
  "rtp_packet_marshal p = rtp_packet_marshal_to p (replicate (rtp_packet_encoded_len p) 0)"

text \<open>\<open>Vec::resize\<close> keeps the old bytes that fit and fills with zeros.\<close>

definition rtp_packet_marshal_into :: "rtp_packet \<Rightarrow> bytes \<Rightarrow> rtp_error fault + bytes" where
  "rtp_packet_marshal_into p buf =
     (let n = rtp_packet_encoded_len p
      in marshal_impl p (take n buf @ replicate (n - length buf) 0))"

section \<open>The abs-send-time stamp\<close>

text \<open>
  \<open>calculate_abs_send_time\<close> on the seconds and nanoseconds since the Unix epoch (a time before
  the epoch gives the default duration, zero).
\<close>

definition calculate_abs_send_time :: "(u64 \<times> u32) option \<Rightarrow> u32" where
  "calculate_abs_send_time since_epoch =
     (let (secs, nanos) = (case since_epoch of None \<Rightarrow> (0, 0) | Some d \<Rightarrow> d);
          ntp_seconds = secs + 2208988800;
          ntp_fraction = (ucast ((ucast nanos :: u64) * push_bit 32 1 div 1000000000) :: u32);
          ntp_timestamp = push_bit 32 ntp_seconds OR ucast ntp_fraction
      in ucast (drop_bit 14 ntp_timestamp AND 0x00ffffff))"

section \<open>Lemmas: the first two bytes\<close>

lemma nat_and_15: "(n :: nat) AND 0x0F = take_bit 4 n"
  using take_bit_eq_mask [of 4 n] by (simp add: mask_eq_exp_minus_1)

lemma bit_first_byte:
  "bit (first_byte h pad) n \<longleftrightarrow> n = 7 \<or> pad \<and> n = 5 \<or> extension h \<noteq> None \<and> n = 4
     \<or> n < 4 \<and> bit (of_nat (length (csrcs h)) :: u8) n"
proof -
  have v: "push_bit 6 RTP_VERSION = 0x80" by (simp add: RTP_VERSION_def)
  have c: "(of_nat (length (csrcs h) AND 0x0F) :: u8) = take_bit 4 (of_nat (length (csrcs h)))"
    by (simp only: nat_and_15 of_nat_take_bit)
  show ?thesis
    unfolding first_byte_def v c
    by (simp only: bit_or_iff bit_0x80 bit_take_bit_iff bit_byte_consts if_distrib [of bit] if_distribR
        bit_0_eq bot_apply) auto
qed

lemma first_byte_fields:
  "drop_bit 6 (first_byte h pad) = RTP_VERSION"
  "first_byte h pad AND 0x20 \<noteq> 0 \<longleftrightarrow> pad"
  "first_byte h pad AND 0x10 \<noteq> 0 \<longleftrightarrow> extension h \<noteq> None"
  "unat (first_byte h pad AND 0x0F) = length (csrcs h) mod 16"
proof -
  have v: "RTP_VERSION = 2 ^ 1" by (simp add: RTP_VERSION_def)
  show "drop_bit 6 (first_byte h pad) = RTP_VERSION"
    unfolding v
    by (rule bit_word_eqI) (simp only: bit_exp_u8 bit_drop_bit_eq comp_apply bit_first_byte, auto)
  show "first_byte h pad AND 0x20 \<noteq> 0 \<longleftrightarrow> pad"
    using and_single_bit [of "first_byte h pad" 5] by (simp add: bit_first_byte)
  show "first_byte h pad AND 0x10 \<noteq> 0 \<longleftrightarrow> extension h \<noteq> None"
    using and_single_bit [of "first_byte h pad" 4] by (simp add: bit_first_byte)
  have "first_byte h pad AND 0x0F = take_bit 4 (of_nat (length (csrcs h)))"
    by (rule bit_word_eqI)
      (simp only: bit_and_iff bit_byte_consts bit_take_bit_iff bit_first_byte, auto)
  then show "unat (first_byte h pad AND 0x0F) = length (csrcs h) mod 16"
    by (simp add: take_bit_eq_mod unat_mod unat_of_nat mod_mod_cancel)
qed

lemma second_byte_fields:
  "second_byte h AND 0x80 \<noteq> 0 \<longleftrightarrow> marker h"
  "second_byte h AND 0x7F = payload_type h AND 0x7F"
proof -
  have m: "(0x7F :: u8) = mask 7" by (simp add: mask_eq_exp_minus_1)
  have "second_byte h AND 0x80 = (if marker h then 0x80 else 0)"
    unfolding second_byte_def m
    by (cases "marker h"; rule bit_word_eqI) (simp_all only: bit_simps bit_0x80 if_True if_False, auto)
  then show "second_byte h AND 0x80 \<noteq> 0 \<longleftrightarrow> marker h" by simp
  show "second_byte h AND 0x7F = payload_type h AND 0x7F"
    unfolding second_byte_def m
    by (cases "marker h"; rule bit_word_eqI) (simp_all only: bit_simps bit_0x80 if_True if_False, auto)
qed

section \<open>Lemmas: what serialising produces\<close>

lemma length_concat_u32_be [simp]: "length (concat (map u32_be ws)) = length ws * 4"
  by (induction ws) auto

lemma length_rtp_header_wire [simp]: "length (rtp_header_wire h pad) = rtp_header_encoded_len h"
  by (auto simp: rtp_header_wire_def rtp_extension_wire_def rtp_header_encoded_len_def split: option.split)

lemma marshal_impl_eq:
  assumes "length buffer = rtp_packet_encoded_len p"
  shows "marshal_impl p buffer =
    Ok (rtp_header_wire (header p) (padding_len p \<noteq> 0) @ payload p
        @ replicate (unat (padding_len p)) (padding_len p))"
  using assms
  by (auto simp: marshal_impl_def Let_def rtp_packet_encoded_len_def slice_def rtp_header_write_to_def
      put_all_def)

lemma rtp_header_validate_cases:
  "rtp_header_validate h = Ok () \<longleftrightarrow>
     length (csrcs h) \<le> 15 \<and> (\<forall>ext. extension h = Some ext \<longrightarrow> length (ext_data ext) mod 4 = 0)"
  by (auto simp: rtp_header_validate_def split: option.splits)

lemma rtp_packet_marshal_eq:
  assumes "rtp_header_validate (header p) = Ok ()"
  shows "rtp_packet_marshal p =
    Ok (rtp_header_wire (header p) (padding_len p \<noteq> 0) @ payload p
        @ replicate (unat (padding_len p)) (padding_len p))"
  using assms by (simp add: rtp_packet_marshal_def rtp_packet_marshal_to_def marshal_impl_eq)

lemma rtp_packet_marshal_into_eq:
  "rtp_packet_marshal_into p buf =
    Ok (rtp_header_wire (header p) (padding_len p \<noteq> 0) @ payload p
        @ replicate (unat (padding_len p)) (padding_len p))"
  by (simp add: rtp_packet_marshal_into_def Let_def marshal_impl_eq)

section \<open>Lemmas: parsing what serialising produced\<close>

lemma get_u32s_concat: "get_u32s (length ws) (concat (map u32_be ws) @ rest) = Ok (ws, rest)"
  by (induction ws) (simp_all add: read_simps)

lemma parse_extension_wire:
  assumes "\<And>ext. e = Some ext \<Longrightarrow> length (ext_data ext) mod 4 = 0 \<and> length (ext_data ext) div 4 < 65536"
  shows "parse_extension (e \<noteq> None) (rtp_extension_wire e @ rest) = Ok (e, rest)"
proof (cases e)
  case None
  then show ?thesis by (simp add: parse_extension_def rtp_extension_wire_def)
next
  case (Some ext)
  with assms have "length (ext_data ext) div 4 * 4 = length (ext_data ext)"
    and "length (ext_data ext) div 4 < 65536" by auto
  with Some show ?thesis
    by (simp add: parse_extension_def rtp_extension_wire_def read_simps)
qed

definition rtp_header_fits :: "rtp_header \<Rightarrow> bool" where
  "rtp_header_fits h \<longleftrightarrow> (case extension h of None \<Rightarrow> True | Some ext \<Rightarrow> length (ext_data ext) div 4 < 65536)"

lemma rtp_header_parse_wire:
  assumes v: "rtp_header_validate h = Ok ()" and f: "rtp_header_fits h"
  shows "rtp_header_parse (rtp_header_wire h pad @ rest) =
    Ok ((h\<lparr>payload_type := payload_type h AND 0x7F\<rparr>, pad), rest)"
proof -
  have cs: "length (csrcs h) mod 16 = length (csrcs h)"
    using v by (simp add: rtp_header_validate_cases)
  have ext: "parse_extension (extension h \<noteq> None) (rtp_extension_wire (extension h) @ rest)
      = Ok (extension h, rest)"
    using v f by (intro parse_extension_wire) (auto simp: rtp_header_validate_cases rtp_header_fits_def)
  show ?thesis
    by (simp add: rtp_header_parse_def rtp_header_wire_def read_simps first_byte_fields
        second_byte_fields cs get_u32s_concat ext del: not_None_eq)
qed

section \<open>Lemmas: inverting a successful parse\<close>

lemma byte0_split:
  "(b :: u8) = push_bit 6 (drop_bit 6 b) OR (b AND 0x20) OR (b AND 0x10) OR (b AND 0x0F)"
proof (rule bit_word_eqI)
  fix n assume "n < LENGTH(8)"
  then have "n < 8" by simp
  then have "n < 4 \<or> n = 4 \<or> n = 5 \<or> n = 6 \<or> n = 7" by presburger
  then show "bit b n = bit (push_bit 6 (drop_bit 6 b) OR (b AND 0x20) OR (b AND 0x10) OR (b AND 0x0F)) n"
    by (elim disjE) (simp_all only: bit_or_iff bit_and_iff bit_byte_consts, auto simp: bit_simps)
qed

lemma byte1_split: "(b :: u8) = (b AND 0x7F) OR (b AND 0x80)"
proof (rule bit_word_eqI)
  fix n assume "n < LENGTH(8)"
  then have "n < 8" by simp
  then have "n < 7 \<or> n = 7" by presburger
  then show "bit b n = bit ((b AND 0x7F) OR (b AND 0x80)) n"
    by (elim disjE) (simp_all only: bit_or_iff bit_and_iff bit_byte_consts bit_0x80, auto)
qed

lemma get_u32s_ok:
  "get_u32s n bs = Ok (ws, rest) \<longleftrightarrow> bs = concat (map u32_be ws) @ rest \<and> length ws = n"
proof (induction n arbitrary: bs ws)
  case (Suc n)
  show ?case
    by (cases ws) (auto simp: rbind_Inr_iff cursor_ok Suc split: prod.splits)
qed auto

lemma parse_extension_ok:
  "parse_extension has_ext raw = Ok (ext, rest) \<longleftrightarrow>
     raw = rtp_extension_wire ext @ rest \<and> (has_ext \<longleftrightarrow> ext \<noteq> None) \<and>
     (\<forall>e. ext = Some e \<longrightarrow> length (ext_data e) mod 4 = 0 \<and> length (ext_data e) div 4 < 65536)"
  (is "?L \<longleftrightarrow> ?R")
proof
  assume ?L
  have "unat (w :: u16) * 4 = length d \<Longrightarrow> of_nat (length d div 4) = w" for w and d :: bytes
    by (metis div_mult_self_is_m of_nat_unat ucast_id zero_less_numeral)
  moreover have "unat (w :: u16) * 4 = length d \<Longrightarrow> length d div 4 < 65536" for w and d :: bytes
    by (metis div_mult_self_is_m unat_u16_less zero_less_numeral)
  ultimately show ?R using \<open>?L\<close>
    by (auto simp: parse_extension_def rtp_extension_wire_def rbind_Inr_iff cursor_ok Let_def
        split: if_splits)
next
  assume ?R
  then show ?L by (auto intro: parse_extension_wire simp del: not_None_eq)
qed

lemma rtp_header_parse_ok:
  assumes "rtp_header_parse raw = Ok ((h, pad), rest)"
  shows "raw = rtp_header_wire h pad @ rest" "rtp_header_validate h = Ok ()"
    "payload_type h AND 0x7F = payload_type h"
proof -
  from assms obtain b0 b1 seq ts ss cs ext where
    raw: "raw = b0 # b1 # u16_be seq @ u32_be ts @ u32_be ss @ concat (map u32_be cs)
            @ rtp_extension_wire ext @ rest"
    and ver: "drop_bit 6 b0 = RTP_VERSION" and pad: "pad \<longleftrightarrow> b0 AND 0x20 \<noteq> 0"
    and e: "b0 AND 0x10 \<noteq> 0 \<longleftrightarrow> ext \<noteq> None" and len: "length cs = unat (b0 AND 0x0F)"
    and al: "\<And>x. ext = Some x \<Longrightarrow> length (ext_data x) mod 4 = 0"
    and h: "h = \<lparr>marker = (b1 AND 0x80 \<noteq> 0), payload_type = b1 AND 0x7F, sequence_number = seq,
              timestamp = ts, ssrc = ss, csrcs = cs, extension = ext\<rparr>"
    by (auto simp: rtp_header_parse_def rbind_Inr_iff cursor_ok get_u32s_ok Let_def
        parse_extension_ok split: if_splits)
  have lt: "length cs < 16"
    using len by simp
  have "of_nat (length cs AND 0x0F) = b0 AND 0x0F"
    using lt len by (simp add: nat_and_15 take_bit_eq_mod)
  then have fb: "first_byte h pad = b0"
    using single_bit_cases [of b0] e pad ver
    by (subst byte0_split [of b0]) (auto simp: first_byte_def h)
  have sb: "second_byte h = b1"
    using single_bit_cases (3) [of b1]
    by (subst byte1_split [of b1]) (auto simp: second_byte_def h and.assoc)
  show "raw = rtp_header_wire h pad @ rest"
    by (simp add: raw rtp_header_wire_def fb sb) (simp add: h)
  show "rtp_header_validate h = Ok ()" using lt al by (simp add: rtp_header_validate_cases h)
  show "payload_type h AND 0x7F = payload_type h" by (simp add: h and.assoc)
qed

lemma rtp_header_parse_no_panic: "rtp_header_parse raw \<noteq> Panicked"
proof -
  have g: "get_u32s n bs \<noteq> (Panicked :: rtp_error fault + _)" if "n * 4 \<le> length bs" for n bs
    using that by (induction n arbitrary: bs) (auto simp: rbind_Inl_iff cursor_ok)
  have "parse_extension b bs \<noteq> Panicked" for b bs
    by (auto simp: parse_extension_def rbind_Inl_iff cursor_ok Let_def)
  with g show ?thesis
    by (auto simp: rtp_header_parse_def rbind_Inl_iff cursor_ok Let_def)
qed

lemma rtp_header_parse_errors:
  assumes "rtp_header_parse raw = Fail e"
  shows "e = PacketTooShort \<or> (\<exists>v. v \<noteq> RTP_VERSION \<and> e = UnsupportedVersion v)"
proof -
  have g: "get_u32s n bs \<noteq> Fail x" for n bs and x :: rtp_error
    by (induction n arbitrary: bs) (auto simp: rbind_Inl_iff)
  have pe: "parse_extension b bs = Fail x \<Longrightarrow> x = PacketTooShort" for b bs x
    by (auto simp: parse_extension_def rbind_Inl_iff Let_def split: if_splits)
  show ?thesis using assms g
    by (auto simp: rtp_header_parse_def rbind_Inl_iff Let_def dest!: pe split: if_splits)
qed

section \<open>Properties\<close>

lemma rtp_marshal_parse:
  assumes "rtp_header_validate (header p) = Ok ()" and "rtp_header_fits (header p)"
  shows "\<exists>bs. rtp_packet_marshal p = Ok bs \<and>
    rtp_packet_parse bs = Ok (p\<lparr>header := (header p)\<lparr>payload_type := payload_type (header p) AND 0x7F\<rparr>\<rparr>)"
proof -
  have "length (replicate (unat (padding_len p)) (padding_len p)) = unat (padding_len p)" by simp
  then show ?thesis
    unfolding rtp_packet_marshal_eq [OF assms(1)]
    by (auto simp: rtp_packet_parse_def rtp_header_parse_wire [OF assms] slice_def unat_eq_zero)
qed

lemma rtp_parse_marshal_inverse:
  assumes "rtp_packet_parse raw = Ok p" and "raw ! 0 AND 0x20 = 0"
  shows "rtp_packet_marshal p = Ok raw"
proof -
  from assms(1) obtain h pad rest where h: "rtp_header_parse raw = Ok ((h, pad), rest)"
    by (auto simp: rtp_packet_parse_def rbind_Inr_iff)
  note ok = rtp_header_parse_ok [OF h]
  have "pad \<longleftrightarrow> raw ! 0 AND 0x20 \<noteq> 0"
    using first_byte_fields (2) [of h pad] by (simp add: ok(1) rtp_header_wire_def)
  with assms have "p = \<lparr>header = h, payload = rest, padding_len = 0\<rparr>"
    by (simp add: rtp_packet_parse_def h)
  with ok \<open>pad \<longleftrightarrow> _\<close> assms(2) show ?thesis by (simp add: rtp_packet_marshal_eq)
qed

text \<open>
  C10: Serialising and parsing are inverse to each other. Serialising a packet whose header passes \<open>validate\<close>
  (and whose extension block fits the 16-bit word count) succeeds, and parsing the bytes returns the
  same packet, padding included; only the payload type is reduced to the 7 bits the wire has. Conversely, whenever
  \<open>parse\<close> accepts bytes whose padding bit is clear, serialising the result gives exactly these bytes
  back.
\<close>

theorem rtp_packet_roundtrip:
  "(rtp_header_validate (header p) = Ok () \<and> rtp_header_fits (header p) \<longrightarrow>
      (\<exists>bs. rtp_packet_marshal p = Ok bs \<and>
        rtp_packet_parse bs = Ok (p\<lparr>header := (header p)\<lparr>payload_type := payload_type (header p) AND 0x7F\<rparr>\<rparr>)))
   \<and> (\<forall>raw. rtp_packet_parse raw = Ok p \<and> raw ! 0 AND 0x20 = 0 \<longrightarrow> rtp_packet_marshal p = Ok raw)"
  using rtp_marshal_parse rtp_parse_marshal_inverse by blast

theorem rtp_packet_roundtrip_witness:
  "(\<exists>bs. rtp_packet_marshal \<lparr>header = \<lparr>marker = True, payload_type = 96, sequence_number = 1000,
       timestamp = 42, ssrc = 0x12345678, csrcs = [0x01020304],
       extension = Some \<lparr>profile = 0xBEDE, ext_data = [0, 1, 2, 3]\<rparr>\<rparr>,
       payload = [9, 8, 7, 6], padding_len = 4\<rparr> = Ok bs \<and>
     rtp_packet_parse bs = Ok \<lparr>header = \<lparr>marker = True, payload_type = 96, sequence_number = 1000,
       timestamp = 42, ssrc = 0x12345678, csrcs = [0x01020304],
       extension = Some \<lparr>profile = 0xBEDE, ext_data = [0, 1, 2, 3]\<rparr>\<rparr>,
       payload = [9, 8, 7, 6], padding_len = 4\<rparr>)
   \<and> rtp_packet_marshal \<lparr>header = rtp_header_new 0 7 160 5, payload = [1, 2], padding_len = 0\<rparr>
     = Ok [0x80, 0, 0, 7, 0, 0, 0, 160, 0, 0, 0, 5, 1, 2]"
proof
  show "\<exists>bs. rtp_packet_marshal \<lparr>header = \<lparr>marker = True, payload_type = 96, sequence_number = 1000,
       timestamp = 42, ssrc = 0x12345678, csrcs = [0x01020304],
       extension = Some \<lparr>profile = 0xBEDE, ext_data = [0, 1, 2, 3]\<rparr>\<rparr>,
       payload = [9, 8, 7, 6], padding_len = 4\<rparr> = Ok bs \<and>
     rtp_packet_parse bs = Ok \<lparr>header = \<lparr>marker = True, payload_type = 96, sequence_number = 1000,
       timestamp = 42, ssrc = 0x12345678, csrcs = [0x01020304],
       extension = Some \<lparr>profile = 0xBEDE, ext_data = [0, 1, 2, 3]\<rparr>\<rparr>,
       payload = [9, 8, 7, 6], padding_len = 4\<rparr>"
    using rtp_packet_roundtrip [of "\<lparr>header = \<lparr>marker = True, payload_type = 96, sequence_number = 1000,
       timestamp = 42, ssrc = 0x12345678, csrcs = [0x01020304],
       extension = Some \<lparr>profile = 0xBEDE, ext_data = [0, 1, 2, 3]\<rparr>\<rparr>,
       payload = [9, 8, 7, 6], padding_len = 4\<rparr>", THEN conjunct1]
    by (simp add: rtp_header_validate_def rtp_header_fits_def)
  have "rtp_packet_parse [0x80, 0, 0, 7, 0, 0, 0, 160, 0, 0, 0, 5, 1, 2]
      = Ok \<lparr>header = rtp_header_new 0 7 160 5, payload = [1, 2], padding_len = 0\<rparr>"
    by (simp add: rtp_packet_parse_def rtp_header_parse_def get_u8_def get_u16_def get_u32_def
        be16_def be32_def RTP_VERSION_def parse_extension_def rtp_header_new_def)
  then show "rtp_packet_marshal \<lparr>header = rtp_header_new 0 7 160 5, payload = [1, 2], padding_len = 0\<rparr>
     = Ok [0x80, 0, 0, 7, 0, 0, 0, 160, 0, 0, 0, 5, 1, 2]"
    by (intro rtp_packet_roundtrip [THEN conjunct2, rule_format]) simp
qed

text \<open>
  C21: no input makes the RTP parser panic, and the only errors it returns are a short packet, a
  version other than 2 and a padding count larger than the body.
\<close>

theorem rtp_packet_parse_total:
  "(\<exists>p. rtp_packet_parse raw = Ok p) \<or> rtp_packet_parse raw = Fail PacketTooShort
   \<or> (\<exists>v. v \<noteq> RTP_VERSION \<and> rtp_packet_parse raw = Fail (UnsupportedVersion v))
   \<or> rtp_packet_parse raw = Fail (InvalidHeader ''padding larger than payload'')"
proof (cases "rtp_header_parse raw")
  case (Inl f)
  then show ?thesis
    using rtp_header_parse_no_panic [of raw] rtp_header_parse_errors [of raw]
    by (cases f) (auto simp: rtp_packet_parse_def)
next
  case (Inr r)
  obtain h pad buf where r: "r = ((h, pad), buf)" by (metis surj_pair)
  show ?thesis
    by (cases pad; cases "buf = []"; cases "unat (last buf) \<le> length buf")
      (simp_all add: rtp_packet_parse_def Inr r slice_def)
qed

end
