(* ===== verification/Rtp_Ext.thy ===== *)
theory Rtp_Ext
  imports Rtp
begin

text \<open>
  RTP header extension elements (\<open>RtpHeader::get_extension\<close> and \<open>set_extension\<close> of \<open>src/rtp.rs\<close>):
  the one-byte form (profile \<open>0xBEDE\<close>) and the two-byte form (profile \<open>0x1000\<close>). The loops of the
  code walk the block by an offset; they are modelled so, and related to recursions over the
  remaining bytes, on which the proofs are done.
\<close>

unbundle bit_operations_syntax

section \<open>Reading an element\<close>

function ext1_get :: "u8 \<Rightarrow> bytes \<Rightarrow> nat \<Rightarrow> bytes option" where
  "ext1_get eid d offset =
     (if offset < length d then
        let b = d ! offset
        in if b = 0 then ext1_get eid d (offset + 1)
           else let ext_id = drop_bit 4 b; len = unat (b AND 0x0F) + 1; offset' = offset + 1
           in if ext_id = 15 then None
              else if ext_id = eid then
                (if offset' + len \<le> length d then Some (take len (drop offset' d)) else None)
              else ext1_get eid d (offset' + len)
      else None)"
  by pat_completeness auto
termination
  by (relation "measure (\<lambda>(eid, d, offset). length d - offset)") auto

function ext2_get :: "u8 \<Rightarrow> bytes \<Rightarrow> nat \<Rightarrow> bytes option" where
  "ext2_get eid d offset =
     (if offset < length d then
        let ext_id = d ! offset
        in if ext_id = 0 then ext2_get eid d (offset + 1)
           else let offset1 = offset + 1
           in if offset1 \<ge> length d then None
              else let len = unat (d ! offset1); offset2 = offset1 + 1
              in if ext_id = eid then
                   (if offset2 + len \<le> length d then Some (take len (drop offset2 d)) else None)
                 else ext2_get eid d (offset2 + len)
      else None)"
  by pat_completeness auto
termination
  by (relation "measure (\<lambda>(eid, d, offset). length d - offset)") auto

declare ext1_get.simps [simp del] ext2_get.simps [simp del]

definition get_extension :: "rtp_header \<Rightarrow> u8 \<Rightarrow> bytes option" where
  "get_extension h eid =
     (case extension h of
        Some ext \<Rightarrow>
          if profile ext = 0xBEDE then ext1_get eid (ext_data ext) 0
          else if profile ext = 0x1000 then ext2_get eid (ext_data ext) 0
          else None
      | None \<Rightarrow> None)"

section \<open>Setting an element\<close>

function ext1_rebuild ::
  "u8 \<Rightarrow> u8 \<Rightarrow> bytes \<Rightarrow> bytes \<Rightarrow> nat \<Rightarrow> bytes \<Rightarrow> bool \<Rightarrow> rtp_error fault + (bytes \<times> bool)" where
  "ext1_rebuild eid id_header v d offset new_data found =
     (if offset < length d then
        let b = d ! offset
        in if b = 0 then ext1_rebuild eid id_header v d (offset + 1) new_data found
           else let ext_id = drop_bit 4 b; len = unat (b AND 0x0F) + 1; offset' = offset + 1
           in if ext_id = 15 then Ok (new_data, found)
              else if ext_id = eid then
                ext1_rebuild eid id_header v d (offset' + len) (new_data @ [id_header] @ v) True
              else rbind (slice d offset' (offset' + len)) (\<lambda>old.
                ext1_rebuild eid id_header v d (offset' + len) (new_data @ [b] @ old) found)
      else Ok (new_data, found))"
  by pat_completeness auto
termination
  by (relation "measure (\<lambda>(eid, idh, v, d, offset, new_data, found). length d - offset)") auto

declare ext1_rebuild.simps [simp del]

definition id_header :: "u8 \<Rightarrow> bytes \<Rightarrow> u8" where
  "id_header eid v = push_bit 4 eid OR of_nat (length v - 1)"

text \<open>\<open>resize\<close> to \<open>(len + 3) & !3\<close>, the next multiple of four, with zeros.\<close>

definition align4 :: "bytes \<Rightarrow> bytes" where
  "align4 bs = bs @ replicate ((length bs + 3) div 4 * 4 - length bs) 0"

definition set_extension :: "rtp_header \<Rightarrow> u8 \<Rightarrow> bytes \<Rightarrow> rtp_error fault + rtp_header" where
  "set_extension h eid v =
     (if eid = 0 \<or> eid \<ge> 15 then Fail (InvalidHeader ''invalid extension id for one-byte header'')
      else if length v > 16 \<or> v = [] then Fail (InvalidHeader ''invalid extension data length'')
      else let ext = (case extension h of Some e \<Rightarrow> e | None \<Rightarrow> \<lparr>profile = 0xBEDE, ext_data = []\<rparr>)
      in if profile ext \<noteq> 0xBEDE
         then Fail (InvalidHeader ''unsupported extension profile for modification'')
         else rbind (ext1_rebuild eid (id_header eid v) v (ext_data ext) 0 [] False) (\<lambda>(new_data, found).
           let new_data = (if \<not> found then new_data @ [id_header eid v] @ v else new_data)
           in Ok (h\<lparr>extension := Some (ext\<lparr>ext_data := align4 new_data\<rparr>)\<rparr>)))"

section \<open>The same loops over the remaining bytes\<close>

function ext1_find :: "u8 \<Rightarrow> bytes \<Rightarrow> bytes option" where
  "ext1_find eid [] = None"
| "ext1_find eid (b # r) =
     (if b = 0 then ext1_find eid r
      else if drop_bit 4 b = 15 then None
      else let len = unat (b AND 0x0F) + 1
      in if drop_bit 4 b = eid then (if len \<le> length r then Some (take len r) else None)
         else ext1_find eid (drop len r))"
  by pat_completeness auto
termination
  by (relation "measure (\<lambda>(eid, d). length d)") auto

function ext1_subst :: "u8 \<Rightarrow> u8 \<Rightarrow> bytes \<Rightarrow> bytes \<Rightarrow> rtp_error fault + (bytes \<times> bool)" where
  "ext1_subst eid idh v [] = Ok ([], False)"
| "ext1_subst eid idh v (b # r) =
     (if b = 0 then ext1_subst eid idh v r
      else if drop_bit 4 b = 15 then Ok ([], False)
      else let len = unat (b AND 0x0F) + 1
      in if drop_bit 4 b = eid then
           rbind (ext1_subst eid idh v (drop len r)) (\<lambda>(bs, f). Ok (idh # v @ bs, True))
         else if len \<le> length r then
           rbind (ext1_subst eid idh v (drop len r)) (\<lambda>(bs, f). Ok (b # take len r @ bs, f))
         else Panicked)"
  by pat_completeness auto
termination
  by (relation "measure (\<lambda>(eid, idh, v, d). length d)") auto

lemma drop_nth_Cons: "i < length xs \<Longrightarrow> drop i xs = xs ! i # drop (Suc i) xs"
  by (rule Cons_nth_drop_Suc [symmetric])

lemma ext1_get_find: "ext1_get eid d offset = ext1_find eid (drop offset d)"
proof (induction eid d offset rule: ext1_get.induct)
  case (1 eid d offset)
  show ?case
  proof (cases "offset < length d")
    case True
    then show ?thesis
      using 1 by (subst ext1_get.simps) (auto simp: drop_nth_Cons Let_def add.commute)
  qed (simp add: ext1_get.simps)
qed

lemma ext1_rebuild_subst:
  "ext1_rebuild eid idh v d offset acc found =
     rbind (ext1_subst eid idh v (drop offset d)) (\<lambda>(bs, f). Ok (acc @ bs, found \<or> f))"
proof (induction eid idh v d offset acc found rule: ext1_rebuild.induct)
  case (1 eid idh v d offset acc found)
  show ?case
  proof (cases "offset < length d")
    case True
    then show ?thesis
      using 1
      by (subst ext1_rebuild.simps)
        (auto simp: drop_nth_Cons Let_def add.commute slice_def rbind_assoc case_prod_unfold)
  qed (simp add: ext1_rebuild.simps)
qed

section \<open>Lemmas: looking up in a rebuilt block\<close>

lemma id_header_fields:
  assumes "eid < 15" and "eid \<noteq> 0" and "v \<noteq> []" and "length v \<le> 16"
  shows "drop_bit 4 (id_header eid v) = eid" "unat (id_header eid v AND 0x0F) + 1 = length v"
    "id_header eid v \<noteq> 0"
proof -
  define m where "m = (of_nat (length v - 1) :: u8)"
  have um: "unat m = length v - 1" "length v - 1 < 2 ^ 4" using assms by (auto simp: m_def)
  then have low: "take_bit 4 m = m" by (intro take_bit_small) simp
  have hi: "take_bit 4 eid = eid"
    using assms(1) by (intro take_bit_small) (simp add: word_less_nat_alt)
  have bit_m: "bit m n \<Longrightarrow> n < 4" for n using low by (metis bit_take_bit_iff)
  have bit_e: "bit eid n \<Longrightarrow> n < 4" for n using hi by (metis bit_take_bit_iff)
  show d: "drop_bit 4 (id_header eid v) = eid"
    unfolding id_header_def m_def [symmetric]
    by (rule bit_word_eqI) (auto simp: bit_simps dest: bit_m bit_e)
  have "id_header eid v AND 0x0F = m"
    unfolding id_header_def m_def [symmetric]
    by (rule bit_word_eqI)
      (simp only: bit_or_iff bit_and_iff bit_push_bit_iff bit_byte_consts, auto dest: bit_m)
  then show "unat (id_header eid v AND 0x0F) + 1 = length v" using um assms(3) by simp
  show "id_header eid v \<noteq> 0" using d assms(2) by (metis drop_bit_of_0)
qed

lemma ext1_find_zeros [simp]: "ext1_find i (replicate n 0) = None"
  by (induction n) auto

lemma ext1_find_element:
  assumes "b \<noteq> 0" and "drop_bit 4 b \<noteq> 15" and "unat (b AND 0x0F) + 1 = length v"
  shows "ext1_find i (b # v @ r) = (if drop_bit 4 b = i then Some v else ext1_find i r)"
  using assms by (simp add: Let_def)

lemma ext1_subst_find:
  assumes "ext1_subst eid idh v xs = Ok (bs, f)"
    and "idh \<noteq> 0" "drop_bit 4 idh = eid" "eid \<noteq> 15" "unat (idh AND 0x0F) + 1 = length v"
  shows "ext1_find i (bs @ t) =
    (if i = eid then if f then Some v else ext1_find i t
     else case ext1_find i xs of Some w \<Rightarrow> Some w | None \<Rightarrow> ext1_find i t)"
  using assms
proof (induction eid idh v xs arbitrary: bs f rule: ext1_subst.induct)
  case (2 eid idh v b r)
  let ?len = "unat (b AND 0x0F) + 1"
  consider "b = 0" | "b \<noteq> 0" "drop_bit 4 b = 15" | "b \<noteq> 0" "drop_bit 4 b \<noteq> 15" "drop_bit 4 b = eid"
    | "b \<noteq> 0" "drop_bit 4 b \<noteq> 15" "drop_bit 4 b \<noteq> eid" by blast
  then show ?case
  proof cases
    case 1
    then show ?thesis using 2 by simp
  next
    case 2
    then show ?thesis using "2.prems"(1) by simp
  next
    case 3
    then obtain bs' f' where s: "ext1_subst eid idh v (drop ?len r) = Ok (bs', f')"
      and bs: "bs = idh # v @ bs'" and "f"
      using "2.prems"(1) by (auto simp: Let_def rbind_Inr_iff)
    note IH = "2.IH"(2) [OF _ _ _ _ s "2.prems"(2-5)]
    show ?thesis
      unfolding bs append_Cons append_assoc
      by (subst ext1_find_element) (use 3 IH \<open>f\<close> "2.prems" in \<open>auto simp: Let_def\<close>)
  next
    case 4
    then obtain bs' f' where s: "ext1_subst eid idh v (drop ?len r) = Ok (bs', f')"
      and bs: "bs = b # take ?len r @ bs'" and "f = f'" and le: "?len \<le> length r"
      using "2.prems"(1) by (auto simp: Let_def rbind_Inr_iff split: if_splits)
    note IH = "2.IH"(3) [OF _ _ _ _ _ s "2.prems"(2-5)]
    have l: "unat (b AND 0x0F) + 1 = length (take ?len r)" using le by simp
    show ?thesis
      unfolding bs append_Cons append_assoc
      by (subst ext1_find_element [OF 4(1,2) l]) (use 4 IH \<open>f = f'\<close> le in \<open>auto simp: Let_def\<close>)
  qed
qed simp

text \<open>
  When the rebuilding walk runs off the end of the old block: some element other than the one being
  replaced, before any element with id 15, claims more bytes than are left.
\<close>

function ext1_truncated :: "u8 \<Rightarrow> bytes \<Rightarrow> bool" where
  "ext1_truncated eid [] = False"
| "ext1_truncated eid (b # r) =
     (if b = 0 then ext1_truncated eid r
      else if drop_bit 4 b = 15 then False
      else let len = unat (b AND 0x0F) + 1
      in (drop_bit 4 b \<noteq> eid \<and> len > length r) \<or> ext1_truncated eid (drop len r))"
  by pat_completeness auto
termination
  by (relation "measure (\<lambda>(eid, d). length d)") auto

lemma ext1_subst_no_err: "ext1_subst eid idh v d \<noteq> Fail e"
  by (induction eid idh v d rule: ext1_subst.induct) (auto simp: Let_def rbind_Inl_iff split: if_splits)

lemma ext1_subst_panic: "ext1_subst eid idh v d = Panicked \<longleftrightarrow> ext1_truncated eid d"
  by (induction eid idh v d rule: ext1_subst.induct) (auto simp: Let_def rbind_Inl_iff split: if_splits)

lemma length_align4 [simp]: "length (align4 bs) = (length bs + 3) div 4 * 4"
  by (simp add: align4_def)

section \<open>Properties\<close>

text \<open>
  C11: \<open>set_extension\<close> refines a map update: after it succeeds, \<open>get_extension\<close> returns the new
  value for the identifier that was set and what it returned before for every other identifier.
\<close>

theorem set_extension_refines_update:
  assumes "set_extension h eid v = Ok h'"
  shows "get_extension h' = (get_extension h)(eid \<mapsto> v)"
proof
  fix i
  let ?ext = "case extension h of Some e \<Rightarrow> e | None \<Rightarrow> \<lparr>profile = 0xBEDE, ext_data = []\<rparr>"
  from assms have eid: "eid \<noteq> 0" "eid < 15" "v \<noteq> []" "length v \<le> 16" and pr: "profile ?ext = 0xBEDE"
    by (auto simp: set_extension_def Let_def split: if_splits)
  with assms obtain bs f where s: "ext1_subst eid (id_header eid v) v (ext_data ?ext) = Ok (bs, f)"
    and h': "h' = h\<lparr>extension := Some (?ext\<lparr>ext_data :=
      align4 (if \<not> f then bs @ [id_header eid v] @ v else bs)\<rparr>)\<rparr>"
    by (auto simp: set_extension_def Let_def ext1_rebuild_subst rbind_Inr_iff split: if_splits)
  note ih = id_header_fields [OF eid(2,1,3,4)]
  define z where "z = (\<lambda>xs :: bytes. replicate ((length xs + 3) div 4 * 4 - length xs) (0 :: u8))"
  have "ext1_find i (align4 (if \<not> f then bs @ [id_header eid v] @ v else bs)) =
      (if i = eid then Some v else ext1_find i (ext_data ?ext))"
    using eid ih ext1_subst_find [OF s ih(3,1) _ ih(2), of i "z bs"]
      ext1_subst_find [OF s ih(3,1) _ ih(2), of i "id_header eid v # v @ z (bs @ id_header eid v # v)"]
      ext1_find_element [OF ih(3) _ ih(2), of i "z (bs @ id_header eid v # v)"]
    by (auto simp: align4_def z_def split: option.splits)
  moreover have "get_extension h i = ext1_find i (ext_data ?ext)"
    using pr by (auto simp: get_extension_def ext1_get_find split: option.splits)
  ultimately show "get_extension h' i = ((get_extension h)(eid \<mapsto> v)) i"
    using pr by (simp add: h' get_extension_def ext1_get_find)
qed

theorem set_extension_refines_update_witness:
  "\<exists>h'. set_extension (rtp_header_new 96 1 2 3) 5 [0xAB, 0xCD] = Ok h' \<and>
     get_extension h' = (get_extension (rtp_header_new 96 1 2 3))(5 \<mapsto> [0xAB, 0xCD])"
proof -
  obtain h' where h': "set_extension (rtp_header_new 96 1 2 3) 5 [0xAB, 0xCD] = Ok h'"
    by (simp add: set_extension_def rtp_header_new_def ext1_rebuild_subst)
  then show ?thesis using set_extension_refines_update [OF h'] by blast
qed

text \<open>
  C22: the outcome of \<open>set_extension\<close> on every input. It succeeds exactly for an identifier in
  1..14, a value of 1..16 bytes and an absent or well-formed one-byte block, and then leaves a
  one-byte block whose length is a multiple of four and no other field changed; it panics exactly
  when these checks pass but the present block ends inside an element that has to be copied.
\<close>

theorem set_extension_outcome:
  fixes h :: rtp_header and eid :: u8 and v :: bytes
  defines "args_ok \<equiv> eid \<noteq> 0 \<and> eid < 15 \<and> v \<noteq> [] \<and> length v \<le> 16"
  shows "((\<exists>h'. set_extension h eid v = Ok h') \<longleftrightarrow>
      args_ok \<and> (case extension h of None \<Rightarrow> True
                 | Some e \<Rightarrow> profile e = 0xBEDE \<and> \<not> ext1_truncated eid (ext_data e))) \<and>
    (set_extension h eid v = Panicked \<longleftrightarrow>
      args_ok \<and> (case extension h of None \<Rightarrow> False
                 | Some e \<Rightarrow> profile e = 0xBEDE \<and> ext1_truncated eid (ext_data e))) \<and>
    (\<forall>h'. set_extension h eid v = Ok h' \<longrightarrow>
      (\<exists>e. extension h' = Some e \<and> profile e = 0xBEDE \<and> length (ext_data e) mod 4 = 0 \<and>
           h' = h\<lparr>extension := Some e\<rparr>))"
proof -
  show ?thesis
  proof (cases args_ok)
    case False
    then have "\<exists>x. set_extension h eid v = Fail x"
      by (auto simp: set_extension_def args_ok_def not_le not_less)
    with False show ?thesis by auto
  next
    case True
    then have eid: "\<not> (eid = 0 \<or> eid \<ge> 15)" "\<not> (length v > 16 \<or> v = [])"
      by (auto simp: args_ok_def)
    show ?thesis
    proof (cases "extension h")
      case None
      with True eid show ?thesis by (simp add: set_extension_def ext1_rebuild_subst)
    next
      case (Some e)
      show ?thesis
      proof (cases "ext1_subst eid (id_header eid v) v (ext_data e)")
        case (Inl f)
        then have "f = Panic" "ext1_truncated eid (ext_data e)"
          using ext1_subst_no_err ext1_subst_panic by (metis fault.exhaust)+
        with True eid Some Inl show ?thesis by (simp add: set_extension_def ext1_rebuild_subst)
      next
        case (Inr r)
        then have nt: "\<not> ext1_truncated eid (ext_data e)"
          by (metis ext1_subst_panic sum.simps(4))
        obtain bs f where "r = (bs, f)" by force
        with True eid Some Inr nt show ?thesis by (simp add: set_extension_def ext1_rebuild_subst)
      qed
    qed
  qed
qed

theorem set_extension_outcome_witness:
  "set_extension ((rtp_header_new 96 1 2 3)\<lparr>extension :=
      Some \<lparr>profile = 0xBEDE, ext_data = [0x2F, 0, 0, 0]\<rparr>\<rparr>) 1 [7] = Panicked"
  using set_extension_outcome [of "(rtp_header_new 96 1 2 3)\<lparr>extension :=
      Some \<lparr>profile = 0xBEDE, ext_data = [0x2F, 0, 0, 0]\<rparr>\<rparr>" 1 "[7]"]
  by simp

end
