(* ===== verification/Utf8.thy ===== *)
theory Utf8
  imports Prelude
begin

text \<open>
  The part of Rust's standard library that turns bytes into strings: \<open>core::str::from_utf8\<close> (also
  behind \<open>String::from_utf8\<close>) and \<open>String::from_utf8_lossy\<close>. A string is modelled by its UTF-8
  bytes, so that \<open>as_bytes\<close> is the identity and \<open>len\<close> the length of the list.
\<close>

unbundle bit_operations_syntax

type_synonym utf8 = bytes

definition safe_get :: "bytes \<Rightarrow> nat \<Rightarrow> u8" where
  "safe_get bs i = (if i < length bs then bs ! i else 0)"

definition is_cont :: "u8 \<Rightarrow> bool" where
  "is_cont b \<longleftrightarrow> 0x80 \<le> b \<and> b \<le> 0xBF"

text \<open>The length of the sequence a first byte announces; 0 for a byte that cannot start one.\<close>

definition utf8_char_width :: "u8 \<Rightarrow> nat" where
  "utf8_char_width b =
     (if b \<le> 0x7F then 1 else if 0xC2 \<le> b \<and> b \<le> 0xDF then 2
      else if 0xE0 \<le> b \<and> b \<le> 0xEF then 3 else if 0xF0 \<le> b \<and> b \<le> 0xF4 then 4 else 0)"

text \<open>The second byte of a three- or four-byte sequence: no overlong form, no surrogate, no value
  above U+10FFFF.\<close>

definition second_ok :: "u8 \<Rightarrow> u8 \<Rightarrow> bool" where
  "second_ok b c \<longleftrightarrow>
     (if b = 0xE0 then 0xA0 \<le> c \<and> c \<le> 0xBF else if b = 0xED then 0x80 \<le> c \<and> c \<le> 0x9F
      else if b = 0xF0 then 0x90 \<le> c \<and> c \<le> 0xBF else if b = 0xF4 then 0x80 \<le> c \<and> c \<le> 0x8F
      else is_cont c)"

text \<open>Whether the bytes start with a valid sequence, and how many bytes are consumed: the sequence,
  or the part of it that was seen before the offending byte.\<close>

definition utf8_char :: "bytes \<Rightarrow> bool \<times> nat" where
  "utf8_char bs =
     (let b = safe_get bs 0 in
      case utf8_char_width b of
        Suc 0 \<Rightarrow> (True, 1)
      | Suc (Suc 0) \<Rightarrow> if is_cont (safe_get bs 1) then (True, 2) else (False, 1)
      | Suc (Suc (Suc 0)) \<Rightarrow>
          if \<not> second_ok b (safe_get bs 1) then (False, 1)
          else if is_cont (safe_get bs 2) then (True, 3) else (False, 2)
      | Suc (Suc (Suc (Suc 0))) \<Rightarrow>
          if \<not> second_ok b (safe_get bs 1) then (False, 1)
          else if \<not> is_cont (safe_get bs 2) then (False, 2)
          else if is_cont (safe_get bs 3) then (True, 4) else (False, 3)
      | _ \<Rightarrow> (False, 1))"

lemma utf8_char_pos: "0 < snd (utf8_char bs)"
  by (auto simp: utf8_char_def Let_def split: nat.splits)

function from_utf8_lossy :: "bytes \<Rightarrow> utf8" where
  "from_utf8_lossy bs =
     (if bs = [] then []
      else (if fst (utf8_char bs) then take (snd (utf8_char bs)) bs else [0xEF, 0xBF, 0xBD])
           @ from_utf8_lossy (drop (snd (utf8_char bs)) bs))"
  by pat_completeness auto
termination
  by (relation "measure length") (auto simp: utf8_char_pos)

function utf8_valid :: "bytes \<Rightarrow> bool" where
  "utf8_valid bs =
     (if bs = [] then True else fst (utf8_char bs) \<and> utf8_valid (drop (snd (utf8_char bs)) bs))"
  by pat_completeness auto
termination
  by (relation "measure length") (auto simp: utf8_char_pos)

definition from_utf8 :: "bytes \<Rightarrow> utf8 option" where
  "from_utf8 bs = (if utf8_valid bs then Some bs else None)"

declare from_utf8_lossy.simps [simp del] utf8_valid.simps [simp del]

lemma utf8_Nil [simp]: "from_utf8_lossy [] = []" "utf8_valid []"
  by (simp_all add: from_utf8_lossy.simps utf8_valid.simps)

text \<open>On valid input the lossy conversion changes nothing.\<close>

lemma from_utf8_lossy_valid [simp]: "utf8_valid bs \<Longrightarrow> from_utf8_lossy bs = bs"
proof (induction bs rule: utf8_valid.induct)
  case (1 bs)
  then show ?case
    by (cases "bs = []")
      (simp_all add: utf8_valid.simps [of bs] from_utf8_lossy.simps [of bs])
qed

text \<open>The lossy conversion always yields a string: a valid sequence is recognised from its own
  bytes alone, and the replacement character is one.\<close>

lemma utf8_char_ok:
  "fst (utf8_char bs) \<longleftrightarrow>
     (let b = safe_get bs 0; w = utf8_char_width b in
      w = 1 \<or> w = 2 \<and> is_cont (safe_get bs 1)
      \<or> w = 3 \<and> second_ok b (safe_get bs 1) \<and> is_cont (safe_get bs 2)
      \<or> w = 4 \<and> second_ok b (safe_get bs 1) \<and> is_cont (safe_get bs 2) \<and> is_cont (safe_get bs 3))"
  "fst (utf8_char bs) \<Longrightarrow> snd (utf8_char bs) = utf8_char_width (safe_get bs 0)"
  by (auto simp: utf8_char_def Let_def split: nat.splits if_splits)

lemma utf8_char_take:
  assumes "fst (utf8_char bs)" and "bs \<noteq> []"
  shows "snd (utf8_char bs) \<le> length bs"
    and "utf8_char (take (snd (utf8_char bs)) bs @ r) = utf8_char bs"
proof -
  let ?n = "utf8_char_width (safe_get bs 0)" and ?s = "take (utf8_char_width (safe_get bs 0)) bs @ r"
  have n: "snd (utf8_char bs) = ?n" by (rule utf8_char_ok(2) [OF assms(1)])
  have pos: "0 < ?n" using utf8_char_pos [of bs] n by simp
  have nz: "i < length bs" if "is_cont (safe_get bs i) \<or> second_ok b (safe_get bs i)" for i b
    using that by (auto simp: safe_get_def is_cont_def second_ok_def split: if_splits)
  have le: "?n \<le> length bs"
    using assms nz [of 1 "safe_get bs 0"] nz [of 2] nz [of 3]
    unfolding utf8_char_ok(1) Let_def by (auto simp: Suc_le_eq)
  then show "snd (utf8_char bs) \<le> length bs" by (simp add: n)
  have get: "safe_get ?s i = safe_get bs i" if "i < ?n" for i
    using that le by (simp add: safe_get_def nth_append)
  have head: "safe_get ?s 0 = safe_get bs 0" by (rule get [OF pos])
  have "fst (utf8_char ?s)"
    using assms(1) get [of 1] get [of 2] get [of 3]
    unfolding utf8_char_ok(1) [of bs] utf8_char_ok(1) [of ?s] head Let_def
    by (elim disjE) simp_all
  then show "utf8_char (take (snd (utf8_char bs)) bs @ r) = utf8_char bs"
    using utf8_char_ok(2) [of ?s] assms(1) unfolding n by (simp add: prod_eq_iff head n)
qed

lemma utf8_valid_replacement:
  assumes "utf8_valid r"
  shows "utf8_valid (0xEF # 0xBF # 0xBD # r)"
proof -
  have "utf8_char_width 0xEF = Suc (Suc (Suc 0))" "second_ok 0xEF 0xBF" "is_cont 0xBD"
    by (simp_all add: utf8_char_width_def second_ok_def is_cont_def)
  then have "utf8_char (0xEF # 0xBF # 0xBD # r) = (True, 3)"
    by (simp add: utf8_char_def safe_get_def)
  with assms show ?thesis by (subst utf8_valid.simps) simp
qed

lemma utf8_valid_lossy [simp]: "utf8_valid (from_utf8_lossy bs)"
proof (induction bs rule: from_utf8_lossy.induct)
  case (1 bs)
  show ?case
  proof (cases "bs = []")
    case False
    then have IH: "utf8_valid (from_utf8_lossy (drop (snd (utf8_char bs)) bs))" by (rule 1)
    show ?thesis
    proof (cases "fst (utf8_char bs)")
      case True
      note t = utf8_char_take [OF True False]
      have ne: "take (snd (utf8_char bs)) bs \<noteq> []" using False utf8_char_pos [of bs] by simp
      show ?thesis using True False IH ne t
        by (simp add: from_utf8_lossy.simps [of bs])
          (subst utf8_valid.simps, simp add: min_absorb2)
    next
      case False': False
      with False IH show ?thesis
        by (simp add: from_utf8_lossy.simps [of bs] utf8_valid_replacement)
    qed
  qed simp
qed

lemma utf8_valid_ascii: "\<forall>b \<in> set bs. b \<le> 0x7F \<Longrightarrow> utf8_valid bs"
proof (induction bs)
  case (Cons b bs)
  have "utf8_char (b # bs) = (True, 1)"
    using Cons.prems by (simp add: utf8_char_def utf8_char_width_def safe_get_def)
  with Cons show ?case by (simp add: utf8_valid.simps [of "b # bs"])
qed simp

end
