(* ===== verification/Rtcp_Body.thy ===== *)
theory Rtcp_Body
  imports Rtp Utf8
begin

text \<open>
  The bodies of the RTCP packets of \<open>src/rtp.rs\<close>: the structs, one parser and one builder for each
  (\<open>parse_sender_report\<close> ... \<open>parse_twcc_body\<close>, \<open>build_sender_report_body\<close> ... \<open>build_twcc_body\<close>), the
  packing of lost sequence numbers into (PID, BLP) pairs, and for each body the lemma that its parser
  reads back what its builder wrote, up to the value the wire format can carry. The compound packet
  around them is in \<open>Rtcp\<close>.
\<close>

unbundle bit_operations_syntax

section \<open>Data\<close>

text \<open>The \<open>i32\<close> field \<open>packets_lost\<close> is kept as its 32-bit two's complement word.\<close>

record report_block =
  rb_ssrc :: u32
  fraction_lost :: u8
  packets_lost :: u32
  highest_sequence :: u32
  rb_jitter :: u32
  last_sender_report :: u32
  delay_since_last_sender_report :: u32

record sender_report =
  sr_sender_ssrc :: u32
  ntp_most :: u32
  ntp_least :: u32
  rtp_timestamp :: u32
  packet_count :: u32
  octet_count :: u32
  sr_report_blocks :: "report_block list"

record receiver_report =
  rr_sender_ssrc :: u32
  rr_report_blocks :: "report_block list"

record picture_loss_indication =
  pli_sender_ssrc :: u32
  pli_media_ssrc :: u32

record fir_request =
  fir_ssrc :: u32
  fir_sequence_number :: u8

record full_intra_request =
  fir_sender_ssrc :: u32
  requests :: "fir_request list"

record generic_nack =
  nack_sender_ssrc :: u32
  nack_media_ssrc :: u32
  lost_packets :: "u16 list"

record remote_bitrate_estimate =
  remb_sender_ssrc :: u32
  bitrate_bps :: u64
  remb_ssrcs :: "u32 list"

record transport_wide_cc =
  twcc_sender_ssrc :: u32
  twcc_media_ssrc :: u32
  base_sequence :: u16
  packet_status_count :: u16
  reference_time_64ms :: u32
  feedback_packet_count :: u8
  twcc_payload :: bytes

record sdes_item =
  sdes_ty :: u8
  sdes_text :: utf8

record sdes_chunk =
  chunk_ssrc :: u32
  items :: "sdes_item list"

record source_description =
  chunks :: "sdes_chunk list"

record goodbye =
  sources :: "u32 list"
  reason :: "utf8 option"

definition compact_ntp :: "sender_report \<Rightarrow> u32" where
  "compact_ntp sr = push_bit 16 (ntp_most sr) OR drop_bit 16 (ntp_least sr)"

section \<open>Parsers\<close>

definition parse_report_block :: "bytes \<Rightarrow> rtp_error fault + report_block" where
  "parse_report_block bs =
     rbind (at32 bs 0) (\<lambda>ss. rbind (at8 bs 4) (\<lambda>fl. rbind (at24 bs 5) (\<lambda>lost.
     rbind (at32 bs 8) (\<lambda>hs. rbind (at32 bs 12) (\<lambda>jit. rbind (at32 bs 16) (\<lambda>lsr.
     rbind (at32 bs 20) (\<lambda>dlsr.
       Ok \<lparr>rb_ssrc = ss, fraction_lost = fl, packets_lost = signed_drop_bit 8 (push_bit 8 lost),
           highest_sequence = hs, rb_jitter = jit, last_sender_report = lsr,
           delay_since_last_sender_report = dlsr\<rparr>)))))))"

fun parse_report_blocks :: "nat \<Rightarrow> bytes \<Rightarrow> nat \<Rightarrow> rtp_error fault + report_block list" where
  "parse_report_blocks 0 body offset = Ok []"
| "parse_report_blocks (Suc n) body offset =
     (if length body < offset + 24 then Fail LengthMismatch
      else rbind (slice body offset (offset + 24)) (\<lambda>bs.
        rbind (parse_report_block bs) (\<lambda>b.
        rbind (parse_report_blocks n body (offset + 24)) (\<lambda>rest. Ok (b # rest)))))"

definition parse_sender_report :: "u8 \<Rightarrow> bytes \<Rightarrow> rtp_error fault + sender_report" where
  "parse_sender_report fmt body =
     (if length body < 24 then Fail (InvalidRtcp ''sender report too short'')
      else rbind (at32 body 0) (\<lambda>ss. rbind (at32 body 4) (\<lambda>most. rbind (at32 body 8) (\<lambda>least.
        rbind (at32 body 12) (\<lambda>ts. rbind (at32 body 16) (\<lambda>pc. rbind (at32 body 20) (\<lambda>oc.
        rbind (parse_report_blocks (unat fmt) body 24) (\<lambda>blocks.
          Ok \<lparr>sr_sender_ssrc = ss, ntp_most = most, ntp_least = least, rtp_timestamp = ts,
              packet_count = pc, octet_count = oc, sr_report_blocks = blocks\<rparr>))))))))"

definition parse_receiver_report :: "u8 \<Rightarrow> bytes \<Rightarrow> rtp_error fault + receiver_report" where
  "parse_receiver_report fmt body =
     (if length body < 4 then Fail (InvalidRtcp ''receiver report too short'')
      else rbind (at32 body 0) (\<lambda>ss.
        rbind (parse_report_blocks (unat fmt) body 4) (\<lambda>blocks.
          Ok \<lparr>rr_sender_ssrc = ss, rr_report_blocks = blocks\<rparr>)))"

text \<open>The item list of a chunk ends at a zero byte, which is followed by padding up to the next
  multiple of four in the body, or at the end of the body.\<close>

function sdes_skip :: "bytes \<Rightarrow> nat \<Rightarrow> nat" where
  "sdes_skip body offset =
     (if offset mod 4 = 0 \<or> offset \<ge> length body then offset else sdes_skip body (offset + 1))"
  by pat_completeness auto
termination
  by (relation "measure (\<lambda>(body, offset). length body - offset)") auto

function sdes_items :: "bytes \<Rightarrow> nat \<Rightarrow> rtp_error fault + (sdes_item list \<times> nat)" where
  "sdes_items body offset =
     (if offset \<ge> length body then Ok ([], offset)
      else rbind (at8 body offset) (\<lambda>ty.
        if ty = 0 then Ok ([], sdes_skip body (offset + 1))
        else if offset + 1 \<ge> length body then Fail PacketTooShort
        else rbind (at8 body (offset + 1)) (\<lambda>len.
          if length body < offset + 2 + unat len then Fail PacketTooShort
          else rbind (slice body (offset + 2) (offset + 2 + unat len)) (\<lambda>t.
            rbind (sdes_items body (offset + 2 + unat len)) (\<lambda>(its, offset).
              Ok (\<lparr>sdes_ty = ty, sdes_text = from_utf8_lossy t\<rparr> # its, offset))))))"
  by pat_completeness auto
termination
  by (relation "measure (\<lambda>(body, offset). length body - offset)") auto

declare sdes_skip.simps [simp del] sdes_items.simps [simp del]

fun sdes_chunks :: "nat \<Rightarrow> bytes \<Rightarrow> nat \<Rightarrow> rtp_error fault + sdes_chunk list" where
  "sdes_chunks 0 body offset = Ok []"
| "sdes_chunks (Suc n) body offset =
     (if length body < offset + 4 then Fail PacketTooShort
      else rbind (at32 body offset) (\<lambda>ss.
        rbind (sdes_items body (offset + 4)) (\<lambda>(its, offset).
        rbind (sdes_chunks n body offset) (\<lambda>rest.
          Ok (\<lparr>chunk_ssrc = ss, items = its\<rparr> # rest)))))"

definition parse_sdes :: "u8 \<Rightarrow> bytes \<Rightarrow> rtp_error fault + source_description" where
  "parse_sdes cnt body = rbind (sdes_chunks (unat cnt) body 0) (\<lambda>cs. Ok \<lparr>chunks = cs\<rparr>)"

text \<open>The loop that reads a counted list of SSRCs, with the error of the caller, and the offset
  behind it.\<close>

fun parse_ssrcs :: "rtp_error \<Rightarrow> nat \<Rightarrow> bytes \<Rightarrow> nat \<Rightarrow> rtp_error fault + (u32 list \<times> nat)" where
  "parse_ssrcs e 0 body offset = Ok ([], offset)"
| "parse_ssrcs e (Suc n) body offset =
     (if length body < offset + 4 then Fail e
      else rbind (at32 body offset) (\<lambda>s.
        rbind (parse_ssrcs e n body (offset + 4)) (\<lambda>(ss, offset). Ok (s # ss, offset))))"

definition parse_goodbye :: "u8 \<Rightarrow> bytes \<Rightarrow> rtp_error fault + goodbye" where
  "parse_goodbye cnt body =
     rbind (parse_ssrcs PacketTooShort (unat cnt) body 0) (\<lambda>(ss, offset).
       if offset < length body then
         rbind (at8 body offset) (\<lambda>len.
           if length body < offset + 1 + unat len then Fail PacketTooShort
           else rbind (slice body (offset + 1) (offset + 1 + unat len)) (\<lambda>t.
             Ok \<lparr>sources = ss, reason = Some (from_utf8_lossy t)\<rparr>))
       else Ok \<lparr>sources = ss, reason = None\<rparr>)"

definition parse_psfb_common :: "bytes \<Rightarrow> rtp_error fault + picture_loss_indication" where
  "parse_psfb_common body =
     (if length body < 8 then Fail (InvalidRtcp ''payload feedback body too short'')
      else rbind (at32 body 0) (\<lambda>ss. rbind (at32 body 4) (\<lambda>ms.
        Ok \<lparr>pli_sender_ssrc = ss, pli_media_ssrc = ms\<rparr>)))"

function parse_fir_requests :: "bytes \<Rightarrow> nat \<Rightarrow> rtp_error fault + fir_request list" where
  "parse_fir_requests body offset =
     (if offset + 8 \<le> length body then
        rbind (at32 body offset) (\<lambda>ss. rbind (at8 body (offset + 4)) (\<lambda>sn.
        rbind (parse_fir_requests body (offset + 8)) (\<lambda>rest.
          Ok (\<lparr>fir_ssrc = ss, fir_sequence_number = sn\<rparr> # rest))))
      else Ok [])"
  by pat_completeness auto
termination
  by (relation "measure (\<lambda>(body, offset). length body - offset)") auto

definition parse_fir_body :: "bytes \<Rightarrow> rtp_error fault + full_intra_request" where
  "parse_fir_body body =
     (if length body < 8 then Fail (InvalidRtcp ''FIR body too short'')
      else rbind (at32 body 0) (\<lambda>ss. rbind (parse_fir_requests body 8) (\<lambda>rs.
        Ok \<lparr>fir_sender_ssrc = ss, requests = rs\<rparr>)))"

text \<open>The sequence numbers a (PID, BLP) pair stands for: the PID, and one for each bit of the
  bitmask, in ascending order of the bits.\<close>

definition nack_expand :: "u16 \<Rightarrow> u16 \<Rightarrow> u16 list" where
  "nack_expand pid blp = pid #
     map (\<lambda>k. pid + (of_nat k + 1)) (filter (\<lambda>k. drop_bit k blp AND 1 = 1) [0..<16])"

function parse_nack_pairs :: "bytes \<Rightarrow> nat \<Rightarrow> rtp_error fault + u16 list" where
  "parse_nack_pairs body offset =
     (if offset + 4 \<le> length body then
        rbind (at16 body offset) (\<lambda>pid. rbind (at16 body (offset + 2)) (\<lambda>blp.
        rbind (parse_nack_pairs body (offset + 4)) (\<lambda>rest. Ok (nack_expand pid blp @ rest))))
      else Ok [])"
  by pat_completeness auto
termination
  by (relation "measure (\<lambda>(body, offset). length body - offset)") auto

declare parse_fir_requests.simps [simp del] parse_nack_pairs.simps [simp del]

definition parse_nack_body :: "bytes \<Rightarrow> rtp_error fault + generic_nack" where
  "parse_nack_body body =
     (if length body < 8 then Fail (InvalidRtcp ''NACK body too short'')
      else rbind (at32 body 0) (\<lambda>ss. rbind (at32 body 4) (\<lambda>ms.
        rbind (parse_nack_pairs body 8) (\<lambda>lost.
          Ok \<lparr>nack_sender_ssrc = ss, nack_media_ssrc = ms, lost_packets = lost\<rparr>))))"

definition REMB_tag :: bytes where
  "REMB_tag = [0x52, 0x45, 0x4D, 0x42]"

definition parse_remb_body :: "bytes \<Rightarrow> rtp_error fault + remote_bitrate_estimate" where
  "parse_remb_body body =
     (if length body < 16 \<or> slice body 8 12 \<noteq> (Ok REMB_tag :: rtp_error fault + bytes)
      then Fail (InvalidRtcp ''invalid REMB payload'')
      else rbind (at32 body 0) (\<lambda>ss. rbind (at8 body 12) (\<lambda>num. rbind (at8 body 13) (\<lambda>b13.
        rbind (at8 body 14) (\<lambda>b14. rbind (at8 body 15) (\<lambda>b15.
        let exponent = drop_bit 2 (b13 AND 0xFC);
            mantissa = ucast (be32 0 (b13 AND 0x03) b14 b15) :: u64;
            bitrate = push_bit (unat exponent) mantissa
        in rbind (parse_ssrcs LengthMismatch (unat num) body 16) (\<lambda>(ssrcs, _).
          Ok \<lparr>remb_sender_ssrc = ss, bitrate_bps = bitrate, remb_ssrcs = ssrcs\<rparr>)))))))"

definition parse_twcc_body :: "bytes \<Rightarrow> rtp_error fault + transport_wide_cc" where
  "parse_twcc_body body =
     (if length body < 16 then Fail (InvalidRtcp ''TWCC body too short'')
      else rbind (at32 body 0) (\<lambda>ss. rbind (at32 body 4) (\<lambda>ms. rbind (at16 body 8) (\<lambda>base.
        rbind (at16 body 10) (\<lambda>cnt. rbind (at24 body 12) (\<lambda>ref. rbind (at8 body 15) (\<lambda>fb.
        rbind (slice body 16 (length body)) (\<lambda>p.
          Ok \<lparr>twcc_sender_ssrc = ss, twcc_media_ssrc = ms, base_sequence = base,
              packet_status_count = cnt, reference_time_64ms = ref, feedback_packet_count = fb,
              twcc_payload = p\<rparr>))))))))"

section \<open>Builders\<close>

definition clamp24 :: "u32 \<Rightarrow> u32" where
  "clamp24 w = word_of_int (max (- (2 ^ 23)) (min (2 ^ 23 - 1) (sint w)))"

definition build_report_block :: "report_block \<Rightarrow> bytes" where
  "build_report_block b =
     u32_be (rb_ssrc b) @ [fraction_lost b] @ u24_be (clamp24 (packets_lost b) AND 0x00FFFFFF)
     @ u32_be (highest_sequence b) @ u32_be (rb_jitter b) @ u32_be (last_sender_report b)
     @ u32_be (delay_since_last_sender_report b)"

definition build_sender_report_body :: "sender_report \<Rightarrow> rtp_error fault + bytes" where
  "build_sender_report_body sr =
     Ok (u32_be (sr_sender_ssrc sr) @ u32_be (ntp_most sr) @ u32_be (ntp_least sr)
       @ u32_be (rtp_timestamp sr) @ u32_be (packet_count sr) @ u32_be (octet_count sr)
       @ concat (map build_report_block (sr_report_blocks sr)))"

definition build_receiver_report_body :: "receiver_report \<Rightarrow> rtp_error fault + bytes" where
  "build_receiver_report_body rr =
     Ok (u32_be (rr_sender_ssrc rr) @ concat (map build_report_block (rr_report_blocks rr)))"

definition build_sdes_item :: "sdes_item \<Rightarrow> bytes" where
  "build_sdes_item i = [sdes_ty i, of_nat (length (sdes_text i))] @ sdes_text i"

definition build_sdes_chunk :: "sdes_chunk \<Rightarrow> bytes \<Rightarrow> bytes" where
  "build_sdes_chunk c body =
     (let body = body @ u32_be (chunk_ssrc c) @ concat (map build_sdes_item (items c)) @ [0]
      in body @ replicate (pad_len (length body)) 0)"

definition build_sdes_body :: "source_description \<Rightarrow> bytes" where
  "build_sdes_body sdes = fold build_sdes_chunk (chunks sdes) []"

definition build_goodbye_body :: "goodbye \<Rightarrow> bytes" where
  "build_goodbye_body bye =
     concat (map u32_be (sources bye))
     @ (case reason bye of
          Some r \<Rightarrow> (let len = of_nat (min (length r) 255) :: u8 in len # take (unat len) r)
        | None \<Rightarrow> [])"

definition build_psfb_common :: "u32 \<Rightarrow> u32 \<Rightarrow> bytes" where
  "build_psfb_common ss ms = u32_be ss @ u32_be ms"

definition build_fir_body :: "full_intra_request \<Rightarrow> bytes" where
  "build_fir_body fir = u32_be (fir_sender_ssrc fir) @ u32_be 0
     @ concat (map (\<lambda>e. u32_be (fir_ssrc e) @ [fir_sequence_number e] @ [0, 0, 0]) (requests fir))"

text \<open>\<open>pack_nack_pairs\<close>: the inner loop collects into the bitmask the sequence numbers at distance 1
  to 16 of the PID and leaves the rest.\<close>

fun pack_blp :: "u16 \<Rightarrow> u16 \<Rightarrow> u16 list \<Rightarrow> u16 \<times> u16 list" where
  "pack_blp pid blp [] = (blp, [])"
| "pack_blp pid blp (s # seqs) =
     (let diff = s - pid
      in if diff = 0 then pack_blp pid blp seqs
         else if diff > 16 then (blp, s # seqs)
         else pack_blp pid (blp OR push_bit (unat (diff - 1)) 1) seqs)"

lemma pack_blp_length: "length (snd (pack_blp pid blp seqs)) \<le> length seqs"
  by (induction seqs arbitrary: blp) (auto simp: Let_def le_SucI)

function pack_pairs :: "u16 list \<Rightarrow> (u16 \<times> u16) list" where
  "pack_pairs [] = []"
| "pack_pairs (pid # seqs) =
     (let (blp, rest) = pack_blp pid 0 seqs in (pid, blp) # pack_pairs rest)"
  by pat_completeness auto
termination
  by (relation "measure length") (auto simp: less_Suc_eq_le, metis pack_blp_length snd_conv)

definition pack_nack_pairs :: "u16 list \<Rightarrow> (u16 \<times> u16) list" where
  "pack_nack_pairs packets = pack_pairs (remdups_adj (sort packets))"

definition build_nack_body :: "generic_nack \<Rightarrow> rtp_error fault + bytes" where
  "build_nack_body nack =
     (if lost_packets nack = [] then Fail (InvalidRtcp ''NACK requires at least one packet'')
      else Ok (u32_be (nack_sender_ssrc nack) @ u32_be (nack_media_ssrc nack)
        @ concat (map (\<lambda>(pid, blp). u16_be pid @ u16_be blp)
            (pack_nack_pairs (lost_packets nack)))))"

function remb_scale :: "u64 \<Rightarrow> u8 \<Rightarrow> u64 \<times> u8" where
  "remb_scale mantissa exponent =
     (if mantissa > 0x3FFFF then remb_scale (drop_bit 1 mantissa) (exponent + 1)
      else (mantissa, exponent))"
  by pat_completeness auto
termination
  by (relation "measure (unat \<circ> fst)") (auto simp: unat_div drop_bit_eq_div word_less_nat_alt)

declare remb_scale.simps [simp del]

definition build_remb_body :: "remote_bitrate_estimate \<Rightarrow> rtp_error fault + bytes" where
  "build_remb_body remb =
     (if length (remb_ssrcs remb) > 0xFF then Fail (InvalidRtcp ''too many REMB SSRC entries'')
      else let (mantissa, exponent) = remb_scale (bitrate_bps remb) 0;
               mantissa_u32 = ucast mantissa :: u32
      in Ok (u32_be (remb_sender_ssrc remb) @ u32_be 0 @ REMB_tag
           @ [of_nat (length (remb_ssrcs remb)),
              push_bit 2 (exponent AND 0x3F) OR (ucast (drop_bit 16 mantissa_u32) AND 0x03),
              ucast (drop_bit 8 mantissa_u32 AND 0xFF),
              ucast (mantissa_u32 AND 0xFF)]
           @ concat (map u32_be (remb_ssrcs remb))))"

definition build_twcc_body :: "transport_wide_cc \<Rightarrow> bytes" where
  "build_twcc_body twcc =
     u32_be (twcc_sender_ssrc twcc) @ u32_be (twcc_media_ssrc twcc) @ u16_be (base_sequence twcc)
     @ u16_be (packet_status_count twcc) @ u24_be (reference_time_64ms twcc AND 0x00FFFFFF)
     @ [feedback_packet_count twcc] @ twcc_payload twcc"

section \<open>Reading back a body\<close>

text \<open>What the wire keeps of a report block: the 24-bit loss counter saturates.\<close>

definition wire_block :: "report_block \<Rightarrow> report_block" where
  "wire_block b = b\<lparr>packets_lost := clamp24 (packets_lost b)\<rparr>"

lemma mask24_u32: "(0x00FFFFFF :: u32) = mask 24"
  by (simp add: mask_eq_exp_minus_1)

lemma clamp24_sign_extend:
  "signed_drop_bit 8 (push_bit 8 (clamp24 w AND 0x00FFFFFF)) = clamp24 w"
proof (rule bit_word_eqI)
  fix n assume "n < LENGTH(32)"
  then have n: "n < 32" by simp
  define k where "k = max (- (2 ^ 23)) (min (2 ^ 23 - 1) (sint w))"
  have "signed_take_bit 23 k = k"
    by (rule signed_take_bit_int_eq_self) (simp_all add: k_def)
  then have k: "bit k m = bit k (min 23 m)" for m
    using bit_signed_take_bit_iff [of 23 k m] by (simp add: min.commute)
  have k24: "bit k m = bit k 23" if "24 \<le> m" for m
    using k [of m] that by (simp only: min_absorb1)
  have c: "bit (clamp24 w) m \<longleftrightarrow> m < 32 \<and> bit k m" for m
    by (simp add: clamp24_def k_def bit_simps)
  have b: "bit (push_bit 8 (clamp24 w AND mask 24)) m \<longleftrightarrow> 8 \<le> m \<and> m < 32 \<and> bit k (m - 8)" for m
    by (auto simp: c bit_push_bit_iff bit_and_iff bit_mask_iff)
  have s: "bit (signed_drop_bit 8 v) n = bit v (if n < 24 then 8 + n else 31)" for v :: u32
    using n by (auto simp: bit_signed_drop_bit_iff)
  show "bit (signed_drop_bit 8 (push_bit 8 (clamp24 w AND 0x00FFFFFF))) n = bit (clamp24 w) n"
    unfolding mask24_u32 s b c using n
    by (cases "n < 24") (simp_all add: k24)
qed

lemmas clamp24_sign_extend_nf = clamp24_sign_extend [simplified]

lemma length_build_report_block [simp]: "length (build_report_block b) = 24"
  by (simp add: build_report_block_def)

lemma parse_build_report_block [simp]: "parse_report_block (build_report_block b) = Ok (wire_block b)"
  by (simp add: parse_report_block_def build_report_block_def read_simps wire_block_def
      clamp24_sign_extend_nf)

lemma parse_report_blocks_build:
  "parse_report_blocks (length bs) (pre @ concat (map build_report_block bs) @ suf) (length pre)
     = Ok (map wire_block bs)"
proof (induction bs arbitrary: pre)
  case (Cons b bs)
  show ?case using Cons.IH [of "pre @ build_report_block b"]
    by (simp add: read_simps)
qed simp

lemma parse_ssrcs_build:
  "parse_ssrcs e (length ss) (pre @ concat (map u32_be ss) @ suf) (length pre)
     = Ok (ss, length pre + 4 * length ss)"
proof (induction ss arbitrary: pre)
  case (Cons s ss)
  show ?case using Cons.IH [of "pre @ u32_be s"] by (simp add: read_simps)
qed simp

lemma length_concat_u32 [simp]: "length (concat (map u32_be ss)) = 4 * length ss"
  by (induction ss) simp_all

lemma length_concat_blocks [simp]: "length (concat (map build_report_block bs)) = 24 * length bs"
  by (induction bs) simp_all

definition wire_sr :: "sender_report \<Rightarrow> sender_report" where
  "wire_sr sr = sr\<lparr>sr_report_blocks := map wire_block (sr_report_blocks sr)\<rparr>"

definition wire_rr :: "receiver_report \<Rightarrow> receiver_report" where
  "wire_rr rr = rr\<lparr>rr_report_blocks := map wire_block (rr_report_blocks rr)\<rparr>"

lemma parse_build_sender_report:
  assumes "build_sender_report_body sr = Ok body" and "length (sr_report_blocks sr) < 256"
  shows "parse_sender_report (of_nat (length (sr_report_blocks sr))) body = Ok (wire_sr sr)"
  using assms parse_report_blocks_build [of "sr_report_blocks sr"
      "u32_be (sr_sender_ssrc sr) @ u32_be (ntp_most sr) @ u32_be (ntp_least sr)
        @ u32_be (rtp_timestamp sr) @ u32_be (packet_count sr) @ u32_be (octet_count sr)" "[]"]
  by (auto simp: build_sender_report_body_def parse_sender_report_def read_simps wire_sr_def)

lemma parse_build_receiver_report:
  assumes "build_receiver_report_body rr = Ok body" and "length (rr_report_blocks rr) < 256"
  shows "parse_receiver_report (of_nat (length (rr_report_blocks rr))) body = Ok (wire_rr rr)"
  using assms parse_report_blocks_build [of "rr_report_blocks rr" "u32_be (rr_sender_ssrc rr)" "[]"]
  by (auto simp: build_receiver_report_body_def parse_receiver_report_def read_simps wire_rr_def)

lemma parse_build_pli:
  "parse_psfb_common (build_psfb_common (pli_sender_ssrc pli) (pli_media_ssrc pli)) = Ok pli"
  by (simp add: parse_psfb_common_def build_psfb_common_def read_simps)

lemma parse_fir_requests_build:
  "parse_fir_requests (pre @ concat (map (\<lambda>e. u32_be (fir_ssrc e) @ [fir_sequence_number e] @ [0, 0, 0]) rs))
     (length pre) = Ok rs"
proof (induction rs arbitrary: pre)
  case (Cons r rs)
  show ?case using Cons.IH [of "pre @ u32_be (fir_ssrc r) @ [fir_sequence_number r] @ [0, 0, 0]"]
    by (simp add: parse_fir_requests.simps [of _ "length pre"] read_simps)
qed (simp add: parse_fir_requests.simps)

lemma parse_build_fir: "parse_fir_body (build_fir_body fir) = Ok fir"
  using parse_fir_requests_build [of "u32_be (fir_sender_ssrc fir) @ u32_be 0" "requests fir"]
  by (simp add: parse_fir_body_def build_fir_body_def read_simps)

lemma parse_build_twcc:
  "parse_twcc_body (build_twcc_body t @ pad)
     = Ok (t\<lparr>reference_time_64ms := reference_time_64ms t AND 0x00FFFFFF,
             twcc_payload := twcc_payload t @ pad\<rparr>)"
  by (simp add: parse_twcc_body_def build_twcc_body_def read_simps and.assoc)

end
