(* ===== verification/Rtcp_Feedback.thy ===== *)
theory Rtcp_Feedback
  imports Rtcp_Body
begin

text \<open>
  The RTCP bodies whose wire form does not keep the value as it is, or is found by scanning:
  the generic NACK (the lost sequence numbers come back sorted and without duplicates), REMB (the
  bitrate comes back rounded down to an 18-bit mantissa), SDES and BYE (texts of at most 255 bytes).
  For each, what the parser of \<open>src/rtp.rs\<close> returns on the output of its builder.
\<close>

unbundle bit_operations_syntax

section \<open>Generic NACK\<close>

text \<open>One (PID, BLP) pair covers the elements of an ascending list that lie within sixteen of the
  PID; expanding the pair and then the rest gives the list back.\<close>

definition blp_offsets :: "u16 \<Rightarrow> nat list" where
  "blp_offsets blp = filter (bit blp) [0..<16]"

lemma nack_expand_offsets:
  "nack_expand pid blp = pid # map (\<lambda>k. pid + (of_nat k + 1)) (blp_offsets blp)"
proof -
  have "(drop_bit k blp AND 1 = 1) = bit blp k" for k
    by (simp add: and_one_eq bit_iff_odd_drop_bit odd_iff_mod_2_eq_one)
  then show ?thesis by (simp add: nack_expand_def blp_offsets_def)
qed

lemma blp_offsets_set:
  assumes "\<And>k. bit blp k \<Longrightarrow> k < d" and "d < 16"
  shows "blp_offsets (blp OR push_bit d 1) = blp_offsets blp @ [d]"
proof -
  have split: "[0..<16] = [0..<d] @ d # [Suc d..<16]"
    using \<open>d < 16\<close> upt_add_eq_append [of 0 d "16 - d"] by (simp add: upt_conv_Cons)
  have b: "bit (blp OR push_bit d 1) = (\<lambda>k. bit blp k \<or> k = d)"
    using \<open>d < 16\<close> by (auto simp: bit_simps fun_eq_iff)
  have "filter (\<lambda>k. bit blp k \<or> k = d) [0..<d] = filter (bit blp) [0..<d]"
    by (rule filter_cong) auto
  moreover have "filter (bit blp) (d # [Suc d..<16]) = []"
    "filter (\<lambda>k. bit blp k \<or> k = d) [Suc d..<16] = []"
    using assms(1) by (auto simp: filter_empty_conv dest!: assms(1))
  ultimately show ?thesis
    by (simp only: blp_offsets_def b split filter_append) (simp split: if_splits)
qed

lemma pack_blp_expand:
  assumes "pack_blp pid blp seqs = (blp', rest)" and "sorted_wrt (<) (pid # seqs)"
    and "\<And>k s. bit blp k \<Longrightarrow> s \<in> set seqs \<Longrightarrow> unat pid + 1 + k < unat s"
  shows "nack_expand pid blp' @ rest = nack_expand pid blp @ seqs"
  using assms
proof (induction seqs arbitrary: blp)
  case (Cons s seqs)
  let ?diff = "s - pid" and ?d = "unat s - unat pid - 1"
  have lt: "unat pid < unat s" using Cons.prems(2) by (simp add: word_less_nat_alt)
  then have diff: "unat ?diff = unat s - unat pid" "?diff \<noteq> 0"
    by (auto simp: unat_sub word_le_nat_alt)
  then have d: "unat (?diff - 1) = ?d" by (simp add: unat_minus_one)
  show ?case
  proof (cases "?diff > 16")
    case True
    with Cons.prems(1) diff show ?thesis by simp
  next
    case False
    then have d16: "?d < 16" using diff by (simp add: word_less_nat_alt)
    have s: "pid + (of_nat ?d + 1) = s"
      using lt by (simp add: of_nat_diff of_nat_unat ucast_id)
    have "k < ?d" if "bit blp k" for k using Cons.prems(3) [OF that, of s] by simp
    from blp_offsets_set [OF this d16] s
    have "nack_expand pid (blp OR push_bit ?d 1) = nack_expand pid blp @ [s]"
      by (simp add: nack_expand_offsets)
    moreover have "nack_expand pid blp' @ rest = nack_expand pid (blp OR push_bit ?d 1) @ seqs"
    proof (rule Cons.IH)
      show "pack_blp pid (blp OR push_bit ?d 1) seqs = (blp', rest)"
        using Cons.prems(1) diff d False by (simp add: Let_def)
      show "sorted_wrt (<) (pid # seqs)" using Cons.prems(2) by simp
      fix k t assume "bit (blp OR push_bit ?d 1) k" and t: "t \<in> set seqs"
      then have "bit blp k \<or> k = ?d" by (auto simp: bit_simps)
      then show "unat pid + 1 + k < unat t"
        using Cons.prems(2,3) t lt by (auto simp: word_less_nat_alt)
    qed
    ultimately show ?thesis by simp
  qed
qed simp

lemma pack_blp_suffix: "pack_blp pid blp seqs = (blp', rest) \<Longrightarrow> \<exists>pre. seqs = pre @ rest"
proof (induction seqs arbitrary: blp)
  case (Cons s seqs)
  then show ?case
    by (auto simp: Let_def split: if_splits) (metis append_Cons)+
qed simp

lemma pack_pairs_expand:
  "sorted_wrt (<) seqs \<Longrightarrow> concat (map (\<lambda>(pid, blp). nack_expand pid blp) (pack_pairs seqs)) = seqs"
proof (induction seqs rule: pack_pairs.induct)
  case (2 pid seqs)
  obtain blp rest where p: "pack_blp pid 0 seqs = (blp, rest)" by fastforce
  obtain pre where "seqs = pre @ rest" using pack_blp_suffix [OF p] ..
  with 2 have "sorted_wrt (<) rest" by (simp add: sorted_wrt_append)
  with 2(1) [OF p [symmetric] refl]
  have "concat (map (\<lambda>(pid, blp). nack_expand pid blp) (pack_pairs rest)) = rest" by simp
  moreover have "nack_expand pid blp @ rest = pid # seqs"
    using pack_blp_expand [OF p 2(2)] by (simp add: nack_expand_offsets blp_offsets_def)
  ultimately show ?case by (simp add: p)
qed simp

lemma distinct_remdups_adj: "sorted xs \<Longrightarrow> distinct (remdups_adj xs)" for xs :: "'a::linorder list"
  by (induction xs rule: remdups_adj.induct) (auto simp: antisym)

lemma remdups_adj_sort: "remdups_adj (sort xs) = sorted_list_of_set (set xs)"
  by (rule sorted_distinct_set_unique) (simp_all add: sorted_remdups_adj distinct_remdups_adj)

lemma pack_nack_pairs_expand:
  "concat (map (\<lambda>(pid, blp). nack_expand pid blp) (pack_nack_pairs xs)) = sorted_list_of_set (set xs)"
  using pack_pairs_expand [of "sorted_list_of_set (set xs)"]
  by (simp add: pack_nack_pairs_def remdups_adj_sort strict_sorted_iff)

lemma parse_nack_pairs_build:
  "parse_nack_pairs (pre @ concat (map (\<lambda>(pid, blp). u16_be pid @ u16_be blp) ps)) (length pre)
     = Ok (concat (map (\<lambda>(pid, blp). nack_expand pid blp) ps))"
proof (induction ps arbitrary: pre)
  case (Cons p ps)
  show ?case using Cons.IH [of "pre @ u16_be (fst p) @ u16_be (snd p)"]
    by (simp add: parse_nack_pairs.simps [of _ "length pre"] read_simps split_beta)
qed (simp add: parse_nack_pairs.simps)

definition wire_nack :: "generic_nack \<Rightarrow> generic_nack" where
  "wire_nack n = n\<lparr>lost_packets := sorted_list_of_set (set (lost_packets n))\<rparr>"

lemma parse_build_nack:
  "build_nack_body n = Ok body \<Longrightarrow> parse_nack_body body = Ok (wire_nack n)"
  using parse_nack_pairs_build [of "u32_be (nack_sender_ssrc n) @ u32_be (nack_media_ssrc n)"
      "pack_nack_pairs (lost_packets n)"]
  by (auto simp: build_nack_body_def parse_nack_body_def read_simps wire_nack_def
      pack_nack_pairs_expand split: if_splits)

section \<open>REMB\<close>

text \<open>The scaling loop finds the shift that brings the bitrate under 18 bits.\<close>

lemma remb_scale_spec:
  assumes "remb_scale m e = (m', e')"
  shows "\<exists>j. m' = drop_bit j m \<and> e' = e + of_nat j \<and> unat m' \<le> 0x3FFFF \<and> (j = 0 \<or> 0x20000 \<le> unat m')"
  using assms
proof (induction m e rule: remb_scale.induct)
  case (1 m e)
  show ?case
  proof (cases "m > 0x3FFFF")
    case True
    with 1 obtain j where j: "m' = drop_bit j (drop_bit 1 m)" "e' = e + 1 + of_nat j"
      "unat m' \<le> 0x3FFFF" "j = 0 \<or> 0x20000 \<le> unat m'"
      by (auto simp: remb_scale.simps [of m e])
    have "0x20000 \<le> unat (drop_bit 1 m)"
      using True by (simp add: word_less_nat_alt drop_bit_eq_div unat_div)
    with j show ?thesis by (intro exI [of _ "Suc j"]) auto
  next
    case False
    with 1(2) show ?thesis
      by (intro exI [of _ 0]) (auto simp: remb_scale.simps [of m e] word_less_nat_alt)
  qed
qed

lemma remb_shift_bound:
  assumes "j = 0 \<or> 0x20000 \<le> unat (drop_bit j (m :: u64))"
  shows "j \<le> 46"
proof (rule ccontr)
  assume "\<not> j \<le> 46"
  then have j: "47 \<le> j" by simp
  have m: "unat m < 2 ^ 64" using unsigned_less [of m, where ?'a = nat] by simp
  have "unat (drop_bit j m) = unat m div 2 ^ j" by (rule unat_drop_bit_div)
  also have "\<dots> \<le> unat m div 2 ^ 47" 
    using power_increasing [OF j, of "2 :: nat"] by (intro div_le_mono2) simp_all
  also have "\<dots> < 0x20000" using m by (simp add: div_less_iff_less_mult)
  finally show False using assms j by simp
qed

definition remb_round :: "u64 \<Rightarrow> u64" where
  "remb_round b = (let (m, e) = remb_scale b 0 in push_bit (unat e) m)"

definition wire_remb :: "remote_bitrate_estimate \<Rightarrow> remote_bitrate_estimate" where
  "wire_remb r = r\<lparr>bitrate_bps := remb_round (bitrate_bps r)\<rparr>"

text \<open>The two fields of the third byte, and the mantissa behind it.\<close>

lemma remb_exponent_field:
  "drop_bit 2 ((push_bit 2 (e AND 0x3F) OR (x AND 0x03)) AND 0xFC) = (e :: u8) AND 0x3F"
proof -
  have c: "(0xFC :: u8) = push_bit 2 (mask 6)" "(0x3F :: u8) = mask 6" "(0x03 :: u8) = mask 2"
    by (simp_all add: mask_eq_exp_minus_1)
  show ?thesis unfolding c by (rule bit_word_eqI) (auto simp: bit_simps)
qed

lemma remb_mantissa_field:
  assumes "unat (m :: u64) \<le> 0x3FFFF"
  defines "n \<equiv> (ucast m :: u32)"
  shows "ucast (be32 0 ((push_bit 2 (e AND 0x3F) OR (ucast (drop_bit 16 n) AND 0x03)) AND 0x03)
      (ucast (drop_bit 8 n AND 0xFF)) (ucast (n AND 0xFF))) = m"
proof -
  have "unat m < 2 ^ 18" using assms by simp
  then have m: "take_bit 18 m = m" by (rule take_bit_small)
  have bm: "bit m k \<longleftrightarrow> k < 18 \<and> bit m k" for k
    using bit_take_bit_iff [of 18 m k] unfolding m .
  have c: "(0xFF :: u32) = mask 8" "(0x03 :: u8) = mask 2" "(0x3F :: u8) = mask 6"
    by (simp_all add: mask_eq_exp_minus_1)
  have a: "(push_bit 2 (e AND mask 6) OR (ucast (drop_bit 16 n) AND mask 2)) AND mask 2
      = (ucast (drop_bit 16 n) AND mask 2 :: u8)"
    by (rule bit_word_eqI) (auto simp: bit_simps)
  show ?thesis unfolding c a be32_def
  proof (rule bit_word_eqI)
    fix k assume "k < LENGTH(64)"
    consider "k < 8" | "8 \<le> k" "k < 16" | "16 \<le> k" "k < 18" | "18 \<le> k" by linarith
    then show "bit (ucast (push_bit 24 (ucast (0::u8)) OR
        push_bit 16 (ucast (ucast (drop_bit 16 n) AND mask 2 :: u8)) OR
        push_bit 8 (ucast (ucast (drop_bit 8 n AND mask 8) :: u8)) OR
        ucast (ucast (n AND mask 8) :: u8) :: u32) :: u64) k = bit m k"
      using bm [of k] by cases (auto simp: n_def bit_simps)
  qed
qed

lemma parse_build_remb:
  assumes "build_remb_body r = Ok body"
  shows "parse_remb_body body = Ok (wire_remb r)"
proof -
  obtain m e where s: "remb_scale (bitrate_bps r) 0 = (m, e)" by fastforce
  from remb_scale_spec [OF s] obtain j where m: "m = drop_bit j (bitrate_bps r)" "e = of_nat j"
    and small: "unat m \<le> 0x3FFFF" and "j = 0 \<or> 0x20000 \<le> unat m"
    by auto
  then have j: "j \<le> 46" using remb_shift_bound by blast
  have "(0x3F :: u8) = mask 6" by (simp add: mask_eq_exp_minus_1)
  moreover have "take_bit 6 e = e" by (rule take_bit_small) (use j m(2) in simp)
  ultimately have "e AND 0x3F = e" by (simp only: flip: take_bit_eq_mask)
  define b13 where "b13 = push_bit 2 (e AND 0x3F) OR (ucast (drop_bit 16 (ucast m :: u32)) AND 0x03)"
  define b14 where "b14 = (ucast (drop_bit 8 (ucast m :: u32) AND 0xFF) :: u8)"
  define b15 where "b15 = (ucast ((ucast m :: u32) AND 0xFF) :: u8)"
  have fields: "drop_bit 2 (b13 AND 0xFC) = e" "ucast (be32 0 (b13 AND 0x03) b14 b15) = m"
    using remb_exponent_field [of e] remb_mantissa_field [OF small, of e] \<open>e AND 0x3F = e\<close>
    by (simp_all only: b13_def b14_def b15_def)
  let ?pre = "u32_be (remb_sender_ssrc r) @ u32_be 0 @ REMB_tag @ [of_nat (length (remb_ssrcs r)), b13, b14, b15]"
  have n: "length (remb_ssrcs r) \<le> 255" and body: "body = ?pre @ concat (map u32_be (remb_ssrcs r))"
    using assms s by (auto simp: build_remb_body_def b13_def b14_def b15_def Let_def split: if_splits)
  have "length REMB_tag = 4" by (simp add: REMB_tag_def)
  then show ?thesis
    using n parse_ssrcs_build [of LengthMismatch "remb_ssrcs r" ?pre "[]"] s
    by (simp add: body parse_remb_body_def read_simps fields fields(1) [simplified] wire_remb_def remb_round_def)
qed

text \<open>The rounding goes down, by less than one part in $2^{17}$, and not at all below $2^{18}$.\<close>

lemma remb_round_bounds:
  "unat (remb_round b) \<le> unat b"
  "(unat b - unat (remb_round b)) * 0x20000 \<le> unat b"
  "unat b \<le> 0x3FFFF \<Longrightarrow> remb_round b = b"
proof -
  obtain m e where s: "remb_scale b 0 = (m, e)" by fastforce
  from remb_scale_spec [OF s] obtain j where m: "m = drop_bit j b" "e = of_nat j"
    and big: "j = 0 \<or> 0x20000 \<le> unat m"
    by auto
  then have j: "j \<le> 46" using remb_shift_bound by blast
  have um: "unat m = unat b div 2 ^ j" by (simp only: m unat_drop_bit_div)
  have le: "unat m * 2 ^ j \<le> unat b" by (simp add: um)
  then have "unat m * 2 ^ j < 2 ^ LENGTH(64)"
    using unsigned_less [of b, where ?'a = nat] by (rule le_less_trans)
  then have r: "unat (remb_round b) = unat m * 2 ^ j"
    using j by (simp add: remb_round_def s m(2) unat_push_bit_small)
  show "unat (remb_round b) \<le> unat b" using le r by simp
  have rest: "unat b - unat (remb_round b) = unat b mod 2 ^ j"
    by (simp add: r um minus_div_mult_eq_mod)
  show "(unat b - unat (remb_round b)) * 0x20000 \<le> unat b"
  proof (cases "j = 0")
    case False
    then have "0x20000 * 2 ^ j \<le> unat m * 2 ^ j" using big by simp
    moreover have "unat b mod 2 ^ j * 0x20000 \<le> 2 ^ j * 0x20000"
      by (intro mult_right_mono less_imp_le mod_less_divisor) simp_all
    ultimately show ?thesis using le unfolding rest by linarith
  qed (simp add: rest)
  show "remb_round b = b" if "unat b \<le> 0x3FFFF"
    using that by (simp add: remb_round_def remb_scale.simps word_less_nat_alt)
qed

section \<open>SDES and BYE\<close>

definition sdes_item_fits :: "sdes_item \<Rightarrow> bool" where
  "sdes_item_fits i \<longleftrightarrow> sdes_ty i \<noteq> 0 \<and> length (sdes_text i) \<le> 255 \<and> utf8_valid (sdes_text i)"

lemma sdes_items_build:
  assumes "\<forall>i \<in> set its. sdes_item_fits i"
  shows "sdes_items (pre @ concat (map build_sdes_item its) @ 0 # suf) (length pre)
    = Ok (its, sdes_skip (pre @ concat (map build_sdes_item its) @ 0 # suf)
                 (length pre + length (concat (map build_sdes_item its)) + 1))"
  using assms
proof (induction its arbitrary: pre)
  case (Cons i its)
  then show ?case using Cons.IH [of "pre @ build_sdes_item i"]
    by (simp add: sdes_items.simps [of _ "length pre"] build_sdes_item_def read_simps sdes_item_fits_def
        add.assoc)
qed (simp add: sdes_items.simps read_simps)

lemma pad_len_Suc: "n mod 4 \<noteq> 0 \<Longrightarrow> pad_len n = Suc (pad_len (Suc n))"
proof -
  assume "n mod 4 \<noteq> 0"
  then consider "n mod 4 = 1" | "n mod 4 = 2" | "n mod 4 = 3" by linarith
  then show ?thesis by cases (simp_all add: pad_len_def mod_Suc)
qed

lemma sdes_skip_pad: "n + pad_len n \<le> length body \<Longrightarrow> sdes_skip body n = n + pad_len n"
proof (induction body n rule: sdes_skip.induct)
  case (1 body n)
  then show ?case
    by (cases "n mod 4 = 0") (simp_all add: sdes_skip.simps [of body n] pad_len_Suc dvd_eq_mod_eq_0)
qed

lemma build_sdes_chunk_rel:
  "4 dvd length body \<Longrightarrow> build_sdes_chunk c body = body @ build_sdes_chunk c []"
  by (simp add: build_sdes_chunk_def Let_def)

lemma build_sdes_chunk_aligned: "4 dvd length (build_sdes_chunk c [])"
  by (simp add: build_sdes_chunk_def Let_def flip: add.assoc)

lemma build_sdes_chunks_rel:
  "4 dvd length body \<Longrightarrow> fold build_sdes_chunk cs body = body @ concat (map (\<lambda>c. build_sdes_chunk c []) cs)"
proof (induction cs arbitrary: body)
  case (Cons c cs)
  then show ?case using Cons.IH [of "body @ build_sdes_chunk c []"]
    by (simp add: build_sdes_chunk_rel [of body] build_sdes_chunk_aligned)
qed simp

lemma sdes_chunks_build:
  assumes "\<forall>c \<in> set cs. \<forall>i \<in> set (items c). sdes_item_fits i" and "4 dvd length pre"
  shows "sdes_chunks (length cs) (pre @ concat (map (\<lambda>c. build_sdes_chunk c []) cs)) (length pre) = Ok cs"
  using assms
proof (induction cs arbitrary: pre)
  case (Cons c cs)
  define w where "w = u32_be (chunk_ssrc c) @ concat (map build_sdes_item (items c)) @ [0]"
  define tl where "tl = concat (map (\<lambda>c. build_sdes_chunk c []) cs)"
  have chunk: "build_sdes_chunk c [] = w @ replicate (pad_len (length w)) 0"
    by (simp add: build_sdes_chunk_def w_def Let_def)
  let ?body = "pre @ build_sdes_chunk c [] @ tl"
  have pad: "pad_len (length pre + length w) = pad_len (length w)"
    using Cons.prems(2) by simp
  have "sdes_skip ?body (length pre + length w) = length (pre @ build_sdes_chunk c [])"
    using sdes_skip_pad [of "length pre + length w" ?body] by (simp add: chunk pad)
  then have its: "sdes_items ?body (length pre + 4) = Ok (items c, length (pre @ build_sdes_chunk c []))"
    using sdes_items_build [of "items c" "pre @ u32_be (chunk_ssrc c)" "replicate (pad_len (length w)) 0 @ tl"]
      Cons.prems(1) by (simp add: chunk w_def ac_simps)
  have "at32 ?body (length pre) = (Ok (chunk_ssrc c) :: rtp_error fault + u32)"
    and "4 \<le> length (build_sdes_chunk c [])"
    by (simp_all add: chunk w_def read_simps)
  with its Cons.IH [of "pre @ build_sdes_chunk c []"] Cons.prems show ?case
    by (simp add: tl_def [symmetric] build_sdes_chunk_aligned)
qed simp

lemma parse_build_sdes:
  assumes "\<forall>c \<in> set (chunks s). \<forall>i \<in> set (items c). sdes_item_fits i" and "length (chunks s) < 256"
  shows "parse_sdes (of_nat (length (chunks s))) (build_sdes_body s) = Ok s"
  using sdes_chunks_build [OF assms(1), of "[]"] assms(2) build_sdes_chunks_rel [of "[]" "chunks s"]
  by (simp add: parse_sdes_def build_sdes_body_def)

lemma build_sdes_body_aligned: "4 dvd length (build_sdes_body s)"
proof -
  have "4 dvd length (concat (map (\<lambda>c. build_sdes_chunk c []) cs))" for cs
    by (induction cs) (simp_all add: build_sdes_chunk_aligned)
  then show ?thesis by (simp add: build_sdes_body_def build_sdes_chunks_rel)
qed

lemma parse_build_goodbye:
  assumes "length (sources b) < 256"
    and "case reason b of Some r \<Rightarrow> length r \<le> 255 \<and> utf8_valid r | None \<Rightarrow> pad = []"
  shows "parse_goodbye (of_nat (length (sources b))) (build_goodbye_body b @ pad) = Ok b"
proof (cases "reason b")
  case None
  with assms parse_ssrcs_build [of PacketTooShort "sources b" "[]" "[]"] show ?thesis
    by (simp add: parse_goodbye_def build_goodbye_body_def)
next
  case (Some r)
  with assms parse_ssrcs_build [of PacketTooShort "sources b" "[]" "of_nat (length r) # r @ pad"]
  show ?thesis
    by (simp add: parse_goodbye_def build_goodbye_body_def Let_def read_simps min_absorb1)
qed

end
