(* ===== verification/Framing.thy ===== *)
theory Framing
  imports Prelude
begin

text \<open>
  The interface of the length-delimited formats of the library. A message is a sequence of frames;
  the decoder is a loop that takes one frame off the front and goes on with the rest. The locale
  \<open>framing\<close> states what such a loop promises of one frame, and shows once for all that it then reads
  back the concatenation of frames, and that a frame cannot be confused with what follows it.
  It is interpreted for the RTCP compound packet (\<open>Rtcp\<close>), the attributes of a STUN message
  (\<open>Stun\<close>) and the records of a DTLS datagram (\<open>Dtls_Record\<close>).
\<close>

locale framing =
  fixes item :: "bytes \<Rightarrow> 'e fault + ('b list \<times> bytes)"
    and loop :: "bytes \<Rightarrow> 'e fault + 'b list"
    and wire :: "'a \<Rightarrow> bytes"
    and val :: "'a \<Rightarrow> 'b list"
    and fits :: "'a \<Rightarrow> bool"
  assumes item_wire: "fits x \<Longrightarrow> item (wire x @ rest) = Ok (val x, rest)"
    and loop_end: "loop [] = Ok []"
    and loop_item: "item bs = Ok (vs, rest) \<Longrightarrow> loop bs = rbind (loop rest) (\<lambda>ws. Ok (vs @ ws))"
begin

lemma loop_wire_append:
  assumes "\<forall>x \<in> set xs. fits x"
  shows "loop (concat (map wire xs) @ rest)
    = rbind (loop rest) (\<lambda>ws. Ok (concat (map val xs) @ ws))"
  using assms
proof (induction xs)
  case Nil
  then show ?case by (cases "loop rest") simp_all
next
  case (Cons x xs)
  then have "loop (wire x @ concat (map wire xs) @ rest)
      = rbind (loop (concat (map wire xs) @ rest)) (\<lambda>ws. Ok (val x @ ws))"
    by (intro loop_item item_wire) simp
  with Cons show ?case by (simp add: rbind_assoc)
qed

lemma loop_wire: "\<forall>x \<in> set xs. fits x \<Longrightarrow> loop (concat (map wire xs)) = Ok (concat (map val xs))"
  using loop_wire_append [of xs "[]"] by (simp add: loop_end)

lemma wire_prefix_free:
  assumes "fits x" and "fits y" and "wire x @ r = wire y @ s"
  shows "val x = val y \<and> r = s"
  using item_wire [OF assms(1), of r] item_wire [OF assms(2), of s] assms(3) by simp

lemma wire_sequence_inj:
  assumes "\<forall>x \<in> set xs. fits x" and "\<forall>y \<in> set ys. fits y"
    and "concat (map wire xs) = concat (map wire ys)"
  shows "concat (map val xs) = concat (map val ys)"
  using loop_wire [OF assms(1)] loop_wire [OF assms(2)] assms(3) by simp

end

end
