(* ===== verification/Rtcp.thy ===== *)
theory Rtcp
  imports Rtcp_Feedback Framing
begin

text \<open>
  The RTCP compound packet of \<open>src/rtp.rs\<close>: the enum \<open>RtcpPacket\<close>, \<open>parse_rtcp_packets\<close> with its
  dispatch on packet type and feedback format, \<open>marshal_rtcp_packets\<close>, \<open>write_rtcp_packet\<close>, and the
  test \<open>is_rtcp\<close> that separates RTCP from RTP on a shared port. The properties are that marshalling
  then parsing returns what the wire can carry of every packet, and that parsing never panics.
\<close>

unbundle bit_operations_syntax

section \<open>Data\<close>

datatype rtcp_packet =
    SenderReport sender_report
  | ReceiverReport receiver_report
  | SourceDescription source_description
  | Goodbye goodbye
  | PictureLossIndication picture_loss_indication
  | FullIntraRequest full_intra_request
  | GenericNack generic_nack
  | RemoteBitrateEstimate remote_bitrate_estimate
  | TransportWideCc transport_wide_cc

definition RTCP_SR :: u8 where "RTCP_SR = 200"
definition RTCP_RR :: u8 where "RTCP_RR = 201"
definition RTCP_SDES :: u8 where "RTCP_SDES = 202"
definition RTCP_BYE :: u8 where "RTCP_BYE = 203"
definition RTCP_RTPFB :: u8 where "RTCP_RTPFB = 205"
definition RTCP_PSFB :: u8 where "RTCP_PSFB = 206"
definition RTCP_RTPFB_NACK :: u8 where "RTCP_RTPFB_NACK = 1"
definition RTCP_RTPFB_TWCC :: u8 where "RTCP_RTPFB_TWCC = 15"
definition RTCP_PSFB_PLI :: u8 where "RTCP_PSFB_PLI = 1"
definition RTCP_PSFB_FIR :: u8 where "RTCP_PSFB_FIR = 4"
definition RTCP_PSFB_APP :: u8 where "RTCP_PSFB_APP = 15"

lemmas rtcp_types = RTCP_SR_def RTCP_RR_def RTCP_SDES_def RTCP_BYE_def RTCP_RTPFB_def RTCP_PSFB_def
  RTCP_RTPFB_NACK_def RTCP_RTPFB_TWCC_def RTCP_PSFB_PLI_def RTCP_PSFB_FIR_def RTCP_PSFB_APP_def

section \<open>Parsing\<close>

definition parse_rtcp_rtpfb :: "u8 \<Rightarrow> bytes \<Rightarrow> rtp_error fault + rtcp_packet" where
  "parse_rtcp_rtpfb fmt body =
     (if fmt = RTCP_RTPFB_NACK then rbind (parse_nack_body body) (\<lambda>n. Ok (GenericNack n))
      else if fmt = RTCP_RTPFB_TWCC then rbind (parse_twcc_body body) (\<lambda>t. Ok (TransportWideCc t))
      else Fail (InvalidRtcp ''unsupported RTP feedback format''))"

definition parse_rtcp_psfb :: "u8 \<Rightarrow> bytes \<Rightarrow> rtp_error fault + rtcp_packet" where
  "parse_rtcp_psfb fmt body =
     (if fmt = RTCP_PSFB_PLI then rbind (parse_psfb_common body) (\<lambda>p. Ok (PictureLossIndication p))
      else if fmt = RTCP_PSFB_FIR then rbind (parse_fir_body body) (\<lambda>f. Ok (FullIntraRequest f))
      else if fmt = RTCP_PSFB_APP then rbind (parse_remb_body body) (\<lambda>r. Ok (RemoteBitrateEstimate r))
      else Fail (InvalidRtcp ''unsupported payload feedback format''))"

text \<open>The packets that one sub-packet contributes: one, or none for XR and unknown types.\<close>

definition parse_rtcp_body :: "u8 \<Rightarrow> u8 \<Rightarrow> bytes \<Rightarrow> rtp_error fault + rtcp_packet list" where
  "parse_rtcp_body pt fmt body =
     (if pt = RTCP_SR then rbind (parse_sender_report fmt body) (\<lambda>p. Ok [SenderReport p])
      else if pt = RTCP_RR then rbind (parse_receiver_report fmt body) (\<lambda>p. Ok [ReceiverReport p])
      else if pt = RTCP_SDES then rbind (parse_sdes fmt body) (\<lambda>p. Ok [SourceDescription p])
      else if pt = RTCP_BYE then rbind (parse_goodbye fmt body) (\<lambda>p. Ok [Goodbye p])
      else if pt = RTCP_RTPFB then rbind (parse_rtcp_rtpfb fmt body) (\<lambda>p. Ok [p])
      else if pt = RTCP_PSFB then rbind (parse_rtcp_psfb fmt body) (\<lambda>p. Ok [p])
      else Ok [])"

text \<open>The end of the body of the sub-packet at \<open>offset\<close>, its padding taken off.\<close>

definition rtcp_body_end :: "bytes \<Rightarrow> nat \<Rightarrow> bool \<Rightarrow> nat \<Rightarrow> rtp_error fault + nat" where
  "rtcp_body_end raw offset padding packet_len =
     (let body_len = packet_len - 4; body_end = offset + packet_len
      in if padding then
           rbind (at8 raw (body_end - 1)) (\<lambda>pad.
             if unat pad = 0 \<or> unat pad > body_len
             then Fail (InvalidRtcp ''invalid padding in RTCP packet'')
             else Ok (body_end - unat pad))
         else Ok body_end)"

function parse_rtcp_from :: "bytes \<Rightarrow> nat \<Rightarrow> rtp_error fault + rtcp_packet list" where
  "parse_rtcp_from raw offset =
     (if offset + 4 \<le> length raw then
        rbind (at8 raw offset) (\<lambda>vrc.
        if drop_bit 6 vrc \<noteq> RTP_VERSION then Fail (InvalidRtcp ''invalid RTCP version'')
        else rbind (at8 raw (offset + 1)) (\<lambda>pt. rbind (at16 raw (offset + 2)) (\<lambda>length_words.
          let packet_len = (unat length_words + 1) * 4
          in if length raw < offset + packet_len then Fail LengthMismatch
             else rbind (rtcp_body_end raw offset (vrc AND 0x20 \<noteq> 0) packet_len) (\<lambda>body_end.
               rbind (slice raw (offset + 4) body_end) (\<lambda>body.
               rbind (parse_rtcp_body pt (vrc AND 0x1F) body) (\<lambda>ps.
               rbind (parse_rtcp_from raw (offset + packet_len)) (\<lambda>rest. Ok (ps @ rest))))))))
      else Ok [])"
  by pat_completeness auto
termination
  by (relation "measure (\<lambda>(raw, offset). length raw - offset)") auto

declare parse_rtcp_from.simps [simp del]

definition parse_rtcp_packets :: "bytes \<Rightarrow> rtp_error fault + rtcp_packet list" where
  "parse_rtcp_packets raw = parse_rtcp_from raw 0"

definition is_rtcp :: "bytes \<Rightarrow> bool" where
  "is_rtcp packet \<longleftrightarrow> length packet \<ge> 2 \<and> 192 \<le> packet ! 1 \<and> packet ! 1 \<le> 208"

section \<open>Marshalling\<close>

definition write_rtcp_packet :: "u8 \<Rightarrow> u8 \<Rightarrow> bytes \<Rightarrow> bytes" where
  "write_rtcp_packet fmt pt body =
     (let body = body @ replicate (pad_len (length body)) 0;
          len = of_nat ((length body + 4) div 4 - 1) :: u16
      in [push_bit 6 RTP_VERSION OR (fmt AND 0x1F), pt] @ u16_be len @ body)"

text \<open>Format, type and body of a packet, as the match of \<open>marshal_rtcp_packets\<close> chooses them.\<close>

fun rtcp_body :: "rtcp_packet \<Rightarrow> rtp_error fault + (u8 \<times> u8 \<times> bytes)" where
  "rtcp_body (SenderReport sr) =
     rbind (build_sender_report_body sr) (\<lambda>b. Ok (of_nat (length (sr_report_blocks sr)), RTCP_SR, b))"
| "rtcp_body (ReceiverReport rr) =
     rbind (build_receiver_report_body rr) (\<lambda>b. Ok (of_nat (length (rr_report_blocks rr)), RTCP_RR, b))"
| "rtcp_body (SourceDescription sdes) = Ok (of_nat (length (chunks sdes)), RTCP_SDES, build_sdes_body sdes)"
| "rtcp_body (Goodbye bye) = Ok (of_nat (length (sources bye)), RTCP_BYE, build_goodbye_body bye)"
| "rtcp_body (PictureLossIndication pli) =
     Ok (RTCP_PSFB_PLI, RTCP_PSFB, build_psfb_common (pli_sender_ssrc pli) (pli_media_ssrc pli))"
| "rtcp_body (FullIntraRequest fir) = Ok (RTCP_PSFB_FIR, RTCP_PSFB, build_fir_body fir)"
| "rtcp_body (GenericNack nack) =
     rbind (build_nack_body nack) (\<lambda>b. Ok (RTCP_RTPFB_NACK, RTCP_RTPFB, b))"
| "rtcp_body (RemoteBitrateEstimate remb) =
     rbind (build_remb_body remb) (\<lambda>b. Ok (RTCP_PSFB_APP, RTCP_PSFB, b))"
| "rtcp_body (TransportWideCc twcc) = Ok (RTCP_RTPFB_TWCC, RTCP_RTPFB, build_twcc_body twcc)"

fun marshal_rtcp_packets :: "rtcp_packet list \<Rightarrow> rtp_error fault + bytes" where
  "marshal_rtcp_packets [] = Ok []"
| "marshal_rtcp_packets (p # ps) =
     rbind (rtcp_body p) (\<lambda>(fmt, pt, body).
     rbind (marshal_rtcp_packets ps) (\<lambda>out. Ok (write_rtcp_packet fmt pt body @ out)))"

section \<open>One sub-packet at a time\<close>

text \<open>What the wire keeps of a packet, and the packets it can carry: the five-bit counts, the
  eight-bit text lengths and the sixteen-bit packet length are the limits.\<close>

fun wire_value :: "rtcp_packet \<Rightarrow> rtcp_packet" where
  "wire_value (SenderReport sr) = SenderReport (wire_sr sr)"
| "wire_value (ReceiverReport rr) = ReceiverReport (wire_rr rr)"
| "wire_value (GenericNack n) = GenericNack (wire_nack n)"
| "wire_value (RemoteBitrateEstimate r) = RemoteBitrateEstimate (wire_remb r)"
| "wire_value (TransportWideCc t) = TransportWideCc
     (t\<lparr>reference_time_64ms := reference_time_64ms t AND 0x00FFFFFF,
        twcc_payload := twcc_payload t @ replicate (pad_len (length (twcc_payload t))) 0\<rparr>)"
| "wire_value p = p"

fun rtcp_counts_ok :: "rtcp_packet \<Rightarrow> bool" where
  "rtcp_counts_ok (SenderReport sr) = (length (sr_report_blocks sr) < 32)"
| "rtcp_counts_ok (ReceiverReport rr) = (length (rr_report_blocks rr) < 32)"
| "rtcp_counts_ok (SourceDescription s) =
     (length (chunks s) < 32 \<and> (\<forall>c \<in> set (chunks s). \<forall>i \<in> set (items c). sdes_item_fits i))"
| "rtcp_counts_ok (Goodbye b) =
     (length (sources b) < 32 \<and>
      (case reason b of Some r \<Rightarrow> length r \<le> 255 \<and> utf8_valid r | None \<Rightarrow> True))"
| "rtcp_counts_ok p = True"

definition rtcp_fits :: "rtcp_packet \<Rightarrow> bool" where
  "rtcp_fits p \<longleftrightarrow> rtcp_counts_ok p \<and>
     (case rtcp_body p of Inr (fmt, pt, body) \<Rightarrow> length body \<le> 4 * 65535 | Inl _ \<Rightarrow> False)"

definition rtcp_wire :: "rtcp_packet \<Rightarrow> bytes" where
  "rtcp_wire p = (case rtcp_body p of Inr (fmt, pt, body) \<Rightarrow> write_rtcp_packet fmt pt body | Inl _ \<Rightarrow> [])"

text \<open>One round of the parser on the front of the buffer.\<close>

definition rtcp_item :: "bytes \<Rightarrow> rtp_error fault + (rtcp_packet list \<times> bytes)" where
  "rtcp_item raw =
     (if length raw < 4 then Fail PacketTooShort
      else rbind (at8 raw 0) (\<lambda>vrc.
        if drop_bit 6 vrc \<noteq> RTP_VERSION then Fail (InvalidRtcp ''invalid RTCP version'')
        else rbind (at8 raw 1) (\<lambda>pt. rbind (at16 raw 2) (\<lambda>length_words.
          let packet_len = (unat length_words + 1) * 4
          in if length raw < packet_len then Fail LengthMismatch
             else rbind (rtcp_body_end raw 0 (vrc AND 0x20 \<noteq> 0) packet_len) (\<lambda>body_end.
               rbind (slice raw 4 body_end) (\<lambda>body.
               rbind (parse_rtcp_body pt (vrc AND 0x1F) body) (\<lambda>ps.
               Ok (ps, drop packet_len raw))))))))"

lemma rtcp_body_end_shift:
  "4 \<le> n \<Longrightarrow> k + n \<le> length bs \<Longrightarrow>
   rtcp_body_end (pre @ bs) (length pre + k) pad n = rbind (rtcp_body_end bs k pad n) (\<lambda>e. Ok (length pre + e))"
  by (auto simp: rtcp_body_end_def Let_def read_simps add.assoc rbind_assoc intro!: rbind_cong)

lemma rtcp_body_end_ge: "rtcp_body_end bs k pad n = Ok e \<Longrightarrow> 4 \<le> n \<Longrightarrow> k + 4 \<le> e \<and> e \<le> k + n"
  by (auto simp: rtcp_body_end_def Let_def rbind_Inr_iff split: if_splits)

lemma parse_rtcp_from_shift: "parse_rtcp_from (pre @ bs) (length pre + k) = parse_rtcp_from bs k"
proof (induction bs k rule: parse_rtcp_from.induct)
  case (1 bs k)
  show ?case
    by (subst parse_rtcp_from.simps [of bs], subst parse_rtcp_from.simps)
      (auto simp: Let_def rtcp_body_end_shift rbind_assoc read_simps add.assoc 1
        intro!: rbind_cong dest: rtcp_body_end_ge)
qed

lemma parse_rtcp_item:
  assumes "rtcp_item bs = Ok (vs, rest)"
  shows "parse_rtcp_packets bs = rbind (parse_rtcp_packets rest) (\<lambda>ws. Ok (vs @ ws))"
proof -
  have "parse_rtcp_from bs n = parse_rtcp_from (drop n bs) 0" if "0 < n" "n \<le> length bs" for n
    using parse_rtcp_from_shift [of "take n bs" "drop n bs" 0] that by (simp add: min_absorb2)
  moreover obtain vrc pt w e body where "4 \<le> length bs" "at8 bs 0 = (Ok vrc :: rtp_error fault + u8)"
    "drop_bit 6 vrc = RTP_VERSION" "at8 bs 1 = (Ok pt :: rtp_error fault + u8)"
    "at16 bs 2 = (Ok w :: rtp_error fault + u16)" "(unat w + 1) * 4 \<le> length bs"
    "rtcp_body_end bs 0 (vrc AND 0x20 \<noteq> 0) ((unat w + 1) * 4) = Ok e"
    "slice bs 4 e = (Ok body :: rtp_error fault + bytes)"
    "parse_rtcp_body pt (vrc AND 0x1F) body = Ok vs" "rest = drop ((unat w + 1) * 4) bs"
    using assms unfolding rtcp_item_def rbind_Inr_iff Let_def
    by (auto simp: rbind_Inr_iff split: if_splits)
  ultimately show ?thesis
    unfolding parse_rtcp_packets_def by (subst parse_rtcp_from.simps) (simp add: numeral_2_eq_2)
qed

lemma rtcp_first_byte:
  assumes "fmt < 32"
  defines "b \<equiv> push_bit 6 RTP_VERSION OR (fmt AND 0x1F)"
  shows "drop_bit 6 b = RTP_VERSION" "b AND 0x20 = 0" "b AND 0x1F = fmt"
proof -
  have b: "b = 2 ^ 7 OR take_bit 5 fmt"
    by (simp add: b_def RTP_VERSION_def take_bit_eq_mask mask_eq_exp_minus_1)
  have c: "(0x20 :: u8) = 2 ^ 5" "(0x1F :: u8) = mask 5" "RTP_VERSION = 2 ^ 1"
    by (simp_all add: mask_eq_exp_minus_1 RTP_VERSION_def)
  note bits = bit_or_iff bit_and_iff bit_exp_u8 bit_take_bit_iff bit_drop_bit_eq comp_def bit_mask_u8
    bit_0_eq bot_apply bot_bool_def
  have f: "take_bit 5 fmt = fmt"
    using assms(1) by (intro take_bit_small) (simp add: word_less_nat_alt)
  show "drop_bit 6 b = RTP_VERSION" unfolding b c
    by (rule bit_word_eqI, simp only: bits, auto)
  show "b AND 0x20 = 0" unfolding b c
    by (rule bit_word_eqI, simp only: bits, auto)
  have "b AND 0x1F = take_bit 5 fmt" unfolding b c
    by (rule bit_word_eqI, simp only: bits, auto simp: bit_mask_u8)
  then show "b AND 0x1F = fmt" by (simp only: f)
qed

lemma rtcp_item_write:
  assumes "length body \<le> 4 * 65535" and "fmt < 32"
  shows "rtcp_item (write_rtcp_packet fmt pt body @ rest)
    = rbind (parse_rtcp_body pt fmt (body @ replicate (pad_len (length body)) 0)) (\<lambda>ps. Ok (ps, rest))"
proof -
  define padded where "padded = body @ replicate (pad_len (length body)) 0"
  define b where "b = push_bit 6 RTP_VERSION OR (fmt AND 0x1F)"
  note byte = rtcp_first_byte [OF assms(2), folded b_def]
  have "4 dvd length padded" by (simp add: padded_def)
  then obtain k where k: "length padded = 4 * k" by blast
  have "length padded < 4 * 65536" 
    using assms(1) pad_len_less [of "length body"]
    unfolding padded_def length_append length_replicate by linarith
  then have k16: "k < 65536" using k by simp
  have wire: "write_rtcp_packet fmt pt body = [b, pt] @ u16_be (of_nat k) @ padded"
    using k by (simp add: write_rtcp_packet_def padded_def b_def Let_def)
  define X where "X = [b, pt] @ u16_be (of_nat k) @ padded"
  have "length X = 4 + k * 4" using k by (simp add: X_def)
  then have "drop (4 + k * 4) (X @ rest) = rest" by simp
  then have "drop (4 + k * 4) (b # pt # u16_be (of_nat k) @ padded @ rest) = rest"
    by (simp only: X_def append.simps append_assoc)
  then show ?thesis
    using k k16 byte unfolding wire padded_def [symmetric]
    by (simp add: rtcp_item_def Let_def read_simps rtcp_body_end_def)
qed

lemma rtcp_bodies_aligned:
  "build_sender_report_body sr = Ok body \<Longrightarrow> 4 dvd length body"
  "build_receiver_report_body rr = Ok body \<Longrightarrow> 4 dvd length body"
  "build_nack_body nack = Ok body \<Longrightarrow> 4 dvd length body"
  "build_remb_body remb = Ok body \<Longrightarrow> 4 dvd length body"
  "4 dvd length (build_psfb_common s m)"
  "4 dvd length (build_fir_body fir)"
  "reason bye = None \<Longrightarrow> 4 dvd length (build_goodbye_body bye)"
proof -
  have n: "4 dvd length (concat (map (\<lambda>(pid, blp). u16_be pid @ u16_be blp) ps))" for ps
    by (induction ps) (auto simp: split_beta dvd_eq_mod_eq_0 mod_Suc)
  have f: "4 dvd length (concat (map (\<lambda>e. u32_be (fir_ssrc e) @ [fir_sequence_number e] @ [0, 0, 0]) rs))" for rs
    by (induction rs) auto
  show "build_sender_report_body sr = Ok body \<Longrightarrow> 4 dvd length body"
    "build_receiver_report_body rr = Ok body \<Longrightarrow> 4 dvd length body"
    "build_nack_body nack = Ok body \<Longrightarrow> 4 dvd length body"
    "build_remb_body remb = Ok body \<Longrightarrow> 4 dvd length body"
    "4 dvd length (build_psfb_common s m)"
    "4 dvd length (build_fir_body fir)"
    "reason bye = None \<Longrightarrow> 4 dvd length (build_goodbye_body bye)"
    by (auto simp: n f [simplified] build_sender_report_body_def build_receiver_report_body_def build_nack_body_def
        build_remb_body_def build_psfb_common_def build_fir_body_def build_goodbye_body_def REMB_tag_def
        Let_def split_beta dvd_add split: if_splits)
qed

lemma small_count: "n < 32 \<Longrightarrow> (of_nat n :: u8) < 32"
  by (simp add: word_less_nat_alt)

lemma rtcp_body_parse:
  assumes "rtcp_counts_ok p" and "rtcp_body p = Ok (fmt, pt, body)"
  shows "fmt < 32"
    and "parse_rtcp_body pt fmt (body @ replicate (pad_len (length body)) 0) = Ok [wire_value p]"
proof -
  note defs = parse_rtcp_body_def parse_rtcp_rtpfb_def parse_rtcp_psfb_def rtcp_types
  have "fmt < 32 \<and> parse_rtcp_body pt fmt (body @ replicate (pad_len (length body)) 0) = Ok [wire_value p]"
  proof (cases p)
    case (SenderReport sr)
    with assms show ?thesis
      by (auto simp: rbind_Inr_iff rtcp_bodies_aligned parse_build_sender_report small_count defs)
  next
    case (ReceiverReport rr)
    with assms show ?thesis
      by (auto simp: rbind_Inr_iff rtcp_bodies_aligned parse_build_receiver_report small_count defs)
  next
    case (SourceDescription s)
    with assms show ?thesis
      by (auto simp: build_sdes_body_aligned parse_build_sdes small_count defs)
  next
    case (Goodbye b)
    with assms parse_build_goodbye [of b "replicate (pad_len (length body)) 0"] show ?thesis
      by (auto simp: rtcp_bodies_aligned small_count defs split: option.splits)
  next
    case (PictureLossIndication pli)
    with assms show ?thesis by (auto simp: rtcp_bodies_aligned parse_build_pli defs)
  next
    case (FullIntraRequest fir)
    with assms show ?thesis by (auto simp: rtcp_bodies_aligned parse_build_fir defs)
  next
    case (GenericNack n)
    with assms show ?thesis by (auto simp: rbind_Inr_iff rtcp_bodies_aligned parse_build_nack defs)
  next
    case (RemoteBitrateEstimate r)
    with assms show ?thesis by (auto simp: rbind_Inr_iff rtcp_bodies_aligned parse_build_remb defs)
  next
    case (TransportWideCc t)
    with assms have b: "body = build_twcc_body t" "fmt = 15" "pt = 205" by (auto simp: rtcp_types)
    have "length (build_twcc_body t) = 16 + length (twcc_payload t)" by (simp add: build_twcc_body_def)
    then have "pad_len (length body) = pad_len (length (twcc_payload t))" by (simp add: b)
    with b TransportWideCc show ?thesis by (simp add: parse_build_twcc defs)
  qed
  then show "fmt < 32"
    and "parse_rtcp_body pt fmt (body @ replicate (pad_len (length body)) 0) = Ok [wire_value p]" by auto
qed

interpretation rtcp: framing rtcp_item parse_rtcp_packets rtcp_wire "\<lambda>p. [wire_value p]" rtcp_fits
proof unfold_locales
  fix p rest assume fits: "rtcp_fits p"
  then obtain fmt pt body where body: "rtcp_body p = Ok (fmt, pt, body)" "length body \<le> 4 * 65535"
    and counts: "rtcp_counts_ok p"
    by (auto simp: rtcp_fits_def split: sum.splits)
  show "rtcp_item (rtcp_wire p @ rest) = Ok ([wire_value p], rest)"
    using rtcp_body_parse [OF counts body(1)] body
    by (simp add: rtcp_wire_def rtcp_item_write)
next
  show "parse_rtcp_packets [] = Ok []" by (simp add: parse_rtcp_packets_def parse_rtcp_from.simps)
next
  fix bs vs rest assume "rtcp_item bs = Ok (vs, rest)"
  then show "parse_rtcp_packets bs = rbind (parse_rtcp_packets rest) (\<lambda>ws. Ok (vs @ ws))"
    by (rule parse_rtcp_item)
qed

lemma marshal_rtcp_wire:
  "\<forall>p \<in> set ps. rtcp_fits p \<Longrightarrow> marshal_rtcp_packets ps = Ok (concat (map rtcp_wire ps))"
  by (induction ps) (auto simp: rtcp_fits_def rtcp_wire_def split: sum.splits)

section \<open>No input makes the parser panic\<close>

lemma parse_report_block_no_panic: "length bs = 24 \<Longrightarrow> parse_report_block bs \<noteq> Panicked"
  by (simp add: parse_report_block_def rbind_Inl_iff)

lemma parse_report_blocks_no_panic: "parse_report_blocks n body k \<noteq> Panicked"
proof (induction n arbitrary: k)
  case (Suc n)
  then show ?case
    by (auto simp: rbind_Inl_iff parse_report_block_no_panic dest!: slice_length)
qed simp

lemma sdes_items_no_panic: "sdes_items body k \<noteq> Panicked"
proof (induction body k rule: sdes_items.induct)
  case (1 body k)
  then show ?case
    by (subst sdes_items.simps) (auto simp: rbind_Inl_iff)
qed

lemma sdes_chunks_no_panic: "sdes_chunks n body k \<noteq> Panicked"
  by (induction n arbitrary: k) (auto simp: rbind_Inl_iff sdes_items_no_panic)

lemma parse_ssrcs_no_panic: "parse_ssrcs e n body k \<noteq> Panicked"
  by (induction n arbitrary: k) (auto simp: rbind_Inl_iff)

lemma parse_fir_requests_no_panic: "parse_fir_requests body k \<noteq> Panicked"
proof (induction body k rule: parse_fir_requests.induct)
  case (1 body k)
  then show ?case by (subst parse_fir_requests.simps) (auto simp: rbind_Inl_iff)
qed

lemma parse_nack_pairs_no_panic: "parse_nack_pairs body k \<noteq> Panicked"
proof (induction body k rule: parse_nack_pairs.induct)
  case (1 body k)
  then show ?case by (subst parse_nack_pairs.simps) (auto simp: rbind_Inl_iff)
qed

lemmas rtcp_loops_no_panic = parse_report_blocks_no_panic sdes_chunks_no_panic parse_ssrcs_no_panic
  parse_fir_requests_no_panic parse_nack_pairs_no_panic

lemma parse_rtcp_bodies_no_panic:
  "parse_sender_report fmt body \<noteq> Panicked" "parse_receiver_report fmt body \<noteq> Panicked"
  "parse_sdes fmt body \<noteq> Panicked" "parse_goodbye fmt body \<noteq> Panicked"
  "parse_psfb_common body \<noteq> Panicked" "parse_fir_body body \<noteq> Panicked"
  "parse_nack_body body \<noteq> Panicked" "parse_remb_body body \<noteq> Panicked" "parse_twcc_body body \<noteq> Panicked"
  by (auto simp: parse_sender_report_def parse_receiver_report_def parse_sdes_def parse_goodbye_def
      parse_psfb_common_def parse_fir_body_def parse_nack_body_def parse_remb_body_def
      parse_twcc_body_def rbind_Inl_iff rtcp_loops_no_panic Let_def)

lemma parse_rtcp_body_no_panic: "parse_rtcp_body pt fmt body \<noteq> Panicked"
  by (auto simp: parse_rtcp_body_def parse_rtcp_rtpfb_def parse_rtcp_psfb_def rbind_Inl_iff
      parse_rtcp_bodies_no_panic)

lemma rtcp_body_end_no_panic: "4 \<le> n \<Longrightarrow> k + n \<le> length raw \<Longrightarrow> rtcp_body_end raw k pad n \<noteq> Panicked"
  by (auto simp: rtcp_body_end_def Let_def rbind_Inl_iff)

lemma parse_rtcp_from_no_panic: "parse_rtcp_from raw k \<noteq> Panicked"
proof (induction raw k rule: parse_rtcp_from.induct)
  case (1 raw k)
  show ?case
    by (subst parse_rtcp_from.simps)
      (auto simp: rbind_Inl_iff Let_def parse_rtcp_body_no_panic rtcp_body_end_no_panic 1
        dest: rtcp_body_end_ge)
qed

section \<open>Properties\<close>

text \<open>
  C12: Marshalling a compound of RTCP packets and parsing the bytes returns the packets, with what the
  wire cannot carry normalised: a report block's loss counter saturated to 24 bits, the lost sequence
  numbers of a NACK sorted and without duplicates, the REMB bitrate rounded, the TWCC payload padded
  to 32 bits and its reference time reduced to 24. This holds for every list of packets whose counts
  fit the five-bit field, whose texts are valid UTF-8 of at most 255 bytes, and whose bodies fit the
  16-bit packet length.
\<close>

theorem rtcp_compound_roundtrip:
  assumes "\<forall>p \<in> set ps. rtcp_fits p"
  shows "\<exists>raw. marshal_rtcp_packets ps = Ok raw \<and> parse_rtcp_packets raw = Ok (map wire_value ps)"
  using rtcp.loop_wire [OF assms] marshal_rtcp_wire [OF assms] by simp

theorem rtcp_compound_roundtrip_witness:
  "\<exists>raw. marshal_rtcp_packets
       [GenericNack \<lparr>nack_sender_ssrc = 1, nack_media_ssrc = 2, lost_packets = [7, 3, 7, 40]\<rparr>,
        Goodbye \<lparr>sources = [1], reason = Some [0x62, 0x79, 0x65]\<rparr>] = Ok raw \<and>
     parse_rtcp_packets raw = Ok (map wire_value
       [GenericNack \<lparr>nack_sender_ssrc = 1, nack_media_ssrc = 2, lost_packets = [7, 3, 7, 40]\<rparr>,
        Goodbye \<lparr>sources = [1], reason = Some [0x62, 0x79, 0x65]\<rparr>])"
proof (rule rtcp_compound_roundtrip)
  have "utf8_valid [0x62, 0x79, 0x65]" by (rule utf8_valid_ascii) simp
  moreover have "length (pack_nack_pairs [7, 3, 7, 40]) = 2" by code_simp
  ultimately show "\<forall>p \<in> set [GenericNack \<lparr>nack_sender_ssrc = 1, nack_media_ssrc = 2, lost_packets = [7, 3, 7, 40]\<rparr>,
        Goodbye \<lparr>sources = [1], reason = Some [0x62, 0x79, 0x65]\<rparr>]. rtcp_fits p"
    by (simp add: rtcp_fits_def build_nack_body_def build_goodbye_body_def Let_def length_concat comp_def
        split_beta sum_list_triv)
qed

text \<open>
  C23: No input makes the RTCP parser panic: on every byte string it returns either the list of
  packets or an error, with every indexed read of the header, the padding byte, the report blocks, the
  SDES items and the feedback bodies within bounds.
\<close>

theorem parse_rtcp_total: "parse_rtcp_packets raw \<noteq> Panicked"
  unfolding parse_rtcp_packets_def by (rule parse_rtcp_from_no_panic)

text \<open>
  C13: Packing lost sequence numbers into (PID, BLP) pairs loses none and invents none: expanding the
  pairs the way the receiver does gives exactly the reported sequence numbers, ascending and once each.
\<close>

theorem nack_pairs_exact:
  "concat (map (\<lambda>(pid, blp). nack_expand pid blp) (pack_nack_pairs packets))
     = sorted_list_of_set (set packets)"
  by (rule pack_nack_pairs_expand)

text \<open>
  The bitrate that a receiver reads from a REMB message never exceeds the one that was sent, is
  below it by at most one part in 131072, and is the same below 262144 bits per second.
\<close>

lemma remb_bitrate_rounding:
  assumes "build_remb_body r = Ok body"
  shows "\<exists>q. parse_remb_body body = Ok q \<and> remb_ssrcs q = remb_ssrcs r
    \<and> unat (bitrate_bps q) \<le> unat (bitrate_bps r)
    \<and> (unat (bitrate_bps r) - unat (bitrate_bps q)) * 131072 \<le> unat (bitrate_bps r)
    \<and> (bitrate_bps r < 262144 \<longrightarrow> bitrate_bps q = bitrate_bps r)"
  using parse_build_remb [OF assms] remb_round_bounds [of "bitrate_bps r"]
  by (simp add: wire_remb_def word_less_nat_alt)

lemma remb_bitrate_rounding_witness:
  "\<exists>body q. build_remb_body \<lparr>remb_sender_ssrc = 1, bitrate_bps = 1000001, remb_ssrcs = [5]\<rparr> = Ok body
     \<and> parse_remb_body body = Ok q \<and> unat (bitrate_bps q) \<le> 1000001
     \<and> (1000001 - unat (bitrate_bps q)) * 131072 \<le> 1000001"
proof -
  obtain body where "build_remb_body \<lparr>remb_sender_ssrc = 1, bitrate_bps = 1000001, remb_ssrcs = [5]\<rparr> = Ok body"
    by (auto simp: build_remb_body_def Let_def split_beta)
  with remb_bitrate_rounding [OF this] show ?thesis by auto
qed

end
