(* ===== verification/Twcc.thy ===== *)
theory Twcc
  imports Rtcp Rtp_Ext "HOL-Library.Signed_Division"
begin

text \<open>
  Transport-wide congestion control: the feedback generator of \<open>src/media/twcc_feedback.rs\<close>
  (\<open>TwccFeedbackGenerator\<close>: \<open>observe\<close>, \<open>build_feedback\<close>, \<open>flush\<close>) and the decoder
  \<open>decode_twcc_feedback\<close> of \<open>src/rtp.rs\<close>. The main property is that the decoder recovers the arrival
  pattern that the generator encoded.
\<close>

unbundle bit_operations_syntax

section \<open>Decoding feedback\<close>

type_synonym twcc_report_entry = "u16 \<times> int option"

definition chunk_symbols :: "u16 \<Rightarrow> u8 list" where
  "chunk_symbols chunk =
     (if drop_bit 15 chunk = 0
      then replicate (unat (chunk AND 0x1FFF)) (ucast (drop_bit 13 chunk AND 3))
      else if drop_bit 14 chunk AND 1 = 0
      then map (\<lambda>i. if drop_bit (13 - i) chunk AND 1 = 0 then 1 else 0) [0..<14]
      else map (\<lambda>i. ucast (drop_bit (12 - 2 * i) chunk AND 3)) [0..<7])"

text \<open>The first loop: chunks are read while fewer symbols than announced have been seen; the result
  is the symbols and the offset behind the last chunk.\<close>

function decode_symbols :: "nat \<Rightarrow> bytes \<Rightarrow> nat \<Rightarrow> nat \<Rightarrow> u8 list \<times> nat" where
  "decode_symbols cnt p offset n =
     (if n < cnt \<and> offset + 1 < length p then
        let syms = chunk_symbols (be16 (p ! offset) (p ! (offset + 1)));
            (rest, offset) = decode_symbols cnt p (offset + 2) (n + length syms)
        in (syms @ rest, offset)
      else ([], offset))"
  by pat_completeness auto
termination
  by (relation "measure (\<lambda>(cnt, p, offset, n). length p - offset)") auto

declare decode_symbols.simps [simp del]

fun decode_deltas :: "u16 \<Rightarrow> bytes \<Rightarrow> nat \<Rightarrow> nat \<Rightarrow> u8 list \<Rightarrow> twcc_report_entry list" where
  "decode_deltas base p offset i [] = []"
| "decode_deltas base p offset i (sy # syms) =
     (let seq = base + of_nat i
      in if sy = 0 then (seq, None) # decode_deltas base p offset (i + 1) syms
         else if sy = 1 then
           (if offset < length p
            then (seq, Some (int (unat (p ! offset)) * 250)) # decode_deltas base p (offset + 1) (i + 1) syms
            else [])
         else
           (if offset + 1 < length p
            then (seq, Some (sint (be16 (p ! offset) (p ! (offset + 1))) * 250))
                   # decode_deltas base p (offset + 2) (i + 1) syms
            else []))"

definition decode_twcc_feedback :: "transport_wide_cc \<Rightarrow> twcc_report_entry list" where
  "decode_twcc_feedback fb =
     (let cnt = unat (packet_status_count fb);
          (symbols, offset) = decode_symbols cnt (twcc_payload fb) 0 0
      in decode_deltas (base_sequence fb) (twcc_payload fb) offset 0 (take cnt symbols))"

section \<open>The generator\<close>

datatype delta_size = Lost | Small int | Large int

record pending_record =
  pr_seq :: u16
  arrival_us :: u64

text \<open>The map of pending records is kept as an association list; draining it takes the entries in
  list order, which stands for the unspecified order of the hash map.\<close>

record twcc_feedback_generator =
  ext_id :: u8
  feedback_ssrc :: u32
  feedback_seq :: u16
  pending :: "(u32 \<times> pending_record list) list"
  packets_observed :: u64
  feedback_sent :: u64

definition MAX_STATUSES_PER_REPORT :: nat where
  "MAX_STATUSES_PER_REPORT = 480"

definition set_ext_id :: "u8 \<Rightarrow> twcc_feedback_generator \<Rightarrow> twcc_feedback_generator" where
  "set_ext_id eid g = g\<lparr>ext_id := eid\<rparr>"

definition set_feedback_ssrc :: "u32 \<Rightarrow> twcc_feedback_generator \<Rightarrow> twcc_feedback_generator" where
  "set_feedback_ssrc ss g = g\<lparr>feedback_ssrc := ss\<rparr>"

definition extract_tcc_seq :: "twcc_feedback_generator \<Rightarrow> rtp_packet \<Rightarrow> u16 option" where
  "extract_tcc_seq g packet =
     (if ext_id g = 0 then None
      else case get_extension (header packet) (ext_id g) of
        None \<Rightarrow> None
      | Some d \<Rightarrow> if length d < 2 then None else Some (be16 (d ! 0) (d ! 1)))"

text \<open>\<open>pending.entry(ssrc).or_default()\<close> followed by an update of the queue.\<close>

fun update_queue :: "u32 \<Rightarrow> ('q list \<Rightarrow> 'q list) \<Rightarrow> (u32 \<times> 'q list) list \<Rightarrow> (u32 \<times> 'q list) list" where
  "update_queue ss f [] = [(ss, f [])]"
| "update_queue ss f ((s, q) # m) = (if s = ss then (s, f q) # m else (s, q) # update_queue ss f m)"

definition observe :: "u64 \<Rightarrow> rtp_packet \<Rightarrow> twcc_feedback_generator \<Rightarrow> twcc_feedback_generator" where
  "observe now packet g =
     (case extract_tcc_seq g packet of
        None \<Rightarrow> g
      | Some seq \<Rightarrow>
          g\<lparr>packets_observed := packets_observed g + 1,
            pending := update_queue (ssrc (header packet))
              (\<lambda>q. if q \<noteq> [] \<and> pr_seq (last q) = seq then q
                   else q @ [\<lparr>pr_seq = seq, arrival_us = now\<rparr>]) (pending g)\<rparr>)"

definition symbol_bits :: "delta_size \<Rightarrow> u16" where
  "symbol_bits s = (case s of Lost \<Rightarrow> 0 | Small _ \<Rightarrow> 1 | Large _ \<Rightarrow> 2)"

definition delta_size_of :: "int \<Rightarrow> delta_size" where
  "delta_size_of delta_us =
     (let units = delta_us sdiv 250
      in if 0 \<le> units \<and> units \<le> 255 then Small delta_us
         else if -32768 \<le> units \<and> units \<le> 32767 then Large delta_us
         else Large (max (-8190000) (min 8191750 delta_us)))"

text \<open>The statuses with their deltas (\<open>u64\<close> saturating subtraction, read as \<open>i64\<close>).\<close>

fun statuses :: "u16 \<Rightarrow> u64 \<Rightarrow> pending_record list \<Rightarrow> (delta_size \<times> int option) list" where
  "statuses expected prev [] = []"
| "statuses expected prev (r # rs) =
     (let offset = pr_seq r - expected
      in if offset < 1000 then
           let delta_us = sint (if prev \<le> arrival_us r then arrival_us r - prev else 0)
           in replicate (unat offset) (Lost, None) @ (delta_size_of delta_us, Some delta_us)
                # statuses (pr_seq r + 1) (arrival_us r) rs
         else statuses expected prev rs)"

definition vector_chunk :: "delta_size list \<Rightarrow> u16" where
  "vector_chunk ss =
     fold (\<lambda>i chunk. chunk OR push_bit (12 - 2 * i) (if i < length ss then symbol_bits (ss ! i) else 0))
       [0..<7] (push_bit 14 3)"

text \<open>The chunk loop, on the statuses from index \<open>idx\<close> on.\<close>

function encode_chunks :: "delta_size list \<Rightarrow> bytes" where
  "encode_chunks [] = []"
| "encode_chunks (s # ss) =
     (let sy = symbol_bits s;
          run = 1 + length (takeWhile (\<lambda>t. symbol_bits t = sy) ss)
      in if run \<ge> 3
         then u16_be (push_bit 13 sy OR (of_nat run AND 0x1FFF)) @ encode_chunks (drop run (s # ss))
         else u16_be (vector_chunk (s # ss)) @ encode_chunks (drop 7 (s # ss)))"
  by pat_completeness auto
termination
  by (relation "measure length") auto

fun encode_deltas :: "(delta_size \<times> int option) list \<Rightarrow> bytes" where
  "encode_deltas [] = []"
| "encode_deltas ((Lost, _) # ds) = encode_deltas ds"
| "encode_deltas ((_, None) # ds) = encode_deltas ds"
| "encode_deltas ((Small _, Some us) # ds) = word_of_int (us sdiv 250) # encode_deltas ds"
| "encode_deltas ((Large _, Some us) # ds) = u16_be (word_of_int (us sdiv 250)) @ encode_deltas ds"

definition build_feedback :: "u32 \<Rightarrow> u32 \<Rightarrow> pending_record list \<Rightarrow> twcc_feedback_generator
    \<Rightarrow> transport_wide_cc option \<times> twcc_feedback_generator" where
  "build_feedback media_ssrc fb_ssrc records g =
     (case records of
        [] \<Rightarrow> (None, g)
      | r0 # _ \<Rightarrow>
          let ds = take MAX_STATUSES_PER_REPORT (statuses (pr_seq r0) (arrival_us r0) records)
          in (Some \<lparr>twcc_sender_ssrc = fb_ssrc, twcc_media_ssrc = media_ssrc,
                    base_sequence = pr_seq r0, packet_status_count = of_nat (length ds),
                    reference_time_64ms = ucast (arrival_us r0 div 64000) AND 0x00FFFFFF,
                    feedback_packet_count = ucast (feedback_seq g AND 0xFF),
                    twcc_payload = encode_chunks (map fst ds) @ encode_deltas ds\<rparr>,
              g\<lparr>feedback_seq := feedback_seq g + 1\<rparr>))"

text \<open>\<open>flush\<close>: the pending queues are drained and encoded in slices; \<open>send\<close> says whether the transport
  accepted a packet. The feedback packets handed to it are collected in order.\<close>

function slices :: "nat \<Rightarrow> 'r list \<Rightarrow> 'r list list" where
  "slices n rs = (if rs = [] \<or> n = 0 then [] else take n rs # slices n (drop n rs))"
  by pat_completeness auto
termination
  by (relation "measure (\<lambda>(n, rs). length rs)") auto

declare slices.simps [simp del]

definition flush_slice :: "(transport_wide_cc \<Rightarrow> bool) \<Rightarrow> u32 \<Rightarrow> u32 \<Rightarrow> pending_record list
    \<Rightarrow> transport_wide_cc list \<times> nat \<times> twcc_feedback_generator
    \<Rightarrow> transport_wide_cc list \<times> nat \<times> twcc_feedback_generator" where
  "flush_slice send fb_ssrc media_ssrc records = (\<lambda>(out, sent, g).
     case build_feedback media_ssrc fb_ssrc records g of
       (Some fb, g) \<Rightarrow>
         if send fb then (out @ [fb], sent + 1, g\<lparr>feedback_sent := feedback_sent g + 1\<rparr>)
         else (out @ [fb], sent, g)
     | (None, g) \<Rightarrow> (out, sent, g))"

definition flush :: "(transport_wide_cc \<Rightarrow> bool) \<Rightarrow> twcc_feedback_generator
    \<Rightarrow> transport_wide_cc list \<times> nat \<times> twcc_feedback_generator" where
  "flush send g =
     fold (\<lambda>(media_ssrc, q). fold (flush_slice send (feedback_ssrc g) media_ssrc) (slices MAX_STATUSES_PER_REPORT q))
       (pending g) ([], 0, g\<lparr>pending := []\<rparr>)"

section \<open>Status chunks\<close>

definition wire_symbol :: "delta_size \<Rightarrow> u8" where
  "wire_symbol s = (case s of Lost \<Rightarrow> 0 | Small _ \<Rightarrow> 1 | Large _ \<Rightarrow> 2)"

lemma symbol_bits_wire [simp]: "ucast (symbol_bits s) = wire_symbol s"
  by (cases s) (simp_all add: symbol_bits_def wire_symbol_def)

lemma symbol_bits_two: "bit (symbol_bits s) n \<Longrightarrow> n < 2"
  by (cases s) (auto simp: symbol_bits_def bit_1_iff bit_numeral_rec split: nat.splits intro: ccontr)

lemma and_three: "w AND 3 = take_bit 2 w" for w :: u16
  by (simp add: take_bit_eq_mask mask_eq_exp_minus_1)

lemma run_chunk_symbols:
  assumes "run < 8192"
  shows "chunk_symbols (push_bit 13 (symbol_bits s) OR (of_nat run AND 0x1FFF)) = replicate run (wire_symbol s)"
proof -
  define w :: u16 where "w = of_nat run"
  have mask: "(0x1FFF :: u16) = mask 13" by (simp add: mask_eq_exp_minus_1)
  have w: "take_bit 13 w = w" by (rule take_bit_small) (use assms in \<open>simp add: w_def\<close>)
  let ?c = "push_bit 13 (symbol_bits s) OR (w AND mask 13)"
  have "drop_bit 15 ?c = 0" "take_bit 2 (drop_bit 13 ?c) = symbol_bits s" "?c AND mask 13 = w AND mask 13"
    by (rule bit_word_eqI; auto simp: bit_simps dest: symbol_bits_two)+
  then show ?thesis
    unfolding chunk_symbols_def mask and_three w_def [symmetric]
    using assms by (simp add: w [unfolded take_bit_eq_mask]) (simp add: w_def)
qed

lemma vector_chunk_symbols:
  "chunk_symbols (vector_chunk ss) = map (\<lambda>i. if i < length ss then wire_symbol (ss ! i) else 0) [0..<7]"
proof -
  define f where "f i = (if i < length ss then symbol_bits (ss ! i) else 0)" for i
  have f: "bit (f i) n \<Longrightarrow> n < 2" for i n by (auto simp: f_def dest: symbol_bits_two split: if_splits)
  have u: "[0..<7] = [0, 1, 2, 3, 4, 5, 6 :: nat]" by (simp add: upt_rec)
  have three: "(3 :: u16) = mask 2" by (simp add: mask_eq_exp_minus_1)
  define c where "c = push_bit 14 (mask 2) OR push_bit 12 (f 0) OR push_bit 10 (f 1) OR push_bit 8 (f 2)
    OR push_bit 6 (f 3) OR push_bit 4 (f 4) OR push_bit 2 (f 5) OR f 6"
  have c: "vector_chunk ss = c"
    unfolding vector_chunk_def f_def [symmetric] u three c_def by (simp add: or.assoc)
  have bits: "bit c 15" "bit c 14" by (simp_all add: c_def bit_simps)
  have "bit (drop_bit 15 c) 0" "bit (drop_bit 14 c AND 1) 0"
    using bits by (simp_all add: bit_drop_bit_eq bit_and_iff bit_1_iff del: bit_0)
  then have flags: "drop_bit 15 c \<noteq> 0" "drop_bit 14 c AND 1 \<noteq> 0" by (auto simp del: bit_0)
  have fhigh: "\<not> bit (f i) n" if "2 \<le> n" for i n using f [of i n] that by auto
  have bc: "bit c n \<longleftrightarrow> n < 16 \<and> (14 \<le> n \<or> 12 \<le> n \<and> bit (f 0) (n - 12) \<or> 10 \<le> n \<and> bit (f 1) (n - 10)
      \<or> 8 \<le> n \<and> bit (f 2) (n - 8) \<or> 6 \<le> n \<and> bit (f 3) (n - 6) \<or> 4 \<le> n \<and> bit (f 4) (n - 4)
      \<or> 2 \<le> n \<and> bit (f 5) (n - 2) \<or> bit (f 6) n)" for n
    unfolding c_def bit_or_iff bit_push_bit_iff bit_mask_iff by (auto dest: bit_imp_le_length)
  have field: "take_bit 2 w = f i" if "bit w 0 = bit (f i) 0" "bit w 1 = bit (f i) 1" for w i
  proof (rule bit_word_eqI)
    fix n :: nat
    consider "n = 0" | "n = 1" | "2 \<le> n" by linarith
    then show "bit (take_bit 2 w) n = bit (f i) n"
      by cases (use that in \<open>simp_all add: bit_take_bit_iff fhigh del: bit_0\<close>)
  qed
  have fields: "take_bit 2 (drop_bit 12 c) = f 0" "take_bit 2 (drop_bit 10 c) = f 1"
    "take_bit 2 (drop_bit 8 c) = f 2" "take_bit 2 (drop_bit 6 c) = f 3" "take_bit 2 (drop_bit 4 c) = f 4"
    "take_bit 2 (drop_bit 2 c) = f 5" "take_bit 2 c = f 6"
    by (rule field; simp add: bit_drop_bit_eq bc fhigh del: bit_0)+
  have "ucast (f i) = (if i < length ss then wire_symbol (ss ! i) else 0)" for i
    by (simp add: f_def)
  then show ?thesis
    using flags by (simp add: c chunk_symbols_def and_three u fields)
qed

lemma decode_symbols_stop: "cnt \<le> n \<Longrightarrow> decode_symbols cnt p k n = ([], k)"
  by (simp add: decode_symbols.simps)

lemma decode_symbols_chunk:
  assumes "n < cnt"
  shows "decode_symbols cnt (pre @ u16_be w @ r) (length pre) n =
    (let (rest, k) = decode_symbols cnt ((pre @ u16_be w) @ r) (length (pre @ u16_be w)) (n + length (chunk_symbols w))
     in (chunk_symbols w @ rest, k))"
  using assms
  by (subst decode_symbols.simps) (simp add: u16_be_def nth_append Let_def)

lemma takeWhile_run:
  "take (1 + length (takeWhile (\<lambda>t. symbol_bits t = symbol_bits s) ss)) (map wire_symbol (s # ss))
     = replicate (1 + length (takeWhile (\<lambda>t. symbol_bits t = symbol_bits s) ss)) (wire_symbol s)"
proof (induction ss)
  case (Cons t ss)
  show ?case
  proof (cases "symbol_bits t = symbol_bits s")
    case True
    then have "wire_symbol t = wire_symbol s" by (metis symbol_bits_wire)
    with Cons True show ?thesis by simp
  qed simp
qed simp

text \<open>The decoder reads the status symbols back; what it sees beyond them is the padding of the last
  vector chunk.\<close>

lemma decode_symbols_step:
  assumes "ss \<noteq> []" and chunk: "chunk_symbols w = map wire_symbol (take k ss) @ pad" "length (chunk_symbols w) = k"
    and last: "length ss < k \<Longrightarrow> e = []"
    and IH: "\<exists>pad. decode_symbols (n + k + length (drop k ss)) ((pre @ u16_be w) @ e @ r) (length (pre @ u16_be w)) (n + k)
      = (map wire_symbol (drop k ss) @ pad, length ((pre @ u16_be w) @ e))"
  shows "\<exists>pad. decode_symbols (n + length ss) (pre @ (u16_be w @ e) @ r) (length pre) n
    = (map wire_symbol ss @ pad, length (pre @ u16_be w @ e))"
proof (cases "length ss < k")
  case True
  then have "decode_symbols (n + length ss) ((pre @ u16_be w) @ r) (length (pre @ u16_be w)) (n + k)
      = ([], length (pre @ u16_be w))"
    by (intro decode_symbols_stop) simp
  with True last chunk \<open>ss \<noteq> []\<close> show ?thesis
    unfolding append_assoc by (subst decode_symbols_chunk) simp_all
next
  case False
  then have "length (map wire_symbol (take k ss)) = k" by simp
  with chunk have c: "chunk_symbols w = map wire_symbol (take k ss)"
    by (metis append.right_neutral append_eq_append_conv)
  have eq: "chunk_symbols w @ map wire_symbol (drop k ss) = map wire_symbol ss"
    unfolding c map_append [symmetric] append_take_drop_id ..
  have n: "n + k + length (drop k ss) = n + length ss" using False by simp
  show ?thesis
    using IH \<open>ss \<noteq> []\<close> chunk(2) unfolding n append_assoc
    by (subst decode_symbols_chunk) (auto simp: eq [symmetric])
qed

lemma decode_encode_chunks:
  assumes "length ss < 8192"
  shows "\<exists>pad. decode_symbols (n + length ss) (pre @ encode_chunks ss @ r) (length pre) n
    = (map wire_symbol ss @ pad, length (pre @ encode_chunks ss))"
  using assms
proof (induction ss arbitrary: pre n rule: encode_chunks.induct)
  case 1
  then show ?case by (simp add: decode_symbols_stop)
next
  case (2 s ss)
  define run where "run = 1 + length (takeWhile (\<lambda>t. symbol_bits t = symbol_bits s) ss)"
  have run_le: "run \<le> length (s # ss)" by (simp add: run_def length_takeWhile_le)
  show ?case
  proof (cases "3 \<le> run")
    case True
    define w where "w = push_bit 13 (symbol_bits s) OR (of_nat run AND 0x1FFF)"
    have enc: "encode_chunks (s # ss) = u16_be w @ encode_chunks (drop run (s # ss))"
      using True by (simp add: run_def w_def Let_def)
    have sym: "chunk_symbols w = replicate run (wire_symbol s)"
      unfolding w_def by (rule run_chunk_symbols) (use run_le 2(3) in simp)
    have pre: "map wire_symbol (take run (s # ss)) = replicate run (wire_symbol s)"
      using takeWhile_run [of s ss] unfolding run_def take_map .
    have "length (drop run (s # ss)) < 8192" using 2(3) by simp
    note IH = 2(1) [OF refl refl, folded run_def, OF True this, of "n + run" "pre @ u16_be w"]
    show ?thesis unfolding enc
      by (rule decode_symbols_step [where pad = "[]", OF _ _ _ _ IH]) (use run_le sym pre in simp_all)
  next
    case False
    define w where "w = vector_chunk (s # ss)"
    have enc: "encode_chunks (s # ss) = u16_be w @ encode_chunks (drop 7 (s # ss))"
      using False by (simp add: run_def w_def Let_def)
    have sym: "chunk_symbols w = map (\<lambda>i. if i < length (s # ss) then wire_symbol ((s # ss) ! i) else 0) [0..<7]"
      unfolding w_def by (rule vector_chunk_symbols)
    have "take (length (take 7 xs)) (map (\<lambda>i. if i < length xs then wire_symbol (xs ! i) else 0) [0..<7])
        = map wire_symbol (take 7 xs)" for xs
      by (intro nth_equalityI) simp_all
    then have "take (length (take 7 (s # ss))) (chunk_symbols w) = map wire_symbol (take 7 (s # ss))"
      unfolding sym .
    then have pre: "chunk_symbols w = map wire_symbol (take 7 (s # ss)) @ drop (length (take 7 (s # ss))) (chunk_symbols w)"
      by (metis append_take_drop_id)
    have "length (drop 7 (s # ss)) < 8192" using 2(3) by simp
    note IH = 2(2) [OF refl refl, folded run_def, OF False this, of "n + 7" "pre @ u16_be w"]
    show ?thesis unfolding enc
      by (rule decode_symbols_step [OF _ pre _ _ IH]) (simp_all add: sym)
  qed
qed

section \<open>Deltas\<close>

text \<open>What the decoder makes of the statuses: the deltas truncated to units of 250 microseconds.\<close>

fun wire_delta :: "delta_size \<times> int option \<Rightarrow> int option" where
  "wire_delta (Lost, _) = None"
| "wire_delta (_, None) = None"
| "wire_delta (Small _, Some us) = Some (int (unat (word_of_int (us sdiv 250) :: u8)) * 250)"
| "wire_delta (Large _, Some us) = Some (sint (word_of_int (us sdiv 250) :: u16) * 250)"

fun status_ok :: "delta_size \<times> int option \<Rightarrow> bool" where
  "status_ok (Lost, d) = (d = None)"
| "status_ok (_, d) = (d \<noteq> None)"

lemma decode_encode_deltas:
  assumes "\<forall>d \<in> set ds. status_ok d"
  shows "decode_deltas base (pre @ encode_deltas ds) (length pre) i (map (wire_symbol \<circ> fst) ds)
    = map2 (\<lambda>k d. (base + of_nat k, wire_delta d)) [i..<i + length ds] ds"
  using assms
proof (induction ds arbitrary: pre i)
  case (Cons d ds)
  have upt: "[i..<i + length (d # ds)] = i # [Suc i..<Suc i + length ds]" by (simp add: upt_conv_Cons del: upt_Suc)
  consider "fst d = Lost" | us v where "d = (Small v, Some us)" | us v where "d = (Large v, Some us)"
    using Cons.prems by (cases d rule: status_ok.cases) auto
  then show ?case
  proof cases
    case 1
    with Cons.prems have "d = (Lost, None)" by (cases d rule: status_ok.cases) auto
    with Cons.IH [of pre "Suc i"] Cons.prems show ?thesis unfolding upt
      by (simp add: wire_symbol_def)
  next
    case 2
    with Cons.IH [of "pre @ [word_of_int (us sdiv 250)]" "Suc i"] Cons.prems show ?thesis unfolding upt
      by (simp add: wire_symbol_def nth_append)
  next
    case 3
    with Cons.IH [of "pre @ u16_be (word_of_int (us sdiv 250))" "Suc i"] Cons.prems show ?thesis unfolding upt
      by (simp add: wire_symbol_def nth_append u16_be_def)
  qed
qed simp

lemma statuses_ok: "\<forall>d \<in> set (statuses e p rs). status_ok d"
proof (induction rs arbitrary: e p)
  case (Cons r rs)
  have "status_ok (delta_size_of us, Some us)" for us
    by (auto simp: delta_size_of_def Let_def)
  with Cons show ?case by (auto simp: Let_def)
qed simp

text \<open>A delta of at most 32767 units comes back rounded down to a whole number of units.\<close>

definition rounded_delta :: "u64 \<Rightarrow> u64 \<Rightarrow> int" where
  "rounded_delta prev arrival = 250 * int ((unat arrival - unat prev) div 250)"

lemma wire_delta_rounded:
  assumes "(unat a - unat p) div 250 \<le> 32767"
  defines "us \<equiv> sint (if p \<le> a then a - p else 0)"
  shows "wire_delta (delta_size_of us, Some us) = Some (rounded_delta p a)"
proof -
  define q where "q = unat a - unat p"
  have w: "unat (if p \<le> a then a - p else 0) = q"
    by (auto simp: q_def unat_sub word_le_nat_alt)
  have q: "q < 8192000" using assms(1) unfolding q_def by (simp add: div_le_mono)
  have us: "us = int q"
    unfolding us_def sint_uint uint_nat w using q by (simp add: signed_take_bit_int_eq_self)
  define u where "u = q div 250"
  have u: "us sdiv 250 = int u"
    by (cases "q = 0") (simp_all add: us u_def signed_divide_int_def zdiv_int)
  have u_le: "u \<le> 32767" using assms(1) by (simp add: u_def q_def)
  have "unat (word_of_int (int u) :: u8) = u" if "u \<le> 255" using that by simp
  moreover have "unat (word_of_int (int u) :: u16) = u" using u_le by simp
  then have "sint (word_of_int (int u) :: u16) = int u"
    unfolding sint_uint uint_nat using u_le by (simp add: signed_take_bit_int_eq_self)
  ultimately show ?thesis
    using u_le by (simp add: delta_size_of_def u Let_def rounded_delta_def q_def [symmetric] u_def [symmetric] mult.commute)
qed

text \<open>Records in the order of their sequence numbers, without a gap of 1000 or more, and without a
  pause that overflows the 16-bit delta.\<close>

fun in_order :: "u16 \<Rightarrow> u64 \<Rightarrow> pending_record list \<Rightarrow> bool" where
  "in_order expected prev [] = True"
| "in_order expected prev (r # rs) =
     (pr_seq r - expected < 1000 \<and> (unat (arrival_us r) - unat prev) div 250 \<le> 32767
      \<and> in_order (pr_seq r + 1) (arrival_us r) rs)"

lemma upt_add3: "[i..<i + (m + Suc n)] = [i..<i + m] @ (i + m) # [Suc (i + m)..<Suc (i + m) + n]"
proof -
  have "[i..<i + (m + Suc n)] = [i..<i + m] @ [i + m..<i + m + Suc n]"
    by (metis add.assoc le_add1 upt_add_eq_append)
  also have "[i + m..<i + m + Suc n] = (i + m) # [Suc (i + m)..<Suc (i + m) + n]"
    by (simp add: upt_conv_Cons del: upt_Suc)
  finally show ?thesis .
qed

lemma statuses_entries:
  assumes "in_order (base + of_nat i) prev rs"
  defines "ds \<equiv> statuses (base + of_nat i) prev rs"
  shows "filter (\<lambda>e. snd e \<noteq> None) (map2 (\<lambda>k d. (base + of_nat k, wire_delta d)) [i..<i + length ds] ds)
    = map2 (\<lambda>r p. (pr_seq r, Some (rounded_delta p (arrival_us r)))) rs (prev # map arrival_us rs)"
  using assms(1) unfolding ds_def
proof (induction rs arbitrary: i prev)
  case (Cons r rs)
  define m where "m = unat (pr_seq r - (base + of_nat i))"
  have seq: "base + of_nat (i + m) = pr_seq r" "base + of_nat (Suc (i + m)) = pr_seq r + 1"
    by (simp_all add: m_def of_nat_unat ucast_id)
  define us where "us = sint (if prev \<le> arrival_us r then arrival_us r - prev else 0)"
  have wd: "wire_delta (delta_size_of us, Some us) = Some (rounded_delta prev (arrival_us r))"
    unfolding us_def by (rule wire_delta_rounded) (use Cons.prems in simp)
  let ?tl = "statuses (pr_seq r + 1) (arrival_us r) rs"
  have st: "statuses (base + of_nat i) prev (r # rs) = replicate m (Lost, None) @ (delta_size_of us, Some us) # ?tl"
    using Cons.prems by (simp add: m_def Let_def us_def)
  have len: "length (statuses (base + of_nat i) prev (r # rs)) = m + Suc (length ?tl)" unfolding st by simp
  have lost: "filter (\<lambda>e. snd e \<noteq> None) (map2 (\<lambda>k d. (base + of_nat k, wire_delta d)) ks (replicate m (Lost, None))) = []" for ks
    by (auto simp: filter_empty_conv in_set_zip)
  have "in_order (base + of_nat (Suc (i + m))) (arrival_us r) rs" using Cons.prems unfolding seq by simp
  from Cons.IH [OF this, unfolded seq(2)]
  show ?case
    unfolding len upt_add3 unfolding st
    by (simp add: zip_append lost wd seq(1) del: upt_Suc not_None_eq of_nat_add)
qed simp

section \<open>Size of a report\<close>

lemma encode_chunks_length: "length (encode_chunks ss) \<le> 2 * (length ss div 3 + 1)"
proof (induction ss rule: encode_chunks.induct)
  case (2 s ss)
  define run where "run = 1 + length (takeWhile (\<lambda>t. symbol_bits t = symbol_bits s) ss)"
  have run_le: "run \<le> length (s # ss)" by (simp add: run_def length_takeWhile_le)
  show ?case
  proof (cases "3 \<le> run")
    case True
    have "length (encode_chunks (s # ss)) = 2 + length (encode_chunks (drop run (s # ss)))"
      using True by (simp add: run_def Let_def)
    also have "\<dots> \<le> 2 + 2 * (length (drop run (s # ss)) div 3 + 1)"
      using 2(1) [OF refl refl, folded run_def, OF True] by linarith
    also have "\<dots> \<le> 2 + 2 * ((length (s # ss) - 3) div 3 + 1)"
      using True by (intro add_mono mult_le_mono div_le_mono) simp_all
    also have "\<dots> \<le> 2 * (length (s # ss) div 3 + 1)"
      using True run_le by (simp add: div_if [of "Suc (length ss)"] le_div_geq)
    finally show ?thesis .
  next
    case False
    have enc: "length (encode_chunks (s # ss)) = 2 + length (encode_chunks (drop 7 (s # ss)))"
      using False by (simp add: run_def Let_def)
    note IH = 2(2) [OF refl refl, folded run_def, OF False]
    show ?thesis
    proof (cases "length (s # ss) \<le> 7")
      case True
      with enc show ?thesis by simp
    next
      case long: False
      have "(length (s # ss) - 7) div 3 + 1 \<le> length (s # ss) div 3"
        using long by (simp add: le_div_geq div_le_mono)
      with IH enc show ?thesis by simp
    qed
  qed
qed simp

lemma encode_deltas_length: "length (encode_deltas ds) \<le> 2 * length ds"
  by (induction ds rule: encode_deltas.induct) simp_all

definition report_bounded :: "transport_wide_cc \<Rightarrow> bool" where
  "report_bounded fb \<longleftrightarrow> 0 < packet_status_count fb \<and> unat (packet_status_count fb) \<le> MAX_STATUSES_PER_REPORT
     \<and> length (build_twcc_body fb) \<le> 1298"

lemma build_feedback_bounded:
  assumes "build_feedback ms fs rs g = (Some fb, g')"
  shows "report_bounded fb"
proof -
  obtain r0 rs' where rs: "rs = r0 # rs'" using assms by (cases rs) (auto simp: build_feedback_def)
  define ds where "ds = take MAX_STATUSES_PER_REPORT (statuses (pr_seq r0) (arrival_us r0) rs)"
  have ds: "ds \<noteq> []" "length ds \<le> 480" by (simp_all add: ds_def rs MAX_STATUSES_PER_REPORT_def Let_def)
  have fb: "packet_status_count fb = of_nat (length ds)"
    "twcc_payload fb = encode_chunks (map fst ds) @ encode_deltas ds"
    using assms by (auto simp: build_feedback_def rs Let_def ds_def)
  have "0 < length ds" "length ds \<le> 480" using ds by simp_all
  moreover have "length ds div 3 \<le> 160" using div_le_mono [OF ds(2), of 3] by simp
  ultimately show ?thesis
    using encode_chunks_length [of "map fst ds"] encode_deltas_length [of ds]
    by (simp add: report_bounded_def fb build_twcc_body_def MAX_STATUSES_PER_REPORT_def word_less_nat_alt)
qed

lemma build_feedback_pending: "pending (snd (build_feedback ms fs rs g)) = pending g"
  by (cases rs) (simp_all add: build_feedback_def Let_def)

text \<open>What the loop of \<open>flush\<close> keeps of its output, its count and the generator.\<close>

definition flush_inv :: "transport_wide_cc list \<times> nat \<times> twcc_feedback_generator \<Rightarrow> bool" where
  "flush_inv = (\<lambda>(out, sent, g). (\<forall>fb \<in> set out. report_bounded fb) \<and> sent \<le> length out \<and> pending g = [])"

lemma flush_slice_inv:
  assumes "flush_inv st"
  shows "flush_inv (flush_slice send fs ms rs st)"
proof -
  obtain out sent g where st: "st = (out, sent, g)" by (cases st)
  obtain r g' where b: "build_feedback ms fs rs g = (r, g')" by fastforce
  then have "pending g' = pending g" using build_feedback_pending [of ms fs rs g] by simp
  with assms b build_feedback_bounded [of ms fs rs g] show ?thesis
    by (cases r) (auto simp: st flush_inv_def flush_slice_def)
qed

lemma flush_slices_inv: "flush_inv st \<Longrightarrow> flush_inv (fold (flush_slice send fs ms) qs st)"
  by (induction qs arbitrary: st) (auto simp: flush_slice_inv)

lemma flush_queues_inv:
  "flush_inv st \<Longrightarrow> flush_inv (fold (\<lambda>(ms, q). fold (flush_slice send fs ms) (slices n q)) qs st)"
proof (induction qs arbitrary: st)
  case (Cons mq qs)
  from flush_slices_inv [OF Cons.prems] show ?case
    by (cases mq) (simp add: Cons.IH)
qed simp

section \<open>Properties\<close>

text \<open>
  C17: The arrival pattern of records that are in order survives one feedback report: when the records were taken in
  the order of their sequence numbers, no 1000 or more of them were lost between two records, no pause between two arrivals
  exceeds the 16-bit delta (about 8.19 s) and the report has at most \<^const>\<open>MAX_STATUSES_PER_REPORT\<close> = 480
  statuses, the decoder returns one entry for each sequence number from the first to the last record,
  marks as received exactly those that were recorded, each with the time since the previous arrival (not, as the
  comment on \<open>TwccReportEntry\<close> has it, since the reference time of the report) rounded down to
  250 microseconds, and marks the others as lost. A packet that arrives after a later one has no
  such record: the generator drops it.
\<close>

theorem twcc_feedback_roundtrip:
  assumes "in_order (pr_seq r0) (arrival_us r0) (r0 # rs)"
    and "length (statuses (pr_seq r0) (arrival_us r0) (r0 # rs)) \<le> MAX_STATUSES_PER_REPORT"
    and "build_feedback ms fs (r0 # rs) g = (Some fb, g')"
  shows "map fst (decode_twcc_feedback fb)
      = map (\<lambda>i. pr_seq r0 + of_nat i) [0..<unat (packet_status_count fb)]
    \<and> filter (\<lambda>e. snd e \<noteq> None) (decode_twcc_feedback fb)
      = map2 (\<lambda>r prev. (pr_seq r, Some (rounded_delta prev (arrival_us r)))) (r0 # rs)
          (arrival_us r0 # map arrival_us (r0 # rs))"
proof -
  define ds where "ds = statuses (pr_seq r0) (arrival_us r0) (r0 # rs)"
  have n: "length ds \<le> 480" using assms(2) by (simp add: ds_def MAX_STATUSES_PER_REPORT_def)
  have fb: "packet_status_count fb = of_nat (length ds)" "base_sequence fb = pr_seq r0"
    "twcc_payload fb = encode_chunks (map fst ds) @ encode_deltas ds"
    using assms(2,3) by (auto simp: build_feedback_def Let_def ds_def simp del: statuses.simps)
  obtain pad where "decode_symbols (length ds) (encode_chunks (map fst ds) @ encode_deltas ds) 0 0
      = (map wire_symbol (map fst ds) @ pad, length (encode_chunks (map fst ds)))"
    using decode_encode_chunks [of "map fst ds" 0 "[]" "encode_deltas ds"] n by auto
  then have dec: "decode_twcc_feedback fb
      = map2 (\<lambda>k d. (pr_seq r0 + of_nat k, wire_delta d)) [0..<length ds] ds"
    using n decode_encode_deltas [of ds "pr_seq r0" "encode_chunks (map fst ds)" 0]
      statuses_ok [of "pr_seq r0" "arrival_us r0" "r0 # rs", folded ds_def]
    by (simp add: decode_twcc_feedback_def fb Let_def comp_def)
  have "map fst (decode_twcc_feedback fb) = map (\<lambda>i. pr_seq r0 + of_nat i) [0..<unat (packet_status_count fb)]"
    using n unfolding dec fb by (intro nth_equalityI) simp_all
  moreover have "filter (\<lambda>e. snd e \<noteq> None) (decode_twcc_feedback fb)
      = map2 (\<lambda>r prev. (pr_seq r, Some (rounded_delta prev (arrival_us r)))) (r0 # rs)
          (arrival_us r0 # map arrival_us (r0 # rs))"
    using statuses_entries [of "pr_seq r0" 0 "arrival_us r0" "r0 # rs"] assms(1)
    unfolding dec ds_def by (simp del: not_None_eq statuses.simps in_order.simps upt_Suc)
  ultimately show ?thesis ..
qed

theorem twcc_feedback_roundtrip_witness:
  "\<exists>fb g'. build_feedback 1 2 [\<lparr>pr_seq = 65534, arrival_us = 1000\<rparr>, \<lparr>pr_seq = 1, arrival_us = 2600\<rparr>]
        \<lparr>ext_id = 5, feedback_ssrc = 2, feedback_seq = 0, pending = [], packets_observed = 0, feedback_sent = 0\<rparr>
      = (Some fb, g')
     \<and> filter (\<lambda>e. snd e \<noteq> None) (decode_twcc_feedback fb) = [(65534, Some 0), (1, Some 1500)]"
proof -
  obtain fb g' where b: "build_feedback 1 2 [\<lparr>pr_seq = 65534, arrival_us = 1000\<rparr>, \<lparr>pr_seq = 1, arrival_us = 2600\<rparr>]
        \<lparr>ext_id = 5, feedback_ssrc = 2, feedback_seq = 0, pending = [], packets_observed = 0, feedback_sent = 0\<rparr>
      = (Some fb, g')"
    by (simp add: build_feedback_def Let_def)
  show ?thesis
    using b twcc_feedback_roundtrip [OF _ _ b]
    by (simp add: MAX_STATUSES_PER_REPORT_def rounded_delta_def Let_def del: not_None_eq)
qed

text \<open>
  C15: Flushing leaves no record pending, and every report handed to the transport has between 1 and 480
  statuses and a body of at most 1298 bytes, so that it fits a datagram of 1500 bytes; no more reports
  are counted as sent than were built.
\<close>

theorem twcc_flush_bounded:
  "case flush send g of (out, sent, g') \<Rightarrow>
     pending g' = [] \<and> sent \<le> length out \<and> list_all report_bounded out"
proof -
  have "flush_inv ([], 0, g\<lparr>pending := []\<rparr>)" by (simp add: flush_inv_def)
  from flush_queues_inv [OF this, of send "feedback_ssrc g" MAX_STATUSES_PER_REPORT "pending g"]
  show ?thesis by (simp add: flush_def flush_inv_def list_all_iff split: prod.splits)
qed

end
