(* ===== verification/Net_Addr.thy ===== *)
theory Net_Addr
  imports Prelude
begin

text \<open>
  Socket addresses and the error type of the transports (\<open>RtcError\<close> of \<open>src/errors.rs\<close>). An address is
  the octets of the IP address in network order, four or sixteen of them, and a port.
\<close>

datatype socket_addr =
    SockV4 (sa_octets: bytes) (sa_port: u16)
  | SockV6 (sa_octets: bytes) (sa_port: u16)

fun addr_wf :: "socket_addr \<Rightarrow> bool" where
  "addr_wf (SockV4 ip port) = (length ip = 4)"
| "addr_wf (SockV6 ip port) = (length ip = 16)"

datatype rtc_error =
    InvalidConfiguration string
  | InvalidState string
  | NotImplemented string
  | Protocol string
  | Transport string
  | Internal string
  | Timeout string
  | AddrInUse

definition is_addr_in_use :: "rtc_error \<Rightarrow> bool" where
  "is_addr_in_use e \<longleftrightarrow> e = AddrInUse"

definition is_timeout :: "rtc_error \<Rightarrow> bool" where
  "is_timeout e \<longleftrightarrow> (case e of Timeout _ \<Rightarrow> True | _ \<Rightarrow> False)"

end
