(* ===== verification/Frame.thy ===== *)
theory Frame
  imports Rtp Net_Addr
begin

text \<open>
  The media samples of \<open>src/media/frame.rs\<close>: audio and video frames, and their conversion from and to
  RTP packets.
\<close>

datatype media_kind = AudioKind | VideoKind

datatype video_pixel_format = I420 | Nv12 | Rgba | Bgra | Unspecified

record audio_frame =
  a_rtp_timestamp :: u32
  a_clock_rate :: u32
  a_data :: bytes
  a_sequence_number :: "u16 option"
  a_payload_type :: "u8 option"
  a_marker :: bool
  a_header_extension :: "rtp_header_extension option"
  a_source_addr :: "socket_addr option"
  a_raw_packet :: "rtp_packet option"

record video_frame =
  v_rtp_timestamp :: u32
  v_width :: u16
  v_height :: u16
  v_format :: video_pixel_format
  v_rotation_deg :: u16
  v_is_last_packet :: bool
  v_data :: bytes
  v_header_extension :: "rtp_header_extension option"
  v_csrcs :: "u32 list"
  v_sequence_number :: "u16 option"
  v_payload_type :: "u8 option"
  v_source_addr :: "socket_addr option"
  v_raw_packet :: "rtp_packet option"

datatype media_sample = Audio audio_frame | Video video_frame

fun sample_kind :: "media_sample \<Rightarrow> media_kind" where
  "sample_kind (Audio _) = AudioKind"
| "sample_kind (Video _) = VideoKind"

text \<open>The fields both kinds have, in the order of the match in \<open>into_rtp_packet\<close>.\<close>

fun sample_fields :: "media_sample \<Rightarrow>
    bytes \<times> bool \<times> u32 \<times> u32 list \<times> u16 option \<times> u8 option \<times> rtp_header_extension option" where
  "sample_fields (Audio f) =
     (a_data f, a_marker f, a_rtp_timestamp f, [], a_sequence_number f, a_payload_type f, a_header_extension f)"
| "sample_fields (Video f) =
     (v_data f, v_is_last_packet f, v_rtp_timestamp f, v_csrcs f, v_sequence_number f, v_payload_type f,
      v_header_extension f)"

text \<open>The packet, and the caller's sequence counter afterwards.\<close>

definition into_rtp_packet :: "media_sample \<Rightarrow> u32 \<Rightarrow> u8 \<Rightarrow> u16 \<Rightarrow> rtp_packet \<times> u16" where
  "into_rtp_packet sample ss default_pt seq_counter =
     (let (pl, mark, ts, cs, frame_seq, frame_pt, ext) = sample_fields sample;
          seq = (case frame_seq of Some s \<Rightarrow> s | None \<Rightarrow> seq_counter);
          seq_counter = (if frame_seq = None then seq_counter + 1 else seq_counter);
          pt = (case frame_pt of Some p \<Rightarrow> p | None \<Rightarrow> default_pt);
          h = (rtp_header_new pt seq ts ss)\<lparr>marker := mark, csrcs := cs, extension := ext\<rparr>
      in (\<lparr>header = h, payload = pl, padding_len = 0\<rparr>, seq_counter))"

definition from_rtp_packet :: "rtp_packet \<Rightarrow> media_kind \<Rightarrow> u32 \<Rightarrow> socket_addr \<Rightarrow> media_sample" where
  "from_rtp_packet packet kind clock addr =
     (case kind of
        AudioKind \<Rightarrow> Audio
          \<lparr>a_rtp_timestamp = timestamp (header packet), a_clock_rate = clock, a_data = payload packet,
           a_sequence_number = Some (sequence_number (header packet)),
           a_payload_type = Some (payload_type (header packet)), a_marker = marker (header packet),
           a_header_extension = extension (header packet), a_source_addr = Some addr,
           a_raw_packet = Some packet\<rparr>
      | VideoKind \<Rightarrow> Video
          \<lparr>v_rtp_timestamp = timestamp (header packet), v_width = 0, v_height = 0, v_format = Unspecified,
           v_rotation_deg = 0, v_is_last_packet = marker (header packet), v_data = payload packet,
           v_header_extension = extension (header packet), v_csrcs = csrcs (header packet),
           v_sequence_number = Some (sequence_number (header packet)),
           v_payload_type = Some (payload_type (header packet)), v_source_addr = Some addr,
           v_raw_packet = Some packet\<rparr>)"

text \<open>Forwarding a received packet under a new SSRC keeps everything but the padding and, for audio, the
  contributing sources; the sender's sequence counter does not move.\<close>

lemma into_from_rtp_packet:
  "into_rtp_packet (from_rtp_packet p kind clock addr) ss pt seq =
     (\<lparr>header = (header p)\<lparr>ssrc := ss, csrcs := (if kind = AudioKind then [] else csrcs (header p))\<rparr>,
       payload = payload p, padding_len = 0\<rparr>, seq)"
  by (cases kind) (simp_all add: into_rtp_packet_def from_rtp_packet_def rtp_header_new_def)

end
