(* ===== verification/Serial.thy ===== *)
theory Serial
  imports Prelude
begin

text \<open>
  Serial number arithmetic. The jitter buffer, SCTP and UDPTL each compare wrapping sequence numbers
  with a function of their own (\<open>is_newer\<close>, \<open>tsn_gt\<close>, \<open>ssn_gt\<close>, \<open>is_newer_seq\<close>). The locale
  \<open>serial_order\<close> is what they have in common, a number is newer when it is ahead by less than half of
  the number space, and holds the facts the components use.
\<close>

definition ahead :: "'a::len word \<Rightarrow> 'a word \<Rightarrow> nat" where
  "ahead a b = unat (a - b)"

lemma ahead_self [simp]: "ahead a a = 0"
  by (simp add: ahead_def)

lemma ahead_0_iff [simp]: "ahead a b = 0 \<longleftrightarrow> a = b"
  by (simp add: ahead_def unat_eq_0)

lemma ahead_less: "ahead (a :: 'a::len word) b < 2 ^ LENGTH('a)"
  unfolding ahead_def by (rule unsigned_less)

text \<open>Distances from a common base: the one that is further ahead is ahead by the difference.\<close>

lemma ahead_diff:
  assumes "ahead k l \<le> ahead m l"
  shows "ahead m k = ahead m l - ahead k l"
proof -
  have "m - k = (m - l) - (k - l)" by simp
  moreover have "k - l \<le> m - l" using assms by (simp add: ahead_def word_le_nat_alt)
  then have "unat ((m - l) - (k - l)) = unat (m - l) - unat (k - l)" by (rule unat_sub)
  ultimately show ?thesis by (simp add: ahead_def)
qed

lemma ahead_inj: "ahead k l = ahead m l \<Longrightarrow> k = m"
  unfolding ahead_def by (metis diff_add_cancel word_unat_eq_iff)

lemma ahead_swap: "a \<noteq> b \<Longrightarrow> ahead a b + ahead b a = 2 ^ LENGTH('a)" for a b :: "'a::len word"
proof -
  assume "a \<noteq> b"
  then have pos: "0 < unat (a - b)" by (simp add: word_gt_0_no [symmetric] unat_gt_0)
  have "unat ((a - b) + (b - a)) = (unat (a - b) + unat (b - a)) mod 2 ^ LENGTH('a)"
    by (rule unat_word_ariths)
  then have "(ahead a b + ahead b a) mod 2 ^ LENGTH('a) = 0" by (simp add: ahead_def)
  then obtain q where q: "ahead a b + ahead b a = 2 ^ LENGTH('a) * q" by (auto elim: dvdE)
  have "q < 2" using ahead_less [of a b] ahead_less [of b a] q
    by (metis add_less_mono mult.commute mult_2 mult_less_cancel2)
  moreover have "q \<noteq> 0" using pos q by (cases q) (simp_all add: ahead_def)
  ultimately have "q = 1" by linarith
  with q show ?thesis by simp
qed

lemma sint_pos_iff: "0 < sint w \<longleftrightarrow> 0 < unat w \<and> unat w < 2 ^ (LENGTH('a) - 1)" for w :: "'a::len word"
proof -
  define h :: nat where "h = 2 ^ (LENGTH('a) - 1)"
  have n: "2 ^ LENGTH('a) = 2 * h" unfolding h_def
    by (metis One_nat_def Suc_pred len_gt_0 power_Suc)
  have full: "2 ^ LENGTH('a) = 2 * int h"
    using arg_cong [OF n, of int] by simp
  have w: "unat w < 2 * h" using unsigned_less [of w, where ?'a = nat] n by simp
  define u where "u = unat w"
  have u: "u < 2 * h" using w by (simp add: u_def)
  have uint: "uint w = int u" by (simp add: u_def)
  have "odd (u div h) \<longleftrightarrow> h \<le> u"
  proof (cases "h \<le> u")
    case True
    with u have "u div h = 1" by (intro div_nat_eqI) simp_all
    with True show ?thesis by simp
  qed simp
  then have bit: "bit (int u) (LENGTH('a) - 1) \<longleftrightarrow> h \<le> u"
    unfolding bit_of_nat_iff_bit by (simp only: bit_iff_odd h_def)
  have "sint w = take_bit (Suc (LENGTH('a) - 1)) (uint w) - 2 ^ Suc (LENGTH('a) - 1) * of_bool (bit (uint w) (LENGTH('a) - 1))"
    unfolding sint_uint signed_take_bit_eq_take_bit_minus by simp
  also have "Suc (LENGTH('a) - 1) = LENGTH('a)" by simp
  also have "take_bit LENGTH('a) (uint w) = int u" unfolding uint
    using u full by (intro take_bit_int_eq_self) simp_all
  finally have "sint w = int u - 2 * int h * of_bool (h \<le> u)" unfolding uint bit full .
  with u show ?thesis unfolding u_def [symmetric] h_def [symmetric] by (auto split: if_splits)
qed

locale serial_order =
  fixes gt :: "'a::len word \<Rightarrow> 'a word \<Rightarrow> bool"
  assumes gt_ahead: "gt a b \<longleftrightarrow> 0 < ahead a b \<and> ahead a b < 2 ^ (LENGTH('a) - 1)"
begin

lemma gt_irrefl: "\<not> gt a a"
  by (simp add: gt_ahead)

lemma half: "2 ^ LENGTH('a) = 2 * (2 :: nat) ^ (LENGTH('a) - 1)"
  by (metis One_nat_def Suc_pred len_gt_0 power_Suc)

lemma gt_asym: "gt a b \<Longrightarrow> \<not> gt b a"
proof
  assume "gt a b" and "gt b a"
  moreover from this have "a \<noteq> b" by (auto simp: gt_ahead)
  ultimately show False using ahead_swap [of a b] by (simp add: gt_ahead half)
qed

lemma gt_total: "a \<noteq> b \<Longrightarrow> ahead a b \<noteq> 2 ^ (LENGTH('a) - 1) \<Longrightarrow> gt a b \<or> gt b a"
  using ahead_swap [of a b] by (auto simp: gt_ahead half neq0_conv [symmetric] simp del: neq0_conv)

text \<open>Among numbers ahead of a base, being newer is being further ahead.\<close>

lemma gt_from_base:
  assumes "gt k l" and "gt m l"
  shows "gt m k \<longleftrightarrow> ahead k l < ahead m l"
proof (cases "ahead k l < ahead m l")
  case True
  then have "ahead m k = ahead m l - ahead k l" by (intro ahead_diff) simp
  with True assms show ?thesis by (auto simp: gt_ahead)
next
  case False
  then have "ahead k m = ahead k l - ahead m l" by (intro ahead_diff) simp
  then have "gt k m \<or> k = m"
    using assms ahead_0_iff [of k m] by (auto simp: gt_ahead simp del: ahead_0_iff)
  with False show ?thesis using gt_asym gt_irrefl by blast
qed

lemma gt_trans_base: "gt k l \<Longrightarrow> gt m l \<Longrightarrow> gt n l \<Longrightarrow> gt m k \<Longrightarrow> gt n m \<Longrightarrow> gt n k"
  by (simp add: gt_from_base [of _ l])

end

end
