(* ===== verification/Btree_Map.thy ===== *)
theory Btree_Map
  imports Main
begin

text \<open>
  The part of the standard library's \<open>BTreeMap\<close> that the buffers of the program use, as an association
  list in ascending order of the keys. The locale \<open>ordered_map\<close> is the interface the buffers rely on;
  the list implementation interprets it.
\<close>

type_synonym ('k, 'v) btree = "('k \<times> 'v) list"

definition bt_ok :: "('k::linorder, 'v) btree \<Rightarrow> bool" where
  "bt_ok m \<longleftrightarrow> sorted_wrt (<) (map fst m)"

definition bt_keys :: "('k, 'v) btree \<Rightarrow> 'k list" where
  "bt_keys m = map fst m"

definition bt_get :: "'k \<Rightarrow> ('k, 'v) btree \<Rightarrow> 'v option" where
  "bt_get k m = map_of m k"

fun bt_insert :: "'k::linorder \<Rightarrow> 'v \<Rightarrow> ('k, 'v) btree \<Rightarrow> ('k, 'v) btree" where
  "bt_insert k v [] = [(k, v)]"
| "bt_insert k v ((k', v') # m) =
     (if k < k' then (k, v) # (k', v') # m
      else if k = k' then (k, v) # m
      else (k', v') # bt_insert k v m)"

definition bt_remove :: "'k \<Rightarrow> ('k, 'v) btree \<Rightarrow> ('k, 'v) btree" where
  "bt_remove k m = filter (\<lambda>(k', _). k' \<noteq> k) m"

definition bt_first :: "('k, 'v) btree \<Rightarrow> 'k option" where
  "bt_first m = (case m of [] \<Rightarrow> None | (k, _) # _ \<Rightarrow> Some k)"

definition bt_last :: "('k, 'v) btree \<Rightarrow> 'k option" where
  "bt_last m = (if m = [] then None else Some (fst (last m)))"

definition bt_pop_first :: "('k, 'v) btree \<Rightarrow> ('k, 'v) btree" where
  "bt_pop_first m = tl m"

text \<open>\<open>range(k..)\<close>.\<close>

definition bt_from :: "'k::linorder \<Rightarrow> ('k, 'v) btree \<Rightarrow> ('k, 'v) btree" where
  "bt_from k m = filter (\<lambda>(k', _). k \<le> k') m"

section \<open>The interface\<close>

locale ordered_map =
  fixes ok :: "'m \<Rightarrow> bool" and keys :: "'m \<Rightarrow> 'k::linorder list" and get :: "'k \<Rightarrow> 'm \<Rightarrow> 'v option"
    and ins :: "'k \<Rightarrow> 'v \<Rightarrow> 'm \<Rightarrow> 'm" and del :: "'k \<Rightarrow> 'm \<Rightarrow> 'm"
  assumes ins_ok: "ok m \<Longrightarrow> ok (ins k v m)" and del_ok: "ok m \<Longrightarrow> ok (del k m)"
    and keys_sorted: "ok m \<Longrightarrow> sorted_wrt (<) (keys m)"
    and get_keys: "ok m \<Longrightarrow> k \<in> set (keys m) \<longleftrightarrow> get k m \<noteq> None"
    and get_ins: "ok m \<Longrightarrow> get k' (ins k v m) = (if k' = k then Some v else get k' m)"
    and get_del: "ok m \<Longrightarrow> get k' (del k m) = (if k' = k then None else get k' m)"
begin

lemma keys_ins: "ok m \<Longrightarrow> set (keys (ins k v m)) = insert k (set (keys m))"
  by (auto simp: get_keys ins_ok get_ins split: if_splits)

lemma keys_del: "ok m \<Longrightarrow> set (keys (del k m)) = set (keys m) - {k}"
  by (auto simp: get_keys del_ok get_del split: if_splits)

lemma keys_distinct: "ok m \<Longrightarrow> distinct (keys m)"
  using keys_sorted strict_sorted_iff by blast

lemma size_ins:
  assumes "ok m"
  shows "length (keys (ins k v m)) = (if k \<in> set (keys m) then length (keys m) else Suc (length (keys m)))"
proof -
  have "length (keys (ins k v m)) = card (insert k (set (keys m)))"
    using distinct_card [OF keys_distinct [OF ins_ok [OF assms]]] by (simp add: keys_ins assms)
  also have "\<dots> = (if k \<in> set (keys m) then length (keys m) else Suc (length (keys m)))"
    using distinct_card [OF keys_distinct [OF assms]] by (simp add: insert_absorb)
  finally show ?thesis .
qed

lemma ins_same: "ok m \<Longrightarrow> set (keys (ins k v (ins k w m))) = set (keys (ins k v m))"
  by (simp add: keys_ins ins_ok)

lemma del_ins: "ok m \<Longrightarrow> get k' (del k (ins k v m)) = get k' (del k m)"
  by (simp add: get_del get_ins ins_ok)

end

lemma bt_insert_keys: "set (map fst (bt_insert k v m)) = insert k (set (map fst m))"
  by (induction k v m rule: bt_insert.induct) auto

lemma bt_insert_ok: "bt_ok m \<Longrightarrow> bt_ok (bt_insert k v m)"
proof (induction k v m rule: bt_insert.induct)
  case (2 k v k' v' m)
  then show ?case
    using bt_insert_keys [of k v m] by (fastforce simp: bt_ok_def)
qed (simp add: bt_ok_def)

lemma bt_insert_get: "bt_ok m \<Longrightarrow> map_of (bt_insert k v m) k' = (if k' = k then Some v else map_of m k')"
proof (induction k v m rule: bt_insert.induct)
  case (2 k v k1 v1 m)
  then show ?case by (auto simp: bt_ok_def)
qed simp

lemma bt_filter_ok: "bt_ok m \<Longrightarrow> bt_ok (filter P m)"
  unfolding bt_ok_def by (induction m) auto

interpretation bt: ordered_map bt_ok bt_keys bt_get bt_insert bt_remove
proof unfold_locales
  fix m :: "('a, 'b) btree" and k k' v
  assume ok: "bt_ok m"
  show "bt_ok (bt_insert k v m)" by (rule bt_insert_ok [OF ok])
  show "bt_ok (bt_remove k m)" unfolding bt_remove_def by (rule bt_filter_ok [OF ok])
  show "sorted_wrt (<) (bt_keys m)" using ok by (simp add: bt_ok_def bt_keys_def)
  show "(k \<in> set (bt_keys m)) = (bt_get k m \<noteq> None)"
    by (simp add: bt_keys_def bt_get_def map_of_eq_None_iff)
  show "bt_get k' (bt_insert k v m) = (if k' = k then Some v else bt_get k' m)"
    by (simp add: bt_get_def bt_insert_get [OF ok])
  show "bt_get k' (bt_remove k m) = (if k' = k then None else bt_get k' m)"
    by (induction m) (auto simp: bt_get_def bt_remove_def)
qed

end
