(* ===== verification/Jitter.thy ===== *)
theory Jitter
  imports Frame Serial Btree_Map
begin

text \<open>
  The jitter buffer of \<open>src/media/jitter_buffer.rs\<close>: \<open>push\<close> with its resets on a change of SSRC, a jump
  of the sequence numbers or of the timestamps, \<open>pop\<close>, \<open>next_pop_wait\<close> and \<open>get_first_seq\<close>. Instants and
  durations are natural numbers (nanoseconds); the clock is read by the operations and is an argument
  here. Shown are the bound on the number of buffered samples, that delivery after the first sample
  follows the serial order of the sequence numbers, and that the announced waiting time suffices.
\<close>

unbundle bit_operations_syntax

section \<open>State and operations\<close>

record buffered_sample =
  sample :: media_sample
  arrival :: nat

record jitter_buffer =
  samples :: "(u16, buffered_sample) btree"
  last_delivered_seq :: "u16 option"
  last_delivered_timestamp :: "u32 option"
  last_ssrc :: "u32 option"
  max_delay :: nat
  min_delay :: nat
  capacity :: nat

definition MAX_SEQ_GAP :: u16 where "MAX_SEQ_GAP = 64"
definition AUDIO_TS_JUMP_SECS :: u32 where "AUDIO_TS_JUMP_SECS = 2"
definition VIDEO_TS_JUMP_SECS :: u32 where "VIDEO_TS_JUMP_SECS = 5"

definition jitter_new :: "nat \<Rightarrow> nat \<Rightarrow> nat \<Rightarrow> jitter_buffer" where
  "jitter_new min_d max_d cap = \<lparr>samples = [], last_delivered_seq = None, last_delivered_timestamp = None,
     last_ssrc = None, max_delay = max_d, min_delay = min_d, capacity = cap\<rparr>"

definition jitter_reset :: "jitter_buffer \<Rightarrow> jitter_buffer" where
  "jitter_reset b = b\<lparr>samples := [], last_delivered_seq := None, last_delivered_timestamp := None,
     last_ssrc := None\<rparr>"

definition is_newer :: "u16 \<Rightarrow> u16 \<Rightarrow> bool" where
  "is_newer seq lst \<longleftrightarrow> (if seq = lst then False else seq - lst < 32768)"

fun sample_ssrc :: "media_sample \<Rightarrow> u32 option" where
  "sample_ssrc (Audio f) = map_option (\<lambda>p. ssrc (header p)) (a_raw_packet f)"
| "sample_ssrc (Video f) = map_option (\<lambda>p. ssrc (header p)) (v_raw_packet f)"

fun sample_info :: "media_sample \<Rightarrow> u16 option \<times> u32 \<times> u32 option \<times> bool \<times> u32" where
  "sample_info (Audio f) = (a_sequence_number f, a_rtp_timestamp f, sample_ssrc (Audio f), a_marker f,
     if a_clock_rate f = 0 then 8000 else a_clock_rate f)"
| "sample_info (Video f) = (v_sequence_number f, v_rtp_timestamp f, sample_ssrc (Video f), v_is_last_packet f, 90000)"

definition saturating_mul :: "u32 \<Rightarrow> u32 \<Rightarrow> u32" where
  "saturating_mul a b = of_nat (min (unat a * unat b) (2 ^ 32 - 1))"

text \<open>The restart shared by the discontinuity branches: reset, remember the SSRC when there is one, and
  start over with this sample.\<close>

definition jitter_restart :: "u32 option \<Rightarrow> u16 \<Rightarrow> buffered_sample \<Rightarrow> jitter_buffer \<Rightarrow> jitter_buffer" where
  "jitter_restart ss seq s b =
     (let b = jitter_reset b;
          b = (case ss of Some x \<Rightarrow> b\<lparr>last_ssrc := Some x\<rparr> | None \<Rightarrow> b)
      in b\<lparr>samples := bt_insert seq s (samples b)\<rparr>)"

definition max_reasonable_jump :: "media_sample \<Rightarrow> u32 \<Rightarrow> u32" where
  "max_reasonable_jump smp clock_rate =
     (case smp of Audio _ \<Rightarrow> saturating_mul clock_rate AUDIO_TS_JUMP_SECS
      | Video _ \<Rightarrow> saturating_mul 90000 VIDEO_TS_JUMP_SECS)"

text \<open>Whether the timestamp jumped too far, forward or backward.\<close>

definition timestamp_jump :: "media_sample \<Rightarrow> u32 \<Rightarrow> u32 \<Rightarrow> u32 \<Rightarrow> bool" where
  "timestamp_jump smp clock_rate ts last_ts =
     (let jump = max_reasonable_jump smp clock_rate; ts_diff = ts - last_ts
      in if ts_diff > jump \<and> ts_diff < 0x7FFFFFFF then True
         else if ts_diff > 0x7FFFFFFF then last_ts - ts > jump
         else False)"

text \<open>A marker after half a second or more clears what is buffered.\<close>

definition clear_stale :: "bool \<Rightarrow> u32 \<Rightarrow> u32 \<Rightarrow> jitter_buffer \<Rightarrow> jitter_buffer" where
  "clear_stale mark ts clock_rate b =
     (case last_delivered_timestamp b of
        Some l \<Rightarrow> if mark \<and> ts - l > clock_rate div 2 \<and> ts - l < 0x7FFFFFFF \<and> samples b \<noteq> []
                 then b\<lparr>samples := []\<rparr> else b
      | None \<Rightarrow> b)"

definition jitter_store :: "u16 \<Rightarrow> buffered_sample \<Rightarrow> jitter_buffer \<Rightarrow> jitter_buffer" where
  "jitter_store seq s b =
     (let b = (if length (samples b) \<ge> capacity b then b\<lparr>samples := bt_pop_first (samples b)\<rparr> else b)
      in b\<lparr>samples := bt_insert seq s (samples b)\<rparr>)"

definition jitter_push :: "nat \<Rightarrow> media_sample \<Rightarrow> jitter_buffer \<Rightarrow> jitter_buffer" where
  "jitter_push now smp b =
     (case sample_info smp of (seq_opt, ts, ss, mark, clock_rate) \<Rightarrow>
      case seq_opt of
        None \<Rightarrow> b
      | Some seq \<Rightarrow>
          let s = \<lparr>sample = smp, arrival = now\<rparr>
          in if ss \<noteq> None \<and> last_ssrc b \<noteq> None \<and> last_ssrc b \<noteq> ss then jitter_restart ss seq s b
          else let b = (if last_ssrc b = None then b\<lparr>last_ssrc := ss\<rparr> else b)
          in if (case last_delivered_seq b of Some l \<Rightarrow> \<not> is_newer seq l | None \<Rightarrow> False) then b
          else if (case last_delivered_seq b of Some l \<Rightarrow> seq - l > MAX_SEQ_GAP \<and> seq - l < 32768 | None \<Rightarrow> False)
          then jitter_restart ss seq s b
          else if (case last_delivered_timestamp b of Some l \<Rightarrow> timestamp_jump smp clock_rate ts l | None \<Rightarrow> False)
          then jitter_restart ss seq s b
          else jitter_store seq s (clear_stale mark ts clock_rate b))"

definition get_first_seq :: "jitter_buffer \<Rightarrow> u16 option" where
  "get_first_seq b =
     (if samples b = [] then None
      else case last_delivered_seq b of
        None \<Rightarrow>
          (case (bt_first (samples b), bt_last (samples b)) of
             (Some k0, Some kn) \<Rightarrow> if is_newer k0 kn then Some kn else Some k0
           | _ \<Rightarrow> None)
      | Some l \<Rightarrow>
          let next_expected = l + 1
          in if next_expected > l
             then (case bt_first (bt_from next_expected (samples b)) of
                     Some k \<Rightarrow> Some k
                   | None \<Rightarrow> bt_first (samples b))
             else bt_first (bt_from 0 (samples b)))"

definition first_is_next :: "u16 \<Rightarrow> jitter_buffer \<Rightarrow> bool" where
  "first_is_next first_seq b = (case last_delivered_seq b of Some l \<Rightarrow> first_seq = l + 1 | None \<Rightarrow> True)"

fun sample_timestamp :: "media_sample \<Rightarrow> u32" where
  "sample_timestamp (Audio f) = a_rtp_timestamp f"
| "sample_timestamp (Video f) = v_rtp_timestamp f"

text \<open>The \<open>unwrap\<close> of the lookup is a panic when the key is absent.\<close>

definition jitter_pop :: "nat \<Rightarrow> jitter_buffer \<Rightarrow> unit fault + (media_sample option \<times> jitter_buffer)" where
  "jitter_pop now b =
     (case get_first_seq b of
        None \<Rightarrow> Ok (None, b)
      | Some first_seq \<Rightarrow>
          (case bt_get first_seq (samples b) of
             None \<Rightarrow> Panicked
           | Some s \<Rightarrow>
               let age = now - arrival s;
                   should_deliver = (if first_is_next first_seq b then age \<ge> min_delay b else age \<ge> max_delay b)
               in if should_deliver
                  then Ok (Some (sample s),
                           b\<lparr>samples := bt_remove first_seq (samples b), last_delivered_seq := Some first_seq,
                             last_delivered_timestamp := Some (sample_timestamp (sample s))\<rparr>)
                  else Ok (None, b)))"

definition next_pop_wait :: "nat \<Rightarrow> jitter_buffer \<Rightarrow> unit fault + nat option" where
  "next_pop_wait now b =
     (case get_first_seq b of
        None \<Rightarrow> Ok None
      | Some first_seq \<Rightarrow>
          (case bt_get first_seq (samples b) of
             None \<Rightarrow> Panicked
           | Some s \<Rightarrow>
               let age = now - arrival s;
                   target = (if first_is_next first_seq b then min_delay b else max_delay b)
               in Ok (Some (if age \<ge> target then 0 else target - age))))"

definition awaiting_next :: "jitter_buffer \<Rightarrow> bool" where
  "awaiting_next b \<longleftrightarrow> last_delivered_seq b \<noteq> None \<and> samples b = []"

section \<open>Order of the sequence numbers\<close>

interpretation jb_serial: serial_order is_newer
  by unfold_locales (auto simp: is_newer_def ahead_def word_less_nat_alt unat_gt_0 simp flip: word_gt_0)

lemma bt_first_least:
  assumes "bt_ok m" and "bt_first m = Some k"
  shows "k \<in> set (bt_keys m)" and "k' \<in> set (bt_keys m) \<Longrightarrow> k \<le> k'"
  using assms by (auto simp: bt_first_def bt_keys_def bt_ok_def split: list.splits)

lemma sorted_le_last: "sorted xs \<Longrightarrow> x \<in> set xs \<Longrightarrow> x \<le> last xs"
  by (induction xs) (auto split: if_splits)

lemma bt_last_greatest:
  assumes "bt_ok m" and "bt_last m = Some k"
  shows "k \<in> set (bt_keys m)" and "k' \<in> set (bt_keys m) \<Longrightarrow> k' \<le> k"
proof -
  have ne: "m \<noteq> []" and k: "k = last (bt_keys m)"
    using assms(2) by (auto simp: bt_last_def bt_keys_def last_map split: if_splits)
  then show "k \<in> set (bt_keys m)" by (metis bt_keys_def last_in_set list.map_disc_iff)
  have "sorted (bt_keys m)" using bt.keys_sorted [OF assms(1)] strict_sorted_imp_sorted by blast
  then show "k' \<in> set (bt_keys m) \<Longrightarrow> k' \<le> k" unfolding k by (rule sorted_le_last)
qed

lemma bt_first_None [simp]: "bt_first m = None \<longleftrightarrow> m = []"
  by (simp add: bt_first_def split: list.splits)

lemma bt_first_Nil [simp]: "bt_first [] = None"
  by simp

lemma bt_last_None [simp]: "bt_last m = None \<longleftrightarrow> m = []"
  by (simp add: bt_last_def)

lemma bt_from_ok: "bt_ok m \<Longrightarrow> bt_ok (bt_from k m)"
  unfolding bt_ok_def bt_from_def by (induction m) auto

lemma bt_from_keys: "set (bt_keys (bt_from k m)) = {k' \<in> set (bt_keys m). k \<le> k'}"
  by (auto simp: bt_from_def bt_keys_def)

lemma bt_keys_empty: "set (bt_keys m) = {} \<longleftrightarrow> m = []"
  by (simp add: bt_keys_def)

text \<open>After a delivery the candidate is the buffered number that comes first behind the last delivered
  one, in the cyclic order of the number space.\<close>

lemma ahead_cases: "ahead k l = (if l \<le> k then unat k - unat l else 65536 - unat l + unat k)" for k l :: u16
proof (cases "l \<le> k")
  case True
  then show ?thesis by (simp add: ahead_def unat_sub)
next
  case False
  then have "l \<noteq> k" by auto
  from ahead_swap [OF this] False have "unat l - unat k + ahead k l = 65536"
    by (simp add: ahead_def [of l k] unat_sub)
  moreover have "unat k < unat l" using False by (simp add: word_le_nat_alt)
  ultimately have "ahead k l = 65536 - unat l + unat k" using unat_u16_less [of l] by linarith
  with False show ?thesis by simp
qed

lemma unat_succ: "l \<noteq> - 1 \<Longrightarrow> unat (l + 1) = unat l + 1" for l :: "'a::len word"
proof -
  assume "l \<noteq> - 1"
  then have "1 + l \<noteq> 0" by (metis add.commute add_eq_0_iff2)
  then show ?thesis using unatSuc [of l] by (simp add: add.commute)
qed

lemma get_first_seq_after:
  assumes "bt_ok (samples b)" and "last_delivered_seq b = Some l" and "l \<notin> set (bt_keys (samples b))"
    and "get_first_seq b = Some k"
  shows "k \<in> set (bt_keys (samples b)) \<and> (\<forall>k' \<in> set (bt_keys (samples b)). ahead k l \<le> ahead k' l)"
proof (cases "l + 1 > l")
  case True
  then have l1: "unat (l + 1) = unat l + 1" by (intro unat_succ) auto
  let ?f = "bt_from (l + 1) (samples b)"
  have ne: "k' \<noteq> l" if "k' \<in> set (bt_keys (samples b))" for k' using that assms(3) by auto
  show ?thesis
  proof (cases "bt_first ?f")
    case (Some k1)
    with True assms have k: "k = k1" by (auto simp: get_first_seq_def split: if_splits)
    note f = bt_first_least [OF bt_from_ok [OF assms(1)] Some, folded k, unfolded bt_from_keys]
    show ?thesis
    proof (intro conjI ballI)
      show "k \<in> set (bt_keys (samples b))" using f(1) by simp
      fix k' assume k': "k' \<in> set (bt_keys (samples b))"
      have "unat k - unat l \<le> 65536 - unat l + unat k'" using unat_u16_less [of k] by linarith
      then show "ahead k l \<le> ahead k' l"
        using f(1) f(2) [of k'] k' ne [OF k'] l1
        unfolding word_unat_eq_iff [of k' l] by (auto simp: ahead_cases word_le_nat_alt)
    qed
  next
    case None
    then have low: "\<not> l + 1 \<le> k'" if "k' \<in> set (bt_keys (samples b))" for k'
      using that bt_from_keys [of "l + 1" "samples b"] by (auto simp: bt_keys_def)
    from None True assms have "bt_first (samples b) = Some k"
      by (auto simp: get_first_seq_def split: if_splits)
    note f = bt_first_least [OF assms(1) this]
    have "\<not> l \<le> k'" if "k' \<in> set (bt_keys (samples b))" for k'
      using low [OF that] ne [OF that] l1 by (auto simp: word_le_nat_alt word_unat_eq_iff)
    then show ?thesis using f by (auto simp: ahead_cases word_le_nat_alt)
  qed
next
  case False
  then have l: "l = - 1" using unat_succ [of l] by (auto simp: word_less_nat_alt)
  have "bt_from 0 (samples b) = samples b" by (auto simp: bt_from_def)
  with False assms have "bt_first (samples b) = Some k" by (auto simp: get_first_seq_def split: if_splits)
  note f = bt_first_least [OF assms(1) this]
  have "\<not> l \<le> k'" if "k' \<in> set (bt_keys (samples b))" for k'
    using that assms(3) l by (metis antisym word_order.extremum)
  then show ?thesis using f by (auto simp: ahead_cases word_le_nat_alt)
qed

section \<open>Invariants\<close>

abbreviation buffered :: "jitter_buffer \<Rightarrow> u16 set" where
  "buffered b \<equiv> set (bt_keys (samples b))"

definition sample_seq :: "media_sample \<Rightarrow> u16 option" where
  "sample_seq s = fst (sample_info s)"

text \<open>Well-formed: an ordered map in which every sample is filed under its own sequence number, no
  larger than the capacity (one when the capacity is zero).\<close>

definition jb_wf :: "jitter_buffer \<Rightarrow> bool" where
  "jb_wf b \<longleftrightarrow> bt_ok (samples b) \<and> (\<forall>k s. bt_get k (samples b) = Some s \<longrightarrow> sample_seq (sample s) = Some k)
     \<and> length (samples b) \<le> max 1 (capacity b)"

text \<open>In order: everything buffered is newer than what was delivered. Before the first delivery, the
  buffered numbers do not wrap around.\<close>

definition jb_spans :: "jitter_buffer \<Rightarrow> bool" where
  "jb_spans b \<longleftrightarrow> (last_delivered_seq b = None \<longrightarrow>
     (\<forall>k \<in> buffered b. \<forall>k' \<in> buffered b. unat k' - unat k < 32768))"

definition jb_newer :: "jitter_buffer \<Rightarrow> bool" where
  "jb_newer b \<longleftrightarrow> (\<forall>l. last_delivered_seq b = Some l \<longrightarrow> (\<forall>k \<in> buffered b. is_newer k l))"

lemma bt_ok_Nil [simp]: "bt_ok []"
  by (simp add: bt_ok_def)

lemma bt_get_Nil [simp]: "bt_get k [] = None"
  by (simp add: bt_get_def)

lemma bt_keys_Nil [simp]: "bt_keys [] = []"
  by (simp add: bt_keys_def)

lemma length_bt_keys [simp]: "length (bt_keys m) = length m"
  by (simp add: bt_keys_def)

lemma bt_insert_length: "bt_ok m \<Longrightarrow> length (bt_insert k v m) \<le> Suc (length m)"
  using bt.size_ins [of m k v] by simp

lemma bt_pop_first_get:
  "bt_ok m \<Longrightarrow> bt_get k (bt_pop_first m) = Some s \<Longrightarrow> bt_get k m = Some s"
  by (cases m) (auto simp: bt_pop_first_def bt_get_def bt_ok_def dest!: map_of_SomeD split: if_splits)

lemma bt_pop_first_ok: "bt_ok m \<Longrightarrow> bt_ok (bt_pop_first m)"
  by (cases m) (simp_all add: bt_pop_first_def bt_ok_def)

lemma bt_pop_first_keys: "set (bt_keys (bt_pop_first m)) \<subseteq> set (bt_keys m)"
  by (cases m) (auto simp: bt_pop_first_def bt_keys_def)

lemma jb_wf_store:
  assumes wf: "jb_wf b" and "sample_seq (sample s) = Some seq"
  shows "jb_wf (jitter_store seq s b)"
proof -
  define m where "m = (if length (samples b) \<ge> capacity b then bt_pop_first (samples b) else samples b)"
  have ok: "bt_ok m" and get: "bt_get k m = Some v \<Longrightarrow> bt_get k (samples b) = Some v" for k v
    using wf bt_pop_first_ok bt_pop_first_get by (auto simp: m_def jb_wf_def split: if_splits)
  have "length m < max 1 (capacity b)"
    using wf by (cases "samples b") (auto simp: m_def jb_wf_def bt_pop_first_def)
  then have "length (bt_insert seq s m) \<le> max 1 (capacity b)" using bt_insert_length [OF ok, of seq s] by linarith
  moreover have "jitter_store seq s b = b\<lparr>samples := bt_insert seq s m\<rparr>"
    by (simp add: jitter_store_def m_def)
  ultimately show ?thesis
    using wf ok get assms(2) by (auto simp: jb_wf_def bt.get_ins bt_insert_ok split: if_splits)
qed

lemma jb_wf_restart: "sample_seq (sample s) = Some seq \<Longrightarrow> jb_wf (jitter_restart ss seq s b)"
  by (auto simp: jitter_restart_def jitter_reset_def jb_wf_def bt_ok_def bt_get_def Let_def
      split: option.splits if_splits)

lemma jb_wf_clear: "jb_wf b \<Longrightarrow> jb_wf (clear_stale mark ts clk b)"
  by (auto simp: clear_stale_def jb_wf_def split: option.splits)

lemma jb_wf_ssrc: "jb_wf b \<Longrightarrow> jb_wf (b\<lparr>last_ssrc := x\<rparr>)"
  by (simp add: jb_wf_def)

text \<open>The ways \<open>push\<close> can end: nothing but the SSRC changes, the stream restarts, or the sample, which is
  newer than the last delivered one, is stored.\<close>

lemma jitter_push_cases:
  obtains (same) x where "jitter_push now smp b = b\<lparr>last_ssrc := x\<rparr>"
  | (restart) seq ss c where "sample_seq smp = Some seq"
      "jitter_push now smp b = jitter_restart ss seq \<lparr>sample = smp, arrival = now\<rparr> c" "capacity c = capacity b"
  | (store) seq mark ts clk x where "sample_seq smp = Some seq"
      "jitter_push now smp b
        = jitter_store seq \<lparr>sample = smp, arrival = now\<rparr> (clear_stale mark ts clk (b\<lparr>last_ssrc := x\<rparr>))"
      "\<And>l. last_delivered_seq b = Some l \<Longrightarrow> is_newer seq l"
proof -
  obtain seq_opt ts ss mark clk where info: "sample_info smp = (seq_opt, ts, ss, mark, clk)" by (cases "sample_info smp")
  show thesis
  proof (cases seq_opt)
    case None
    then show thesis using same [of "last_ssrc b"] by (simp add: jitter_push_def info)
  next
    case (Some seq)
    define s where "s = \<lparr>sample = smp, arrival = now\<rparr>"
    have key: "sample_seq smp = Some seq" by (simp add: sample_seq_def info Some)
    define c where "c = (if last_ssrc b = None then b\<lparr>last_ssrc := ss\<rparr> else b)"
    define x where "x = last_ssrc c"
    have c: "c = b\<lparr>last_ssrc := x\<rparr>" by (simp add: c_def x_def)
    define old where "old = (case last_delivered_seq c of Some l \<Rightarrow> \<not> is_newer seq l | None \<Rightarrow> False)"
    define jump where "jump = ((case last_delivered_seq c of Some l \<Rightarrow> seq - l > MAX_SEQ_GAP \<and> seq - l < 32768
        | None \<Rightarrow> False)
      \<or> (case last_delivered_timestamp c of Some l \<Rightarrow> timestamp_jump smp clk ts l | None \<Rightarrow> False))"
    have p: "jitter_push now smp b =
       (if ss \<noteq> None \<and> last_ssrc b \<noteq> None \<and> last_ssrc b \<noteq> ss then jitter_restart ss seq s b
        else if old then c else if jump then jitter_restart ss seq s c
        else jitter_store seq s (clear_stale mark ts clk c))"
      by (simp add: jitter_push_def info Some s_def c_def old_def jump_def Let_def)
    show thesis
    proof (cases "ss \<noteq> None \<and> last_ssrc b \<noteq> None \<and> last_ssrc b \<noteq> ss")
      case True
      then show thesis using restart [OF key, of ss b, folded s_def] p by simp
    next
      case no_change: False
      show thesis
      proof (cases old)
        case True
        then show thesis using same [of x] p c no_change by auto
      next
        case False
        then have "is_newer seq l" if "last_delivered_seq b = Some l" for l
          using that by (simp add: old_def c)
        then show thesis
          using restart [OF key, of ss c, folded s_def] store [OF key, of mark ts clk x, folded s_def]
            p c no_change False by (cases jump) auto
      qed
    qed
  qed
qed

lemma jb_wf_push: "jb_wf b \<Longrightarrow> jb_wf (jitter_push now smp b)"
  by (rule jitter_push_cases [of now smp b])
    (simp_all add: jb_wf_ssrc jb_wf_restart jb_wf_store jb_wf_clear)

lemma jb_newer_push:
  assumes "jb_wf b" and "jb_newer b"
  shows "jb_newer (jitter_push now smp b)"
proof (cases rule: jitter_push_cases [of now smp b])
  case (same x)
  with assms show ?thesis by (simp add: jb_newer_def)
next
  case (restart seq ss c)
  then show ?thesis
    by (simp add: jb_newer_def jitter_restart_def jitter_reset_def Let_def split: option.splits)
next
  case (store seq mark ts clk x)
  define c where "c = clear_stale mark ts clk (b\<lparr>last_ssrc := x\<rparr>)"
  have c: "bt_ok (samples c)" "buffered c \<subseteq> buffered b" "last_delivered_seq c = last_delivered_seq b"
    using assms(1) by (auto simp: c_def clear_stale_def jb_wf_def split: option.splits)
  have "buffered (jitter_push now smp b) \<subseteq> insert seq (buffered b)"
    using c bt_pop_first_keys [of "samples c"] unfolding store(2) c_def [symmetric]
    by (auto simp: jitter_store_def bt.keys_ins bt_pop_first_ok split: if_splits)
  moreover have "last_delivered_seq (jitter_push now smp b) = last_delivered_seq b"
    using c(3) unfolding store(2) c_def [symmetric] by (simp add: jitter_store_def)
  ultimately show ?thesis using assms(2) store(3) by (auto simp: jb_newer_def)
qed

lemma get_first_seq_initial:
  assumes "bt_ok (samples b)" and "last_delivered_seq b = None" and "jb_spans b" and "get_first_seq b = Some k"
  shows "k \<in> buffered b \<and> (\<forall>k' \<in> buffered b. k' = k \<or> is_newer k' k)"
proof -
  obtain k0 kn where first: "bt_first (samples b) = Some k0" and last: "bt_last (samples b) = Some kn"
    using assms(2,4) by (auto simp: get_first_seq_def split: if_splits option.splits)
  note f = bt_first_least [OF assms(1) first] and l = bt_last_greatest [OF assms(1) last]
  have span: "unat k' - unat k0 < 32768" if "k' \<in> buffered b" for k'
    using assms(2,3) f(1) that by (simp add: jb_spans_def)
  have newer: "k' = k0 \<or> is_newer k' k0" if "k' \<in> buffered b" for k'
    using f(2) [OF that] span [OF that] by (auto simp: is_newer_def word_less_nat_alt unat_sub)
  then have "\<not> is_newer k0 kn" using l(1) jb_serial.gt_asym jb_serial.gt_irrefl by blast
  then have "k = k0"
    using assms(2,4) first last by (auto simp: get_first_seq_def split: if_splits)
  with f(1) newer show ?thesis by blast
qed

lemma get_first_seq_buffered:
  assumes "bt_ok (samples b)" and "get_first_seq b = Some k"
  shows "k \<in> buffered b"
proof -
  have "j \<in> buffered b" if "bt_first (bt_from n (samples b)) = Some j" for j n
    using bt_first_least(1) [OF bt_from_ok [OF assms(1)] that] by (simp add: bt_from_keys)
  moreover have "j \<in> buffered b" if "bt_first (samples b) = Some j \<or> bt_last (samples b) = Some j" for j
    using that bt_first_least(1) [OF assms(1)] bt_last_greatest(1) [OF assms(1)] by blast
  ultimately show ?thesis
    using assms(2) by (auto simp: get_first_seq_def Let_def split: if_splits option.splits)
qed

lemma get_first_seq_some: "samples b \<noteq> [] \<Longrightarrow> \<exists>k. get_first_seq b = Some k"
proof -
  assume ne: "samples b \<noteq> []"
  have "bt_from 0 (samples b) = samples b" by (auto simp: bt_from_def)
  with ne show ?thesis
    by (cases "bt_first (samples b)"; cases "bt_last (samples b)")
      (auto simp: get_first_seq_def Let_def split: option.splits)
qed

lemma get_first_seq_found:
  assumes "jb_wf b" and "get_first_seq b = Some k"
  obtains s where "bt_get k (samples b) = Some s"
  using assms get_first_seq_buffered [of b k] bt.get_keys [of "samples b" k] by (auto simp: jb_wf_def)

lemma jitter_pop_no_panic: "jb_wf b \<Longrightarrow> jitter_pop now b \<noteq> Panicked"
  by (cases "get_first_seq b") (auto simp: jitter_pop_def Let_def split: option.splits elim: get_first_seq_found)

lemma next_pop_wait_no_panic: "jb_wf b \<Longrightarrow> next_pop_wait now b \<noteq> Panicked"
  by (cases "get_first_seq b") (auto simp: next_pop_wait_def Let_def split: option.splits elim: get_first_seq_found)

lemma jitter_pop_delivers:
  assumes "jitter_pop now b = Ok (Some smp, b')"
  obtains k s where "get_first_seq b = Some k" "bt_get k (samples b) = Some s" "smp = sample s"
    "b' = b\<lparr>samples := bt_remove k (samples b), last_delivered_seq := Some k,
            last_delivered_timestamp := Some (sample_timestamp (sample s))\<rparr>"
  using assms by (auto simp: jitter_pop_def Let_def split: option.splits if_splits)

lemma jitter_pop_nothing: "jitter_pop now b = Ok (None, b') \<Longrightarrow> b' = b"
  by (auto simp: jitter_pop_def Let_def split: option.splits if_splits)

lemma jb_wf_pop:
  assumes "jb_wf b" and "jitter_pop now b = Ok (r, b')"
  shows "jb_wf b'"
proof (cases r)
  case None
  with assms jitter_pop_nothing show ?thesis by blast
next
  case (Some smp)
  with assms(2) have "jitter_pop now b = Ok (Some smp, b')" by simp
  then obtain k s where "get_first_seq b = Some k" "bt_get k (samples b) = Some s" "smp = sample s"
    and "b' = b\<lparr>samples := bt_remove k (samples b), last_delivered_seq := Some k,
      last_delivered_timestamp := Some (sample_timestamp (sample s))\<rparr>"
    by (rule jitter_pop_delivers)
  moreover have "length (bt_remove k (samples b)) \<le> length (samples b)" by (simp add: bt_remove_def)
  ultimately show ?thesis
    using assms(1) by (auto simp: jb_wf_def bt.get_del bt.del_ok split: if_splits)
qed

text \<open>A delivery is newer than the one before it, and older than everything that stays.\<close>

lemma jitter_pop_order:
  assumes "jb_wf b" and "jb_newer b" and "jb_spans b" and "jitter_pop now b = Ok (Some smp, b')"
  shows "\<exists>k. sample_seq smp = Some k \<and> last_delivered_seq b' = Some k
    \<and> (\<forall>l. last_delivered_seq b = Some l \<longrightarrow> is_newer k l)
    \<and> (\<forall>k' \<in> buffered b'. is_newer k' k)"
proof -
  from assms(4) obtain k s where k: "get_first_seq b = Some k" "bt_get k (samples b) = Some s" "smp = sample s"
    and b': "b' = b\<lparr>samples := bt_remove k (samples b), last_delivered_seq := Some k,
            last_delivered_timestamp := Some (sample_timestamp (sample s))\<rparr>"
    by (rule jitter_pop_delivers)
  have ok: "bt_ok (samples b)" using assms(1) by (simp add: jb_wf_def)
  have seq: "sample_seq smp = Some k" using assms(1) k by (simp add: jb_wf_def)
  have rest: "buffered b' = buffered b - {k}" by (simp add: b' bt.keys_del [OF ok])
  have first: "\<forall>k' \<in> buffered b. k' = k \<or> is_newer k' k"
  proof (cases "last_delivered_seq b")
    case None
    with get_first_seq_initial [OF ok None assms(3) k(1)] show ?thesis by blast
  next
    case (Some l)
    have newer: "is_newer k' l" if "k' \<in> buffered b" for k'
      using that assms(2) Some by (simp add: jb_newer_def)
    then have "l \<notin> buffered b" using jb_serial.gt_irrefl by blast
    note g = get_first_seq_after [OF ok Some this k(1)]
    show ?thesis
    proof
      fix k' assume k': "k' \<in> buffered b"
      with g consider "ahead k l < ahead k' l" | "ahead k' l = ahead k l" by fastforce
      then show "k' = k \<or> is_newer k' k"
        using jb_serial.gt_from_base [of k l k'] newer [OF k'] newer [of k] g ahead_inj [of k' l k]
        by cases blast+
    qed
  qed
  have "is_newer k l" if "last_delivered_seq b = Some l" for l
    using that assms(2) get_first_seq_buffered [OF ok k(1)] by (simp add: jb_newer_def)
  moreover have "last_delivered_seq b' = Some k" by (simp add: b')
  moreover have "\<forall>k' \<in> buffered b'. is_newer k' k" using first rest by blast
  ultimately show ?thesis using seq by blast
qed

section \<open>Reachable buffers\<close>

text \<open>The states a buffer goes through; \<open>G\<close> restricts the states after a push.\<close>

inductive jb_reach :: "(jitter_buffer \<Rightarrow> bool) \<Rightarrow> jitter_buffer \<Rightarrow> bool" for G where
  new: "jb_reach G (jitter_new min_d max_d cap)"
| push: "jb_reach G b \<Longrightarrow> G (jitter_push now smp b) \<Longrightarrow> jb_reach G (jitter_push now smp b)"
| pop: "jb_reach G b \<Longrightarrow> jitter_pop now b = Ok (r, b') \<Longrightarrow> jb_reach G b'"
| reset: "jb_reach G b \<Longrightarrow> jb_reach G (jitter_reset b)"

lemma jb_reach_wf: "jb_reach G b \<Longrightarrow> jb_wf b"
proof (induction rule: jb_reach.induct)
  case new
  show ?case by (simp add: jitter_new_def jb_wf_def)
next
  case reset
  show ?case by (simp add: jitter_reset_def jb_wf_def)
qed (auto intro: jb_wf_push jb_wf_pop)

lemma jb_reach_order: "jb_reach jb_spans b \<Longrightarrow> jb_newer b \<and> jb_spans b"
proof (induction rule: jb_reach.induct)
  case new
  show ?case by (simp add: jitter_new_def jb_newer_def jb_spans_def)
next
  case (push b now smp)
  then show ?case using jb_newer_push jb_reach_wf by blast
next
  case (pop b now r b')
  show ?case
  proof (cases r)
    case None
    with pop jitter_pop_nothing show ?thesis by blast
  next
    case (Some smp)
    with pop jitter_pop_order [OF jb_reach_wf [OF pop(1)], of now smp b'] show ?thesis
      by (auto simp: jb_newer_def jb_spans_def)
  qed
next
  case reset
  show ?case by (simp add: jitter_reset_def jb_newer_def jb_spans_def)
qed

section \<open>Properties\<close>

text \<open>
  C24: In every state a jitter buffer can reach by pushes, pops and resets, the buffered samples are filed
  under their own sequence numbers in ascending order, there are at most as many as the capacity (one for
  capacity zero), and neither a pop nor the query for the next waiting time can panic.
\<close>

theorem jitter_buffer_invariant:
  assumes "jb_reach (\<lambda>_. True) b"
  shows "jb_wf b \<and> jitter_pop now b \<noteq> Panicked \<and> next_pop_wait now b \<noteq> Panicked"
  using jb_reach_wf [OF assms] jitter_pop_no_panic next_pop_wait_no_panic by blast

text \<open>Two audio samples for the witnesses.\<close>

definition audio_sample :: "u16 \<Rightarrow> media_sample" where
  "audio_sample seq = from_rtp_packet (rtp_packet_new (rtp_header_new 0 seq 0 7) []) AudioKind 8000
     (SockV4 [127, 0, 0, 1] 4000)"

theorem jitter_buffer_invariant_witness:
  "jitter_pop 50 (jitter_push 10 (audio_sample 3) (jitter_new 20 60 8)) \<noteq> Panicked"
proof -
  have "jb_reach (\<lambda>_. True) (jitter_push 10 (audio_sample 3) (jitter_new 20 60 8))"
    by (intro jb_reach.push jb_reach.new) simp
  from jitter_buffer_invariant [OF this, of 50] show ?thesis by simp
qed

text \<open>
  C9: Samples are delivered in sequence order. In every state reached without the sequence numbers
  wrapping around among the samples that wait for the first delivery, a delivered sample is newer (in
  serial arithmetic) than the one delivered before it and older than every sample that stays behind.
\<close>

theorem jitter_delivery_in_order:
  assumes "jb_reach jb_spans b" and "jitter_pop now b = Ok (Some smp, b')"
  shows "\<exists>k. sample_seq smp = Some k \<and> last_delivered_seq b' = Some k
    \<and> (\<forall>l. last_delivered_seq b = Some l \<longrightarrow> is_newer k l)
    \<and> (\<forall>k' \<in> buffered b'. is_newer k' k)"
  using jitter_pop_order [OF jb_reach_wf [OF assms(1)] _ _ assms(2)] jb_reach_order [OF assms(1)] by blast

theorem jitter_delivery_in_order_witness:
  "\<exists>smp b'. jitter_pop 90 (jitter_push 10 (audio_sample 4) (jitter_push 5 (audio_sample 9) (jitter_new 20 60 8)))
      = Ok (Some smp, b') \<and> sample_seq smp = Some 4 \<and> is_newer 9 4"
proof -
  let ?b = "jitter_push 10 (audio_sample 4) (jitter_push 5 (audio_sample 9) (jitter_new 20 60 8))"
  note eval = jitter_push_def audio_sample_def from_rtp_packet_def rtp_packet_new_def rtp_header_new_def
    jitter_new_def jitter_store_def clear_stale_def jb_spans_def bt_keys_def Let_def
  have reach: "jb_reach jb_spans ?b"
    by (intro jb_reach.push jb_reach.new) (simp_all add: eval)
  obtain smp b' where p: "jitter_pop 90 ?b = Ok (Some smp, b')"
    by (simp add: eval jitter_pop_def get_first_seq_def bt_first_def bt_last_def is_newer_def bt_get_def first_is_next_def)
  have "sample_seq smp = Some 4" "buffered b' = {9}"
    using p by (auto simp: eval jitter_pop_def get_first_seq_def bt_first_def bt_last_def is_newer_def bt_get_def
        first_is_next_def sample_seq_def bt_remove_def)
  with jitter_delivery_in_order [OF reach p] p show ?thesis by auto
qed

text \<open>
  C25: The waiting time that the buffer announces suffices: whenever samples are buffered a waiting time is
  announced, and if the buffer is not touched meanwhile, a pop after that time delivers a sample. The
  clock is monotonic: no buffered sample arrived in the future.
\<close>

theorem jitter_wait_suffices:
  assumes "jb_reach (\<lambda>_. True) b" and "samples b \<noteq> []"
    and "\<forall>k s. bt_get k (samples b) = Some s \<longrightarrow> arrival s \<le> now"
  shows "\<exists>w smp b'. next_pop_wait now b = Ok (Some w) \<and> jitter_pop (now + w) b = Ok (Some smp, b')"
proof -
  obtain k where k: "get_first_seq b = Some k" using get_first_seq_some [OF assms(2)] ..
  obtain s where "bt_get k (samples b) = Some s" using get_first_seq_found [OF jb_reach_wf [OF assms(1)] k] .
  moreover from this have "arrival s \<le> now" using assms(3) by blast
  ultimately show ?thesis by (auto simp: next_pop_wait_def jitter_pop_def k Let_def)
qed

theorem jitter_wait_suffices_witness:
  "\<exists>w smp b'. next_pop_wait 15 (jitter_push 10 (audio_sample 3) (jitter_new 20 60 8)) = Ok (Some w)
     \<and> jitter_pop (15 + w) (jitter_push 10 (audio_sample 3) (jitter_new 20 60 8)) = Ok (Some smp, b')"
proof (rule jitter_wait_suffices)
  show "jb_reach (\<lambda>_. True) (jitter_push 10 (audio_sample 3) (jitter_new 20 60 8))"
    by (intro jb_reach.push jb_reach.new) simp
  show "samples (jitter_push 10 (audio_sample 3) (jitter_new 20 60 8)) \<noteq> []"
    "\<forall>k s. bt_get k (samples (jitter_push 10 (audio_sample 3) (jitter_new 20 60 8))) = Some s \<longrightarrow> arrival s \<le> 15"
    by (simp_all add: bt_get_def jitter_push_def audio_sample_def from_rtp_packet_def rtp_packet_new_def rtp_header_new_def
        jitter_new_def jitter_store_def clear_stale_def Let_def)
qed

text \<open>When the first samples do wrap around, the largest number is delivered first, which leaves the ones
  before it behind: pushing 65534, 65535 and 0 delivers 65535, then 0, then 65534.\<close>

definition pop_seq :: "jitter_buffer \<Rightarrow> u16 option \<times> jitter_buffer" where
  "pop_seq b = (case jitter_pop 1000 b of Inr (Some s, b') \<Rightarrow> (sample_seq s, b') | _ \<Rightarrow> (None, b))"

lemma jitter_initial_wrap_out_of_order:
  "let b = jitter_push 3 (audio_sample 0) (jitter_push 2 (audio_sample 65535)
             (jitter_push 1 (audio_sample 65534) (jitter_new 20 60 8)));
       (s1, b1) = pop_seq b; (s2, b2) = pop_seq b1; (s3, b3) = pop_seq b2
   in (s1, s2, s3) = (Some 65535, Some 0, Some 65534)"
  by code_simp

end
