(* ===== verification/Stun.thy ===== *)
theory Stun
  imports Net_Addr Utf8 Framing
begin

text \<open>
  The STUN codec of \<open>src/transports/ice/stun.rs\<close>: \<open>encode_stun_message\<close> with MESSAGE-INTEGRITY and
  FINGERPRINT, and \<open>decode_stun_message\<close>. HMAC-SHA1 and CRC-32 come from other crates and are arguments
  of the encoder.
\<close>

unbundle bit_operations_syntax

section \<open>Data\<close>

datatype stun_class = Request | Indication | SuccessResponse | ErrorResponse

datatype stun_method = Binding | Allocate | Refresh | CreatePermission | ChannelBind | Send | DataMethod

datatype stun_attribute =
    Username utf8
  | Realm utf8
  | Nonce utf8
  | Software utf8
  | RequestedTransport u8
  | Lifetime u32
  | Priority u32
  | IceControlling u64
  | IceControlled u64
  | UseCandidate
  | XorPeerAddress socket_addr
  | XorMappedAddress socket_addr
  | ChannelNumber u16
  | Data bytes

record stun_message =
  msg_class :: stun_class
  msg_method :: stun_method
  msg_transaction_id :: bytes
  msg_attributes :: "stun_attribute list"

record stun_decoded =
  dec_class :: stun_class
  dec_method :: stun_method
  dec_transaction_id :: bytes
  xor_mapped_address :: "socket_addr option"
  xor_relayed_address :: "socket_addr option"
  xor_peer_address :: "socket_addr option"
  error_code :: "u16 option"
  realm :: "utf8 option"
  nonce :: "utf8 option"
  dec_data :: "bytes option"
  use_candidate :: bool
  lifetime :: "u32 option"

definition MAGIC_COOKIE :: u32 where "MAGIC_COOKIE = 0x2112A442"
definition FINGERPRINT_XOR :: u32 where "FINGERPRINT_XOR = 0x5354554E"

definition binding_request :: "bytes \<Rightarrow> utf8 option \<Rightarrow> stun_message" where
  "binding_request tx software = \<lparr>msg_class = Request, msg_method = Binding, msg_transaction_id = tx,
     msg_attributes = (case software of Some name \<Rightarrow> [Software name] | None \<Rightarrow> [])\<rparr>"

definition binding_success_response :: "bytes \<Rightarrow> socket_addr \<Rightarrow> stun_message" where
  "binding_success_response tx addr = \<lparr>msg_class = SuccessResponse, msg_method = Binding,
     msg_transaction_id = tx, msg_attributes = [XorMappedAddress addr]\<rparr>"

definition allocate_request :: "bytes \<Rightarrow> stun_attribute list \<Rightarrow> stun_message" where
  "allocate_request tx attrs = \<lparr>msg_class = Request, msg_method = Allocate, msg_transaction_id = tx,
     msg_attributes = attrs\<rparr>"

section \<open>Encoding\<close>

fun method_bits :: "stun_method \<Rightarrow> u16" where
  "method_bits Binding = 0x0001"
| "method_bits Allocate = 0x0003"
| "method_bits Refresh = 0x0004"
| "method_bits CreatePermission = 0x0008"
| "method_bits ChannelBind = 0x0009"
| "method_bits Send = 0x0006"
| "method_bits DataMethod = 0x0007"

fun class_bits :: "stun_class \<Rightarrow> u16" where
  "class_bits Request = 0x0000"
| "class_bits Indication = 0x0010"
| "class_bits SuccessResponse = 0x0100"
| "class_bits ErrorResponse = 0x0110"

definition pad_four_bytes :: "bytes \<Rightarrow> bytes" where
  "pad_four_bytes buffer = buffer @ replicate ((4 - length buffer mod 4) mod 4) 0"

definition append_raw_attribute :: "bytes \<Rightarrow> u16 \<Rightarrow> bytes \<Rightarrow> bytes" where
  "append_raw_attribute buffer typ v =
     pad_four_bytes (buffer @ u16_be typ @ u16_be (of_nat (length v)) @ v)"

definition append_string_attr :: "bytes \<Rightarrow> u16 \<Rightarrow> utf8 \<Rightarrow> bytes" where
  "append_string_attr buffer typ v = append_raw_attribute buffer typ v"

definition xor_bytes :: "bytes \<Rightarrow> bytes \<Rightarrow> bytes" where
  "xor_bytes xs ys = map2 (XOR) xs ys"

fun append_xor_address :: "bytes \<Rightarrow> u16 \<Rightarrow> socket_addr \<Rightarrow> bytes \<Rightarrow> bytes" where
  "append_xor_address buffer typ (SockV4 ip port) tx =
     pad_four_bytes (buffer @ u16_be typ @ u16_be 8 @ [0, 0x01]
       @ u16_be (port XOR ucast (drop_bit 16 MAGIC_COOKIE)) @ xor_bytes ip (u32_be MAGIC_COOKIE))"
| "append_xor_address buffer typ (SockV6 ip port) tx =
     pad_four_bytes (buffer @ u16_be typ @ u16_be 20 @ [0, 0x02]
       @ u16_be (port XOR ucast (drop_bit 16 MAGIC_COOKIE))
       @ xor_bytes (take 4 ip) (u32_be MAGIC_COOKIE) @ xor_bytes (drop 4 ip) tx)"

fun append_attribute :: "bytes \<Rightarrow> stun_attribute \<Rightarrow> bytes \<Rightarrow> bytes" where
  "append_attribute buffer (Username v) tx = pad_four_bytes (append_string_attr buffer 0x0006 v)"
| "append_attribute buffer (Realm v) tx = pad_four_bytes (append_string_attr buffer 0x0014 v)"
| "append_attribute buffer (Nonce v) tx = pad_four_bytes (append_string_attr buffer 0x0015 v)"
| "append_attribute buffer (Software v) tx = pad_four_bytes (append_string_attr buffer 0x8022 v)"
| "append_attribute buffer (RequestedTransport v) tx =
     pad_four_bytes (buffer @ u16_be 0x0019 @ u16_be 4 @ [v] @ [0, 0, 0])"
| "append_attribute buffer (Lifetime v) tx = pad_four_bytes (buffer @ u16_be 0x000D @ u16_be 4 @ u32_be v)"
| "append_attribute buffer (Priority v) tx = pad_four_bytes (buffer @ u16_be 0x0024 @ u16_be 4 @ u32_be v)"
| "append_attribute buffer (IceControlling v) tx = pad_four_bytes (buffer @ u16_be 0x802A @ u16_be 8 @ u64_be v)"
| "append_attribute buffer (IceControlled v) tx = pad_four_bytes (buffer @ u16_be 0x8029 @ u16_be 8 @ u64_be v)"
| "append_attribute buffer UseCandidate tx = pad_four_bytes (buffer @ u16_be 0x0025 @ u16_be 0)"
| "append_attribute buffer (XorPeerAddress addr) tx = append_xor_address buffer 0x0012 addr tx"
| "append_attribute buffer (XorMappedAddress addr) tx = append_xor_address buffer 0x0020 addr tx"
| "append_attribute buffer (ChannelNumber v) tx =
     pad_four_bytes (buffer @ u16_be 0x000C @ u16_be 4 @ u16_be v @ [0, 0])"
| "append_attribute buffer (Data v) tx = pad_four_bytes (append_raw_attribute buffer 0x0013 v)"

definition write_length_field :: "bytes \<Rightarrow> nat \<Rightarrow> bytes" where
  "write_length_field buffer len = take 2 buffer @ u16_be (of_nat len) @ drop 4 buffer"

definition update_length_field :: "bytes \<Rightarrow> bytes" where
  "update_length_field buffer = write_length_field buffer (length buffer - 20)"

text \<open>MESSAGE-INTEGRITY is computed over the message with a length that already counts the attribute, and
  so is FINGERPRINT.\<close>

definition append_integrity :: "(bytes \<Rightarrow> bytes \<Rightarrow> bytes) \<Rightarrow> bytes \<Rightarrow> bytes \<Rightarrow> bytes" where
  "append_integrity hmac_sha1 key buffer =
     (let buffer = write_length_field buffer (length buffer - 20 + 24)
      in update_length_field (append_raw_attribute buffer 0x0008 (hmac_sha1 key buffer)))"

definition append_fingerprint :: "(bytes \<Rightarrow> u32) \<Rightarrow> bytes \<Rightarrow> bytes" where
  "append_fingerprint crc32 buffer =
     (let buffer = write_length_field buffer (length buffer - 20 + 8)
      in append_raw_attribute buffer 0x8028 (u32_be (crc32 buffer XOR FINGERPRINT_XOR)))"

definition encode_stun_message :: "(bytes \<Rightarrow> bytes \<Rightarrow> bytes) \<Rightarrow> (bytes \<Rightarrow> u32) \<Rightarrow> stun_message
    \<Rightarrow> bytes option \<Rightarrow> bool \<Rightarrow> rtc_error fault + bytes" where
  "encode_stun_message hmac_sha1 crc32 msg integrity_key fingerprint =
     (let msg_type = method_bits (msg_method msg) OR class_bits (msg_class msg);
          buffer = u16_be msg_type @ [0, 0] @ u32_be MAGIC_COOKIE @ msg_transaction_id msg;
          buffer = fold (\<lambda>attr buffer. append_attribute buffer attr (msg_transaction_id msg))
                     (msg_attributes msg) buffer;
          buffer = update_length_field buffer;
          buffer = (case integrity_key of Some key \<Rightarrow> append_integrity hmac_sha1 key buffer | None \<Rightarrow> buffer);
          buffer = (if fingerprint then append_fingerprint crc32 buffer else buffer)
      in Ok (update_length_field buffer))"

section \<open>Decoding\<close>

definition decode_method :: "u16 \<Rightarrow> rtc_error fault + stun_method" where
  "decode_method msg_type =
     (let m = msg_type AND 0x3EEF
      in if m = 0x0001 then Ok Binding
         else if m = 0x0003 then Ok Allocate
         else if m = 0x0004 then Ok Refresh
         else if m = 0x0008 then Ok CreatePermission
         else if m = 0x0009 then Ok ChannelBind
         else if m = 0x0006 then Ok Send
         else if m = 0x0007 then Ok DataMethod
         else Fail (Internal ''unsupported STUN method''))"

definition decode_class :: "u16 \<Rightarrow> rtc_error fault + stun_class" where
  "decode_class msg_type =
     (let c = msg_type AND 0x0110
      in if c = 0x0000 then Ok Request
         else if c = 0x0010 then Ok Indication
         else if c = 0x0100 then Ok SuccessResponse
         else if c = 0x0110 then Ok ErrorResponse
         else Fail (Internal ''unsupported STUN class''))"

definition parse_xor_address :: "bytes \<Rightarrow> bytes \<Rightarrow> rtc_error fault + socket_addr option" where
  "parse_xor_address v tx =
     (if length v < 4 then Ok None
      else rbind (at8 v 1) (\<lambda>family. rbind (at16 v 2) (\<lambda>port.
        let port = port XOR ucast (drop_bit 16 MAGIC_COOKIE)
        in if family = 0x01 then
             if length v < 8 then Ok None
             else rbind (slice v 4 8) (\<lambda>addr.
               Ok (Some (SockV4 (xor_bytes addr (u32_be MAGIC_COOKIE)) port)))
           else if family = 0x02 then
             if length v < 20 then Ok None
             else rbind (slice v 4 20) (\<lambda>addr.
               Ok (Some (SockV6 (xor_bytes (take 4 addr) (u32_be MAGIC_COOKIE) @ xor_bytes (drop 4 addr) tx) port)))
           else Ok None)))"

text \<open>What one attribute contributes.\<close>

definition apply_attribute :: "u16 \<Rightarrow> bytes \<Rightarrow> stun_decoded \<Rightarrow> rtc_error fault + stun_decoded" where
  "apply_attribute typ v d =
     (let tx = dec_transaction_id d
      in if typ = 0x0020 then
        rbind (parse_xor_address v tx) (\<lambda>a.
          Ok (case a of Some addr \<Rightarrow> d\<lparr>xor_mapped_address := Some addr\<rparr> | None \<Rightarrow> d))
      else if typ = 0x0016 then
        rbind (parse_xor_address v tx) (\<lambda>a.
          Ok (case a of Some addr \<Rightarrow> d\<lparr>xor_relayed_address := Some addr\<rparr> | None \<Rightarrow> d))
      else if typ = 0x0012 then
        rbind (parse_xor_address v tx) (\<lambda>a.
          Ok (case a of Some addr \<Rightarrow> d\<lparr>xor_peer_address := Some addr\<rparr> | None \<Rightarrow> d))
      else if typ = 0x0009 then
        if length v \<ge> 4 then
          rbind (at8 v 2) (\<lambda>c. rbind (at8 v 3) (\<lambda>n. Ok (d\<lparr>error_code := Some (ucast c * 100 + ucast n)\<rparr>)))
        else Ok d
      else if typ = 0x0014 then
        Ok (case from_utf8 v of Some t \<Rightarrow> d\<lparr>realm := Some t\<rparr> | None \<Rightarrow> d)
      else if typ = 0x0015 then
        Ok (case from_utf8 v of Some t \<Rightarrow> d\<lparr>nonce := Some t\<rparr> | None \<Rightarrow> d)
      else if typ = 0x0013 then Ok (d\<lparr>dec_data := Some v\<rparr>)
      else if typ = 0x000D then
        if length v \<ge> 4 then rbind (at32 v 0) (\<lambda>s. Ok (d\<lparr>lifetime := Some s\<rparr>)) else Ok d
      else if typ = 0x0025 then Ok (d\<lparr>use_candidate := True\<rparr>)
      else Ok d)"

function decode_attributes :: "bytes \<Rightarrow> nat \<Rightarrow> stun_decoded \<Rightarrow> rtc_error fault + stun_decoded" where
  "decode_attributes bs offset d =
     (if offset + 4 \<le> length bs then
        rbind (at16 bs offset) (\<lambda>typ. rbind (at16 bs (offset + 2)) (\<lambda>len.
        if offset + 4 + unat len > length bs then Ok d
        else rbind (slice bs (offset + 4) (offset + 4 + unat len)) (\<lambda>v.
          rbind (apply_attribute typ v d) (\<lambda>d.
            decode_attributes bs (offset + 4 + unat len + (4 - unat len mod 4) mod 4) d))))
      else Ok d)"
  by pat_completeness auto
termination
  by (relation "measure (\<lambda>(bs, offset, d). length bs - offset)") auto

declare decode_attributes.simps [simp del]

definition decode_stun_message :: "bytes \<Rightarrow> rtc_error fault + stun_decoded" where
  "decode_stun_message bs =
     (if length bs < 20 then Fail (Internal ''STUN message too short'')
      else rbind (at16 bs 0) (\<lambda>msg_type. rbind (at16 bs 2) (\<lambda>len.
        if unat len + 20 \<noteq> length bs then Fail (Internal ''STUN message length mismatch'')
        else rbind (decode_method msg_type) (\<lambda>m. rbind (decode_class msg_type) (\<lambda>c.
          rbind (slice bs 8 20) (\<lambda>tx.
          decode_attributes bs 20
            \<lparr>dec_class = c, dec_method = m, dec_transaction_id = tx, xor_mapped_address = None,
             xor_relayed_address = None, xor_peer_address = None, error_code = None, realm = None,
             nonce = None, dec_data = None, use_candidate = False, lifetime = None\<rparr>))))))"

section \<open>Attributes on the wire\<close>

text \<open>Every attribute is a type, a value and padding; \<open>attr_raw\<close> gives the first two.\<close>

definition raw_wire :: "u16 \<times> bytes \<Rightarrow> bytes" where
  "raw_wire a = u16_be (fst a) @ u16_be (of_nat (length (snd a))) @ snd a @ replicate (pad_len (length (snd a))) 0"

fun xor_addr_value :: "socket_addr \<Rightarrow> bytes \<Rightarrow> bytes" where
  "xor_addr_value (SockV4 ip port) tx =
     [0, 0x01] @ u16_be (port XOR ucast (drop_bit 16 MAGIC_COOKIE)) @ xor_bytes ip (u32_be MAGIC_COOKIE)"
| "xor_addr_value (SockV6 ip port) tx =
     [0, 0x02] @ u16_be (port XOR ucast (drop_bit 16 MAGIC_COOKIE))
     @ xor_bytes (take 4 ip) (u32_be MAGIC_COOKIE) @ xor_bytes (drop 4 ip) tx"

fun attr_raw :: "bytes \<Rightarrow> stun_attribute \<Rightarrow> u16 \<times> bytes" where
  "attr_raw tx (Username v) = (0x0006, v)"
| "attr_raw tx (Realm v) = (0x0014, v)"
| "attr_raw tx (Nonce v) = (0x0015, v)"
| "attr_raw tx (Software v) = (0x8022, v)"
| "attr_raw tx (RequestedTransport v) = (0x0019, [v, 0, 0, 0])"
| "attr_raw tx (Lifetime v) = (0x000D, u32_be v)"
| "attr_raw tx (Priority v) = (0x0024, u32_be v)"
| "attr_raw tx (IceControlling v) = (0x802A, u64_be v)"
| "attr_raw tx (IceControlled v) = (0x8029, u64_be v)"
| "attr_raw tx UseCandidate = (0x0025, [])"
| "attr_raw tx (XorPeerAddress a) = (0x0012, xor_addr_value a tx)"
| "attr_raw tx (XorMappedAddress a) = (0x0020, xor_addr_value a tx)"
| "attr_raw tx (ChannelNumber v) = (0x000C, u16_be v @ [0, 0])"
| "attr_raw tx (Data v) = (0x0013, v)"

fun attr_ok :: "stun_attribute \<Rightarrow> bool" where
  "attr_ok (Username v) = (length v < 65536)"
| "attr_ok (Realm v) = (length v < 65536 \<and> utf8_valid v)"
| "attr_ok (Nonce v) = (length v < 65536 \<and> utf8_valid v)"
| "attr_ok (Software v) = (length v < 65536)"
| "attr_ok (XorPeerAddress a) = addr_wf a"
| "attr_ok (XorMappedAddress a) = addr_wf a"
| "attr_ok (Data v) = (length v < 65536)"
| "attr_ok a = True"

lemma pad_four_bytes_eq: "pad_four_bytes b = b @ replicate (pad_len (length b)) 0"
  by (simp add: pad_four_bytes_def pad_len_def)

lemma raw_wire_aligned [simp]: "4 dvd length (raw_wire a)"
  by (simp add: raw_wire_def)

lemma pad_four_bytes_aligned: "4 dvd length b \<Longrightarrow> pad_four_bytes b = b"
  by (simp add: pad_four_bytes_eq)

lemma append_raw_wire: "4 dvd length b \<Longrightarrow> append_raw_attribute b typ v = b @ raw_wire (typ, v)"
  by (simp add: append_raw_attribute_def pad_four_bytes_eq raw_wire_def)

lemma xor_bytes_length [simp]: "length (xor_bytes xs ys) = min (length xs) (length ys)"
  by (simp add: xor_bytes_def)

lemma xor_bytes_twice: "length xs \<le> length ys \<Longrightarrow> xor_bytes (xor_bytes xs ys) ys = xs"
  by (rule nth_equalityI) (simp_all add: xor_bytes_def xor.assoc)

lemma append_attribute_wire:
  assumes "4 dvd length b" and "attr_ok a" and "length tx = 12"
  shows "append_attribute b a tx = b @ raw_wire (attr_raw tx a)"
proof -
  have xor: "append_xor_address b ty ad tx = b @ raw_wire (ty, xor_addr_value ad tx)" if "addr_wf ad" for ty ad
    using that assms(1,3) by (cases ad) (simp_all add: raw_wire_def pad_four_bytes_eq)
  have raw: "pad_four_bytes (b @ raw_wire r) = b @ raw_wire r" for r
    using assms(1) by (intro pad_four_bytes_aligned) simp
  show ?thesis
    using assms xor by (cases a) (simp_all add: append_string_attr_def append_raw_wire raw raw_wire_def pad_four_bytes_eq)
qed

section \<open>The attribute loop\<close>

definition stun_item :: "bytes \<Rightarrow> rtc_error fault + ((u16 \<times> bytes) list \<times> bytes)" where
  "stun_item bs =
     (if length bs < 4 then Fail (Internal [])
      else rbind (at16 bs 0) (\<lambda>typ. rbind (at16 bs 2) (\<lambda>len.
        if 4 + unat len > length bs then Fail (Internal [])
        else rbind (slice bs 4 (4 + unat len)) (\<lambda>v.
          Ok ([(typ, v)], drop (4 + unat len + pad_len (unat len)) bs)))))"

lemma stun_item_shorter: "stun_item bs = Ok (vs, rest) \<Longrightarrow> length rest < length bs"
  by (auto simp: stun_item_def rbind_Inr_iff split: if_splits)

function stun_raw :: "bytes \<Rightarrow> rtc_error fault + (u16 \<times> bytes) list" where
  "stun_raw bs = (case stun_item bs of
     Inl _ \<Rightarrow> Ok []
   | Inr (vs, rest) \<Rightarrow> rbind (stun_raw rest) (\<lambda>ws. Ok (vs @ ws)))"
  by pat_completeness auto
termination
  by (relation "measure length") (auto simp: stun_item_shorter)

declare stun_raw.simps [simp del]

interpretation stun: framing stun_item stun_raw raw_wire "\<lambda>a. [a]" "\<lambda>a. length (snd a) < 65536"
proof unfold_locales
  fix a :: "u16 \<times> bytes" and rest assume a: "length (snd a) < 65536"
  define n where "n = length (snd a)"
  have "drop (length (raw_wire a)) (raw_wire a @ rest) = rest" by simp
  moreover have "length (raw_wire a) = 4 + n + pad_len n" by (simp add: raw_wire_def n_def)
  ultimately have d: "drop (4 + n + pad_len n) (raw_wire a @ rest) = rest" by metis
  have "stun_item (raw_wire a @ rest) = Ok ([(fst a, snd a)], drop (4 + n + pad_len n) (raw_wire a @ rest))"
    using a by (simp add: stun_item_def raw_wire_def read_simps n_def)
  then show "stun_item (raw_wire a @ rest) = Ok ([a], rest)" by (simp only: d prod.collapse)
next
  show "stun_raw [] = Ok []" by (simp add: stun_raw.simps stun_item_def)
next
  fix bs vs rest assume "stun_item bs = Ok (vs, rest)"
  then show "stun_raw bs = rbind (stun_raw rest) (\<lambda>ws. Ok (vs @ ws))" by (simp add: stun_raw.simps [of bs])
qed

fun apply_all :: "(u16 \<times> bytes) list \<Rightarrow> stun_decoded \<Rightarrow> rtc_error fault + stun_decoded" where
  "apply_all [] d = Ok d"
| "apply_all ((typ, v) # as) d = rbind (apply_attribute typ v d) (apply_all as)"

lemma stun_raw_ok: "\<exists>as. stun_raw bs = Ok as"
proof (induction bs rule: stun_raw.induct)
  case (1 bs)
  show ?case
  proof (cases "stun_item bs")
    case (Inr p)
    with 1 [OF Inr, of "fst p" "snd p"] show ?thesis by (auto simp: stun_raw.simps [of bs] split_beta)
  qed (simp add: stun_raw.simps [of bs])
qed

lemma decode_attributes_raw:
  "decode_attributes bs k d = rbind (stun_raw (drop k bs)) (\<lambda>as. apply_all as d)"
proof (induction bs k d rule: decode_attributes.induct)
  case (1 bs k d)
  show ?case
  proof (cases "k + 4 \<le> length bs")
    case False
    then have "length (drop k bs) < 4" by auto
    with False show ?thesis
      by (simp add: decode_attributes.simps stun_raw.simps [of "drop k bs"] stun_item_def del: length_drop)
  next
    case True
    define ty len where "ty = be16 (bs ! k) (bs ! (k + 1))" and "len = be16 (bs ! (k + 2)) (bs ! (k + 3))"
    have at: "at16 bs k = (Ok ty :: rtc_error fault + u16)" "at16 bs (k + 2) = (Ok len :: rtc_error fault + u16)"
      "at16 (drop k bs) 0 = (Ok ty :: rtc_error fault + u16)" "at16 (drop k bs) 2 = (Ok len :: rtc_error fault + u16)"
      using True by (simp_all add: at16_def ty_def len_def numeral_2_eq_2 numeral_3_eq_3)
    show ?thesis
    proof (cases "k + 4 + unat len > length bs")
      case long: True
      then show ?thesis
        using True at by (simp add: decode_attributes.simps [of bs k] stun_raw.simps [of "drop k bs"] stun_item_def)
    next
      case False
      define v where "v = take (unat len) (drop (k + 4) bs)"
      have sl: "slice bs (k + 4) (k + 4 + unat len) = (Ok v :: rtc_error fault + bytes)"
        "slice (drop k bs) 4 (4 + unat len) = (Ok v :: rtc_error fault + bytes)"
        using False by (simp_all add: slice_def v_def add.commute)
      let ?k' = "k + 4 + unat len + (4 - unat len mod 4) mod 4"
      have it: "stun_item (drop k bs) = Ok ([(ty, v)], drop ?k' bs)"
        using True False at sl by (simp add: stun_item_def pad_len_def add_ac)
      obtain as where as: "stun_raw (drop ?k' bs) = Ok as" using stun_raw_ok by blast
      have "decode_attributes bs k d = rbind (apply_attribute ty v d) (\<lambda>d. decode_attributes bs ?k' d)"
        using True False at sl by (simp add: decode_attributes.simps [of bs k])
      also have "\<dots> = rbind (apply_attribute ty v d) (\<lambda>d. apply_all as d)"
        using 1 [OF True at(1,2) _ sl(1)] False as by (intro rbind_cong) simp_all
      finally show ?thesis using it as by (simp add: stun_raw.simps [of "drop k bs"])
    qed
  qed
qed

section \<open>What a message says\<close>

text \<open>The effect of an attribute on what the receiver knows, independent of the encoding.\<close>

fun attr_effect :: "stun_attribute \<Rightarrow> stun_decoded \<Rightarrow> stun_decoded" where
  "attr_effect (Realm v) d = d\<lparr>realm := Some v\<rparr>"
| "attr_effect (Nonce v) d = d\<lparr>nonce := Some v\<rparr>"
| "attr_effect (Lifetime v) d = d\<lparr>lifetime := Some v\<rparr>"
| "attr_effect UseCandidate d = d\<lparr>use_candidate := True\<rparr>"
| "attr_effect (XorPeerAddress a) d = d\<lparr>xor_peer_address := Some a\<rparr>"
| "attr_effect (XorMappedAddress a) d = d\<lparr>xor_mapped_address := Some a\<rparr>"
| "attr_effect (Data v) d = d\<lparr>dec_data := Some v\<rparr>"
| "attr_effect _ d = d"

definition decoded_init :: "stun_class \<Rightarrow> stun_method \<Rightarrow> bytes \<Rightarrow> stun_decoded" where
  "decoded_init c m tx = \<lparr>dec_class = c, dec_method = m, dec_transaction_id = tx, xor_mapped_address = None,
     xor_relayed_address = None, xor_peer_address = None, error_code = None, realm = None,
     nonce = None, dec_data = None, use_candidate = False, lifetime = None\<rparr>"

definition stun_meaning :: "stun_message \<Rightarrow> stun_decoded" where
  "stun_meaning msg =
     fold attr_effect (msg_attributes msg) (decoded_init (msg_class msg) (msg_method msg) (msg_transaction_id msg))"

lemma parse_xor_addr_value:
  assumes "addr_wf a" and "length tx = 12"
  shows "parse_xor_address (xor_addr_value a tx) tx = Ok (Some a)"
proof (cases a)
  case (SockV4 ip port)
  with assms show ?thesis
    by (simp add: parse_xor_address_def read_simps xor_bytes_twice xor.assoc)
next
  case (SockV6 ip port)
  let ?a = "xor_bytes (take 4 ip) (u32_be MAGIC_COOKIE)" and ?b = "xor_bytes (drop 4 ip) tx"
  have "length ?a = 4" "length ?b = 12" using SockV6 assms by simp_all
  moreover have "xor_bytes ?a (u32_be MAGIC_COOKIE) = take 4 ip" "xor_bytes ?b tx = drop 4 ip"
    using SockV6 assms by (simp_all add: xor_bytes_twice)
  ultimately show ?thesis
    using SockV6 by (simp add: parse_xor_address_def read_simps xor.assoc)
qed

lemma apply_attr_raw:
  assumes "attr_ok a" and "dec_transaction_id d = tx" and "length tx = 12"
  shows "(case attr_raw tx a of (ty, v) \<Rightarrow> apply_attribute ty v d) = Ok (attr_effect a d)"
  using assms parse_xor_addr_value [OF _ assms(3)]
  by (cases a) (simp_all add: apply_attribute_def read_simps from_utf8_def)

lemma attr_effect_tx [simp]: "dec_transaction_id (attr_effect a d) = dec_transaction_id d"
  by (cases a) simp_all

lemma apply_all_append: "apply_all (as @ bs) d = rbind (apply_all as d) (apply_all bs)"
  by (induction as d rule: apply_all.induct) (auto simp: rbind_assoc intro: rbind_cong)

lemma apply_all_attrs:
  assumes "list_all attr_ok attrs" and "dec_transaction_id d = tx" and "length tx = 12"
  shows "apply_all (map (attr_raw tx) attrs) d = Ok (fold attr_effect attrs d)"
  using assms
proof (induction attrs arbitrary: d)
  case (Cons a attrs)
  with apply_attr_raw [of a d tx] show ?case by (cases "attr_raw tx a") simp
qed simp

section \<open>Shape of an encoded message\<close>

definition stun_frame :: "u16 \<Rightarrow> nat \<Rightarrow> bytes \<Rightarrow> bytes \<Rightarrow> bytes" where
  "stun_frame t n tx body = u16_be t @ u16_be (of_nat n) @ u32_be MAGIC_COOKIE @ tx @ body"

lemma stun_frame_length [simp]: "length (stun_frame t n tx body) = 8 + length tx + length body"
  by (simp add: stun_frame_def)

lemma write_length_frame: "write_length_field (stun_frame t n tx body) n' = stun_frame t n' tx body"
  by (simp add: write_length_field_def stun_frame_def u16_be_def)

lemma update_length_frame:
  "length tx = 12 \<Longrightarrow> update_length_field (stun_frame t n tx body) = stun_frame t (length body) tx body"
  by (simp add: update_length_field_def write_length_frame)

lemma append_raw_frame:
  assumes "length tx = 12" and "4 dvd length body"
  shows "append_raw_attribute (stun_frame t n tx body) ty v = stun_frame t n tx (body @ raw_wire (ty, v))"
proof -
  have "4 dvd length (stun_frame t n tx body)" using assms by simp
  from append_raw_wire [OF this] show ?thesis by (simp add: stun_frame_def)
qed

lemma append_attributes_frame:
  assumes "list_all attr_ok attrs" and "length tx = 12" and "4 dvd length body"
  shows "fold (\<lambda>a b. append_attribute b a tx) attrs (stun_frame t n tx body)
    = stun_frame t n tx (body @ concat (map (raw_wire \<circ> attr_raw tx) attrs))"
  using assms
proof (induction attrs arbitrary: body)
  case (Cons a attrs)
  have "4 dvd length (stun_frame t n tx body)" using Cons.prems by simp
  then have "append_attribute (stun_frame t n tx body) a tx = stun_frame t n tx (body @ raw_wire (attr_raw tx a))"
    using append_attribute_wire [of _ a tx] Cons.prems by (simp add: stun_frame_def)
  with Cons.IH [of "body @ raw_wire (attr_raw tx a)"] Cons.prems show ?case by simp
qed simp

text \<open>The attributes of an encoded message: those of the message, then integrity, then fingerprint. The
  two are computed over the message up to them, with the length that counts them.\<close>

definition msg_type_bits :: "stun_message \<Rightarrow> u16" where
  "msg_type_bits msg = method_bits (msg_method msg) OR class_bits (msg_class msg)"

definition integrity_attr :: "(bytes \<Rightarrow> bytes \<Rightarrow> bytes) \<Rightarrow> bytes \<Rightarrow> u16 \<Rightarrow> bytes \<Rightarrow> bytes \<Rightarrow> u16 \<times> bytes" where
  "integrity_attr hmac key t tx body = (0x0008, hmac key (stun_frame t (length body + 24) tx body))"

definition fingerprint_attr :: "(bytes \<Rightarrow> u32) \<Rightarrow> u16 \<Rightarrow> bytes \<Rightarrow> bytes \<Rightarrow> u16 \<times> bytes" where
  "fingerprint_attr crc t tx body = (0x8028, u32_be (crc (stun_frame t (length body + 8) tx body) XOR FINGERPRINT_XOR))"

definition stun_extra :: "(bytes \<Rightarrow> bytes \<Rightarrow> bytes) \<Rightarrow> (bytes \<Rightarrow> u32) \<Rightarrow> u16 \<Rightarrow> bytes \<Rightarrow> bytes option \<Rightarrow> bool
    \<Rightarrow> bytes \<Rightarrow> (u16 \<times> bytes) list" where
  "stun_extra hmac crc t tx key fp body =
     (let mi = (case key of Some k \<Rightarrow> [integrity_attr hmac k t tx body] | None \<Rightarrow> []);
          body = body @ concat (map raw_wire mi)
      in mi @ (if fp then [fingerprint_attr crc t tx body] else []))"

lemma encode_stun_frame:
  fixes hmac crc key fp
  assumes "list_all attr_ok (msg_attributes msg)" and "length (msg_transaction_id msg) = 12"
  defines "tx \<equiv> msg_transaction_id msg" and "t \<equiv> msg_type_bits msg"
  defines "body \<equiv> concat (map (raw_wire \<circ> attr_raw tx) (msg_attributes msg))"
  defines "full \<equiv> body @ concat (map raw_wire (stun_extra hmac crc t tx key fp body))"
  shows "encode_stun_message hmac crc msg key fp = Ok (stun_frame t (length full) tx full)"
proof -
  have tx: "length tx = 12" using assms(2) by (simp add: tx_def)
  have "4 dvd length (concat (map (raw_wire \<circ> attr_raw tx) as))" for as by (induction as) simp_all
  then have al: "4 dvd length body" unfolding body_def .
  have start: "u16_be t @ [0, 0] @ u32_be MAGIC_COOKIE @ tx = stun_frame t 0 tx []"
    by (simp add: stun_frame_def u16_be_def)
  have attrs: "fold (\<lambda>a b. append_attribute b a tx) (msg_attributes msg) (stun_frame t 0 tx []) = stun_frame t 0 tx body"
    using append_attributes_frame [OF assms(1) tx, of "[]" t 0] by (simp add: body_def)
  show ?thesis
    unfolding encode_stun_message_def Let_def tx_def [symmetric]
    unfolding msg_type_bits_def [symmetric] t_def [symmetric] start attrs
    using al tx
    by (cases key; cases fp)
      (simp_all add: full_def stun_extra_def update_length_frame append_integrity_def append_fingerprint_def
        write_length_frame append_raw_frame integrity_attr_def fingerprint_attr_def Let_def)
qed

lemma decode_msg_type:
  "decode_method (msg_type_bits msg) = Ok (msg_method msg)" "decode_class (msg_type_bits msg) = Ok (msg_class msg)"
  by (cases "msg_method msg"; cases "msg_class msg"; simp add: msg_type_bits_def decode_method_def decode_class_def)+

lemma attr_raw_length: "attr_ok a \<Longrightarrow> length tx = 12 \<Longrightarrow> length (snd (attr_raw tx a)) < 65536"
proof -
  have "length (xor_addr_value ad tx) < 65536" if "length tx = 12" for ad
    using that by (cases ad) simp_all
  then show "attr_ok a \<Longrightarrow> length tx = 12 \<Longrightarrow> length (snd (attr_raw tx a)) < 65536" by (cases a) simp_all
qed

lemma stun_extra_ignored:
  assumes "\<And>k d. length (hmac k d) = 20"
  shows "\<forall>a \<in> set (stun_extra hmac crc t tx key fp body). length (snd a) < 65536"
    and "apply_all (stun_extra hmac crc t tx key fp body) d = Ok d"
  using assms
  by (cases key; cases fp; simp add: stun_extra_def integrity_attr_def fingerprint_attr_def apply_attribute_def Let_def)+

lemma decode_stun_frame:
  assumes "length tx = 12" and "length full < 65536"
  shows "decode_stun_message (stun_frame (msg_type_bits msg) (length full) tx full)
    = rbind (stun_raw full) (\<lambda>as. apply_all as (decoded_init (msg_class msg) (msg_method msg) tx))"
proof -
  let ?bs = "stun_frame (msg_type_bits msg) (length full) tx full"
  have "drop 20 ?bs = full" using assms(1) by (simp add: stun_frame_def)
  moreover have "at16 ?bs 0 = (Ok (msg_type_bits msg) :: rtc_error fault + u16)"
    "at16 ?bs 2 = (Ok (of_nat (length full)) :: rtc_error fault + u16)"
    "slice ?bs 8 20 = (Ok tx :: rtc_error fault + bytes)"
    using assms by (simp_all add: stun_frame_def read_simps)
  ultimately show ?thesis
    using assms by (simp add: decode_stun_message_def decode_msg_type decode_attributes_raw decoded_init_def)
qed

lemma apply_attribute_no_panic: "apply_attribute ty v d \<noteq> Panicked"
proof -
  have "parse_xor_address v tx \<noteq> Panicked" for tx
    by (auto simp: parse_xor_address_def rbind_Inl_iff Let_def)
  then show ?thesis by (auto simp: apply_attribute_def rbind_Inl_iff Let_def)
qed

lemma apply_all_no_panic: "apply_all as d \<noteq> Panicked"
  by (induction as d rule: apply_all.induct) (auto simp: rbind_Inl_iff apply_attribute_no_panic)

section \<open>Properties\<close>

lemma xor_addr_value_inj:
  assumes "addr_wf ad" "addr_wf ad'" "length tx = 12"
  shows "xor_addr_value ad tx = xor_addr_value ad' tx \<longleftrightarrow> ad = ad'"
proof
  assume "xor_addr_value ad tx = xor_addr_value ad' tx"
  then have "parse_xor_address (xor_addr_value ad' tx) tx = Ok (Some ad)" using parse_xor_addr_value [OF assms(1,3)] by metis
  then show "ad = ad'" using parse_xor_addr_value [OF assms(2,3)] by simp
qed simp

lemma attr_raw_inj:
  assumes "attr_raw tx a = attr_raw tx b" "attr_ok a" "attr_ok b" "length tx = 12"
  shows "a = b"
  using assms by (cases a; cases b; simp add: xor_addr_value_inj)

lemma map_attr_raw_inj:
  assumes "map (attr_raw tx) as = map (attr_raw tx) bs" "list_all attr_ok as" "list_all attr_ok bs" "length tx = 12"
  shows "as = bs"
proof (rule map_inj_on [OF assms(1)])
  show "inj_on (attr_raw tx) (set as \<union> set bs)"
    using assms(2-4) by (auto simp: inj_on_def list_all_iff intro: attr_raw_inj)
qed

text \<open>What the decoder reads off an encoded message: its attributes as types and values, then those that were added.\<close>

lemma encoded_message:
  fixes hmac :: "bytes \<Rightarrow> bytes \<Rightarrow> bytes"
  assumes "\<And>k d. length (hmac k d) = 20"
    and "length (msg_transaction_id msg) = 12" and "list_all attr_ok (msg_attributes msg)"
    and "encode_stun_message hmac crc msg key fp = Ok bs" and "length bs < 65536"
  shows "decode_stun_message bs = Ok (stun_meaning msg)"
    and "\<exists>extra. stun_raw (drop 20 bs) = Ok (map (attr_raw (msg_transaction_id msg)) (msg_attributes msg) @ extra)
      \<and> length extra = (if key = None then 0 else 1) + (if fp then 1 else 0)"
proof -
  define tx where "tx = msg_transaction_id msg"
  define body where "body = concat (map (raw_wire \<circ> attr_raw tx) (msg_attributes msg))"
  define extra where "extra = stun_extra hmac crc (msg_type_bits msg) tx key fp body"
  define raws where "raws = map (attr_raw tx) (msg_attributes msg) @ extra"
  have tx: "length tx = 12" using assms(2) by (simp add: tx_def)
  have bs: "bs = stun_frame (msg_type_bits msg) (length (concat (map raw_wire raws))) tx (concat (map raw_wire raws))"
    using encode_stun_frame [OF assms(3,2), of hmac crc key fp] assms(4)
    by (simp add: tx_def raws_def body_def extra_def)
  have "\<forall>a \<in> set extra. length (snd a) < 65536"
    unfolding extra_def by (rule stun_extra_ignored(1) [of hmac, OF assms(1)])
  then have "\<forall>a \<in> set raws. length (snd a) < 65536"
    using assms(3) attr_raw_length [OF _ tx] by (simp add: raws_def ball_Un list_all_iff)
  from stun.loop_wire [OF this] have raw: "stun_raw (concat (map raw_wire raws)) = Ok raws" by simp
  have "apply_all raws (decoded_init (msg_class msg) (msg_method msg) tx) = Ok (stun_meaning msg)"
    using apply_all_attrs [OF assms(3) _ tx] stun_extra_ignored(2) [of hmac, OF assms(1)]
    by (simp add: raws_def apply_all_append extra_def stun_meaning_def tx_def decoded_init_def)
  moreover have "length (concat (map raw_wire raws)) < 65536" using assms(5) tx by (simp add: bs)
  ultimately show "decode_stun_message bs = Ok (stun_meaning msg)" using raw by (simp add: bs decode_stun_frame [OF tx])
  have "length extra = (if key = None then 0 else 1) + (if fp then 1 else 0)"
    by (simp add: extra_def stun_extra_def Let_def split: option.split)
  moreover have "drop 20 bs = concat (map raw_wire raws)" using tx by (simp add: bs stun_frame_def)
  ultimately show "\<exists>extra. stun_raw (drop 20 bs) = Ok (map (attr_raw (msg_transaction_id msg)) (msg_attributes msg) @ extra)
      \<and> length extra = (if key = None then 0 else 1) + (if fp then 1 else 0)"
    using raw by (simp add: raws_def tx_def)
qed

lemma stun_meaning_head:
  "dec_class (stun_meaning msg) = msg_class msg" "dec_method (stun_meaning msg) = msg_method msg"
  "dec_transaction_id (stun_meaning msg) = msg_transaction_id msg"
proof -
  have "dec_class (attr_effect a d) = dec_class d" "dec_method (attr_effect a d) = dec_method d" for a d by (cases a; simp)+
  then have "dec_class (fold attr_effect as d) = dec_class d \<and> dec_method (fold attr_effect as d) = dec_method d
      \<and> dec_transaction_id (fold attr_effect as d) = dec_transaction_id d" for as d
    by (induction as arbitrary: d) simp_all
  then show "dec_class (stun_meaning msg) = msg_class msg" "dec_method (stun_meaning msg) = msg_method msg"
    "dec_transaction_id (stun_meaning msg) = msg_transaction_id msg"
    by (simp_all add: stun_meaning_def decoded_init_def)
qed



text \<open>
  C26: No input makes the STUN decoder panic.
\<close>

theorem stun_decode_total: "decode_stun_message bs \<noteq> Panicked"
proof -
  have "decode_method t \<noteq> Panicked" "decode_class t \<noteq> Panicked" for t
    by (auto simp: decode_method_def decode_class_def Let_def)
  moreover have "stun_raw b \<noteq> Panicked" for b using stun_raw_ok [of b] by auto
  ultimately show ?thesis
    by (auto simp: decode_stun_message_def decode_attributes_raw rbind_Inl_iff apply_all_no_panic)
qed

text \<open>
  C14: The integrity and fingerprint attributes are the ones RFC 5389 prescribes. The encoded message is a
  prefix, the MESSAGE-INTEGRITY attribute holding the HMAC of that prefix with the length field counting
  up to and including the attribute, and, when asked for, a FINGERPRINT attribute holding the CRC of
  everything before it; the length field of the message counts everything after the header.
\<close>

theorem stun_integrity_rfc5389:
  fixes hmac :: "bytes \<Rightarrow> bytes \<Rightarrow> bytes"
  assumes "\<And>k d. length (hmac k d) = 20"
    and "length (msg_transaction_id msg) = 12" and "list_all attr_ok (msg_attributes msg)"
    and "encode_stun_message hmac crc msg (Some key) fp = Ok bs" and "length bs < 65536"
  shows "\<exists>n. 20 \<le> n \<and> n + 24 \<le> length bs \<and> at16 bs 2 = (Ok (of_nat (length bs - 20)) :: unit fault + u16)
    \<and> bs = take n bs @ raw_wire (0x0008, hmac key (write_length_field (take n bs) (n + 4)))
         @ (if fp then raw_wire (0x8028, u32_be (crc (take (length bs - 8) bs) XOR FINGERPRINT_XOR)) else [])"
proof -
  define tx where "tx = msg_transaction_id msg"
  define t where "t = msg_type_bits msg"
  define body where "body = concat (map (raw_wire \<circ> attr_raw tx) (msg_attributes msg))"
  define mi where "mi = raw_wire (integrity_attr hmac key t tx body)"
  define fa where "fa = (if fp then raw_wire (fingerprint_attr crc t tx (body @ mi)) else [])"
  have tx: "length tx = 12" using assms(2) by (simp add: tx_def)
  have bs: "bs = stun_frame t (length (body @ mi @ fa)) tx (body @ mi @ fa)"
    using encode_stun_frame [OF assms(3,2), of hmac crc "Some key" fp] assms(4)
    by (simp add: tx_def t_def body_def stun_extra_def mi_def fa_def Let_def split: if_splits)
  have mi: "length mi = 24" using assms(1) by (simp add: mi_def raw_wire_def integrity_attr_def)
  have fa: "length fa = (if fp then 8 else 0)" by (simp add: fa_def raw_wire_def fingerprint_attr_def)
  have pre: "take (20 + length body) bs = stun_frame t (length (body @ mi @ fa)) tx body"
    using tx by (simp add: bs stun_frame_def)
  have "fp \<Longrightarrow> take (length bs - 8) bs = stun_frame t (length (body @ mi) + 8) tx (body @ mi)"
    using tx fa by (simp add: bs stun_frame_def)
  then have "bs = take (20 + length body) bs
      @ raw_wire (0x0008, hmac key (write_length_field (take (20 + length body) bs) (20 + length body + 4)))
      @ (if fp then raw_wire (0x8028, u32_be (crc (take (length bs - 8) bs) XOR FINGERPRINT_XOR)) else [])"
    unfolding pre write_length_frame
    by (cases fp) (simp_all add: bs mi_def integrity_attr_def fa_def fingerprint_attr_def stun_frame_def add.commute)
  moreover have "at16 bs 2 = (Ok (of_nat (length bs - 20)) :: unit fault + u16)"
    using tx by (simp add: bs) (simp add: stun_frame_def read_simps)
  ultimately show ?thesis using tx mi by (intro exI [of _ "20 + length body"]) (simp add: bs)
qed

theorem stun_integrity_rfc5389_witness:
  "\<exists>bs n. encode_stun_message (\<lambda>k d. replicate 20 0) (\<lambda>d. 7) (binding_request (replicate 12 5) None) (Some [1, 2]) True
        = Ok bs \<and> 20 \<le> n \<and> n + 24 \<le> length bs
     \<and> bs = take n bs @ raw_wire (0x0008, replicate 20 0) @ raw_wire (0x8028, u32_be (7 XOR FINGERPRINT_XOR))"
proof -
  let ?h = "\<lambda>k d. replicate 20 0 :: bytes" and ?c = "\<lambda>d. 7 :: u32" and ?m = "binding_request (replicate 12 5) None"
  have ok: "length (msg_transaction_id ?m) = 12" "list_all attr_ok (msg_attributes ?m)"
    by (simp_all add: binding_request_def)
  note e = encode_stun_frame [OF ok(2,1), of ?h ?c "Some [1, 2]" True]
  show ?thesis
    using stun_integrity_rfc5389 [OF _ ok e] e
    by (simp add: binding_request_def raw_wire_def stun_extra_def integrity_attr_def fingerprint_attr_def Let_def) blast
qed

end
