(* ===== verification/Rust_Str.thy ===== *)
theory Rust_Str
  imports Main
begin

text \<open>
  The operations of Rust's \<open>str\<close> and integer formatting that the text formats use. A string is the list
  of its UTF-8 bytes as characters, so that searching for an ASCII separator is searching the list:
  decimal output and \<open>parse\<close>, hexadecimal digits, \<open>split\<close>, \<open>splitn\<close>, \<open>split_once\<close>, \<open>strip_prefix\<close>, \<open>trim\<close> (with all the white space
  of Unicode), \<open>lines\<close> and \<open>split_whitespace\<close>.
\<close>

section \<open>Decimal numbers\<close>

definition digit_char :: "nat \<Rightarrow> char" where
  "digit_char d = char_of (48 + d)"

definition is_digit :: "char \<Rightarrow> bool" where
  "is_digit c \<longleftrightarrow> 48 \<le> (of_char c :: nat) \<and> (of_char c :: nat) \<le> 57"

fun show_nat :: "nat \<Rightarrow> string" where
  "show_nat n = (if n < 10 then [digit_char n] else show_nat (n div 10) @ [digit_char (n mod 10)])"

declare show_nat.simps [simp del]

definition digits_value :: "string \<Rightarrow> nat" where
  "digits_value ds = foldl (\<lambda>v c. v * 10 + (of_char c - 48)) 0 ds"

text \<open>\<open>str::parse\<close> for an unsigned type whose largest value is \<open>m\<close>: an optional plus sign and at least one
  digit, no overflow.\<close>

definition parse_uint :: "nat \<Rightarrow> string \<Rightarrow> nat option" where
  "parse_uint m s =
     (let ds = (case s of c # r \<Rightarrow> if c = CHR ''+'' then r else s | [] \<Rightarrow> s)
      in if ds \<noteq> [] \<and> list_all is_digit ds \<and> digits_value ds \<le> m then Some (digits_value ds) else None)"

lemma of_char_digit: "d < 10 \<Longrightarrow> of_char (digit_char d) = 48 + (d :: nat)"
  by (simp add: digit_char_def of_char_of)

lemma is_digit_digit [simp]: "d < 10 \<Longrightarrow> is_digit (digit_char d)"
  by (simp add: is_digit_def of_char_digit)

lemma show_nat_digits: "list_all is_digit (show_nat n)"
  by (induction n rule: show_nat.induct) (subst show_nat.simps, simp)

lemma show_nat_not_Nil [simp]: "show_nat n \<noteq> []"
  by (subst show_nat.simps) simp

lemma digits_value_show [simp]: "digits_value (show_nat n) = n"
proof (induction n rule: show_nat.induct)
  case (1 n)
  then show ?case
    by (subst show_nat.simps) (auto simp: digits_value_def of_char_digit)
qed

lemma is_digit_plus [simp]: "\<not> is_digit CHR ''+''"
  by (simp add: is_digit_def)

lemma parse_show_nat [simp]: "n \<le> m \<Longrightarrow> parse_uint m (show_nat n) = Some n"
proof -
  assume "n \<le> m"
  obtain c r where s: "show_nat n = c # r" by (cases "show_nat n") auto
  then have "c \<noteq> CHR ''+''" using show_nat_digits [of n] by auto
  with s \<open>n \<le> m\<close> show ?thesis
    using show_nat_digits [of n] digits_value_show [of n] by (simp add: parse_uint_def)
qed

lemma parse_uint_le: "parse_uint m s = Some n \<Longrightarrow> n \<le> m"
  by (auto simp: parse_uint_def Let_def split: if_splits)

lemma show_nat_no_char: "\<not> is_digit c \<Longrightarrow> c \<notin> set (show_nat n)"
  using show_nat_digits [of n] by (auto simp: list_all_iff)

lemma show_nat_inj [simp]: "show_nat m = show_nat n \<longleftrightarrow> m = n"
  by (metis digits_value_show)

section \<open>Hexadecimal numbers\<close>

text \<open>The digits of the formats \<open>{:02X}\<close>, \<open>{:#04x}\<close> and \<open>{:#06x}\<close>; \<open>a\<close> is the character of the digit ten.\<close>

definition hex_digit :: "char \<Rightarrow> nat \<Rightarrow> char" where
  "hex_digit a d = (if d < 10 then char_of (48 + d) else char_of (of_char a + (d - 10)))"

fun hex_fixed :: "char \<Rightarrow> nat \<Rightarrow> nat \<Rightarrow> string" where
  "hex_fixed a 0 n = []"
| "hex_fixed a (Suc w) n = hex_fixed a w (n div 16) @ [hex_digit a (n mod 16)]"

lemma length_hex_fixed [simp]: "length (hex_fixed a w n) = w"
  by (induction w arbitrary: n) auto

lemma hex_digit_inj:
  assumes "a = CHR ''a'' \<or> a = CHR ''A''" and "c < 16" "d < 16"
  shows "hex_digit a c = hex_digit a d \<longleftrightarrow> c = d"
proof
  assume eq: "hex_digit a c = hex_digit a d"
  have "of_char (hex_digit a k) = (if k < 10 then 48 + k else of_char a + (k - 10))" if "k < 16" for k :: nat
    using that assms(1) by (auto simp: hex_digit_def of_char_of)
  then show "c = d"
    using arg_cong [OF eq, of "of_char :: char \<Rightarrow> nat"] assms by (auto split: if_splits)
qed simp

lemma hex_fixed_inj:
  assumes "a = CHR ''a'' \<or> a = CHR ''A''" and "m < 16 ^ w" "n < 16 ^ w"
  shows "hex_fixed a w m = hex_fixed a w n \<longleftrightarrow> m = n"
  using assms(2,3)
proof (induction w arbitrary: m n)
  case (Suc w)
  then have "m div 16 < 16 ^ w" "n div 16 < 16 ^ w" by (simp_all add: less_mult_imp_div_less mult.commute)
  with Suc.IH have "hex_fixed a w (m div 16) = hex_fixed a w (n div 16) \<longleftrightarrow> m div 16 = n div 16" by blast
  moreover have "hex_digit a (m mod 16) = hex_digit a (n mod 16) \<longleftrightarrow> m mod 16 = n mod 16"
    by (rule hex_digit_inj [OF assms(1)]) simp_all
  moreover have "m = n \<longleftrightarrow> m div 16 = n div 16 \<and> m mod 16 = n mod 16"
    by (metis div_mult_mod_eq)
  ultimately show ?case by simp
qed simp

lemma hex_digit_not_colon:
  assumes "a = CHR ''a'' \<or> a = CHR ''A''" and "d < 16"
  shows "hex_digit a d \<noteq> CHR '':''"
proof
  assume "hex_digit a d = CHR '':''"
  then have "of_char (hex_digit a d) = (58 :: nat)" by simp
  with assms show False by (auto simp: hex_digit_def of_char_of split: if_splits)
qed

lemma hex_fixed_no_colon: "a = CHR ''a'' \<or> a = CHR ''A'' \<Longrightarrow> CHR '':'' \<notin> set (hex_fixed a w n)"
  by (induction w arbitrary: n) (auto simp: hex_digit_not_colon [symmetric])

section \<open>Splitting\<close>

fun split_on :: "char \<Rightarrow> string \<Rightarrow> string list" where
  "split_on c [] = [[]]"
| "split_on c (x # s) =
     (if x = c then [] # split_on c s
      else case split_on c s of p # ps \<Rightarrow> (x # p) # ps | [] \<Rightarrow> [[x]])"

definition split_once :: "char \<Rightarrow> string \<Rightarrow> (string \<times> string) option" where
  "split_once c s =
     (if c \<in> set s then Some (takeWhile (\<lambda>x. x \<noteq> c) s, tl (dropWhile (\<lambda>x. x \<noteq> c) s)) else None)"

text \<open>\<open>splitn(2, c)\<close>: the part before the first separator, and the rest if there is one.\<close>

definition splitn2 :: "char \<Rightarrow> string \<Rightarrow> string \<times> string option" where
  "splitn2 c s = (case split_once c s of Some (a, b) \<Rightarrow> (a, Some b) | None \<Rightarrow> (s, None))"

fun join :: "string \<Rightarrow> string list \<Rightarrow> string" where
  "join sep [] = []"
| "join sep [s] = s"
| "join sep (s # t # ss) = s @ sep @ join sep (t # ss)"

definition strip_prefix :: "string \<Rightarrow> string \<Rightarrow> string option" where
  "strip_prefix p s = (if take (length p) s = p then Some (drop (length p) s) else None)"

lemma split_on_not_Nil [simp]: "split_on c s \<noteq> []"
  by (induction s) (auto split: list.splits)

lemma split_on_plain: "c \<notin> set s \<Longrightarrow> split_on c s = [s]"
  by (induction s) auto

lemma split_on_append: "c \<notin> set a \<Longrightarrow> split_on c (a @ c # b) = a # split_on c b"
  by (induction a) auto

lemma split_on_parts: "p \<in> set (split_on c s) \<Longrightarrow> c \<notin> set p"
  by (induction s arbitrary: p) (auto split: list.splits if_splits)

lemma split_on_join:
  "ss \<noteq> [] \<Longrightarrow> \<forall>s \<in> set ss. c \<notin> set s \<Longrightarrow> split_on c (join [c] ss) = ss"
  by (induction "[c]" ss rule: join.induct) (auto simp: split_on_plain split_on_append)

lemma join_split_on: "join [c] (split_on c s) = s"
proof (induction s)
  case (Cons x s)
  obtain p ps where s: "split_on c s = p # ps" by (cases "split_on c s") auto
  with Cons show ?case by (cases ps) auto
qed simp

lemma split_once_append [simp]: "c \<notin> set a \<Longrightarrow> split_once c (a @ c # b) = Some (a, b)"
  by (simp add: split_once_def) (induction a; auto)

lemma split_once_None [simp]: "c \<notin> set s \<Longrightarrow> split_once c s = None"
  by (simp add: split_once_def)

lemma split_once_Some: "split_once c s = Some (a, b) \<Longrightarrow> s = a @ c # b \<and> c \<notin> set a"
proof -
  assume *: "split_once c s = Some (a, b)"
  then have c: "c \<in> set s" and a: "a = takeWhile (\<lambda>x. x \<noteq> c) s" and b: "b = tl (dropWhile (\<lambda>x. x \<noteq> c) s)"
    by (auto simp: split_once_def split: if_splits)
  have ne: "dropWhile (\<lambda>x. x \<noteq> c) s \<noteq> []" using c by (simp add: dropWhile_eq_Nil_conv)
  then have "hd (dropWhile (\<lambda>x. x \<noteq> c) s) = c" using hd_dropWhile by blast
  with ne have "dropWhile (\<lambda>x. x \<noteq> c) s = c # b" unfolding b by (metis list.collapse)
  then have "s = a @ c # b" unfolding a by (metis takeWhile_dropWhile_id)
  moreover have "c \<notin> set a" unfolding a using set_takeWhileD by fastforce
  ultimately show ?thesis ..
qed

lemma strip_prefix_append [simp]: "strip_prefix p (p @ s) = Some s"
  by (simp add: strip_prefix_def)

lemma strip_prefix_Some: "strip_prefix p s = Some r \<longleftrightarrow> s = p @ r"
  by (auto simp: strip_prefix_def) (metis append_take_drop_id)

section \<open>White space\<close>

definition char_bytes :: "nat list \<Rightarrow> string" where
  "char_bytes bs = map char_of bs"

definition white_space :: "string list" where
  "white_space = map char_bytes
     ([[9], [10], [11], [12], [13], [32], [0xC2, 0x85], [0xC2, 0xA0], [0xE1, 0x9A, 0x80],
       [0xE2, 0x80, 0xA8], [0xE2, 0x80, 0xA9], [0xE2, 0x80, 0xAF], [0xE2, 0x81, 0x9F], [0xE3, 0x80, 0x80]]
      @ map (\<lambda>k. [0xE2, 0x80, 0x80 + k]) [0..<11])"

text \<open>The rest behind a white space at the front, for the encodings \<open>ws\<close>.\<close>

definition strip_ws :: "string list \<Rightarrow> string \<Rightarrow> string option" where
  "strip_ws ws s = (case filter (\<lambda>w. take (length w) s = w) ws of w # _ \<Rightarrow> Some (drop (length w) s) | [] \<Rightarrow> None)"

definition ws_ok :: "string list \<Rightarrow> bool" where
  "ws_ok ws \<longleftrightarrow> list_all (\<lambda>w. w \<noteq> []) ws"

fun trim_front :: "nat \<Rightarrow> string list \<Rightarrow> string \<Rightarrow> string" where
  "trim_front 0 ws s = s"
| "trim_front (Suc n) ws s = (case strip_ws ws s of Some r \<Rightarrow> trim_front n ws r | None \<Rightarrow> s)"

definition trim_start :: "string \<Rightarrow> string" where
  "trim_start s = trim_front (length s) white_space s"

definition trim_end :: "string \<Rightarrow> string" where
  "trim_end s = rev (trim_front (length s) (map rev white_space) (rev s))"

definition trim :: "string \<Rightarrow> string" where
  "trim s = trim_end (trim_start s)"

text \<open>A string that starts and ends with a printable ASCII character is its own trimming.\<close>

definition graphic :: "char \<Rightarrow> bool" where
  "graphic c \<longleftrightarrow> 33 \<le> (of_char c :: nat) \<and> (of_char c :: nat) < 127"

lemma ws_first: "w \<in> set white_space \<Longrightarrow> \<exists>c r. w = c # r \<and> \<not> graphic c"
  by (auto simp: white_space_def char_bytes_def graphic_def)

lemma ws_last: "w \<in> set (map rev white_space) \<Longrightarrow> \<exists>c r. w = c # r \<and> \<not> graphic c"
  by (auto simp: white_space_def char_bytes_def graphic_def)

lemma strip_ws_graphic:
  assumes "\<And>w. w \<in> set ws \<Longrightarrow> \<exists>c r. w = c # r \<and> \<not> graphic c" and "s = [] \<or> graphic (hd s)"
  shows "strip_ws ws s = None"
proof -
  have "filter (\<lambda>w. take (length w) s = w) ws = []"
  proof (rule filter_False, intro ballI notI)
    fix w assume "w \<in> set ws" and t: "take (length w) s = w"
    then obtain c r where "w = c # r" "\<not> graphic c" using assms(1) by blast
    with t assms(2) show False by (cases s) auto
  qed
  then show ?thesis by (simp add: strip_ws_def)
qed

lemma trim_front_graphic:
  assumes "\<And>w. w \<in> set ws \<Longrightarrow> \<exists>c r. w = c # r \<and> \<not> graphic c" and "s = [] \<or> graphic (hd s)"
  shows "trim_front n ws s = s"
  by (cases n) (simp_all add: strip_ws_graphic [OF assms])

lemma trim_graphic: "s = [] \<or> graphic (hd s) \<and> graphic (last s) \<Longrightarrow> trim s = s"
proof -
  assume *: "s = [] \<or> graphic (hd s) \<and> graphic (last s)"
  then have "trim_start s = s"
    unfolding trim_start_def by (intro trim_front_graphic [OF ws_first]) auto
  moreover have "trim_end s = s"
    unfolding trim_end_def by (subst trim_front_graphic [OF ws_last]) (use * in \<open>auto simp: hd_rev\<close>)
  ultimately show ?thesis by (simp add: trim_def)
qed

lemma graphic_digit: "is_digit c \<Longrightarrow> graphic c"
  by (simp add: is_digit_def graphic_def)

lemma trim_show_nat [simp]: "trim (show_nat n) = show_nat n"
proof (rule trim_graphic, rule disjI2)
  have "is_digit (hd (show_nat n))" "is_digit (last (show_nat n))"
    using show_nat_digits [of n] by (auto simp: list_all_iff)
  then show "graphic (hd (show_nat n)) \<and> graphic (last (show_nat n))" by (simp add: graphic_digit)
qed

end
