(* ===== verification/Dtls_Record.thy ===== *)
theory Dtls_Record
  imports Framing Net_Addr Rust_Str
begin

text \<open>
  The DTLS record layer (\<open>src/transports/dtls/record.rs\<close>): content types, protocol versions, the record
  codec with its 48-bit sequence number, and the loop that takes the records off a datagram
  (\<open>handle_incoming_packet\<close> of \<open>src/transports/dtls/mod.rs\<close>). Errors are \<open>RtcError::Internal\<close> with the
  message of the \<open>bail!\<close> that made them.
\<close>

section \<open>Content types and versions\<close>

datatype content_type = ChangeCipherSpec | Alert | Handshake | ApplicationData | Heartbeat

primrec content_type_u8 :: "content_type \<Rightarrow> u8" where
  "content_type_u8 ChangeCipherSpec = 20"
| "content_type_u8 Alert = 21"
| "content_type_u8 Handshake = 22"
| "content_type_u8 ApplicationData = 23"
| "content_type_u8 Heartbeat = 24"

definition bail :: "string \<Rightarrow> rtc_error fault + 'a" where
  "bail msg = Fail (Internal msg)"

definition content_type_try_from :: "u8 \<Rightarrow> rtc_error fault + content_type" where
  "content_type_try_from v =
     (if v = 20 then Ok ChangeCipherSpec
      else if v = 21 then Ok Alert
      else if v = 22 then Ok Handshake
      else if v = 23 then Ok ApplicationData
      else if v = 24 then Ok Heartbeat
      else bail (''Invalid ContentType: '' @ show_nat (unat v)))"

record protocol_version =
  ver_major :: u8
  ver_minor :: u8

definition DTLS_1_0 :: protocol_version where
  "DTLS_1_0 = \<lparr>ver_major = 254, ver_minor = 255\<rparr>"

definition DTLS_1_2 :: protocol_version where
  "DTLS_1_2 = \<lparr>ver_major = 254, ver_minor = 253\<rparr>"

section \<open>Records\<close>

record dtls_record =
  rec_type :: content_type
  rec_version :: protocol_version
  rec_epoch :: u16
  rec_seq :: u64
  rec_payload :: bytes

definition RECORD_HEADER_SIZE :: nat where
  "RECORD_HEADER_SIZE = 13"

definition u48_be :: "u64 \<Rightarrow> bytes" where
  "u48_be s = [ucast (drop_bit 40 s), ucast (drop_bit 32 s), ucast (drop_bit 24 s),
     ucast (drop_bit 16 s), ucast (drop_bit 8 s), ucast s]"

definition be48 :: "u8 \<Rightarrow> u8 \<Rightarrow> u8 \<Rightarrow> u8 \<Rightarrow> u8 \<Rightarrow> u8 \<Rightarrow> u64" where
  "be48 a b c d e f = push_bit 40 (ucast a) OR push_bit 32 (ucast b) OR push_bit 24 (ucast c)
     OR push_bit 16 (ucast d) OR push_bit 8 (ucast e) OR ucast f"

definition dtls_record_encode :: "dtls_record \<Rightarrow> bytes" where
  "dtls_record_encode r =
     content_type_u8 (rec_type r) # ver_major (rec_version r) # ver_minor (rec_version r)
       # u16_be (rec_epoch r) @ u48_be (rec_seq r)
       @ u16_be (of_nat (length (rec_payload r))) @ rec_payload r"

text \<open>Reading the six bytes at \<open>i\<close> into the lower bytes of a \<open>u64\<close>.\<close>

definition at48 :: "bytes \<Rightarrow> nat \<Rightarrow> 'e fault + u64" where
  "at48 bs i = (if i + 6 \<le> length bs
     then Ok (be48 (bs ! i) (bs ! (i + 1)) (bs ! (i + 2)) (bs ! (i + 3)) (bs ! (i + 4)) (bs ! (i + 5)))
     else Panicked)"

text \<open>\<open>None\<close> leaves the buffer as it is: the record is not complete.\<close>

definition dtls_record_decode :: "bytes \<Rightarrow> rtc_error fault + (dtls_record \<times> bytes) option" where
  "dtls_record_decode buf =
     (if length buf < RECORD_HEADER_SIZE then Ok None
      else rbind (at8 buf 0) (\<lambda>t. rbind (content_type_try_from t) (\<lambda>ct.
        rbind (at8 buf 1) (\<lambda>major. rbind (at8 buf 2) (\<lambda>minor.
        rbind (at16 buf 3) (\<lambda>epoch. rbind (at48 buf 5) (\<lambda>sq. rbind (at16 buf 11) (\<lambda>len16.
        let len = unat len16
        in if length buf < RECORD_HEADER_SIZE + len then Ok None
           else rbind (split_to RECORD_HEADER_SIZE buf) (\<lambda>(_, buf).
             rbind (split_to len buf) (\<lambda>(body, buf).
               Ok (Some (\<lparr>rec_type = ct, rec_version = \<lparr>ver_major = major, ver_minor = minor\<rparr>,
                         rec_epoch = epoch, rec_seq = sq, rec_payload = body\<rparr>, buf))))))))))))"

section \<open>Properties of the record codec\<close>

lemma content_type_round_trip [simp]: "content_type_try_from (content_type_u8 c) = Ok c"
  by (cases c) (simp_all add: content_type_try_from_def)

lemma content_type_try_from_Inr: "content_type_try_from v = Ok c \<longleftrightarrow> v = content_type_u8 c"
  by (cases c) (auto simp: content_type_try_from_def bail_def)

lemma bail_no_panic [simp]: "bail m \<noteq> Panicked" "bail m \<noteq> Ok x"
  by (simp_all add: bail_def)

lemma content_type_no_panic [simp]: "content_type_try_from v \<noteq> Panicked"
  by (simp add: content_type_try_from_def)

lemma length_u48_be [simp, be_simps]: "length (u48_be s) = 6"
  by (simp add: u48_be_def)

lemma be48_bytes: "be48 (ucast (drop_bit 40 s)) (ucast (drop_bit 32 s)) (ucast (drop_bit 24 s))
    (ucast (drop_bit 16 s)) (ucast (drop_bit 8 s)) (ucast s) = take_bit 48 s"
proof (rule bit_word_eqI)
  fix n assume "n < LENGTH(64)"
  then consider "n < 8" | "8 \<le> n" "n < 16" | "16 \<le> n" "n < 24" | "24 \<le> n" "n < 32" | "32 \<le> n" "n < 40"
    | "40 \<le> n" "n < 48" | "48 \<le> n" "n < 64" by force
  then show "bit (be48 (ucast (drop_bit 40 s)) (ucast (drop_bit 32 s)) (ucast (drop_bit 24 s))
      (ucast (drop_bit 16 s)) (ucast (drop_bit 8 s)) (ucast s)) n = bit (take_bit 48 s) n"
    by cases (auto simp: be48_def bit_simps)
qed

lemma u48_be_be48: "u48_be (be48 a b c d e f) = [a, b, c, d, e, f]"
  unfolding u48_be_def list.inject
  by (intro conjI refl bit_word_eqI; simp add: be48_def bit_simps)

lemma be48_bound: "take_bit 48 (be48 a b c d e f) = be48 a b c d e f"
proof (rule bit_word_eqI)
  fix n
  show "bit (take_bit 48 (be48 a b c d e f)) n = bit (be48 a b c d e f) n"
    by (cases "n < 48") (simp_all add: bit_take_bit_iff be48_def bit_simps)
qed

lemma at48_head [read_simps]: "at48 (u48_be s @ ys) 0 = Ok (take_bit 48 s)"
  by (simp add: at48_def u48_be_def be48_bytes)

lemma at48_append [read_simps]: "length xs \<le> i \<Longrightarrow> at48 (xs @ ys) i = at48 ys (i - length xs)"
  by (auto simp: at48_def nth_append Suc_diff_le)

lemma at48_Cons [read_simps]: "0 < i \<Longrightarrow> at48 (x # xs) i = at48 xs (i - 1)"
  using at48_append [of "[x]" i xs] by simp

lemma at48_no_panic [simp]: "at48 bs i = Panicked \<longleftrightarrow> \<not> i + 6 \<le> length bs" "at48 bs i \<noteq> Fail e"
  by (simp_all add: at48_def)

text \<open>What the wire can carry: 48 bits of sequence number, 16 bits of length.\<close>

definition record_fits :: "dtls_record \<Rightarrow> bool" where
  "record_fits r \<longleftrightarrow> take_bit 48 (rec_seq r) = rec_seq r \<and> length (rec_payload r) < 65536"

lemma record_decode_encode:
  assumes "record_fits r"
  shows "dtls_record_decode (dtls_record_encode r @ rest) = Ok (Some (r, rest))"
proof -
  let ?h = "content_type_u8 (rec_type r) # ver_major (rec_version r) # ver_minor (rec_version r)
       # u16_be (rec_epoch r) @ u48_be (rec_seq r) @ u16_be (of_nat (length (rec_payload r)))"
  have e: "dtls_record_encode r @ rest = ?h @ rec_payload r @ rest"
    by (simp add: dtls_record_encode_def)
  have l: "length ?h = 13" by simp
  have s: "split_to 13 (?h @ rec_payload r @ rest) = (Ok (?h, rec_payload r @ rest) :: rtc_error fault + _)"
    using l by (subst split_to_append) simp_all
  have n: "unat (of_nat (length (rec_payload r)) :: u16) = length (rec_payload r)"
    using assms by (simp add: record_fits_def)
  show ?thesis
    using assms l unfolding e dtls_record_decode_def RECORD_HEADER_SIZE_def s
    by (simp add: read_simps record_fits_def n)
qed

lemma record_decode_no_panic: "dtls_record_decode buf \<noteq> Panicked"
  unfolding dtls_record_decode_def RECORD_HEADER_SIZE_def
  by (auto simp: rbind_Inl_iff Let_def split_to_ok split: if_splits)

lemma record_decode_Some:
  assumes "dtls_record_decode buf = Ok (Some (r, rest))"
  shows "buf = dtls_record_encode r @ rest \<and> record_fits r"
proof -
  have "13 \<le> length buf"
    using assms by (auto simp: dtls_record_decode_def RECORD_HEADER_SIZE_def split: if_splits)
  then obtain h t where b: "buf = h @ t" and "length h = 13"
    by (metis append_take_drop_id length_take min_absorb2)
  then obtain t0 v1 v2 e1 e2 a b c d e f l1 l2 where h: "h = [t0, v1, v2, e1, e2, a, b, c, d, e, f, l1, l2]"
    by (auto simp: eval_nat_numeral length_Suc_conv)
  have 1: "at48 ([t0, v1, v2, e1, e2, a, b, c, d, e, f, l1, l2] @ t) 5
      = (Ok (be48 a b c d e f) :: rtc_error fault + u64)" by (simp add: at48_def)
  have 2: "at16 ([t0, v1, v2, e1, e2, a, b, c, d, e, f, l1, l2] @ t) 3 = (Ok (be16 e1 e2) :: rtc_error fault + u16)"
    "at16 ([t0, v1, v2, e1, e2, a, b, c, d, e, f, l1, l2] @ t) 11 = (Ok (be16 l1 l2) :: rtc_error fault + u16)"
    by (simp_all add: at16_def)
  have 3: "split_to 13 ([t0, v1, v2, e1, e2, a, b, c, d, e, f, l1, l2] @ t)
      = (Ok ([t0, v1, v2, e1, e2, a, b, c, d, e, f, l1, l2], t) :: rtc_error fault + bytes \<times> bytes)"
    by (simp add: split_to_def)
  from assms obtain ct where ct: "content_type_try_from t0 = Ok ct"
    and r: "r = \<lparr>rec_type = ct, rec_version = \<lparr>ver_major = v1, ver_minor = v2\<rparr>, rec_epoch = be16 e1 e2,
        rec_seq = be48 a b c d e f, rec_payload = take (unat (be16 l1 l2)) t\<rparr>"
    and t: "unat (be16 l1 l2) \<le> length t" "rest = drop (unat (be16 l1 l2)) t"
    unfolding b h dtls_record_decode_def RECORD_HEADER_SIZE_def 1 2 3
    by (auto simp: rbind_Inr_iff Let_def at8_def split_to_def split: if_splits)
  have "dtls_record_encode r @ rest = buf"
    using ct t unfolding b h r by (simp add: dtls_record_encode_def content_type_try_from_Inr u48_be_be48)
  moreover have "record_fits r"
    using t unat_u16_less [of "be16 l1 l2"] by (simp add: r record_fits_def be48_bound)
  ultimately show ?thesis by simp
qed

section \<open>The records of a datagram\<close>

text \<open>
  The loop of \<open>handle_incoming_packet\<close>, without the handling: the records it takes off the datagram until
  the rest is empty, incomplete, or does not start with a content type it knows.
\<close>

lemma record_decode_shorter:
  "dtls_record_decode buf = Ok (Some (r, rest)) \<Longrightarrow> length rest < length buf"
  by (drule record_decode_Some) (auto simp: dtls_record_encode_def)

function datagram_records :: "bytes \<Rightarrow> rtc_error fault + dtls_record list" where
  "datagram_records data =
     (if data = [] then Ok []
      else case dtls_record_decode data of
        Inr None \<Rightarrow> Ok []
      | Inr (Some (r, rest)) \<Rightarrow> rbind (datagram_records rest) (\<lambda>rs. Ok (r # rs))
      | Inl (Err e) \<Rightarrow> Ok []
      | Inl Panic \<Rightarrow> Panicked)"
  by pat_completeness auto
termination
  by (relation "measure length") (auto dest: record_decode_shorter)

declare datagram_records.simps [simp del]

lemma datagram_records_Nil [simp]: "datagram_records [] = Ok []"
  by (simp add: datagram_records.simps)

definition record_item :: "bytes \<Rightarrow> rtc_error fault + (dtls_record list \<times> bytes)" where
  "record_item data =
     rbind (dtls_record_decode data) (\<lambda>v. case v of
       Some (r, rest) \<Rightarrow> Ok ([r], rest) | None \<Rightarrow> bail ''incomplete'')"

interpretation dtls_frames: framing record_item datagram_records dtls_record_encode "\<lambda>r. [r]" record_fits
proof unfold_locales
  fix bs vs rest
  assume "record_item bs = Ok (vs, rest)"
  then obtain r where r: "dtls_record_decode bs = Ok (Some (r, rest))" and vs: "vs = [r]"
    by (auto simp: record_item_def rbind_Inr_iff split: option.splits)
  then have "bs \<noteq> []" using record_decode_shorter by fastforce
  with r vs show "datagram_records bs = rbind (datagram_records rest) (\<lambda>ws. Ok (vs @ ws))"
    by (subst datagram_records.simps) simp
qed (simp_all add: record_item_def record_decode_encode)

lemma datagram_records_no_panic: "datagram_records data \<noteq> Panicked"
proof (induction data rule: datagram_records.induct)
  case (1 data)
  show ?case
  proof (cases "dtls_record_decode data")
    case (Inl f)
    then show ?thesis using record_decode_no_panic [of data]
      by (subst datagram_records.simps) (cases f; auto)
  next
    case (Inr v)
    show ?thesis
    proof (cases "data = [] \<or> v = None")
      case False
      with Inr 1 show ?thesis by (subst datagram_records.simps) (auto simp: rbind_Inl_iff)
    qed (use Inr in \<open>auto simp: datagram_records.simps\<close>)
  qed
qed

text \<open>
  C27: The records of a datagram are read back as they were written. For records whose sequence numbers
  fit 48 bits and whose payloads fit the 16-bit length, the loop over the concatenation of their
  encodings yields exactly those records, also when the datagram ends in a fragment of a record too
  short to hold a header; and the record codec is the identity in the other direction, so that every
  record the decoder accepts re-encodes to the bytes it was read from.
\<close>

theorem dtls_datagram_roundtrip:
  "((\<forall>r \<in> set rs. record_fits r) \<and> length junk < RECORD_HEADER_SIZE
      \<longrightarrow> datagram_records (concat (map dtls_record_encode rs) @ junk) = Ok rs)
   \<and> (dtls_record_decode buf = Ok (Some (r, rest)) \<longrightarrow> buf = dtls_record_encode r @ rest \<and> record_fits r)"
proof -
  have junk: "datagram_records junk = Ok []" if "length junk < RECORD_HEADER_SIZE"
    using that by (subst datagram_records.simps) (simp add: dtls_record_decode_def)
  show ?thesis
    using record_decode_Some dtls_frames.loop_wire_append [of rs junk] by (auto simp: junk)
qed

theorem dtls_datagram_roundtrip_witness:
  "let r = \<lparr>rec_type = Handshake, rec_version = DTLS_1_2, rec_epoch = 1, rec_seq = 12345, rec_payload = [104, 105]\<rparr>
   in datagram_records (dtls_record_encode r @ dtls_record_encode r @ [22, 254]) = Ok [r, r]"
  using dtls_datagram_roundtrip [of "[r, r]" "[22, 254]" "[]" r "[]" for r]
  by (simp add: Let_def record_fits_def take_bit_eq_mod RECORD_HEADER_SIZE_def)

end
