(* ===== verification/Dtls_Handshake.thy ===== *)
theory Dtls_Handshake
  imports Dtls_Record
begin

text \<open>
  The handshake messages of DTLS (\<open>src/transports/dtls/handshake.rs\<close>): the message header with its 24-bit
  lengths and fragment offset, and the bodies of the messages the library sends and reads. The decoders
  consume their buffer from the front and return the rest, as the ones of the code do.
\<close>

section \<open>Message header\<close>

datatype handshake_type =
    HelloRequest
  | ClientHello
  | ServerHello
  | HelloVerifyRequest
  | Certificate
  | ServerKeyExchange
  | CertificateRequest
  | ServerHelloDone
  | CertificateVerify
  | ClientKeyExchange
  | Finished

primrec handshake_type_u8 :: "handshake_type \<Rightarrow> u8" where
  "handshake_type_u8 HelloRequest = 0"
| "handshake_type_u8 ClientHello = 1"
| "handshake_type_u8 ServerHello = 2"
| "handshake_type_u8 HelloVerifyRequest = 3"
| "handshake_type_u8 Certificate = 11"
| "handshake_type_u8 ServerKeyExchange = 12"
| "handshake_type_u8 CertificateRequest = 13"
| "handshake_type_u8 ServerHelloDone = 14"
| "handshake_type_u8 CertificateVerify = 15"
| "handshake_type_u8 ClientKeyExchange = 16"
| "handshake_type_u8 Finished = 20"

definition handshake_type_try_from :: "u8 \<Rightarrow> rtc_error fault + handshake_type" where
  "handshake_type_try_from v =
     (if v = 0 then Ok HelloRequest
      else if v = 1 then Ok ClientHello
      else if v = 2 then Ok ServerHello
      else if v = 3 then Ok HelloVerifyRequest
      else if v = 11 then Ok Certificate
      else if v = 12 then Ok ServerKeyExchange
      else if v = 13 then Ok CertificateRequest
      else if v = 14 then Ok ServerHelloDone
      else if v = 15 then Ok CertificateVerify
      else if v = 16 then Ok ClientKeyExchange
      else if v = 20 then Ok Finished
      else bail (''Invalid HandshakeType: '' @ show_nat (unat v)))"

record handshake_message =
  msg_type :: handshake_type
  total_length :: u32
  message_seq :: u16
  fragment_offset :: u32
  fragment_length :: u32
  msg_body :: bytes

definition HANDSHAKE_HEADER_SIZE :: nat where
  "HANDSHAKE_HEADER_SIZE = 12"

definition handshake_encode :: "handshake_message \<Rightarrow> bytes" where
  "handshake_encode m =
     handshake_type_u8 (msg_type m) # u24_be (total_length m) @ u16_be (message_seq m)
       @ u24_be (fragment_offset m) @ u24_be (fragment_length m) @ msg_body m"

definition handshake_decode :: "bytes \<Rightarrow> rtc_error fault + (handshake_message \<times> bytes) option" where
  "handshake_decode buf =
     (if length buf < HANDSHAKE_HEADER_SIZE then Ok None
      else rbind (at8 buf 0) (\<lambda>t. rbind (handshake_type_try_from t) (\<lambda>ty.
        rbind (at24 buf 1) (\<lambda>total. rbind (at16 buf 4) (\<lambda>mseq.
        rbind (at24 buf 6) (\<lambda>off. rbind (at24 buf 9) (\<lambda>flen.
        if length buf < HANDSHAKE_HEADER_SIZE + unat flen then Ok None
        else rbind (split_to HANDSHAKE_HEADER_SIZE buf) (\<lambda>(_, buf).
          rbind (split_to (unat flen) buf) (\<lambda>(body, buf).
            Ok (Some (\<lparr>msg_type = ty, total_length = total, message_seq = mseq, fragment_offset = off,
                       fragment_length = flen, msg_body = body\<rparr>, buf)))))))))))"

section \<open>Hello messages\<close>

record dtls_random =
  gmt_unix_time :: u32
  random_bytes :: bytes

definition random_encode :: "dtls_random \<Rightarrow> bytes" where
  "random_encode r = u32_be (gmt_unix_time r) @ random_bytes r"

record client_hello =
  ch_version :: protocol_version
  ch_random :: dtls_random
  ch_session_id :: bytes
  ch_cookie :: bytes
  ch_cipher_suites :: "u16 list"
  ch_compression_methods :: bytes
  ch_extensions :: bytes

definition client_hello_encode :: "client_hello \<Rightarrow> bytes" where
  "client_hello_encode h =
     ver_major (ch_version h) # ver_minor (ch_version h) # random_encode (ch_random h)
       @ of_nat (length (ch_session_id h)) # ch_session_id h
       @ of_nat (length (ch_cookie h)) # ch_cookie h
       @ u16_be (of_nat (length (ch_cipher_suites h) * 2)) @ concat (map u16_be (ch_cipher_suites h))
       @ of_nat (length (ch_compression_methods h)) # ch_compression_methods h
       @ (if ch_extensions h \<noteq> [] then u16_be (of_nat (length (ch_extensions h))) @ ch_extensions h else [])"

text \<open>Version and random at the front of both hello messages; the caller has checked that they are there.\<close>

definition hello_front :: "bytes \<Rightarrow> rtc_error fault + (protocol_version \<times> dtls_random \<times> bytes)" where
  "hello_front buf =
     rbind (get_u8 buf) (\<lambda>(major, buf). rbind (get_u8 buf) (\<lambda>(minor, buf).
     rbind (get_u32 buf) (\<lambda>(gmt, buf). rbind (split_to 28 buf) (\<lambda>(rb, buf).
       Ok (\<lparr>ver_major = major, ver_minor = minor\<rparr>, \<lparr>gmt_unix_time = gmt, random_bytes = rb\<rparr>, buf)))))"

text \<open>\<open>while cs_buf.len() >= 2 { cipher_suites.push(cs_buf.get_u16()) }\<close>\<close>

fun u16_pairs :: "bytes \<Rightarrow> u16 list" where
  "u16_pairs (a # b # bs) = be16 a b # u16_pairs bs"
| "u16_pairs _ = []"

text \<open>A field with its length in one byte, or in two: too short is the error \<open>msg\<close>.\<close>

definition take_field :: "nat \<Rightarrow> string \<Rightarrow> bytes \<Rightarrow> rtc_error fault + (bytes \<times> bytes)" where
  "take_field n msg buf = (if length buf < n then bail msg else split_to n buf)"

definition take_extensions :: "string \<Rightarrow> bytes \<Rightarrow> rtc_error fault + (bytes \<times> bytes)" where
  "take_extensions msg buf =
     (if 2 \<le> length buf
      then rbind (get_u16 buf) (\<lambda>(n, buf). take_field (unat n) msg buf)
      else Ok ([], buf))"

definition client_hello_decode :: "bytes \<Rightarrow> rtc_error fault + (client_hello \<times> bytes)" where
  "client_hello_decode buf =
     (if length buf < 34 then bail ''ClientHello too short''
      else rbind (hello_front buf) (\<lambda>(version, random, buf).
        rbind (get_u8 buf) (\<lambda>(n, buf).
        rbind (take_field (unat n) ''ClientHello too short for session_id'' buf) (\<lambda>(sid, buf).
        if buf = [] then bail ''ClientHello too short for cookie length''
        else rbind (get_u8 buf) (\<lambda>(n, buf).
        rbind (take_field (unat n) ''ClientHello too short for cookie'' buf) (\<lambda>(cookie, buf).
        if length buf < 2 then bail ''ClientHello too short for cipher suites length''
        else rbind (get_u16 buf) (\<lambda>(n, buf).
        rbind (take_field (unat n) ''ClientHello too short for cipher suites'' buf) (\<lambda>(cs, buf).
        if buf = [] then bail ''ClientHello too short for compression methods length''
        else rbind (get_u8 buf) (\<lambda>(n, buf).
        rbind (take_field (unat n) ''ClientHello too short for compression methods'' buf) (\<lambda>(cm, buf).
        rbind (take_extensions ''ClientHello too short for extensions'' buf) (\<lambda>(ext, buf).
          Ok (\<lparr>ch_version = version, ch_random = random, ch_session_id = sid, ch_cookie = cookie,
               ch_cipher_suites = u16_pairs cs, ch_compression_methods = cm, ch_extensions = ext\<rparr>, buf))))))))))))"

record server_hello =
  sh_version :: protocol_version
  sh_random :: dtls_random
  sh_session_id :: bytes
  sh_cipher_suite :: u16
  sh_compression_method :: u8
  sh_extensions :: bytes

definition server_hello_encode :: "server_hello \<Rightarrow> bytes" where
  "server_hello_encode h =
     ver_major (sh_version h) # ver_minor (sh_version h) # random_encode (sh_random h)
       @ of_nat (length (sh_session_id h)) # sh_session_id h
       @ u16_be (sh_cipher_suite h) @ sh_compression_method h
       # (if sh_extensions h \<noteq> [] then u16_be (of_nat (length (sh_extensions h))) @ sh_extensions h else [])"

definition server_hello_decode :: "bytes \<Rightarrow> rtc_error fault + (server_hello \<times> bytes)" where
  "server_hello_decode buf =
     (if length buf < 34 then bail ''ServerHello too short''
      else rbind (hello_front buf) (\<lambda>(version, random, buf).
        rbind (get_u8 buf) (\<lambda>(n, buf).
        rbind (take_field (unat n) ''ServerHello too short for session_id'' buf) (\<lambda>(sid, buf).
        if length buf < 3 then bail ''ServerHello too short for cipher suite and compression''
        else rbind (get_u16 buf) (\<lambda>(suite, buf). rbind (get_u8 buf) (\<lambda>(cm, buf).
        rbind (take_extensions ''ServerHello too short for extensions'' buf) (\<lambda>(ext, buf).
          Ok (\<lparr>sh_version = version, sh_random = random, sh_session_id = sid, sh_cipher_suite = suite,
               sh_compression_method = cm, sh_extensions = ext\<rparr>, buf))))))))"

record hello_verify_request =
  hvr_version :: protocol_version
  hvr_cookie :: bytes

definition hello_verify_request_encode :: "hello_verify_request \<Rightarrow> bytes" where
  "hello_verify_request_encode h =
     ver_major (hvr_version h) # ver_minor (hvr_version h) # of_nat (length (hvr_cookie h)) # hvr_cookie h"

definition hello_verify_request_decode :: "bytes \<Rightarrow> rtc_error fault + (hello_verify_request \<times> bytes)" where
  "hello_verify_request_decode buf =
     (if length buf < 3 then bail ''HelloVerifyRequest too short''
      else rbind (get_u8 buf) (\<lambda>(major, buf). rbind (get_u8 buf) (\<lambda>(minor, buf).
        rbind (get_u8 buf) (\<lambda>(n, buf).
        rbind (take_field (unat n) ''HelloVerifyRequest too short for cookie'' buf) (\<lambda>(cookie, buf).
          Ok (\<lparr>hvr_version = \<lparr>ver_major = major, ver_minor = minor\<rparr>, hvr_cookie = cookie\<rparr>, buf))))))"

section \<open>Key exchange and certificates\<close>

text \<open>\<open>ServerHelloDone::encode\<close> writes nothing.\<close>

definition server_hello_done_encode :: bytes where
  "server_hello_done_encode = []"

record server_key_exchange =
  curve_type :: u8
  named_curve :: u16
  ske_public_key :: bytes
  ske_signature :: bytes

definition server_key_exchange_encode :: "server_key_exchange \<Rightarrow> bytes" where
  "server_key_exchange_encode k =
     curve_type k # u16_be (named_curve k) @ of_nat (length (ske_public_key k)) # ske_public_key k
       @ 4 # 3 # u16_be (of_nat (length (ske_signature k))) @ ske_signature k"

definition server_key_exchange_decode :: "bytes \<Rightarrow> rtc_error fault + (server_key_exchange \<times> bytes)" where
  "server_key_exchange_decode buf =
     (if length buf < 4 then bail ''ServerKeyExchange too short''
      else rbind (get_u8 buf) (\<lambda>(ct, buf). rbind (get_u16 buf) (\<lambda>(curve, buf).
        rbind (get_u8 buf) (\<lambda>(n, buf).
        rbind (take_field (unat n) ''ServerKeyExchange too short for public key'' buf) (\<lambda>(pk, buf).
        if length buf < 4 then bail ''ServerKeyExchange too short for signature header''
        else rbind (get_u8 buf) (\<lambda>(_, buf). rbind (get_u8 buf) (\<lambda>(_, buf).
        rbind (get_u16 buf) (\<lambda>(n, buf).
        rbind (take_field (unat n) ''ServerKeyExchange too short for signature'' buf) (\<lambda>(sig, buf).
          Ok (\<lparr>curve_type = ct, named_curve = curve, ske_public_key = pk, ske_signature = sig\<rparr>, buf))))))))))"

definition certificate_entry_encode :: "bytes \<Rightarrow> bytes" where
  "certificate_entry_encode c = u24_be (of_nat (length c)) @ c"

definition certificate_message_encode :: "bytes list \<Rightarrow> bytes" where
  "certificate_message_encode certs =
     u24_be (of_nat (sum_list (map (\<lambda>c. 3 + length c) certs))) @ concat (map certificate_entry_encode certs)"

definition certificate_entry :: "bytes \<Rightarrow> rtc_error fault + (bytes list \<times> bytes)" where
  "certificate_entry buf =
     (if length buf < 3 then bail ''Certificate entry missing length''
      else rbind (at24 buf 0) (\<lambda>n. rbind (split_to 3 buf) (\<lambda>(_, buf).
        rbind (take_field (unat n) ''Certificate entry shorter than declared length'' buf) (\<lambda>(c, buf).
          Ok ([c], buf)))))"

lemma certificate_entry_shorter:
  "certificate_entry buf = Ok (cs, rest) \<Longrightarrow> length rest < length buf"
  by (auto simp: certificate_entry_def take_field_def rbind_Inr_iff split_to_ok bail_def split: if_splits)

function certificate_entries :: "bytes \<Rightarrow> rtc_error fault + bytes list" where
  "certificate_entries buf =
     (if buf = [] then Ok []
      else rbind (certificate_entry buf) (\<lambda>(cs, rest).
        rbind (certificate_entries rest) (\<lambda>cs'. Ok (cs @ cs'))))"
  by pat_completeness auto
termination
  by (relation "measure length") (auto dest: certificate_entry_shorter)

declare certificate_entries.simps [simp del]

definition certificate_message_decode :: "bytes \<Rightarrow> rtc_error fault + (bytes list \<times> bytes)" where
  "certificate_message_decode buf =
     (if length buf < 3 then bail ''Certificate message too short''
      else rbind (at24 buf 0) (\<lambda>total. rbind (split_to 3 buf) (\<lambda>(_, buf).
        rbind (take_field (unat total) ''Certificate message shorter than declared length'' buf) (\<lambda>(cb, buf).
        rbind (certificate_entries cb) (\<lambda>certs. Ok (certs, buf))))))"

record client_key_exchange =
  identity_hint :: bytes
  cke_public_key :: bytes

definition client_key_exchange_encode :: "client_key_exchange \<Rightarrow> bytes" where
  "client_key_exchange_encode k =
     (if identity_hint k \<noteq> [] then u16_be (of_nat (length (identity_hint k))) @ identity_hint k else [])
       @ of_nat (length (cke_public_key k)) # cke_public_key k"

definition client_key_exchange_decode :: "bytes \<Rightarrow> rtc_error fault + (client_key_exchange \<times> bytes)" where
  "client_key_exchange_decode buf =
     (if buf = [] then bail ''ClientKeyExchange too short''
      else rbind (get_u8 buf) (\<lambda>(n, buf).
        rbind (take_field (unat n) ''ClientKeyExchange too short for public key'' buf) (\<lambda>(pk, buf).
          Ok (\<lparr>identity_hint = [], cke_public_key = pk\<rparr>, buf))))"

text \<open>The body of a \<open>Finished\<close> message is its verify data.\<close>

definition finished_encode :: "bytes \<Rightarrow> bytes" where
  "finished_encode verify_data = verify_data"

definition finished_decode :: "bytes \<Rightarrow> rtc_error fault + (bytes \<times> bytes)" where
  "finished_decode buf = rbind (split_to (length buf) buf) (\<lambda>(verify_data, buf). Ok (verify_data, buf))"

section \<open>Reading back what was written\<close>

lemma handshake_type_round_trip [simp]: "handshake_type_try_from (handshake_type_u8 t) = Ok t"
  by (cases t) (simp_all add: handshake_type_try_from_def)

lemma handshake_type_try_from_Inr: "handshake_type_try_from v = Ok t \<longleftrightarrow> v = handshake_type_u8 t"
  by (cases t) (auto simp: handshake_type_try_from_def bail_def)

lemma handshake_type_no_panic [simp]: "handshake_type_try_from v \<noteq> Panicked"
  by (simp add: handshake_type_try_from_def)

lemma take_field_append [read_simps]:
  "n = length xs \<Longrightarrow> take_field n msg (xs @ ys) = Ok (xs, ys)"
  "n = length xs \<Longrightarrow> take_field n msg xs = Ok (xs, [])"
  by (simp_all add: take_field_def read_simps)

lemma take_field_no_panic [simp]: "take_field n msg buf \<noteq> Panicked"
  by (simp add: take_field_def)

lemma take_field_ok: "take_field n msg buf = Ok (v, rest) \<longleftrightarrow> buf = v @ rest \<and> length v = n"
  by (auto simp: take_field_def split_to_ok bail_def)

definition fits24 :: "u32 \<Rightarrow> bool" where
  "fits24 w \<longleftrightarrow> w AND 0x00FFFFFF = w"

lemma fits24_of_nat [simp]: "n < 2 ^ 24 \<Longrightarrow> fits24 (of_nat n)"
proof -
  assume n: "n < 2 ^ 24"
  have m: "(0x00FFFFFF :: u32) = mask 24" by (simp add: mask_eq_exp_minus_1)
  have "unat (of_nat n :: u32) = n" using n by (simp add: unat_of_nat)
  then show ?thesis using n by (simp only: fits24_def m flip: take_bit_eq_mask) (simp add: take_bit_small)
qed

definition message_fits :: "handshake_message \<Rightarrow> bool" where
  "message_fits m \<longleftrightarrow> fits24 (total_length m) \<and> fits24 (fragment_offset m) \<and> fits24 (fragment_length m)
     \<and> length (msg_body m) = unat (fragment_length m)"

lemma length_handshake_encode: "length (handshake_encode m) = 12 + length (msg_body m)"
  by (simp add: handshake_encode_def)

lemma handshake_decode_encode:
  assumes "message_fits m"
  shows "handshake_decode (handshake_encode m @ rest) = Ok (Some (m, rest))"
proof -
  let ?h = "handshake_type_u8 (msg_type m) # u24_be (total_length m) @ u16_be (message_seq m)
       @ u24_be (fragment_offset m) @ u24_be (fragment_length m)"
  have e: "handshake_encode m @ rest = ?h @ msg_body m @ rest"
    by (simp add: handshake_encode_def)
  have l: "length ?h = 12" by simp
  have s: "split_to 12 (?h @ msg_body m @ rest) = (Ok (?h, msg_body m @ rest) :: rtc_error fault + _)"
    using l by (subst split_to_append) simp_all
  show ?thesis
    using assms l unfolding e handshake_decode_def HANDSHAKE_HEADER_SIZE_def s
    by (simp add: read_simps message_fits_def fits24_def)
qed

lemma handshake_decode_no_panic: "handshake_decode buf \<noteq> Panicked"
  unfolding handshake_decode_def HANDSHAKE_HEADER_SIZE_def
  by (auto simp: rbind_Inl_iff split_to_ok split: if_splits)

lemma u24_be_be32 [simp]: "u24_be (be32 0 a b c) = [a, b, c]"
  unfolding u24_be_def be32_def by (auto intro!: bit_word_eqI simp: bit_simps)

lemma fits24_be32 [simp]: "fits24 (be32 0 a b c)"
  using be24_bytes [of "be32 0 a b c"] arg_cong [OF u24_be_be32 [of a b c], of "\<lambda>x. x"]
  by (simp add: fits24_def u24_be_def)

text \<open>A message the decoder accepts is the encoding of its header and body: the raw bytes the transcript
  keeps are the encoding of the message.\<close>

lemma handshake_decode_Some:
  assumes "handshake_decode buf = Ok (Some (m, rest))"
  shows "buf = handshake_encode m @ rest \<and> message_fits m"
proof -
  have "12 \<le> length buf"
    using assms by (auto simp: handshake_decode_def HANDSHAKE_HEADER_SIZE_def split: if_splits)
  then obtain h t where b: "buf = h @ t" and "length h = 12"
    by (metis append_take_drop_id length_take min_absorb2)
  then obtain t0 l1 l2 l3 s1 s2 o1 o2 o3 f1 f2 f3 where h: "h = [t0, l1, l2, l3, s1, s2, o1, o2, o3, f1, f2, f3]"
    by (auto simp: eval_nat_numeral length_Suc_conv)
  let ?h = "[t0, l1, l2, l3, s1, s2, o1, o2, o3, f1, f2, f3]"
  have 1: "at24 (?h @ t) 1 = (Ok (be32 0 l1 l2 l3) :: rtc_error fault + u32)"
    "at24 (?h @ t) 6 = (Ok (be32 0 o1 o2 o3) :: rtc_error fault + u32)"
    "at24 (?h @ t) 9 = (Ok (be32 0 f1 f2 f3) :: rtc_error fault + u32)" by (simp_all add: at24_def)
  have 2: "at16 (?h @ t) 4 = (Ok (be16 s1 s2) :: rtc_error fault + u16)" by (simp add: at16_def)
  have 3: "split_to 12 (?h @ t) = (Ok (?h, t) :: rtc_error fault + bytes \<times> bytes)"
    by (simp add: split_to_def)
  from assms obtain ty where ty: "handshake_type_try_from t0 = Ok ty"
    and m: "m = \<lparr>msg_type = ty, total_length = be32 0 l1 l2 l3, message_seq = be16 s1 s2,
        fragment_offset = be32 0 o1 o2 o3, fragment_length = be32 0 f1 f2 f3,
        msg_body = take (unat (be32 0 f1 f2 f3)) t\<rparr>"
    and t: "unat (be32 0 f1 f2 f3) \<le> length t" "rest = drop (unat (be32 0 f1 f2 f3)) t"
    unfolding b h handshake_decode_def HANDSHAKE_HEADER_SIZE_def 1 2 3
    by (auto simp: rbind_Inr_iff at8_def split_to_def split: if_splits)
  have "handshake_encode m @ rest = buf"
    using ty t unfolding b h m by (simp add: handshake_encode_def handshake_type_try_from_Inr)
  moreover have "message_fits m"
    using t by (simp add: m message_fits_def)
  ultimately show ?thesis by simp
qed

lemma handshake_decode_shorter:
  "handshake_decode buf = Ok (Some (m, rest)) \<Longrightarrow> length rest < length buf"
  by (drule handshake_decode_Some) (auto simp: handshake_encode_def)

section \<open>Round trips of the bodies\<close>

lemma u16_pairs_concat [simp]: "u16_pairs (concat (map u16_be ws)) = ws"
  by (induction ws) (simp_all add: u16_be_def)

lemma length_concat_u16 [simp]: "length (concat (map u16_be ws)) = 2 * length ws"
  by (induction ws) simp_all

lemma hello_front_encode [read_simps]:
  assumes "length (random_bytes r) = 28"
  shows "hello_front (ver_major v # ver_minor v # random_encode r @ rest) = Ok (v, r, rest)"
  using assms by (simp add: hello_front_def random_encode_def read_simps)

lemma length_random_encode [simp]: "length (random_encode r) = 4 + length (random_bytes r)"
  by (simp add: random_encode_def)

text \<open>What the wire can carry of each body.\<close>

definition client_hello_fits :: "client_hello \<Rightarrow> bool" where
  "client_hello_fits h \<longleftrightarrow> length (random_bytes (ch_random h)) = 28 \<and> length (ch_session_id h) < 256
     \<and> length (ch_cookie h) < 256 \<and> length (ch_cipher_suites h) < 32768
     \<and> length (ch_compression_methods h) < 256 \<and> length (ch_extensions h) < 65536"

definition server_hello_fits :: "server_hello \<Rightarrow> bool" where
  "server_hello_fits h \<longleftrightarrow> length (random_bytes (sh_random h)) = 28 \<and> length (sh_session_id h) < 256
     \<and> length (sh_extensions h) < 65536"

lemma take_extensions_encode [read_simps]:
  assumes "length ext < 65536"
  shows "take_extensions msg (u16_be (of_nat (length ext)) @ ext) = Ok (ext, [])"
  using assms by (simp add: take_extensions_def read_simps)

lemma take_extensions_Nil [simp]: "take_extensions msg [] = Ok ([], [])"
  by (simp add: take_extensions_def)

lemma unat_twice_u16: "n < 32768 \<Longrightarrow> unat (of_nat n * 2 :: u16) = 2 * n"
  using unat_of_nat_u16 [of "n * 2"] by (simp add: mult.commute)

lemma client_hello_roundtrip:
  assumes "client_hello_fits h"
  shows "client_hello_decode (client_hello_encode h) = Ok (h, [])"
  using assms unfolding client_hello_decode_def client_hello_encode_def client_hello_fits_def
  by (simp add: read_simps unat_twice_u16)

lemma server_hello_roundtrip:
  assumes "server_hello_fits h"
  shows "server_hello_decode (server_hello_encode h) = Ok (h, [])"
  using assms unfolding server_hello_decode_def server_hello_encode_def server_hello_fits_def
  by (simp add: read_simps)

lemma hello_verify_request_roundtrip:
  assumes "length (hvr_cookie h) < 256"
  shows "hello_verify_request_decode (hello_verify_request_encode h) = Ok (h, [])"
  using assms unfolding hello_verify_request_decode_def hello_verify_request_encode_def
  by (simp add: read_simps)

lemma server_key_exchange_roundtrip:
  assumes "length (ske_public_key k) < 256" and "length (ske_signature k) < 65536"
  shows "server_key_exchange_decode (server_key_exchange_encode k) = Ok (k, [])"
  using assms unfolding server_key_exchange_decode_def server_key_exchange_encode_def
  by (simp add: read_simps)

lemma client_key_exchange_roundtrip:
  assumes "identity_hint k = []" and "length (cke_public_key k) < 256"
  shows "client_key_exchange_decode (client_key_exchange_encode k) = Ok (k, [])"
  using assms unfolding client_key_exchange_decode_def client_key_exchange_encode_def
  by (cases k) (simp add: read_simps)

lemma finished_roundtrip: "finished_decode (finished_encode v) = Ok (v, [])"
  by (simp add: finished_decode_def finished_encode_def split_to_def)

lemma unat_and_24: "n < 2 ^ 24 \<Longrightarrow> unat ((of_nat n :: u32) AND 0x00FFFFFF) = n"
  using fits24_of_nat [of n] by (simp add: fits24_def unat_of_nat)

interpretation certs: framing certificate_entry certificate_entries certificate_entry_encode
  "\<lambda>c. [c]" "\<lambda>c. length c < 2 ^ 24"
proof unfold_locales
  fix x rest :: bytes
  assume "length x < 2 ^ 24"
  then show "certificate_entry (certificate_entry_encode x @ rest) = Ok ([x], rest)"
    by (simp add: certificate_entry_def certificate_entry_encode_def read_simps unat_and_24 del: power_numeral)
next
  fix bs vs rest
  assume *: "certificate_entry bs = Ok (vs, rest)"
  then have "bs \<noteq> []" using certificate_entry_shorter by fastforce
  with * show "certificate_entries bs = rbind (certificate_entries rest) (\<lambda>ws. Ok (vs @ ws))"
    by (subst certificate_entries.simps) simp
qed (simp add: certificate_entries.simps)

lemma length_certificate_entries:
  "length (concat (map certificate_entry_encode cs)) = sum_list (map (\<lambda>c. 3 + length c) cs)"
  by (induction cs) (simp_all add: certificate_entry_encode_def)

lemma certificate_message_roundtrip:
  assumes "sum_list (map (\<lambda>c. 3 + length c) cs) < 2 ^ 24"
  shows "certificate_message_decode (certificate_message_encode cs) = Ok (cs, [])"
proof -
  have "length c < 2 ^ 24" if "c \<in> set cs" for c
    using member_le_sum_list [of "3 + length c" "map (\<lambda>c. 3 + length c) cs"] that assms by auto
  then have "certificate_entries (concat (map certificate_entry_encode cs)) = Ok cs"
    using certs.loop_wire [of cs] by simp
  then show ?thesis
    using assms unfolding certificate_message_decode_def certificate_message_encode_def
    by (simp add: read_simps unat_and_24 length_certificate_entries del: power_numeral)
qed

section \<open>Totality\<close>

lemma hello_front_ok:
  assumes "34 \<le> length buf"
  obtains v r where "hello_front buf = Ok (v, r, drop 34 buf)" and "length (random_bytes r) = 28"
proof -
  obtain h t where b: "buf = h @ t" and h: "length h = 34"
    using assms by (metis append_take_drop_id length_take min_absorb2)
  obtain m n g1 g2 g3 g4 rb where h': "h = m # n # g1 # g2 # g3 # g4 # rb"
    using h by (auto simp: eval_nat_numeral length_Suc_conv)
  with h have rb: "length rb = 28" by simp
  have "hello_front buf = Ok (\<lparr>ver_major = m, ver_minor = n\<rparr>,
      \<lparr>gmt_unix_time = be32 g1 g2 g3 g4, random_bytes = rb\<rparr>, drop 34 buf)"
    using rb unfolding b h' by (simp add: hello_front_def get_u8_def get_u32_def read_simps)
  with that rb show ?thesis by force
qed

lemma take_extensions_no_panic [simp]: "take_extensions msg buf \<noteq> Panicked"
  by (auto simp: take_extensions_def rbind_Inl_iff)

lemma client_hello_panic_iff: "client_hello_decode buf = Panicked \<longleftrightarrow> length buf = 34"
proof (cases "length buf < 34")
  case False
  then obtain v r where f: "hello_front buf = Ok (v, r, drop 34 buf)" using hello_front_ok by (metis not_less)
  show ?thesis
  proof (cases "length buf = 34")
    case True
    with f show ?thesis by (simp add: client_hello_decode_def get_u8_def)
  next
    case ne: False
    with False obtain n rest where d: "drop 34 buf = n # rest" by (cases "drop 34 buf") auto
    show ?thesis
      using ne False f unfolding client_hello_decode_def
      by (auto simp: rbind_Inl_iff take_field_ok d get_u8_ok get_u16_ok)
  qed
qed (simp add: client_hello_decode_def)

lemma server_hello_panic_iff: "server_hello_decode buf = Panicked \<longleftrightarrow> length buf = 34"
proof (cases "length buf < 34")
  case False
  then obtain v r where f: "hello_front buf = Ok (v, r, drop 34 buf)" using hello_front_ok by (metis not_less)
  show ?thesis
  proof (cases "length buf = 34")
    case True
    with f show ?thesis by (simp add: server_hello_decode_def get_u8_def)
  next
    case ne: False
    with False obtain n rest where d: "drop 34 buf = n # rest" by (cases "drop 34 buf") auto
    show ?thesis
      using ne False f unfolding server_hello_decode_def
      by (auto simp: rbind_Inl_iff take_field_ok d get_u8_ok get_u16_ok)
  qed
qed (simp add: server_hello_decode_def)

lemma hello_verify_request_no_panic: "hello_verify_request_decode buf \<noteq> Panicked"
  by (auto simp: hello_verify_request_decode_def rbind_Inl_iff get_u8_ok)

lemma server_key_exchange_no_panic: "server_key_exchange_decode buf \<noteq> Panicked"
  by (auto simp: server_key_exchange_decode_def rbind_Inl_iff cursor_ok take_field_ok)

lemma certificate_entry_no_panic [simp]: "certificate_entry buf \<noteq> Panicked"
  by (auto simp: certificate_entry_def rbind_Inl_iff split_to_ok)

lemma certificate_entries_no_panic [simp]: "certificate_entries buf \<noteq> Panicked"
proof (induction buf rule: certificate_entries.induct)
  case (1 buf)
  then show ?case by (subst certificate_entries.simps) (auto simp: rbind_Inl_iff)
qed

lemma certificate_message_no_panic: "certificate_message_decode buf \<noteq> Panicked"
  by (auto simp: certificate_message_decode_def rbind_Inl_iff split_to_ok)

lemma client_key_exchange_no_panic: "client_key_exchange_decode buf \<noteq> Panicked"
  by (auto simp: client_key_exchange_decode_def rbind_Inl_iff Suc_le_eq)

lemma finished_decode_eq [simp]: "finished_decode buf = Ok (buf, [])"
  by (simp add: finished_decode_def split_to_def)

text \<open>
  C28: Every handshake message is read back as it was written: the message header with any rest of the
  payload behind it, and the bodies of ClientHello, ServerHello, HelloVerifyRequest, ServerKeyExchange,
  Certificate, ClientKeyExchange (without identity hint, which is never read) and Finished, whenever
  their fields fit the widths of their length prefixes. A message the decoder accepts is moreover the
  encoding of what it returns.
\<close>

theorem handshake_messages_roundtrip:
  "(message_fits m \<longrightarrow> handshake_decode (handshake_encode m @ rest) = Ok (Some (m, rest)))
   \<and> (handshake_decode buf = Ok (Some (m, rest)) \<longrightarrow> buf = handshake_encode m @ rest)
   \<and> (client_hello_fits ch \<longrightarrow> client_hello_decode (client_hello_encode ch) = Ok (ch, []))
   \<and> (server_hello_fits sh \<longrightarrow> server_hello_decode (server_hello_encode sh) = Ok (sh, []))
   \<and> (length (hvr_cookie hv) < 256
        \<longrightarrow> hello_verify_request_decode (hello_verify_request_encode hv) = Ok (hv, []))
   \<and> (length (ske_public_key sk) < 256 \<and> length (ske_signature sk) < 65536
        \<longrightarrow> server_key_exchange_decode (server_key_exchange_encode sk) = Ok (sk, []))
   \<and> (sum_list (map (\<lambda>c. 3 + length c) certs) < 2 ^ 24
        \<longrightarrow> certificate_message_decode (certificate_message_encode certs) = Ok (certs, []))
   \<and> (identity_hint ck = [] \<and> length (cke_public_key ck) < 256
        \<longrightarrow> client_key_exchange_decode (client_key_exchange_encode ck) = Ok (ck, []))
   \<and> finished_decode (finished_encode vd) = Ok (vd, [])"
  using handshake_decode_encode handshake_decode_Some client_hello_roundtrip server_hello_roundtrip
    hello_verify_request_roundtrip server_key_exchange_roundtrip certificate_message_roundtrip
    client_key_exchange_roundtrip finished_roundtrip
  by blast

theorem handshake_messages_roundtrip_witness:
  "let m = \<lparr>msg_type = Finished, total_length = 3, message_seq = 5, fragment_offset = 0, fragment_length = 3,
         msg_body = [7, 8, 9]\<rparr>;
       ch = \<lparr>ch_version = DTLS_1_2, ch_random = \<lparr>gmt_unix_time = 1, random_bytes = replicate 28 7\<rparr>,
         ch_session_id = [], ch_cookie = [1, 2], ch_cipher_suites = [0xC02B], ch_compression_methods = [0],
         ch_extensions = [0, 23, 0, 0]\<rparr>
   in handshake_decode (handshake_encode m @ [1]) = Ok (Some (m, [1]))
      \<and> client_hello_decode (client_hello_encode ch) = Ok (ch, [])
      \<and> certificate_message_decode (certificate_message_encode [[1, 2], [3]]) = Ok ([[1, 2], [3]], [])"
  unfolding Let_def
  by (intro conjI; rule handshake_messages_roundtrip [THEN conjunct1, rule_format]
      handshake_messages_roundtrip [THEN conjunct2, THEN conjunct2, THEN conjunct1, rule_format]
      handshake_messages_roundtrip [THEN conjunct2, THEN conjunct2, THEN conjunct2, THEN conjunct2,
        THEN conjunct2, THEN conjunct2, THEN conjunct1, rule_format];
      simp add: message_fits_def fits24_def client_hello_fits_def)

text \<open>
  C29: No decoder of a handshake message panics, whatever bytes the peer sends, with one exception: a
  ClientHello or ServerHello body of exactly 34 bytes passes the length check for version and random
  and then reads the length of the session id past the end.
\<close>

theorem handshake_decode_panics_only_at_34:
  "handshake_decode buf \<noteq> Panicked \<and> hello_verify_request_decode buf \<noteq> Panicked
   \<and> server_key_exchange_decode buf \<noteq> Panicked \<and> certificate_message_decode buf \<noteq> Panicked
   \<and> client_key_exchange_decode buf \<noteq> Panicked \<and> finished_decode buf \<noteq> Panicked
   \<and> (client_hello_decode buf = Panicked \<longleftrightarrow> length buf = 34)
   \<and> (server_hello_decode buf = Panicked \<longleftrightarrow> length buf = 34)"
  using handshake_decode_no_panic hello_verify_request_no_panic server_key_exchange_no_panic
    certificate_message_no_panic client_key_exchange_no_panic client_hello_panic_iff server_hello_panic_iff
  by simp

end
