(* ===== verification/Dtls_Reassembly.thy ===== *)
theory Dtls_Reassembly
  imports Dtls_Handshake
begin

text \<open>
  Reassembly of a fragmented handshake message (\<open>HandshakeReassembly\<close> of \<open>src/transports/dtls/mod.rs\<close>).
  The buffer is refined to the set of byte positions covered so far: a fragment adds its range, and the
  message comes out, whole, with the fragment that covers the last position.
\<close>

definition MAX_HANDSHAKE_MESSAGE_LEN :: nat where
  "MAX_HANDSHAKE_MESSAGE_LEN = 65536"

record reassembly =
  ra_seq :: u16
  ra_total :: nat
  ra_buf :: bytes
  ra_have :: "bool list"
  ra_count :: nat

definition reassembly_default :: reassembly where
  "reassembly_default = \<lparr>ra_seq = 0, ra_total = 0, ra_buf = [], ra_have = [], ra_count = 0\<rparr>"

definition reassembly_fresh :: "u16 \<Rightarrow> nat \<Rightarrow> reassembly" where
  "reassembly_fresh sq tot = \<lparr>ra_seq = sq, ra_total = tot, ra_buf = replicate tot 0,
     ra_have = replicate tot False, ra_count = 0\<rparr>"

text \<open>\<open>for (i, byte) in body.iter().enumerate()\<close>, from position \<open>idx\<close>.\<close>

fun push_bytes :: "nat \<Rightarrow> bytes \<Rightarrow> reassembly \<Rightarrow> rtc_error fault + reassembly" where
  "push_bytes idx [] r = Ok r"
| "push_bytes idx (b # bs) r =
     (if idx < length (ra_have r)
      then if \<not> ra_have r ! idx
           then if idx < length (ra_buf r)
                then push_bytes (Suc idx) bs (r\<lparr>ra_have := (ra_have r)[idx := True],
                       ra_buf := (ra_buf r)[idx := b], ra_count := ra_count r + 1\<rparr>)
                else Panicked
           else push_bytes (Suc idx) bs r
      else Panicked)"

definition reassembly_push ::
    "reassembly \<Rightarrow> u16 \<Rightarrow> nat \<Rightarrow> u32 \<Rightarrow> bytes \<Rightarrow> (rtc_error fault + bytes option) \<times> reassembly" where
  "reassembly_push r sq tot off body =
     (if tot = 0 \<or> MAX_HANDSHAKE_MESSAGE_LEN < tot
      then (bail (''handshake message total_length '' @ show_nat tot @ '' out of range''), r)
      else if tot < unat off + length body
      then (bail (''handshake fragment offset '' @ show_nat (unat off) @ '' + len '' @ show_nat (length body)
                  @ '' exceeds total_length '' @ show_nat tot), r)
      else if \<not> (ra_buf r = [] \<or> ra_seq r \<noteq> sq) \<and> ra_total r \<noteq> tot
      then (bail (''handshake message_seq '' @ show_nat (unat sq) @ '' changed total_length ''
                  @ show_nat (ra_total r) @ '' -> '' @ show_nat tot), r)
      else let r = (if ra_buf r = [] \<or> ra_seq r \<noteq> sq then reassembly_fresh sq tot else r)
        in case push_bytes (unat off) body r of
             Inl f \<Rightarrow> (Inl f, r)
           | Inr r \<Rightarrow> if ra_count r < ra_total r then (Ok None, r)
                       else (Ok (Some (ra_buf r)), reassembly_default))"

section \<open>Invariant\<close>

definition reassembly_ok :: "reassembly \<Rightarrow> bool" where
  "reassembly_ok r \<longleftrightarrow> length (ra_buf r) = ra_total r \<and> length (ra_have r) = ra_total r
     \<and> ra_count r = length (filter (\<lambda>h. h) (ra_have r)) \<and> ra_total r \<le> MAX_HANDSHAKE_MESSAGE_LEN
     \<and> (ra_buf r = [] \<or> ra_count r < ra_total r)"

lemma count_update:
  "i < length hs \<Longrightarrow> \<not> hs ! i \<Longrightarrow> length (filter (\<lambda>h. h) (hs[i := True])) = Suc (length (filter (\<lambda>h. h) hs))"
  by (induction hs arbitrary: i) (auto simp: nth_Cons' less_Suc_eq_0_disj split: nat.splits)

lemma count_all: "length (filter (\<lambda>h. h) hs) = length hs \<longleftrightarrow> (\<forall>i < length hs. hs ! i)"
  by (metis (mono_tags, lifting) all_set_conv_all_nth filter_True length_filter_less order_less_irrefl)

text \<open>What the loop does: it never leaves the buffer, fills exactly the positions that were missing, and
  counts them.\<close>

definition in_range :: "nat \<Rightarrow> nat \<Rightarrow> nat \<Rightarrow> bool" where
  "in_range off n i \<longleftrightarrow> off \<le> i \<and> i < off + n"

lemma in_range_0: "in_range off 0 i \<longleftrightarrow> False"
  by (simp add: in_range_def)

definition covered :: "nat \<Rightarrow> bytes \<Rightarrow> reassembly \<Rightarrow> reassembly" where
  "covered idx bs r = (let hs = map (\<lambda>i. ra_have r ! i \<or> in_range idx (length bs) i) [0..<ra_total r]
     in r\<lparr>ra_have := hs, ra_count := length (filter (\<lambda>h. h) hs),
          ra_buf := map (\<lambda>i. if \<not> ra_have r ! i \<and> in_range idx (length bs) i then bs ! (i - idx)
                             else ra_buf r ! i) [0..<ra_total r]\<rparr>)"

lemma push_bytes_covered:
  assumes "idx + length bs \<le> ra_total r" "length (ra_buf r) = ra_total r" "length (ra_have r) = ra_total r"
    and "ra_count r = length (filter (\<lambda>h. h) (ra_have r))"
  shows "push_bytes idx bs r = Ok (covered idx bs r)"
  using assms
proof (induction idx bs r rule: push_bytes.induct)
  case (1 idx r)
  have "map (\<lambda>i. ra_have r ! i) [0..<ra_total r] = ra_have r" "map (\<lambda>i. ra_buf r ! i) [0..<ra_total r] = ra_buf r"
    using 1 by (metis map_nth)+
  then have "covered idx [] r = r\<lparr>ra_have := ra_have r, ra_count := ra_count r, ra_buf := ra_buf r\<rparr>"
    using 1(4) by (simp only: covered_def Let_def in_range_0 list.size simp_thms if_False)
  then show ?case by simp
next
  case (2 idx b bs r)
  show ?case
  proof (cases "ra_have r ! idx")
    case True
    have e1: "map (\<lambda>i. ra_have r ! i \<or> in_range (Suc idx) (length bs) i) [0..<ra_total r]
        = map (\<lambda>i. ra_have r ! i \<or> in_range idx (length (b # bs)) i) [0..<ra_total r]"
      using True by (auto simp: in_range_def Suc_le_eq le_less)
    have e2: "map (\<lambda>i. if \<not> ra_have r ! i \<and> in_range (Suc idx) (length bs) i then bs ! (i - Suc idx) else ra_buf r ! i) [0..<ra_total r]
        = map (\<lambda>i. if \<not> ra_have r ! i \<and> in_range idx (length (b # bs)) i then (b # bs) ! (i - idx) else ra_buf r ! i) [0..<ra_total r]"
      using True by (auto simp: in_range_def Suc_le_eq le_less)
    have "push_bytes idx (b # bs) r = push_bytes (Suc idx) bs r" using True 2 by simp
    also have "\<dots> = Ok (covered (Suc idx) bs r)" using 2 True by (intro 2(2)) auto
    also have "covered (Suc idx) bs r = covered idx (b # bs) r"
      by (simp only: covered_def Let_def e1 e2)
    finally show ?thesis .
  next
    case False
    let ?r = "r\<lparr>ra_have := (ra_have r)[idx := True], ra_buf := (ra_buf r)[idx := b], ra_count := ra_count r + 1\<rparr>"
    have "push_bytes idx (b # bs) r = push_bytes (Suc idx) bs ?r" using False 2 by simp
    also have "\<dots> = Ok (covered (Suc idx) bs ?r)"
      using 2 False by (intro 2(1)) (auto simp: count_update)
    also have "covered (Suc idx) bs ?r = covered idx (b # bs) r"
    proof -
      have e1: "map (\<lambda>i. ra_have ?r ! i \<or> in_range (Suc idx) (length bs) i) [0..<ra_total r]
          = map (\<lambda>i. ra_have r ! i \<or> in_range idx (length (b # bs)) i) [0..<ra_total r]"
        using 2 by (auto simp: in_range_def nth_list_update)
      have e2: "map (\<lambda>i. if \<not> ra_have ?r ! i \<and> in_range (Suc idx) (length bs) i then bs ! (i - Suc idx) else ra_buf ?r ! i) [0..<ra_total r]
          = map (\<lambda>i. if \<not> ra_have r ! i \<and> in_range idx (length (b # bs)) i then (b # bs) ! (i - idx) else ra_buf r ! i) [0..<ra_total r]"
        using 2 False by (auto simp: in_range_def nth_list_update)
      have t: "ra_total ?r = ra_total r" by simp
      show ?thesis unfolding covered_def Let_def t e1 e2 by simp
    qed
    finally show ?thesis .
  qed
qed

lemma covered_simps [simp]:
  "ra_total (covered idx bs r) = ra_total r" "ra_seq (covered idx bs r) = ra_seq r"
  "length (ra_buf (covered idx bs r)) = ra_total r" "length (ra_have (covered idx bs r)) = ra_total r"
  "ra_count (covered idx bs r) = length (filter (\<lambda>h. h) (ra_have (covered idx bs r)))"
  "i < ra_total r \<Longrightarrow> ra_have (covered idx bs r) ! i \<longleftrightarrow> ra_have r ! i \<or> in_range idx (length bs) i"
  "i < ra_total r \<Longrightarrow> ra_buf (covered idx bs r) ! i
     = (if \<not> ra_have r ! i \<and> in_range idx (length bs) i then bs ! (i - idx) else ra_buf r ! i)"
  by (simp_all add: covered_def Let_def)

lemma fresh_simps [simp]:
  "ra_total (reassembly_fresh sq n) = n" "ra_seq (reassembly_fresh sq n) = sq"
  "length (ra_buf (reassembly_fresh sq n)) = n" "length (ra_have (reassembly_fresh sq n)) = n"
  "ra_count (reassembly_fresh sq n) = length (filter (\<lambda>h. h) (ra_have (reassembly_fresh sq n)))"
  "i < n \<Longrightarrow> \<not> ra_have (reassembly_fresh sq n) ! i"
  by (simp_all add: reassembly_fresh_def)

lemma reassembly_default_ok [simp]: "reassembly_ok reassembly_default"
  by (simp add: reassembly_ok_def reassembly_default_def)

text \<open>The two outcomes of a fragment that passes the checks.\<close>

lemma push_accepts:
  assumes "reassembly_ok r" and "0 < n" "n \<le> MAX_HANDSHAKE_MESSAGE_LEN" and "unat off + length body \<le> n"
    and "ra_buf r = [] \<or> ra_seq r \<noteq> sq \<or> ra_total r = n"
  shows "reassembly_push r sq n off body =
    (let r' = covered (unat off) body (if ra_buf r = [] \<or> ra_seq r \<noteq> sq then reassembly_fresh sq n else r)
     in if ra_count r' < n then (Ok None, r') else (Ok (Some (ra_buf r')), reassembly_default))"
proof -
  let ?r = "if ra_buf r = [] \<or> ra_seq r \<noteq> sq then reassembly_fresh sq n else r"
  have t: "ra_total ?r = n" using assms(5) by auto
  have "push_bytes (unat off) body ?r = Ok (covered (unat off) body ?r)"
  proof (rule push_bytes_covered)
    show "ra_count ?r = length (filter (\<lambda>h. h) (ra_have ?r))" using assms(1) by (simp add: reassembly_ok_def)
  qed (use assms(1,4) t in \<open>auto simp: reassembly_ok_def\<close>)
  moreover have "ra_total (covered (unat off) body ?r) = n" using t by simp
  moreover have "\<not> (n = 0 \<or> MAX_HANDSHAKE_MESSAGE_LEN < n)" "\<not> n < unat off + length body"
    "\<not> (\<not> (ra_buf r = [] \<or> ra_seq r \<noteq> sq) \<and> ra_total r \<noteq> n)"
    using assms by auto
  ultimately show ?thesis
    unfolding reassembly_push_def Let_def by (simp only: if_False sum.case)
qed

lemma push_rejects:
  assumes "\<not> (0 < n \<and> n \<le> MAX_HANDSHAKE_MESSAGE_LEN \<and> unat off + length body \<le> n
     \<and> (ra_buf r = [] \<or> ra_seq r \<noteq> sq \<or> ra_total r = n))"
  shows "\<exists>e. reassembly_push r sq n off body = (Fail e, r)"
  using assms by (auto simp: reassembly_push_def bail_def)

lemma push_preserves_ok:
  assumes "reassembly_ok r"
  shows "reassembly_ok (snd (reassembly_push r sq n off body)) \<and> fst (reassembly_push r sq n off body) \<noteq> Panicked"
proof (cases "0 < n \<and> n \<le> MAX_HANDSHAKE_MESSAGE_LEN \<and> unat off + length body \<le> n
     \<and> (ra_buf r = [] \<or> ra_seq r \<noteq> sq \<or> ra_total r = n)")
  case True
  let ?r = "covered (unat off) body (if ra_buf r = [] \<or> ra_seq r \<noteq> sq then reassembly_fresh sq n else r)"
  have "ra_total ?r = n" using True by auto
  then have "reassembly_ok ?r" if "ra_count ?r < n"
    using that True by (simp only: reassembly_ok_def covered_simps) auto
  with True push_accepts [OF assms, of n off body sq] show ?thesis
    by (auto simp: Let_def split: if_splits)
next
  case False
  with push_rejects [OF False] assms show ?thesis by auto
qed

section \<open>Refinement to covered positions\<close>

text \<open>The buffer holds the bytes of \<open>m\<close> at the positions \<open>cov\<close>.\<close>

definition holds_part :: "bytes \<Rightarrow> u16 \<Rightarrow> nat set \<Rightarrow> reassembly \<Rightarrow> bool" where
  "holds_part m sq cov r \<longleftrightarrow> reassembly_ok r \<and> cov \<subseteq> {..<length m} \<and>
     (if cov = {} then ra_buf r = [] \<or> ra_seq r \<noteq> sq
        \<or> ra_total r = length m \<and> (\<forall>i < length m. \<not> ra_have r ! i)
      else ra_seq r = sq \<and> ra_total r = length m
        \<and> (\<forall>i < length m. (ra_have r ! i \<longleftrightarrow> i \<in> cov) \<and> (i \<in> cov \<longrightarrow> ra_buf r ! i = m ! i)))"

definition fragment_of :: "bytes \<Rightarrow> u32 \<times> bytes \<Rightarrow> bool" where
  "fragment_of m f \<longleftrightarrow> unat (fst f) + length (snd f) \<le> length m
     \<and> snd f = take (length (snd f)) (drop (unat (fst f)) m)"

definition fragment_range :: "u32 \<times> bytes \<Rightarrow> nat set" where
  "fragment_range f = {unat (fst f)..<unat (fst f) + length (snd f)}"

lemma fragment_nth:
  "fragment_of m (off, body) \<Longrightarrow> i \<in> fragment_range (off, body) \<Longrightarrow> body ! (i - unat off) = m ! i"
proof -
  assume f: "fragment_of m (off, body)" and "i \<in> fragment_range (off, body)"
  then obtain k where k: "i = unat off + k" "k < length body"
    unfolding fragment_range_def by (metis atLeastLessThan_iff fst_conv le_Suc_ex nat_add_left_cancel_less snd_conv)
  have "body = take (length body) (drop (unat off) m)" using f by (simp add: fragment_of_def)
  then have "body ! k = take (length body) (drop (unat off) m) ! k" by (rule arg_cong)
  also have "\<dots> = m ! i" using f k unfolding fragment_of_def
    by (metis add_leE fst_conv nth_drop nth_take)
  finally show ?thesis using k by simp
qed

lemma push_refines:
  assumes "0 < length m" "length m \<le> MAX_HANDSHAKE_MESSAGE_LEN" and "fragment_of m (off, body)"
    and "holds_part m sq cov r"
  shows "if cov \<union> fragment_range (off, body) = {..<length m}
     then reassembly_push r sq (length m) off body = (Ok (Some m), reassembly_default)
     else fst (reassembly_push r sq (length m) off body) = Ok None
        \<and> holds_part m sq (cov \<union> fragment_range (off, body)) (snd (reassembly_push r sq (length m) off body))"
proof -
  let ?n = "length m" and ?c = "cov \<union> fragment_range (off, body)"
  let ?start = "if ra_buf r = [] \<or> ra_seq r \<noteq> sq then reassembly_fresh sq (length m) else r"
  let ?r = "covered (unat off) body ?start"
  have len: "unat off + length body \<le> ?n" using assms(3) by (simp add: fragment_of_def)
  have ok: "reassembly_ok r" and sub: "cov \<subseteq> {..<?n}" using assms(4) by (simp_all add: holds_part_def)
  have fit: "ra_buf r = [] \<or> ra_seq r \<noteq> sq \<or> ra_total r = ?n"
    using assms(4) by (auto simp: holds_part_def split: if_splits)
  have t: "ra_total ?start = ?n" using fit by auto
  have "ra_seq r \<noteq> sq \<or> ra_buf r = [] \<Longrightarrow> cov = {}"
    using assms(1,4) ok by (auto simp: holds_part_def reassembly_ok_def split: if_splits)
  then have a: "ra_have ?start ! i \<longleftrightarrow> i \<in> cov" "i \<in> cov \<Longrightarrow> ra_buf ?start ! i = m ! i" if "i < ?n" for i
    using assms(4) that by (auto simp: holds_part_def split: if_splits)
  have sub': "?c \<subseteq> {..<?n}" using sub len by (auto simp: fragment_range_def)
  have h: "ra_have ?r ! i \<longleftrightarrow> i \<in> ?c" if "i < ?n" for i
    using a(1) [OF that] that t by (simp add: in_range_def fragment_range_def)
  have b: "ra_buf ?r ! i = m ! i" if "i < ?n" "i \<in> ?c" for i
    using a [OF that(1)] that t fragment_nth [OF assms(3), of i]
    by (auto simp: in_range_def fragment_range_def)
  have "ra_count ?r = ?n \<longleftrightarrow> (\<forall>i < ?n. ra_have ?r ! i)"
    using count_all [of "ra_have ?r"] t by (simp only: covered_simps)
  moreover have "ra_count ?r \<le> ?n"
    using length_filter_le [of "\<lambda>h. h" "ra_have ?r"] t by (simp only: covered_simps)
  ultimately have cnt: "ra_count ?r < ?n \<longleftrightarrow> ?c \<noteq> {..<?n}"
    using h sub' by (auto simp: nat_less_le)
  have p: "reassembly_push r sq ?n off body
      = (if ra_count ?r < ?n then (Ok None, ?r) else (Ok (Some (ra_buf ?r)), reassembly_default))"
    using push_accepts [OF ok assms(1,2) len fit] by (simp only: Let_def)
  show ?thesis
  proof (cases "?c = {..<?n}")
    case True
    then have "ra_buf ?r = m" using b t by (intro nth_equalityI) (simp_all only: covered_simps, blast)
    with True p cnt show ?thesis by simp
  next
    case False
    have "reassembly_ok ?r" using push_preserves_ok [OF ok, of sq ?n off body] p False cnt by simp
    moreover have "ra_seq ?r = sq" by simp
    ultimately have "holds_part m sq ?c ?r"
      using h b sub' t by (simp only: holds_part_def covered_simps) auto
    with False p cnt show ?thesis by simp
  qed
qed

section \<open>Sequences of fragments\<close>

fun push_all :: "reassembly \<Rightarrow> u16 \<Rightarrow> nat \<Rightarrow> (u32 \<times> bytes) list \<Rightarrow> (rtc_error fault + bytes option) list \<times> reassembly" where
  "push_all r sq n [] = ([], r)"
| "push_all r sq n ((off, body) # fs) =
     (let (res, r) = reassembly_push r sq n off body; (rest, r) = push_all r sq n fs in (res # rest, r))"

lemma push_all_incomplete:
  assumes "0 < length m" "length m \<le> MAX_HANDSHAKE_MESSAGE_LEN" and "\<forall>f \<in> set fs. fragment_of m f"
    and "holds_part m sq cov r" and "cov \<union> (\<Union>f \<in> set fs. fragment_range f) \<noteq> {..<length m}"
    and "cov \<union> (\<Union>f \<in> set fs. fragment_range f) \<subseteq> {..<length m}"
  shows "fst (push_all r sq (length m) fs) = replicate (length fs) (Ok None)
     \<and> holds_part m sq (cov \<union> (\<Union>f \<in> set fs. fragment_range f)) (snd (push_all r sq (length m) fs))"
  using assms(3-)
proof (induction fs arbitrary: cov r)
  case (Cons f fs)
  obtain off body where f: "f = (off, body)" by force
  let ?c = "cov \<union> fragment_range f"
  have "?c \<noteq> {..<length m}" using Cons.prems by auto
  with push_refines [OF assms(1,2), of off body sq cov r] Cons.prems
  have 1: "fst (reassembly_push r sq (length m) off body) = Ok None"
    "holds_part m sq ?c (snd (reassembly_push r sq (length m) off body))"
    by (auto simp: f)
  have 2: "?c \<union> (\<Union>f \<in> set fs. fragment_range f) = cov \<union> (\<Union>f \<in> set (f # fs). fragment_range f)" by auto
  show ?case
    using Cons.IH [OF _ 1(2)] Cons.prems 1 by (simp add: f 2 [unfolded f] split_beta Let_def Un_assoc)
qed simp

lemma push_all_append:
  "push_all r sq n (fs @ [(off, body)]) =
     (let (rs, r) = push_all r sq n fs; (res, r) = reassembly_push r sq n off body in (rs @ [res], r))"
  by (induction fs arbitrary: r) (auto simp: split_beta Let_def)

text \<open>
  C6: Reassembly does not depend on how a handshake message was fragmented or in which order the
  fragments arrive. Whatever non-empty message of at most 64 KiB is cut into fragments, overlapping or
  repeated ones included, pushing them in any order into a buffer that does not hold that message
  number yields nothing until every byte is covered; the fragment that covers the last byte yields
  exactly the message, and the buffer is empty again.
\<close>

theorem handshake_reassembly_any_order:
  assumes "0 < length m" and "length m \<le> MAX_HANDSHAKE_MESSAGE_LEN"
    and "reassembly_ok r" and "ra_buf r = [] \<or> ra_seq r \<noteq> sq"
    and "\<forall>f \<in> set (fs @ [(off, body)]). fragment_of m f"
    and "(\<Union>f \<in> set fs. fragment_range f) \<noteq> {..<length m}"
    and "(\<Union>f \<in> set (fs @ [(off, body)]). fragment_range f) = {..<length m}"
  shows "push_all r sq (length m) (fs @ [(off, body)])
     = (replicate (length fs) (Ok None) @ [Ok (Some m)], reassembly_default)"
proof -
  have "holds_part m sq {} r" using assms(3,4) by (auto simp: holds_part_def)
  moreover have "(\<Union>f \<in> set fs. fragment_range f) \<subseteq> {..<length m}" using assms(7) by auto
  ultimately have 1: "fst (push_all r sq (length m) fs) = replicate (length fs) (Ok None)"
    "holds_part m sq (\<Union>f \<in> set fs. fragment_range f) (snd (push_all r sq (length m) fs))"
    using push_all_incomplete [OF assms(1,2), of fs sq "{}" r] assms(5,6) by auto
  have "(\<Union>f \<in> set fs. fragment_range f) \<union> fragment_range (off, body) = {..<length m}"
    using assms(7) by auto
  then have "reassembly_push (snd (push_all r sq (length m) fs)) sq (length m) off body
      = (Ok (Some m), reassembly_default)"
    using push_refines [OF assms(1,2) _ 1(2), of off body] assms(5) by auto
  then show ?thesis using 1(1) by (simp add: push_all_append split_beta Let_def)
qed

theorem handshake_reassembly_any_order_witness:
  "push_all reassembly_default 7 4 ([(2, [3, 4]), (1, [2, 3])] @ [(0, [1, 2])])
     = ([Ok None, Ok None, Ok (Some [1, 2, 3, 4])], reassembly_default)"
proof -
  let ?m = "[1, 2, 3, 4] :: bytes" and ?fs = "[(2, [3, 4]), (1, [2, 3])] :: (u32 \<times> bytes) list"
  have part: "(\<Union>f \<in> set ?fs. fragment_range f) = {1..<4}" by (auto simp: fragment_range_def)
  have all: "(\<Union>f \<in> set (?fs @ [(0, [1, 2])]). fragment_range f) = {..<length ?m}"
    by (auto simp: fragment_range_def)
  have frs: "\<forall>f \<in> set (?fs @ [(0, [1, 2])]). fragment_of ?m f" by (simp add: fragment_of_def)
  have "{1..<4} \<noteq> {..<length ?m}"
  proof
    assume "{1..<4} = {..<length ?m}"
    then have "0 \<in> {1..<4 :: nat}" by auto
    then show False by simp
  qed
  with part have "(\<Union>f \<in> set ?fs. fragment_range f) \<noteq> {..<length ?m}" by simp
  then have "push_all reassembly_default 7 (length ?m) (?fs @ [(0, [1, 2])])
      = (replicate (length ?fs) (Ok None) @ [Ok (Some ?m)], reassembly_default)"
    by (intro handshake_reassembly_any_order frs all)
      (simp_all add: MAX_HANDSHAKE_MESSAGE_LEN_def reassembly_default_def reassembly_ok_def)
  moreover have "length ?m = 4" "replicate (length ?fs) (Ok None) @ [Ok (Some ?m)] = [Ok None, Ok None, Ok (Some ?m)]"
    by simp_all
  ultimately show ?thesis by metis
qed

text \<open>
  C31: Whatever fragments a peer sends, the reassembly buffer stays consistent: its two vectors have
  the declared length, which never exceeds 64 KiB, the counter is the number of covered bytes, a
  complete buffer is never kept, and the indexing of the copy loop never panics. A rejected fragment
  leaves the buffer as it was.
\<close>

theorem handshake_reassembly_invariant:
  assumes "reassembly_ok r"
  shows "reassembly_ok (snd (reassembly_push r sq n off body))
     \<and> fst (reassembly_push r sq n off body) \<noteq> Panicked
     \<and> length (ra_buf (snd (reassembly_push r sq n off body))) \<le> MAX_HANDSHAKE_MESSAGE_LEN
     \<and> ((\<exists>e. fst (reassembly_push r sq n off body) = Fail e) \<longrightarrow> snd (reassembly_push r sq n off body) = r)"
proof -
  note p = push_preserves_ok [OF assms, of sq n off body]
  moreover have "length (ra_buf (snd (reassembly_push r sq n off body))) \<le> MAX_HANDSHAKE_MESSAGE_LEN"
    using p by (simp add: reassembly_ok_def)
  moreover have "snd (reassembly_push r sq n off body) = r" if "fst (reassembly_push r sq n off body) = Fail e" for e
    using that push_accepts [OF assms, of n off body sq] push_rejects [of n off body r sq]
    by (cases "0 < n \<and> n \<le> MAX_HANDSHAKE_MESSAGE_LEN \<and> unat off + length body \<le> n
        \<and> (ra_buf r = [] \<or> ra_seq r \<noteq> sq \<or> ra_total r = n)") (auto simp: Let_def split: if_splits)
  ultimately show ?thesis by blast
qed

theorem handshake_reassembly_invariant_witness:
  "reassembly_ok (snd (reassembly_push reassembly_default 1 8 2 [9]))
   \<and> fst (reassembly_push reassembly_default 1 8 2 [9]) \<noteq> Panicked"
  using handshake_reassembly_invariant [of reassembly_default 1 8 2 "[9]"] by simp

end
