(* ===== verification/X509_Min.thy ===== *)
theory X509_Min
  imports Dtls_Record
begin

text \<open>
  The walk over the DER encoding of a certificate that pulls out its EC point
  (\<open>src/transports/dtls/x509_min.rs\<close>), and that it finds the point of every certificate that has the
  shape of X.509 with a P-256 key.
\<close>

definition tlv_len :: "bytes \<Rightarrow> rtc_error fault + (nat \<times> nat)" where
  "tlv_len input =
     rbind (at8 input 1) (\<lambda>first.
       if first AND 0x80 = 0 then Ok (2, unat first)
       else let n = unat (first AND 0x7F)
         in if n = 0 \<or> n > 4 \<or> length input < 2 + n then bail ''DER: unsupported length encoding''
            else rbind (slice input 2 (2 + n)) (\<lambda>bs.
              Ok (2 + n, foldl (\<lambda>l b. l * 256 + unat b) 0 bs)))"

definition tlv :: "bytes \<Rightarrow> rtc_error fault + (u8 \<times> bytes \<times> bytes)" where
  "tlv input =
     (if length input < 2 then bail ''DER: truncated header''
      else rbind (at8 input 0) (\<lambda>tag. rbind (tlv_len input) (\<lambda>(idx, len).
        if length input < idx + len then bail ''DER: contents overrun''
        else rbind (slice input idx (idx + len)) (\<lambda>contents.
          rbind (slice input (idx + len) (length input)) (\<lambda>rest. Ok (tag, contents, rest))))))"

definition show_tag :: "u8 \<Rightarrow> string" where
  "show_tag t = ''0x'' @ hex_fixed (CHR ''a'') 2 (unat t)"

definition der_expect :: "bytes \<Rightarrow> u8 \<Rightarrow> string \<Rightarrow> rtc_error fault + (bytes \<times> bytes)" where
  "der_expect input tag what =
     rbind (tlv input) (\<lambda>(t, contents, rest).
       if t \<noteq> tag
       then bail (''DER: expected tag '' @ show_tag tag @ '' for '' @ what @ '', got '' @ show_tag t)
       else Ok (contents, rest))"

definition OID_EC_PUBLIC_KEY :: bytes where
  "OID_EC_PUBLIC_KEY = [0x2a, 0x86, 0x48, 0xce, 0x3d, 0x02, 0x01]"

definition OID_PRIME256V1 :: bytes where
  "OID_PRIME256V1 = [0x2a, 0x86, 0x48, 0xce, 0x3d, 0x03, 0x01, 0x07]"

definition extract_p256_point :: "bytes \<Rightarrow> rtc_error fault + bytes" where
  "extract_p256_point certificate_der =
     rbind (der_expect certificate_der 0x30 ''Certificate'') (\<lambda>(cert, _).
     rbind (der_expect cert 0x30 ''tbsCertificate'') (\<lambda>(tbs, _).
     rbind (if tbs \<noteq> [] \<and> hd tbs = 0xa0
            then rbind (der_expect tbs 0xa0 ''version'') (\<lambda>(_, r). Ok r) else Ok tbs) (\<lambda>rest.
     rbind (der_expect rest 0x02 ''serialNumber'') (\<lambda>(_, rest).
     rbind (der_expect rest 0x30 ''signature AlgorithmIdentifier'') (\<lambda>(_, rest).
     rbind (der_expect rest 0x30 ''issuer'') (\<lambda>(_, rest).
     rbind (der_expect rest 0x30 ''validity'') (\<lambda>(_, rest).
     rbind (der_expect rest 0x30 ''subject'') (\<lambda>(_, rest).
     rbind (der_expect rest 0x30 ''subjectPublicKeyInfo'') (\<lambda>(spki, _).
     rbind (der_expect spki 0x30 ''algorithm'') (\<lambda>(alg, spki_rest).
     rbind (der_expect alg 0x06 ''ecPublicKey OID'') (\<lambda>(ec_oid, alg_rest).
     if ec_oid \<noteq> OID_EC_PUBLIC_KEY then bail ''certificate public key is not id-ecPublicKey''
     else rbind (der_expect alg_rest 0x06 ''named curve OID'') (\<lambda>(curve_oid, _).
     if curve_oid \<noteq> OID_PRIME256V1 then bail ''certificate curve is not prime256v1''
     else rbind (der_expect spki_rest 0x03 ''subjectPublicKey'') (\<lambda>(bits, _).
     if bits = [] \<or> hd bits \<noteq> 0 then bail ''subjectPublicKey has unexpected unused bits''
     else slice bits 1 (length bits))))))))))))))"

section \<open>The encoding the walk accepts\<close>

text \<open>The definite-length encoding of DER for contents below 64 KiB, and the certificates it makes.\<close>

definition der_len :: "nat \<Rightarrow> bytes" where
  "der_len n =
     (if n < 128 then [of_nat n]
      else if n < 256 then [0x81, of_nat n]
      else [0x82, of_nat (n div 256), of_nat (n mod 256)])"

definition der :: "u8 \<Rightarrow> bytes \<Rightarrow> bytes" where
  "der tag contents = tag # der_len (length contents) @ contents"

lemma and_0x80_small: "n < 128 \<Longrightarrow> (of_nat n :: u8) AND 0x80 = 0"
proof -
  assume n: "n < 128"
  then have "take_bit 7 (of_nat n :: u8) = of_nat n" by (intro take_bit_small) simp
  then have "\<not> bit (of_nat n :: u8) 7" by (metis bit_take_bit_iff less_irrefl)
  then show ?thesis using and_single_bit [of "of_nat n" 7] by simp
qed

lemma tlv_len_der:
  assumes "n < 65536"
  shows "tlv_len (tag # der_len n @ rest) = Ok (Suc (length (der_len n)), n)"
proof -
  have c: "(0x81 :: u8) AND 0x80 \<noteq> 0" "unat ((0x81 :: u8) AND 0x7F) = 1"
    "(0x82 :: u8) AND 0x80 \<noteq> 0" "unat ((0x82 :: u8) AND 0x7F) = 2" by simp_all
  have at: "at8 (tag # b # xs) (Suc 0) = (Ok b :: rtc_error fault + u8)" for b xs by (simp add: at8_def)
  consider "n < 128" | "128 \<le> n" "n < 256" | "256 \<le> n" by linarith
  then show ?thesis
  proof cases
    case 1
    then show ?thesis by (simp add: tlv_len_def der_len_def at and_0x80_small)
  next
    case 2
    then show ?thesis by (simp add: tlv_len_def der_len_def at c Let_def slice_def)
  next
    case 3
    then show ?thesis using assms
      by (simp add: tlv_len_def der_len_def at c Let_def slice_def numeral_2_eq_2 [symmetric])
  qed
qed

lemma tlv_der:
  assumes "length c < 65536"
  shows "tlv (der tag c @ rest) = Ok (tag, c, rest)"
proof -
  have l: "der_len (length c) \<noteq> []" by (simp add: der_len_def)
  have e: "der tag c @ rest = (tag # der_len (length c)) @ c @ rest" by (simp add: der_def)
  have s: "slice ((tag # der_len (length c)) @ c @ rest) (Suc (length (der_len (length c))))
        (Suc (length (der_len (length c))) + length c) = (Ok c :: rtc_error fault + bytes)"
      "slice ((tag # der_len (length c)) @ c @ rest) (Suc (length (der_len (length c))) + length c)
        (length ((tag # der_len (length c)) @ c @ rest)) = (Ok rest :: rtc_error fault + bytes)"
    by (subst slice_append; simp add: slice_def)+
  have h: "tlv_len ((tag # der_len (length c)) @ c @ rest) = Ok (Suc (length (der_len (length c))), length c)"
    using tlv_len_der [OF assms, of tag "c @ rest"] by simp
  show ?thesis
    unfolding e tlv_def h rbind.simps prod.case s using l by (cases "der_len (length c)") (simp_all add: at8_def)
qed

lemma der_expect_der: "length c < 65536 \<Longrightarrow> der_expect (der tag c @ rest) tag what = Ok (c, rest)"
    "length c < 65536 \<Longrightarrow> der_expect (der tag c) tag what = Ok (c, [])"
  using tlv_der [of c tag rest] tlv_der [of c tag "[]"] by (simp_all add: der_expect_def)

lemma tlv_no_panic [simp]: "tlv input \<noteq> Panicked"
proof -
  have "tlv_len input \<noteq> Panicked" if "2 \<le> length input"
    using that by (auto simp: tlv_len_def rbind_Inl_iff Let_def)
  then show ?thesis by (auto simp: tlv_def rbind_Inl_iff)
qed

lemma der_expect_no_panic [simp]: "der_expect input tag what \<noteq> Panicked"
  by (auto simp: der_expect_def rbind_Inl_iff)

lemma extract_p256_point_no_panic: "extract_p256_point c \<noteq> Panicked"
  by (auto simp: extract_p256_point_def rbind_Inl_iff Suc_le_eq)

record x509_fields =
  x_version :: "bytes option"
  x_serial :: bytes
  x_sigalg :: bytes
  x_issuer :: bytes
  x_validity :: bytes
  x_subject :: bytes
  x_point :: bytes
  x_extensions :: bytes
  x_signature :: bytes

definition x509_spki :: "bytes \<Rightarrow> bytes" where
  "x509_spki point = der 0x30 (der 0x06 OID_EC_PUBLIC_KEY @ der 0x06 OID_PRIME256V1) @ der 0x03 (0 # point)"

definition x509_tbs :: "x509_fields \<Rightarrow> bytes" where
  "x509_tbs x = (case x_version x of None \<Rightarrow> [] | Some v \<Rightarrow> der 0xa0 v) @ der 0x02 (x_serial x)
     @ der 0x30 (x_sigalg x) @ der 0x30 (x_issuer x) @ der 0x30 (x_validity x) @ der 0x30 (x_subject x)
     @ der 0x30 (x509_spki (x_point x)) @ x_extensions x"

definition x509_der :: "x509_fields \<Rightarrow> bytes" where
  "x509_der x = der 0x30 (der 0x30 (x509_tbs x) @ x_signature x)"

lemma length_der: "length (der t c) = Suc (length (der_len (length c)) + length c)"
  by (simp add: der_def)

lemma length_der_gt: "length c < length (der t c)"
  by (simp add: length_der)

lemma x509_fields_small:
  assumes "length (x509_der x) < 65536"
  shows "length (der 0x30 (x509_tbs x) @ x_signature x) < 65536" "length (x509_tbs x) < 65536"
    "length (x_serial x) < 65536" "length (x_sigalg x) < 65536" "length (x_issuer x) < 65536"
    "length (x_validity x) < 65536" "length (x_subject x) < 65536" "length (x509_spki (x_point x)) < 65536"
    "\<And>v. x_version x = Some v \<Longrightarrow> length v < 65536" "length (0 # x_point x) < 65536"
proof -
  show 1: "length (der 0x30 (x509_tbs x) @ x_signature x) < 65536"
    using assms length_der_gt by (simp add: x509_der_def length_der)
  then show 2: "length (x509_tbs x) < 65536" by (simp add: length_der)
  then show "length (x_serial x) < 65536" "length (x_sigalg x) < 65536" "length (x_issuer x) < 65536"
    "length (x_validity x) < 65536" "length (x_subject x) < 65536"
    "\<And>v. x_version x = Some v \<Longrightarrow> length v < 65536"
    and 3: "length (x509_spki (x_point x)) < 65536"
    by (simp_all add: x509_tbs_def length_der)
  from 3 show "length (0 # x_point x) < 65536" by (simp add: x509_spki_def length_der)
qed

lemma extract_p256_point_x509:
  assumes "length (x509_der x) < 65536"
  shows "extract_p256_point (x509_der x) = Ok (x_point x)"
proof -
  note small = x509_fields_small [OF assms]
  have oid: "length (der 6 OID_EC_PUBLIC_KEY @ der 6 OID_PRIME256V1) < 65536"
    "length OID_EC_PUBLIC_KEY < 65536" "length OID_PRIME256V1 < 65536"
    by (simp_all add: length_der der_len_def OID_EC_PUBLIC_KEY_def OID_PRIME256V1_def)
  have hd_der: "hd (der t c) = t" "der t c \<noteq> []" "hd (der t c @ r) = t" for t c r
    by (simp_all add: der_def)
  have tbs: "rbind (if x509_tbs x \<noteq> [] \<and> hd (x509_tbs x) = 0xa0
            then rbind (der_expect (x509_tbs x) 0xa0 ''version'') (\<lambda>(_, r). Ok r) else Ok (x509_tbs x)) k
     = k (der 0x02 (x_serial x) @ der 0x30 (x_sigalg x) @ der 0x30 (x_issuer x) @ der 0x30 (x_validity x)
       @ der 0x30 (x_subject x) @ der 0x30 (x509_spki (x_point x)) @ x_extensions x)" for k :: "_ \<Rightarrow> rtc_error fault + bytes"
    using small(9) by (cases "x_version x") (simp_all add: x509_tbs_def hd_der der_expect_der)
  show ?thesis
    unfolding extract_p256_point_def x509_der_def
    using small oid
    by (simp add: der_expect_der tbs x509_spki_def slice_def del: length_append)
qed



end
