(* ===== verification/Dtls_Crypto.thy ===== *)
theory Dtls_Crypto
  imports Dtls_Handshake X509_Min
begin

text \<open>
  Key derivation and record protection of DTLS (\<open>src/transports/dtls/mod.rs\<close>, from \<open>prf_sha256\<close> to
  \<open>negotiate_cipher_suite\<close>, with the fingerprint and the signature check of ServerKeyExchange). The
  primitives come from other crates and from the crypto backend behind \<open>src/platform/crypto.rs\<close>; they are
  the fields of \<open>dtls_crypto\<close>. A digest or tag of fixed size is a function from the index to the byte, so
  that its length is part of its type, as it is in the code.
\<close>

record dtls_crypto =
  sha256 :: "bytes \<Rightarrow> nat \<Rightarrow> u8"
  hmac_new :: "bytes \<Rightarrow> (bytes \<Rightarrow> nat \<Rightarrow> u8) option"
  gcm_key_ok :: "bytes \<Rightarrow> bool"
  gcm_seal :: "bytes \<Rightarrow> bytes \<Rightarrow> bytes \<Rightarrow> bytes \<Rightarrow> (bytes \<times> (nat \<Rightarrow> u8)) option"
  gcm_open :: "bytes \<Rightarrow> bytes \<Rightarrow> bytes \<Rightarrow> bytes \<Rightarrow> bytes \<Rightarrow> bytes option"
  gcm_decrypt :: "bytes \<Rightarrow> bytes \<Rightarrow> bytes \<Rightarrow> bytes \<Rightarrow> bytes option"
  verifying_key_from_point :: "bytes \<Rightarrow> rtc_error fault + (bytes \<Rightarrow> bytes \<Rightarrow> rtc_error fault + unit)"
  signing_key_from_pkcs8 :: "bytes \<Rightarrow> rtc_error fault + (bytes \<Rightarrow> rtc_error fault + bytes)"

text \<open>
  The fields: SHA-256; HMAC-SHA-256 keyed with a secret (\<open>new_from_slice\<close> may reject the key); whether
  \<open>Aes128Gcm::new_from_slice\<close> takes a key; \<open>encrypt_in_place_detached\<close>, \<open>decrypt_in_place_detached\<close> and
  \<open>decrypt\<close> of AES-128-GCM by key, nonce, additional data, text (and tag), \<open>decrypt\<close> with the tag behind
  the ciphertext; and the two key constructors of \<open>DtlsCrypto\<close>, a key being what it verifies or signs.
\<close>

definition digest32 :: "(nat \<Rightarrow> u8) \<Rightarrow> bytes" where
  "digest32 d = map d [0..<32]"

definition tag16 :: "(nat \<Rightarrow> u8) \<Rightarrow> bytes" where
  "tag16 t = map t [0..<16]"

lemma length_digests [simp]: "length (digest32 d) = 32" "length (tag16 t) = 16"
  by (simp_all add: digest32_def tag16_def)

definition ascii :: "string \<Rightarrow> bytes" where
  "ascii s = map (\<lambda>c. of_nat (of_char c)) s"

section \<open>Fingerprints and the ServerKeyExchange signature\<close>

definition fingerprint_from_der :: "dtls_crypto \<Rightarrow> bytes \<Rightarrow> string" where
  "fingerprint_from_der C cert =
     join '':'' (map (\<lambda>b. hex_fixed (CHR ''A'') 2 (unat b)) (digest32 (sha256 C cert)))"

definition certificate_public_key ::
    "dtls_crypto \<Rightarrow> bytes \<Rightarrow> rtc_error fault + (bytes \<Rightarrow> bytes \<Rightarrow> rtc_error fault + unit)" where
  "certificate_public_key C cert = rbind (extract_p256_point cert) (verifying_key_from_point C)"

definition signed_params :: "bytes \<Rightarrow> bytes \<Rightarrow> server_key_exchange \<Rightarrow> bytes" where
  "signed_params client_random server_random ske =
     client_random @ server_random @ curve_type ske # u16_be (named_curve ske)
       @ of_nat (length (ske_public_key ske)) # ske_public_key ske"

fun show_error :: "rtc_error \<Rightarrow> string" where
  "show_error (InvalidConfiguration m) = ''invalid configuration: '' @ m"
| "show_error (InvalidState m) = ''invalid state: '' @ m"
| "show_error (NotImplemented m) = ''not implemented: '' @ m"
| "show_error (Protocol m) = ''protocol error: '' @ m"
| "show_error (Transport m) = ''transport error: '' @ m"
| "show_error (Internal m) = ''internal error: '' @ m"
| "show_error (Timeout m) = ''operation timed out: '' @ m"
| "show_error AddrInUse = ''address already in use''"

definition verify_server_key_exchange_signature ::
    "dtls_crypto \<Rightarrow> bytes \<Rightarrow> bytes \<Rightarrow> bytes \<Rightarrow> server_key_exchange \<Rightarrow> rtc_error fault + unit" where
  "verify_server_key_exchange_signature C cert client_random server_random ske =
     (if length (ske_public_key ske) > 255
      then bail (''ServerKeyExchange public key too long: '' @ show_nat (length (ske_public_key ske)) @ '' bytes'')
      else rbind (certificate_public_key C cert) (\<lambda>verify.
        case verify (signed_params client_random server_random ske) (ske_signature ske) of
          Inl (Err e) \<Rightarrow> bail (''ServerKeyExchange signature verification failed: '' @ show_error e)
        | r \<Rightarrow> r))"

section \<open>Key derivation\<close>

function prf_loop :: "(bytes \<Rightarrow> nat \<Rightarrow> u8) \<Rightarrow> bytes \<Rightarrow> nat \<Rightarrow> bytes \<Rightarrow> bytes \<Rightarrow> bytes" where
  "prf_loop mac seed outlen a output =
     (if length output < outlen
      then let a = digest32 (mac a); block = digest32 (mac (a @ seed));
               n = min (length block) (outlen - length output)
           in prf_loop mac seed outlen a (output @ take n block)
      else output)"
  by pat_completeness auto
termination
  by (relation "measure (\<lambda>(mac, seed, outlen, a, output). outlen - length output)") auto

declare prf_loop.simps [simp del]

definition prf_sha256 :: "dtls_crypto \<Rightarrow> bytes \<Rightarrow> bytes \<Rightarrow> bytes \<Rightarrow> nat \<Rightarrow> rtc_error fault + bytes" where
  "prf_sha256 C secret label seed outlen =
     (case hmac_new C secret of
        None \<Rightarrow> bail ''Invalid key length''
      | Some mac \<Rightarrow> Ok (prf_loop mac (label @ seed) outlen (label @ seed) []))"

record session_keys =
  client_write_key :: bytes
  server_write_key :: bytes
  client_write_iv :: bytes
  server_write_iv :: bytes
  master_secret :: bytes
  keys_client_random :: bytes
  keys_server_random :: bytes

definition expand_keys :: "dtls_crypto \<Rightarrow> bytes \<Rightarrow> bytes \<Rightarrow> bytes \<Rightarrow> rtc_error fault + session_keys" where
  "expand_keys C ms client_random server_random =
     rbind (prf_sha256 C ms (ascii ''key expansion'') (server_random @ client_random) 40) (\<lambda>kb.
     rbind (slice kb 0 16) (\<lambda>ck. rbind (slice kb 16 32) (\<lambda>sk.
     rbind (slice kb 32 36) (\<lambda>ci. rbind (slice kb 36 40) (\<lambda>si.
       Ok \<lparr>client_write_key = ck, server_write_key = sk, client_write_iv = ci, server_write_iv = si,
          master_secret = ms, keys_client_random = client_random, keys_server_random = server_random\<rparr>)))))"

text \<open>A \<open>SessionCrypto\<close> is its keys: the two ciphers are the ones of the write keys.\<close>

definition create_session_crypto :: "dtls_crypto \<Rightarrow> session_keys \<Rightarrow> rtc_error fault + session_keys" where
  "create_session_crypto C keys =
     (if gcm_key_ok C (client_write_key keys) \<and> gcm_key_ok C (server_write_key keys) then Ok keys
      else bail ''Invalid key length'')"

definition calculate_verify_data :: "dtls_crypto \<Rightarrow> bytes \<Rightarrow> string \<Rightarrow> bytes \<Rightarrow> rtc_error fault + bytes" where
  "calculate_verify_data C ms label handshake_messages =
     prf_sha256 C ms (ascii label) (digest32 (sha256 C handshake_messages)) 12"

section \<open>Record protection\<close>

definition make_aad :: "u64 \<Rightarrow> content_type \<Rightarrow> protocol_version \<Rightarrow> nat \<Rightarrow> bytes" where
  "make_aad sq ct ver len = u64_be sq @ content_type_u8 ct # ver_major ver # ver_minor ver # u16_be (of_nat len)"

text \<open>\<open>nonce_bytes[0..4].copy_from_slice(iv)\<close> panics unless the iv has four bytes.\<close>

definition record_nonce :: "bytes \<Rightarrow> bytes \<Rightarrow> 'e fault + bytes" where
  "record_nonce iv explicit = (if length iv = 4 \<and> length explicit = 8 then Ok (iv @ explicit) else Panicked)"

definition decrypt_record_with_cipher ::
    "dtls_crypto \<Rightarrow> content_type \<Rightarrow> protocol_version \<Rightarrow> u64 \<Rightarrow> bytes \<Rightarrow> bytes \<Rightarrow> bytes \<Rightarrow> rtc_error fault + bytes" where
  "decrypt_record_with_cipher C ct ver sq payload cipher iv =
     (if length payload < 8 + 16 then bail ''Record too short''
      else let clen = length payload - 8 - 16
        in rbind (slice payload 0 8) (\<lambda>explicit. rbind (slice payload 8 (8 + clen)) (\<lambda>ctext.
           rbind (slice payload (8 + clen) (length payload)) (\<lambda>tag.
           rbind (record_nonce iv explicit) (\<lambda>nonce.
             case gcm_open C cipher nonce (make_aad sq ct ver clen) ctext tag of
               None \<Rightarrow> bail ''Decryption failed: aead::Error''
             | Some p \<Rightarrow> Ok p)))))"

definition decrypt_record ::
    "dtls_crypto \<Rightarrow> content_type \<Rightarrow> protocol_version \<Rightarrow> u64 \<Rightarrow> bytes \<Rightarrow> bytes \<Rightarrow> bytes \<Rightarrow> rtc_error fault + bytes" where
  "decrypt_record C ct ver sq payload key iv =
     (if length payload < 8 then bail ''Record too short for explicit nonce''
      else rbind (slice payload 0 8) (\<lambda>explicit. rbind (slice payload 8 (length payload)) (\<lambda>ctext.
        if length ctext < 16 then bail ''Ciphertext too short for tag''
        else rbind (record_nonce iv explicit) (\<lambda>nonce.
          if \<not> gcm_key_ok C key then bail ''Invalid key length''
          else case gcm_decrypt C key nonce (make_aad sq ct ver (length ctext - 16)) ctext of
                 None \<Rightarrow> bail ''Decryption failed: aead::Error''
               | Some p \<Rightarrow> Ok p))))"

definition encrypt_record ::
    "dtls_crypto \<Rightarrow> content_type \<Rightarrow> protocol_version \<Rightarrow> u64 \<Rightarrow> bytes \<Rightarrow> bytes \<Rightarrow> bytes \<Rightarrow> rtc_error fault + bytes" where
  "encrypt_record C ct ver sq payload key iv =
     rbind (record_nonce iv (u64_be sq)) (\<lambda>nonce.
       if \<not> gcm_key_ok C key then bail ''Invalid key length''
       else case gcm_seal C key nonce (make_aad sq ct ver (length payload)) payload of
              None \<Rightarrow> bail ''Encryption failed: aead::Error''
            | Some (ctext, tag) \<Rightarrow> Ok (u64_be sq @ ctext @ tag16 tag))"

section \<open>Cipher suite\<close>

definition SUPPORTED_CIPHER_SUITE :: u16 where
  "SUPPORTED_CIPHER_SUITE = 0xC02B"

definition negotiate_cipher_suite :: "u16 list \<Rightarrow> u16 option" where
  "negotiate_cipher_suite offered =
     (if SUPPORTED_CIPHER_SUITE \<in> set offered then Some SUPPORTED_CIPHER_SUITE else None)"

definition get_client_hello_extensions :: bytes where
  "get_client_hello_extensions =
     [0x00, 0x17, 0x00, 0x00]
     @ [0x00, 0x0e, 0x00, 0x07, 0x00, 0x04, 0x00, 0x07, 0x00, 0x01, 0x00]
     @ [0x00, 0x0a, 0x00, 0x04, 0x00, 0x02, 0x00, 0x17]
     @ [0x00, 0x0b, 0x00, 0x02, 0x01, 0x00]
     @ [0x00, 0x0d, 0x00, 0x0a, 0x00, 0x08, 0x04, 0x03, 0x04, 0x01, 0x05, 0x03, 0x05, 0x01]"

definition get_client_hello_cipher_suites :: "u16 list" where
  "get_client_hello_cipher_suites = [0xC02B, 0xC02F, 0x009C]"

section \<open>The key derivation is the P_hash of RFC 5246\<close>

fun p_hash_A :: "(bytes \<Rightarrow> nat \<Rightarrow> u8) \<Rightarrow> bytes \<Rightarrow> nat \<Rightarrow> bytes" where
  "p_hash_A mac seed 0 = seed"
| "p_hash_A mac seed (Suc i) = digest32 (mac (p_hash_A mac seed i))"

definition p_hash :: "(bytes \<Rightarrow> nat \<Rightarrow> u8) \<Rightarrow> bytes \<Rightarrow> nat \<Rightarrow> bytes" where
  "p_hash mac seed k = concat (map (\<lambda>i. digest32 (mac (p_hash_A mac seed (Suc i) @ seed))) [0..<k])"

lemma length_p_hash [simp]: "length (p_hash mac seed k) = 32 * k"
  by (induction k) (simp_all add: p_hash_def)

lemma p_hash_Suc:
  "p_hash mac seed (Suc k) = p_hash mac seed k @ digest32 (mac (p_hash_A mac seed (Suc k) @ seed))"
  by (simp add: p_hash_def)

lemma prf_loop_p_hash:
  assumes "n \<le> 32 * (i + k)"
  shows "prf_loop mac seed n (p_hash_A mac seed i) (take n (p_hash mac seed i)) = take n (p_hash mac seed (i + k))"
  using assms
proof (induction k arbitrary: i)
  case (Suc k)
  show ?case
  proof (cases "32 * i < n")
    case True
    let ?d = "digest32 (mac (p_hash_A mac seed (Suc i) @ seed))"
    have "prf_loop mac seed n (p_hash_A mac seed i) (take n (p_hash mac seed i))
        = prf_loop mac seed n (p_hash_A mac seed (Suc i)) (p_hash mac seed i @ take (min 32 (n - 32 * i)) ?d)"
      using True by (subst prf_loop.simps) (simp add: Let_def)
    also have "p_hash mac seed i @ take (min 32 (n - 32 * i)) ?d = take n (p_hash mac seed (Suc i))"
      using True by (simp add: p_hash_Suc min_def take_all_iff del: p_hash_A.simps)
    also have "prf_loop mac seed n (p_hash_A mac seed (Suc i)) (take n (p_hash mac seed (Suc i)))
        = take n (p_hash mac seed (Suc i + k))"
      using Suc.prems by (intro Suc.IH) simp
    finally show ?thesis by simp
  next
    case False
    have "take n (p_hash mac seed (i + k')) = take n (p_hash mac seed i)" for k'
      using False by (induction k') (simp_all add: p_hash_Suc)
    with False show ?thesis by (subst prf_loop.simps) (metis (no_types, lifting) length_p_hash length_take min_absorb2 not_less order_refl)
  qed
qed (subst prf_loop.simps, simp)

lemma prf_sha256_Some:
  assumes "hmac_new C secret = Some mac"
  shows "prf_sha256 C secret label seed n = Ok (take n (p_hash mac (label @ seed) (n div 32 + 1)))"
proof -
  have "n \<le> 32 * (0 + (n div 32 + 1))" by simp
  from prf_loop_p_hash [OF this, of mac "label @ seed"] show ?thesis
    using assms by (simp add: prf_sha256_def p_hash_def)
qed

lemma prf_length: "prf_sha256 C secret label seed n = Ok v \<Longrightarrow> length v = n"
proof (cases "hmac_new C secret")
  case (Some mac)
  assume "prf_sha256 C secret label seed n = Ok v"
  moreover have "n \<le> 32 * (n div 32 + 1)" by simp
  ultimately show ?thesis by (auto simp: prf_sha256_Some [OF Some])
qed (simp add: prf_sha256_def)

lemma prf_no_panic [simp]: "prf_sha256 C secret label seed n \<noteq> Panicked"
  by (cases "hmac_new C secret") (simp_all add: prf_sha256_def)

lemma expand_keys_ok:
  assumes "expand_keys C ms cr sr = Ok keys"
  shows "length (client_write_key keys) = 16" "length (server_write_key keys) = 16"
    "length (client_write_iv keys) = 4" "length (server_write_iv keys) = 4"
    "master_secret keys = ms" "keys_client_random keys = cr" "keys_server_random keys = sr"
  using assms unfolding expand_keys_def by (auto simp: rbind_Inr_iff dest!: slice_length)

lemma expand_keys_no_panic [simp]: "expand_keys C ms cr sr \<noteq> Panicked"
  using prf_length [of C ms] by (auto simp: expand_keys_def rbind_Inl_iff)

lemma verify_data_length: "calculate_verify_data C ms label t = Ok v \<Longrightarrow> length v = 12"
  by (simp add: calculate_verify_data_def prf_length)

lemma verify_data_no_panic [simp]: "calculate_verify_data C ms label t \<noteq> Panicked"
  by (simp add: calculate_verify_data_def)

text \<open>
  C19: The key derivation loop terminates for every requested length and computes P_SHA256 of RFC 5246,
  section 5: with A(0) the label and seed and A(i) the MAC of A(i-1), the output is the prefix, of
  exactly the requested length, of the concatenation of the MACs of A(i) followed by label and seed.
\<close>

theorem prf_sha256_is_p_hash:
  "prf_sha256 C secret label seed n =
     (case hmac_new C secret of
        None \<Rightarrow> Fail (Internal ''Invalid key length'')
      | Some mac \<Rightarrow> Ok (take n (p_hash mac (label @ seed) (n div 32 + 1))))
   \<and> n \<le> length (p_hash mac (label @ seed) (n div 32 + 1))"
proof -
  have "n \<le> 32 * (n div 32 + 1)" by simp
  then show ?thesis
    by (cases "hmac_new C secret") (simp_all add: prf_sha256_Some, simp add: prf_sha256_def bail_def)
qed

section \<open>Record protection\<close>

text \<open>What AES-GCM promises: opening inverts sealing, text and ciphertext have the same length, and the
  attached form of decryption is the detached one with the tag behind the ciphertext.\<close>

definition gcm_correct :: "dtls_crypto \<Rightarrow> bool" where
  "gcm_correct C \<longleftrightarrow>
     (\<forall>k n a p c t. gcm_seal C k n a p = Some (c, t) \<longrightarrow> length c = length p \<and> gcm_open C k n a c (tag16 t) = Some p)
     \<and> (\<forall>k n a c t. length t = 16 \<longrightarrow> gcm_decrypt C k n a (c @ t) = gcm_open C k n a c t)"

lemma record_nonce_Inr [simp]: "length iv = 4 \<Longrightarrow> record_nonce iv (u64_be sq) = Ok (iv @ u64_be sq)"
  by (simp add: record_nonce_def)

lemma encrypt_record_ok:
  assumes "gcm_correct C" and "length iv = 4" and "encrypt_record C ct ver sq p key iv = Ok e"
  obtains c t where "gcm_seal C key (iv @ u64_be sq) (make_aad sq ct ver (length p)) p = Some (c, t)"
    and "e = u64_be sq @ c @ tag16 t" and "length c = length p" and "gcm_key_ok C key"
    and "gcm_open C key (iv @ u64_be sq) (make_aad sq ct ver (length p)) c (tag16 t) = Some p"
  using assms unfolding encrypt_record_def gcm_correct_def
  by (fastforce simp: bail_def split: if_splits option.splits)

lemma decrypt_record_with_cipher_parts:
  assumes "length iv = 4" and "length ex = 8" and "length t = 16"
  shows "decrypt_record_with_cipher C ct ver sq (ex @ c @ t) key iv =
    (case gcm_open C key (iv @ ex) (make_aad sq ct ver (length c)) c t of
       None \<Rightarrow> bail ''Decryption failed: aead::Error'' | Some p \<Rightarrow> Ok p)"
proof -
  have s: "slice (ex @ c @ t) 0 8 = (Ok ex :: rtc_error fault + bytes)"
    "slice (ex @ c @ t) 8 (length c + 8) = (Ok c :: rtc_error fault + bytes)"
    "slice (ex @ c @ t) (length c + 8) (length c + 24) = (Ok t :: rtc_error fault + bytes)"
    using assms by (simp_all add: slice_def)
  show ?thesis
    using assms by (simp add: decrypt_record_with_cipher_def Let_def s record_nonce_def add.commute)
qed

lemma decrypt_record_parts:
  assumes "length iv = 4" and "length ex = 8" and "length t = 16" and "gcm_key_ok C key"
  shows "decrypt_record C ct ver sq (ex @ c @ t) key iv =
    (case gcm_decrypt C key (iv @ ex) (make_aad sq ct ver (length c)) (c @ t) of
       None \<Rightarrow> bail ''Decryption failed: aead::Error'' | Some p \<Rightarrow> Ok p)"
proof -
  have s: "slice (ex @ c @ t) 0 8 = (Ok ex :: rtc_error fault + bytes)"
    "slice (ex @ c @ t) 8 (length ex + (length c + length t)) = (Ok (c @ t) :: rtc_error fault + bytes)"
    using assms by (simp_all add: slice_def)
  show ?thesis
    using assms s by (simp add: decrypt_record_def record_nonce_def)
qed

lemma decrypt_encrypt:
  assumes "gcm_correct C" and "length iv = 4" and "encrypt_record C ct ver sq p key iv = Ok e"
  shows "decrypt_record_with_cipher C ct ver sq e key iv = Ok p" "decrypt_record C ct ver sq e key iv = Ok p"
    "length e = length p + 24"
proof -
  obtain c t where e: "e = u64_be sq @ c @ tag16 t" "length c = length p" and k: "gcm_key_ok C key"
    and op: "gcm_open C key (iv @ u64_be sq) (make_aad sq ct ver (length p)) c (tag16 t) = Some p"
    using encrypt_record_ok [OF assms] by metis
  have dec: "gcm_decrypt C key (iv @ u64_be sq) (make_aad sq ct ver (length p)) (c @ tag16 t) = Some p"
    using op assms(1) by (simp add: gcm_correct_def)
  show "decrypt_record_with_cipher C ct ver sq e key iv = Ok p" "decrypt_record C ct ver sq e key iv = Ok p"
    "length e = length p + 24"
    using op dec e k assms(2) by (simp_all add: decrypt_record_with_cipher_parts decrypt_record_parts)
qed

lemma decrypt_no_panic:
  assumes "length iv = 4"
  shows "decrypt_record_with_cipher C ct ver sq p key iv \<noteq> Panicked" "decrypt_record C ct ver sq p key iv \<noteq> Panicked"
  using assms
  by (auto simp: decrypt_record_with_cipher_def decrypt_record_def rbind_Inl_iff Let_def record_nonce_def
      dest!: slice_length split: option.splits if_splits)

lemma encrypt_no_panic: "length iv = 4 \<Longrightarrow> encrypt_record C ct ver sq p key iv \<noteq> Panicked"
  by (auto simp: encrypt_record_def split: option.splits)

text \<open>
  C18: The two ways the transport opens a protected record agree. For a valid key and a four-byte iv,
  \<open>decrypt_record\<close>, used with raw keys, and \<open>decrypt_record_with_cipher\<close>, used once the ciphers are set
  up, accept exactly the same payloads and return the same plaintext.
\<close>

theorem decrypt_record_equivalence:
  assumes "gcm_correct C" and "gcm_key_ok C key" and "length iv = 4"
  shows "decrypt_record C ct ver sq payload key iv = Ok p
     \<longleftrightarrow> decrypt_record_with_cipher C ct ver sq payload key iv = Ok p"
proof (cases "24 \<le> length payload")
  case True
  define ex c t where "ex = take 8 payload" and "c = take (length payload - 24) (drop 8 payload)"
    and "t = drop (length payload - 16) payload"
  have l: "length ex = 8" "length t = 16" using True by (simp_all add: ex_def t_def)
  have "drop (length payload - 24) (drop 8 payload) = t" using True by (simp add: t_def)
  then have pl: "payload = ex @ c @ t" unfolding ex_def c_def by (metis append_take_drop_id)
  show ?thesis
    unfolding pl decrypt_record_parts [OF assms(3) l assms(2)] decrypt_record_with_cipher_parts [OF assms(3) l]
    using assms(1) l by (simp add: gcm_correct_def)
next
  case False
  then have "length payload < 8 \<or> length payload - 8 < 16" by linarith
  with False show ?thesis
    by (auto simp: decrypt_record_def decrypt_record_with_cipher_def rbind_Inr_iff dest!: slice_length)
qed

text \<open>A cipher that satisfies the laws, for the witnesses: the text itself, and a tag that is its sum and
  the one of nonce and additional data.\<close>

definition toy_sum :: "bytes \<Rightarrow> u8" where
  "toy_sum bs = foldr (+) bs 0"

definition toy_tag :: "bytes \<Rightarrow> bytes \<Rightarrow> bytes \<Rightarrow> nat \<Rightarrow> u8" where
  "toy_tag n a p i = toy_sum n + toy_sum a + toy_sum p + of_nat i"

definition toy_open :: "bytes \<Rightarrow> bytes \<Rightarrow> bytes \<Rightarrow> bytes \<Rightarrow> bytes option" where
  "toy_open n a c t = (if t = tag16 (toy_tag n a c) then Some c else None)"

definition toy_crypto :: dtls_crypto where
  "toy_crypto = \<lparr>sha256 = (\<lambda>m i. toy_sum m + of_nat i),
     hmac_new = (\<lambda>key. Some (\<lambda>m i. toy_sum key + toy_sum m + of_nat i)),
     gcm_key_ok = (\<lambda>k. length k = 16),
     gcm_seal = (\<lambda>k n a p. Some (p, toy_tag n a p)),
     gcm_open = (\<lambda>k n a c t. toy_open n a c t),
     gcm_decrypt = (\<lambda>k n a m. toy_open n a (take (length m - 16) m) (drop (length m - 16) m)),
     verifying_key_from_point = (\<lambda>pt. Ok (\<lambda>m s. if s = [toy_sum m] then Ok () else bail ''bad signature'')),
     signing_key_from_pkcs8 = (\<lambda>der. Ok (\<lambda>m. Ok [toy_sum m]))\<rparr>"

lemma toy_crypto_correct [simp]: "gcm_correct toy_crypto"
  by (simp add: gcm_correct_def toy_crypto_def toy_open_def)

theorem decrypt_record_equivalence_witness:
  "gcm_correct toy_crypto \<and> gcm_key_ok toy_crypto (replicate 16 9)
   \<and> (decrypt_record toy_crypto Alert DTLS_1_2 5 (replicate 30 1) (replicate 16 9) [1, 2, 3, 4] = Ok [1]
      \<longleftrightarrow> decrypt_record_with_cipher toy_crypto Alert DTLS_1_2 5 (replicate 30 1) (replicate 16 9) [1, 2, 3, 4] = Ok [1])"
proof -
  have k: "gcm_key_ok toy_crypto (replicate 16 9)" by (simp add: toy_crypto_def)
  show ?thesis
    using decrypt_record_equivalence [OF toy_crypto_correct k, of "[1, 2, 3, 4]"] k by simp
qed

text \<open>
  C32: Record protection round trip. A payload sealed with \<open>encrypt_record\<close> is opened by both decryption
  routines with the same key, iv, sequence number, content type and version, and grows by exactly the
  explicit nonce and the tag. Distinct sequence numbers use distinct nonces.
\<close>

theorem record_protection_roundtrip:
  assumes "gcm_correct C" and "length iv = 4"
  shows "(encrypt_record C ct ver sq p key iv = Ok e
      \<longrightarrow> decrypt_record_with_cipher C ct ver sq e key iv = Ok p \<and> decrypt_record C ct ver sq e key iv = Ok p
        \<and> length e = length p + 24)
    \<and> (record_nonce iv (u64_be sq) = (record_nonce iv (u64_be sq') :: rtc_error fault + bytes) \<longrightarrow> sq = sq')"
  using decrypt_encrypt [OF assms] assms(2) by auto

theorem record_protection_roundtrip_witness:
  "\<exists>e. encrypt_record toy_crypto ApplicationData DTLS_1_2 7 [1, 2, 3] (replicate 16 9) [1, 2, 3, 4] = Ok e
     \<and> decrypt_record_with_cipher toy_crypto ApplicationData DTLS_1_2 7 e (replicate 16 9) [1, 2, 3, 4] = Ok [1, 2, 3]"
proof -
  obtain e where e: "encrypt_record toy_crypto ApplicationData DTLS_1_2 7 [1, 2, 3] (replicate 16 9) [1, 2, 3, 4] = Ok e"
    by (simp add: encrypt_record_def toy_crypto_def)
  with record_protection_roundtrip [OF toy_crypto_correct, of "[1, 2, 3, 4]"] show ?thesis by auto
qed

section \<open>Fingerprints\<close>

lemma unat_lt_hex: "unat (b :: u8) < 16 ^ 2"
  using unat_u8_less [of b] by simp

text \<open>
  C33: Fingerprints are compared as strings, which is as good as comparing the digests: two certificates
  have the same fingerprint string exactly when they have the same SHA-256 digest.
\<close>

theorem fingerprint_eq_iff_digest_eq:
  "fingerprint_from_der C a = fingerprint_from_der C b
     \<longleftrightarrow> digest32 (sha256 C a) = digest32 (sha256 C b)"
proof
  let ?hex = "\<lambda>b :: u8. hex_fixed (CHR ''A'') 2 (unat b)"
  assume eq: "fingerprint_from_der C a = fingerprint_from_der C b"
  have split: "split_on (CHR '':'') (fingerprint_from_der C x) = map ?hex (digest32 (sha256 C x))" for x
    unfolding fingerprint_from_der_def
    by (rule split_on_join) (auto simp: digest32_def hex_fixed_no_colon)
  have "map ?hex (digest32 (sha256 C a)) = map ?hex (digest32 (sha256 C b))"
    using eq by (metis split)
  moreover have "inj ?hex"
    by (rule injI) (simp add: hex_fixed_inj [OF _ unat_lt_hex unat_lt_hex] word_unat_eq_iff del: hex_fixed.simps)
  ultimately show "digest32 (sha256 C a) = digest32 (sha256 C b)" by (simp add: inj_map_eq_map)
qed (simp add: fingerprint_from_der_def)

end
