(* ===== verification/Effect.thy ===== *)
theory Effect
  imports Prelude
begin

text \<open>
  Stateful operations that may fail. The code keeps what it changed before it returns an error, so an
  operation is a function from the state to an outcome and a state: a fault does not undo anything. The
  \<open>?\<close> operator is \<open>ebind\<close>; \<open>rmatch\<close> is the \<open>match\<close> over a \<open>Result\<close> that handles its error, and through which a
  panic passes. The predicate \<open>wp\<close> is the weakest precondition of an operation for a postcondition on
  success and one on a fault; its equations (collection \<open>wp_simps\<close>) turn a statement about a handler
  into one about the states along its branches.
\<close>

type_synonym ('s, 'e, 'a) eff = "'s \<Rightarrow> ('e fault + 'a) \<times> 's"

named_theorems wp_simps "weakest preconditions of the effect operations"

definition ret :: "'a \<Rightarrow> ('s, 'e, 'a) eff" where
  "ret x = (\<lambda>s. (Ok x, s))"

definition elift :: "'e fault + 'a \<Rightarrow> ('s, 'e, 'a) eff" where
  "elift r = (\<lambda>s. (r, s))"

definition efail :: "'e \<Rightarrow> ('s, 'e, 'a) eff" where
  "efail e = (\<lambda>s. (Fail e, s))"

definition ebind :: "('s, 'e, 'a) eff \<Rightarrow> ('a \<Rightarrow> ('s, 'e, 'b) eff) \<Rightarrow> ('s, 'e, 'b) eff" where
  "ebind m k = (\<lambda>s. case m s of (Inl f, s') \<Rightarrow> (Inl f, s') | (Inr x, s') \<Rightarrow> k x s')"

definition ethen :: "('s, 'e, unit) eff \<Rightarrow> ('s, 'e, 'b) eff \<Rightarrow> ('s, 'e, 'b) eff" where
  "ethen m k = ebind m (\<lambda>_. k)"

definition eget :: "('s \<Rightarrow> ('s, 'e, 'a) eff) \<Rightarrow> ('s, 'e, 'a) eff" where
  "eget k = (\<lambda>s. k s s)"

definition emod :: "('s \<Rightarrow> 's) \<Rightarrow> ('s, 'e, unit) eff" where
  "emod f = (\<lambda>s. (Ok (), f s))"

definition estate :: "('s \<Rightarrow> 'a \<times> 's) \<Rightarrow> ('s, 'e, 'a) eff" where
  "estate f = (\<lambda>s. case f s of (x, s') \<Rightarrow> (Ok x, s'))"

definition rmatch :: "'d fault + 'a \<Rightarrow> ('d \<Rightarrow> ('s, 'e, 'b) eff) \<Rightarrow> ('a \<Rightarrow> ('s, 'e, 'b) eff) \<Rightarrow> ('s, 'e, 'b) eff" where
  "rmatch r h k = (case r of Inl (Err e) \<Rightarrow> h e | Inl Panic \<Rightarrow> elift Panicked | Inr x \<Rightarrow> k x)"

text \<open>A \<open>for\<close> loop whose body may return early with \<open>?\<close>.\<close>

fun eiter :: "('a \<Rightarrow> ('s, 'e, unit) eff) \<Rightarrow> 'a list \<Rightarrow> ('s, 'e, unit) eff" where
  "eiter f [] = ret ()"
| "eiter f (x # xs) = ethen (f x) (eiter f xs)"

definition wp :: "('s, 'e, 'a) eff \<Rightarrow> ('a \<Rightarrow> 's \<Rightarrow> bool) \<Rightarrow> ('e fault \<Rightarrow> 's \<Rightarrow> bool) \<Rightarrow> 's \<Rightarrow> bool" where
  "wp m Q E s \<longleftrightarrow> (case m s of (Inl f, s') \<Rightarrow> E f s' | (Inr x, s') \<Rightarrow> Q x s')"

lemma wp_ret [wp_simps]: "wp (ret x) Q E s \<longleftrightarrow> Q x s"
  by (simp add: wp_def ret_def)

lemma wp_elift [wp_simps]: "wp (elift r) Q E s \<longleftrightarrow> (\<forall>f. r = Inl f \<longrightarrow> E f s) \<and> (\<forall>x. r = Inr x \<longrightarrow> Q x s)"
  by (cases r) (simp_all add: wp_def elift_def)

lemma wp_efail [wp_simps]: "wp (efail e) Q E s \<longleftrightarrow> E (Err e) s"
  by (simp add: wp_def efail_def)

lemma wp_ebind [wp_simps]: "wp (ebind m k) Q E s \<longleftrightarrow> wp m (\<lambda>x. wp (k x) Q E) E s"
  by (simp add: wp_def ebind_def split: prod.splits sum.splits)

lemma wp_ethen [wp_simps]: "wp (ethen m k) Q E s \<longleftrightarrow> wp m (\<lambda>_. wp k Q E) E s"
  by (simp add: ethen_def wp_ebind)

lemma wp_eget [wp_simps]: "wp (eget k) Q E s \<longleftrightarrow> wp (k s) Q E s"
  by (simp add: wp_def eget_def)

lemma wp_emod [wp_simps]: "wp (emod f) Q E s \<longleftrightarrow> Q () (f s)"
  by (simp add: wp_def emod_def)

lemma wp_estate [wp_simps]: "wp (estate f) Q E s \<longleftrightarrow> Q (fst (f s)) (snd (f s))"
  by (simp add: wp_def estate_def split: prod.split)

lemma wp_rmatch [wp_simps]:
  "wp (rmatch r h k) Q E s \<longleftrightarrow>
     (\<forall>e. r = Fail e \<longrightarrow> wp (h e) Q E s) \<and> (r = Panicked \<longrightarrow> E Panic s) \<and> (\<forall>x. r = Ok x \<longrightarrow> wp (k x) Q E s)"
proof (cases r)
  case (Inl f)
  then show ?thesis by (cases f) (simp_all add: rmatch_def wp_elift)
qed (simp add: rmatch_def)

lemma wp_if [wp_simps]: "wp (if b then m else n) Q E s \<longleftrightarrow> (b \<longrightarrow> wp m Q E s) \<and> (\<not> b \<longrightarrow> wp n Q E s)"
  by simp

lemma wp_option [wp_simps]:
  "wp (case v of None \<Rightarrow> m | Some x \<Rightarrow> k x) Q E s \<longleftrightarrow> (v = None \<longrightarrow> wp m Q E s) \<and> (\<forall>x. v = Some x \<longrightarrow> wp (k x) Q E s)"
  by (cases v) simp_all

lemma wp_mono:
  "wp m Q E s \<Longrightarrow> (\<And>x s'. Q x s' \<Longrightarrow> Q' x s') \<Longrightarrow> (\<And>f s'. E f s' \<Longrightarrow> E' f s') \<Longrightarrow> wp m Q' E' s"
  by (auto simp: wp_def split: prod.splits sum.splits)

text \<open>An invariant of the body is an invariant of the loop.\<close>

lemma wp_eiter:
  assumes "\<And>x s. x \<in> set xs \<Longrightarrow> I s \<Longrightarrow> wp (f x) (\<lambda>_. I) (\<lambda>_. I) s" and "I s"
  shows "wp (eiter f xs) (\<lambda>_. I) (\<lambda>_. I) s"
  using assms
proof (induction xs arbitrary: s)
  case (Cons x xs)
  have "wp (f x) (\<lambda>_. I) (\<lambda>_. I) s" using Cons.prems by simp
  then have "wp (f x) (\<lambda>_. wp (eiter f xs) (\<lambda>_. I) (\<lambda>_. I)) (\<lambda>_. I) s"
    by (rule wp_mono) (use Cons in auto)
  then show ?case by (simp add: wp_ethen)
qed (simp add: wp_ret)

lemma wp_conj: "wp m Q E s \<Longrightarrow> wp m Q' E' s \<Longrightarrow> wp m (\<lambda>x s. Q x s \<and> Q' x s) (\<lambda>f s. E f s \<and> E' f s) s"
  by (auto simp: wp_def split: prod.splits sum.splits)

lemma wp_I: "(\<And>f s'. m s = (Inl f, s') \<Longrightarrow> E f s') \<Longrightarrow> (\<And>x s'. m s = (Inr x, s') \<Longrightarrow> Q x s') \<Longrightarrow> wp m Q E s"
  by (auto simp: wp_def split: prod.splits sum.splits)

lemma wp_ok: "wp m Q E s \<Longrightarrow> m s = (Inr x, s') \<Longrightarrow> Q x s'"
  by (simp add: wp_def)

lemma wp_fault: "wp m Q E s \<Longrightarrow> m s = (Inl f, s') \<Longrightarrow> E f s'"
  by (simp add: wp_def)

lemma wp_snd: "wp m (\<lambda>_. I) (\<lambda>_. I) s \<longleftrightarrow> I (snd (m s))"
  by (auto simp: wp_def split: prod.splits sum.splits)

text \<open>The operations applied to a state, for runs on concrete states.\<close>

lemma eff_app:
  "eget k s = k s s" "ret x s = (Ok x, s)" "emod f s = (Ok (), f s)" "elift r s = (r, s)"
  "ebind m g s = (case m s of (Inl f, s') \<Rightarrow> (Inl f, s') | (Inr x, s') \<Rightarrow> g x s')"
  "ethen n h s = (case n s of (Inl f, s') \<Rightarrow> (Inl f, s') | (Inr x, s') \<Rightarrow> h s')"
  "efail e s = (Fail e, s)"
  by (simp_all add: eget_def ret_def emod_def elift_def ebind_def ethen_def efail_def split: prod.split sum.split)

section \<open>Relations between the state before and after\<close>

text \<open>
  The interface of the framing arguments: a preorder on states that every primitive update of an
  operation respects is respected by the whole operation, on success and on a fault.
\<close>

locale state_order =
  fixes R :: "'s \<Rightarrow> 's \<Rightarrow> bool"
  assumes order_refl: "R s s" and order_trans: "R s t \<Longrightarrow> R t u \<Longrightarrow> R s u"
begin

definition keeps :: "('s, 'e, 'a) eff \<Rightarrow> bool" where
  "keeps m \<longleftrightarrow> (\<forall>s. R s (snd (m s)))"

lemma keeps_ret [intro, simp]: "keeps (ret x)"
  by (simp add: keeps_def ret_def order_refl)

lemma keeps_elift [intro, simp]: "keeps (elift r)"
  by (simp add: keeps_def elift_def order_refl)

lemma keeps_efail [intro, simp]: "keeps (efail e)"
  by (simp add: keeps_def efail_def order_refl)

lemma keeps_emod: "(\<And>s. R s (f s)) \<Longrightarrow> keeps (emod f)"
  by (simp add: keeps_def emod_def)

lemma keeps_estate: "(\<And>s. R s (snd (f s))) \<Longrightarrow> keeps (estate f)"
  by (simp add: keeps_def estate_def split: prod.split) (metis snd_conv)

lemma keeps_ebind [intro]: "keeps m \<Longrightarrow> (\<And>x. keeps (k x)) \<Longrightarrow> keeps (ebind m k)"
  unfolding keeps_def
proof
  fix s
  assume m: "\<forall>s. R s (snd (m s))" and k: "\<And>x. \<forall>s. R s (snd (k x s))"
  show "R s (snd (ebind m k s))"
    using m [rule_format, of s] k order_trans
    by (cases "m s"; cases "fst (m s)") (auto simp: ebind_def)
qed

lemma keeps_ethen [intro]: "keeps m \<Longrightarrow> keeps k \<Longrightarrow> keeps (ethen m k)"
  by (simp add: ethen_def keeps_ebind)

lemma keeps_eget [intro]: "(\<And>s. keeps (k s)) \<Longrightarrow> keeps (eget k)"
  by (simp add: keeps_def eget_def)

lemma keeps_rmatch [intro]: "(\<And>e. keeps (h e)) \<Longrightarrow> (\<And>x. keeps (k x)) \<Longrightarrow> keeps (rmatch r h k)"
  by (auto simp: rmatch_def split: sum.splits fault.splits)

lemma keeps_option [intro]: "keeps m \<Longrightarrow> (\<And>x. keeps (k x)) \<Longrightarrow> keeps (case v of None \<Rightarrow> m | Some x \<Rightarrow> k x)"
  by (cases v) simp_all

lemma keeps_if [intro]: "keeps m \<Longrightarrow> keeps n \<Longrightarrow> keeps (if b then m else n)"
  by simp

lemma keeps_prod [intro]: "(\<And>x y. keeps (k x y)) \<Longrightarrow> keeps (case p of (x, y) \<Rightarrow> k x y)"
  by (cases p) simp

lemma keeps_Let [intro]: "keeps (k x) \<Longrightarrow> keeps (Let x k)"
  by simp

lemma keeps_eiter: "(\<And>x. x \<in> set xs \<Longrightarrow> keeps (f x)) \<Longrightarrow> keeps (eiter f xs)"
  by (induction xs) auto

lemmas keeps_intros = keeps_ebind keeps_ethen keeps_eget keeps_rmatch keeps_option keeps_if keeps_prod keeps_Let
  keeps_ret keeps_elift keeps_efail keeps_emod keeps_estate keeps_eiter

lemma wp_keeps:
  "keeps m \<Longrightarrow> (\<And>x t. R s t \<Longrightarrow> Q x t) \<Longrightarrow> (\<And>f t. R s t \<Longrightarrow> E f t) \<Longrightarrow> wp m Q E s"
  unfolding keeps_def wp_def by (metis (mono_tags, lifting) snd_conv split_beta sum.case_eq_if)

lemma keepsD: "keeps m \<Longrightarrow> m s = (r, s') \<Longrightarrow> R s s'"
  unfolding keeps_def by (metis snd_conv)

end

end
