(* ===== verification/Dtls_Handlers.thy ===== *)
theory Dtls_Handlers
  imports Dtls_Reassembly Dtls_Crypto Effect Btree_Map
begin

text \<open>
  The handshake of the DTLS transport (\<open>src/transports/dtls/mod.rs\<close>): the state of a connection and the
  handlers of the handshake messages, for both roles. The state \<open>handshake_context\<close> holds the mutable part
  of \<open>DtlsInner\<close> (with the channels it writes to as the lists of what was written) and the fields of
  \<open>HandshakeContext\<close>. What is fixed for a connection is in \<open>dtls_env\<close>: the role, the certificate, the
  crypto backend, the clock, the random generator, which yields its \<open>n\<close>-th draw, and the ICE connection, which
  may refuse the \<open>n\<close>-th datagram it is handed. What was handed to it is recorded. A refused record of a
  handshake or of the close is only logged; a refused record of application data is an error of \<open>send\<close>.
  The counters that the code increments with \<open>+= 1\<close> panic on overflow, as they do in a build with
  overflow checks; \<open>write_seq\<close> is an atomic and wraps.
\<close>

section \<open>State\<close>

datatype dtls_state = StNew | StHandshaking | StConnected session_keys "u16 option" | StFailed | StClosed

record dtls_inner =
  di_state :: dtls_state
  di_published :: dtls_state
  di_write_seq :: u64
  di_write_epoch :: u16
  di_sent :: "bytes list"
  di_incoming :: "bytes list"
  di_draws :: nat

record handshake_context = dtls_inner +
  hc_sequence_number :: u64
  hc_epoch :: u16
  hc_read_epoch :: u16
  hc_message_seq :: u16
  hc_recv_message_seq :: u16
  hc_post_hvr :: bool
  hc_last_flight_records :: "bytes list option"
  hc_final_flight_resends :: u8
  hc_incomplete_fragments :: reassembly
  hc_pending_messages :: "(u16, handshake_message \<times> bytes) btree"
  hc_local_secret :: "(bytes \<Rightarrow> rtc_error fault + bytes) option"
  hc_local_public_key :: bytes
  hc_peer_public_key :: "bytes option"
  hc_peer_certificate :: "bytes option"
  hc_client_random :: "bytes option"
  hc_server_random :: "bytes option"
  hc_session_keys :: "session_keys option"
  hc_session_crypto :: "session_keys option"
  hc_handshake_messages :: bytes
  hc_ems_negotiated :: bool
  hc_srtp_profile :: "u16 option"
  hc_expected_fingerprint :: "string option"
  hc_ske_verified :: bool

record dtls_env =
  env_crypto :: dtls_crypto
  env_is_client :: bool
  env_certificates :: "bytes list"
  env_private_key :: bytes
  env_ecdh :: "rtc_error fault + (bytes \<times> (bytes \<Rightarrow> rtc_error fault + bytes))"
  env_rng :: "nat \<Rightarrow> nat \<Rightarrow> u8"
  env_unix_ms :: "nat \<Rightarrow> u64 option"
  env_conn_send :: "nat \<Rightarrow> rtc_error option"

type_synonym 'a dtls = "(handshake_context, rtc_error, 'a) eff"

definition dtls_err :: "string \<Rightarrow> 'a dtls" where
  "dtls_err msg = efail (Internal msg)"

text \<open>\<open>*self.state.lock() = st; self.state_tx.send(st)\<close>\<close>

definition set_state :: "dtls_state \<Rightarrow> unit dtls" where
  "set_state st = emod (\<lambda>s. s\<lparr>di_state := st, di_published := st\<rparr>)"

definition transmit :: "bytes list \<Rightarrow> unit dtls" where
  "transmit records = emod (\<lambda>s. s\<lparr>di_sent := di_sent s @ records\<rparr>)"

definition rng_fill :: "dtls_env \<Rightarrow> nat \<Rightarrow> bytes dtls" where
  "rng_fill env n = eget (\<lambda>s. ethen (emod (\<lambda>s. s\<lparr>di_draws := di_draws s + 1\<rparr>))
     (ret (map (env_rng env (di_draws s)) [0..<n])))"

definition random_new :: "dtls_env \<Rightarrow> dtls_random dtls" where
  "random_new env = eget (\<lambda>s. ebind (rng_fill env 28) (\<lambda>rb.
     ret \<lparr>gmt_unix_time = (case env_unix_ms env (di_draws s) of Some t \<Rightarrow> ucast t | None \<Rightarrow> 0),
          random_bytes = rb\<rparr>))"

section \<open>Sending\<close>

definition full_seq :: "u16 \<Rightarrow> u64 \<Rightarrow> u64" where
  "full_seq epoch sq = push_bit 48 (ucast epoch) OR sq"

definition own_write_key :: "bool \<Rightarrow> session_keys \<Rightarrow> bytes \<times> bytes" where
  "own_write_key is_client keys =
     (if is_client then (client_write_key keys, client_write_iv keys)
      else (server_write_key keys, server_write_iv keys))"

definition build_handshake_record ::
    "dtls_env \<Rightarrow> handshake_message \<Rightarrow> u16 \<Rightarrow> session_keys option \<Rightarrow> bytes dtls" where
  "build_handshake_record env msg epoch keys = eget (\<lambda>s.
     let sq = hc_sequence_number s; payload = handshake_encode msg
     in ebind (case keys of
          Some ks \<Rightarrow> if 0 < epoch
            then (let (key, iv) = own_write_key (env_is_client env) ks
                  in elift (encrypt_record (env_crypto env) Handshake DTLS_1_2 (full_seq epoch sq) payload key iv))
            else ret payload
        | None \<Rightarrow> ret payload) (\<lambda>record_payload.
        ebind (elift (checked_suc sq)) (\<lambda>next_sq. ethen (emod (\<lambda>s. s\<lparr>hc_sequence_number := next_sq\<rparr>))
          (ret (dtls_record_encode \<lparr>rec_type = Handshake, rec_version = DTLS_1_2, rec_epoch = epoch,
                rec_seq = sq, rec_payload = record_payload\<rparr>)))))"

definition send_flight :: "bytes list \<Rightarrow> unit dtls" where
  "send_flight records =
     ethen (transmit records) (emod (\<lambda>s. s\<lparr>hc_last_flight_records := Some records\<rparr>))"

definition resend_last_flight :: "unit dtls" where
  "resend_last_flight = eget (\<lambda>s.
     case hc_last_flight_records s of Some records \<Rightarrow> transmit records | None \<Rightarrow> ret ())"

definition handle_retransmit :: "unit dtls" where
  "handle_retransmit = eget (\<lambda>s. if di_state s \<noteq> StHandshaking then ret () else resend_last_flight)"

text \<open>
  The steps every handler takes to add a message to the flight it builds: the unfragmented message with
  the next message number, its encoding appended to the transcript, and its record.
\<close>

definition whole_message :: "handshake_type \<Rightarrow> u16 \<Rightarrow> bytes \<Rightarrow> handshake_message" where
  "whole_message ty mseq body = \<lparr>msg_type = ty, total_length = of_nat (length body), message_seq = mseq,
     fragment_offset = 0, fragment_length = of_nat (length body), msg_body = body\<rparr>"

definition emit_message :: "dtls_env \<Rightarrow> handshake_type \<Rightarrow> bytes \<Rightarrow> session_keys option \<Rightarrow> bytes dtls" where
  "emit_message env ty body keys = eget (\<lambda>s.
     let msg = whole_message ty (hc_message_seq s) body
     in ethen (emod (\<lambda>s. s\<lparr>hc_handshake_messages := hc_handshake_messages s @ handshake_encode msg\<rparr>))
          (build_handshake_record env msg (hc_epoch s) keys))"

definition next_message_seq :: "unit dtls" where
  "next_message_seq = eget (\<lambda>s. ebind (elift (checked_suc (hc_message_seq s))) (\<lambda>n. emod (\<lambda>s. s\<lparr>hc_message_seq := n\<rparr>)))"

definition send_handshake_failure_alert :: "unit dtls" where
  "send_handshake_failure_alert = eget (\<lambda>s. transmit [dtls_record_encode
     \<lparr>rec_type = Alert, rec_version = DTLS_1_2, rec_epoch = 0, rec_seq = hc_sequence_number s,
      rec_payload = [2, 40]\<rparr>])"

text \<open>The ChangeCipherSpec record, after which the write epoch starts.\<close>

definition change_cipher_spec :: "bytes dtls" where
  "change_cipher_spec = eget (\<lambda>s.
     ebind (elift (checked_suc (hc_epoch s))) (\<lambda>next_epoch.
     ethen (emod (\<lambda>s. s\<lparr>hc_epoch := next_epoch, hc_sequence_number := 0\<rparr>))
       (ret (dtls_record_encode \<lparr>rec_type = ChangeCipherSpec, rec_version = DTLS_1_2, rec_epoch = hc_epoch s,
             rec_seq = hc_sequence_number s, rec_payload = [1]\<rparr>))))"

section \<open>Hello extensions\<close>

text \<open>\<open>while ext_buf.len() >= 4\<close>: the extensions up to one that claims more than there is.\<close>

fun hello_extensions :: "bytes \<Rightarrow> (u16 \<times> bytes) list" where
  "hello_extensions (a # b # c # d # rest) =
     (if length rest < unat (be16 c d) then []
      else (be16 a b, take (unat (be16 c d)) rest) # hello_extensions (drop (unat (be16 c d)) rest))"
| "hello_extensions _ = []"

text \<open>\<open>while idx < 2 + len && idx + 1 < _ext_data.len()\<close>\<close>

function srtp_profile_loop :: "bytes \<Rightarrow> nat \<Rightarrow> nat \<Rightarrow> u16 list" where
  "srtp_profile_loop data lim idx =
     (if idx < lim \<and> idx + 1 < length data
      then be16 (data ! idx) (data ! (idx + 1)) # srtp_profile_loop data lim (idx + 2)
      else [])"
  by pat_completeness auto
termination
  by (relation "measure (\<lambda>(data, lim, idx). length data - idx)") auto

declare srtp_profile_loop.simps [simp del]

definition use_srtp_profiles :: "bytes \<Rightarrow> u16 list" where
  "use_srtp_profiles data =
     (case data of a # b # _ \<Rightarrow> srtp_profile_loop data (2 + unat (be16 a b)) 2 | _ \<Rightarrow> [])"

definition offered_srtp_profiles :: "bytes \<Rightarrow> u16 list" where
  "offered_srtp_profiles ext =
     concat (map (\<lambda>(ty, data). if ty = 14 then use_srtp_profiles data else []) (hello_extensions ext))"

definition offers_ems :: "bytes \<Rightarrow> bool" where
  "offers_ems ext \<longleftrightarrow> list_ex (\<lambda>(ty, _). ty = 23) (hello_extensions ext)"

definition select_srtp_profile :: "u16 list \<Rightarrow> u16 option" where
  "select_srtp_profile profiles =
     (case profiles of [] \<Rightarrow> None | p # _ \<Rightarrow> if 1 \<in> set profiles then Some 1 else Some p)"

definition server_hello_extensions :: "bool \<Rightarrow> u16 option \<Rightarrow> bytes" where
  "server_hello_extensions ems profile =
     [0x00, 0x0b] @ [0x00, 0x02] @ [0x01] @ [0x00]
     @ [0xff, 0x01] @ [0x00, 0x01] @ [0x00]
     @ (if ems then [0x00, 0x17] @ [0x00, 0x00] else [])
     @ (case profile of None \<Rightarrow> []
        | Some p \<Rightarrow> [0x00, 0x0e] @ [0x00, 0x05] @ [0x00, 0x02] @ u16_be p @ [0x00])"

text \<open>The extensions of a ServerHello: the last use_srtp one decides the profile.\<close>

definition apply_server_extension :: "u16 \<times> bytes \<Rightarrow> handshake_context \<Rightarrow> handshake_context" where
  "apply_server_extension x s =
     (case x of (ty, data) \<Rightarrow>
       if ty = 23 then s\<lparr>hc_ems_negotiated := True\<rparr>
       else if ty = 14 \<and> 5 \<le> length data
       then s\<lparr>hc_srtp_profile := Some (be16 (data ! 2) (data ! 3))\<rparr>
       else s)"

section \<open>Server: ClientHello\<close>

definition server_flight :: "dtls_env \<Rightarrow> client_hello \<Rightarrow> dtls_random \<Rightarrow> bytes \<Rightarrow> u16 \<Rightarrow> unit dtls" where
  "server_flight env ch random session_id suite = eget (\<lambda>s.
     ebind (emit_message env ServerHello
       (server_hello_encode \<lparr>sh_version = DTLS_1_2, sh_random = random, sh_session_id = session_id,
          sh_cipher_suite = suite, sh_compression_method = 0,
          sh_extensions = server_hello_extensions (hc_ems_negotiated s)
            (select_srtp_profile (offered_srtp_profiles (ch_extensions ch)))\<rparr>) None) (\<lambda>r1.
     ethen next_message_seq
     (ebind (emit_message env Certificate (certificate_message_encode (env_certificates env)) None) (\<lambda>r2.
     ethen next_message_seq (eget (\<lambda>s.
     let ske = \<lparr>curve_type = 3, named_curve = 23, ske_public_key = hc_local_public_key s, ske_signature = []\<rparr>;
         params = (case (hc_client_random s, hc_server_random s) of
             (Some cr, Some sr) \<Rightarrow> signed_params cr sr ske
           | _ \<Rightarrow> signed_params [] [] ske)
     in ebind (elift (signing_key_from_pkcs8 (env_crypto env) (env_private_key env))) (\<lambda>sign.
     ebind (elift (sign params)) (\<lambda>signature.
     ebind (emit_message env ServerKeyExchange
       (server_key_exchange_encode (ske\<lparr>ske_signature := signature\<rparr>)) None) (\<lambda>r3.
     ethen next_message_seq
     (ebind (emit_message env ServerHelloDone server_hello_done_encode None) (\<lambda>r4.
     ethen next_message_seq
     (send_flight [r1, r2, r3, r4]))))))))))))"

definition handle_client_hello :: "dtls_env \<Rightarrow> handshake_message \<Rightarrow> unit dtls" where
  "handle_client_hello env msg =
     (if env_is_client env then ret ()
      else eget (\<lambda>s. if hc_server_random s \<noteq> None then resend_last_flight
      else rmatch (client_hello_decode (msg_body msg)) (\<lambda>e. ret ()) (\<lambda>(ch, _).
        ethen (emod (\<lambda>s. s\<lparr>hc_client_random := Some (random_encode (ch_random ch)),
                            hc_ems_negotiated := hc_ems_negotiated s \<or> offers_ems (ch_extensions ch)\<rparr>))
        (ebind (random_new env) (\<lambda>random.
        ethen (emod (\<lambda>s. s\<lparr>hc_server_random := Some (random_encode random)\<rparr>))
        (ethen (case select_srtp_profile (offered_srtp_profiles (ch_extensions ch)) of
            None \<Rightarrow> ret ()
          | Some p \<Rightarrow> emod (\<lambda>s. s\<lparr>hc_srtp_profile := Some p\<rparr>))
        (ebind (rng_fill env 32) (\<lambda>session_id.
        case negotiate_cipher_suite (ch_cipher_suites ch) of
          None \<Rightarrow> ethen send_handshake_failure_alert (ethen (set_state StFailed)
            (dtls_err ''ClientHello offers no supported cipher suite (need 0xC02B)''))
        | Some suite \<Rightarrow> server_flight env ch random session_id suite))))))))"

section \<open>Server: ClientKeyExchange\<close>

text \<open>Master secret and keys, with the transcript for the extended master secret.\<close>

definition derive_keys ::
    "dtls_crypto \<Rightarrow> bool \<Rightarrow> bytes \<Rightarrow> bytes \<Rightarrow> bytes \<Rightarrow> bytes \<Rightarrow> rtc_error fault + session_keys" where
  "derive_keys C ems transcript pre_master cr sr =
     rbind (if ems
            then prf_sha256 C pre_master (ascii ''extended master secret'') (digest32 (sha256 C transcript)) 48
            else prf_sha256 C pre_master (ascii ''master secret'') (cr @ sr) 48)
       (\<lambda>ms. expand_keys C ms cr sr)"

text \<open>\<open>ctx.session_crypto = Some(create_session_crypto(keys.clone())?); ctx.session_keys = Some(keys)\<close>\<close>

definition install_keys :: "dtls_env \<Rightarrow> session_keys \<Rightarrow> unit dtls" where
  "install_keys env keys = ebind (elift (create_session_crypto (env_crypto env) keys)) (\<lambda>crypto.
     emod (\<lambda>s. s\<lparr>hc_session_crypto := Some crypto, hc_session_keys := Some keys\<rparr>))"

text \<open>The steps from the peer's public key to the session keys; a missing or failing ingredient ends the
  handler without an error.\<close>

definition with_session_keys :: "dtls_env \<Rightarrow> (session_keys \<Rightarrow> unit dtls) \<Rightarrow> unit dtls" where
  "with_session_keys env k = eget (\<lambda>s.
     case hc_peer_public_key s of None \<Rightarrow> ret () | Some peer_key \<Rightarrow>
     case hc_local_secret s of None \<Rightarrow> ret () | Some secret \<Rightarrow>
     rmatch (secret peer_key) (\<lambda>e. ret ()) (\<lambda>shared.
       case hc_client_random s of None \<Rightarrow> ret () | Some cr \<Rightarrow>
       case hc_server_random s of None \<Rightarrow> ret () | Some sr \<Rightarrow>
       rmatch (derive_keys (env_crypto env) (hc_ems_negotiated s) (hc_handshake_messages s) shared cr sr)
         (\<lambda>e. ret ()) k))"

definition handle_client_key_exchange :: "dtls_env \<Rightarrow> handshake_message \<Rightarrow> unit dtls" where
  "handle_client_key_exchange env msg =
     (if env_is_client env then ret ()
      else eget (\<lambda>s. if hc_session_keys s \<noteq> None then ret ()
      else rmatch (client_key_exchange_decode (msg_body msg)) (\<lambda>e. ret ()) (\<lambda>(cke, _).
        ethen (emod (\<lambda>s. s\<lparr>hc_peer_public_key := Some (cke_public_key cke)\<rparr>))
          (with_session_keys env (install_keys env)))))"

section \<open>Finished\<close>

definition become_connected :: "dtls_env \<Rightarrow> session_keys \<Rightarrow> unit dtls" where
  "become_connected env keys =
     ebind (elift (create_session_crypto (env_crypto env) keys)) (\<lambda>crypto. eget (\<lambda>s.
       ethen (set_state (StConnected crypto (hc_srtp_profile s)))
         (emod (\<lambda>s. s\<lparr>di_write_epoch := hc_epoch s, di_write_seq := hc_sequence_number s,
                       hc_local_secret := None\<rparr>))))"

text \<open>A Finished whose verify data is not the expected one fails the connection (without publishing it
  here: the task does when it ends).\<close>

definition check_finished :: "dtls_env \<Rightarrow> session_keys \<Rightarrow> string \<Rightarrow> bytes \<Rightarrow> unit dtls" where
  "check_finished env keys label verify_data = eget (\<lambda>s.
     ebind (elift (calculate_verify_data (env_crypto env) (master_secret keys) label (hc_handshake_messages s)))
       (\<lambda>expected. if verify_data \<noteq> expected
          then ethen (emod (\<lambda>s. s\<lparr>di_state := StFailed\<rparr>)) (dtls_err ''Finished verification failed'')
          else ret ()))"

definition server_finished :: "dtls_env \<Rightarrow> bytes \<Rightarrow> unit dtls" where
  "server_finished env raw_msg =
     ethen (emod (\<lambda>s. s\<lparr>hc_handshake_messages := hc_handshake_messages s @ raw_msg\<rparr>))
     (ebind change_cipher_spec (\<lambda>ccs. eget (\<lambda>s.
     ebind (case hc_session_keys s of
         Some keys \<Rightarrow> elift (calculate_verify_data (env_crypto env) (master_secret keys) ''server finished''
           (hc_handshake_messages s))
       | None \<Rightarrow> ret (replicate 12 0)) (\<lambda>verify_data.
     ebind (emit_message env Finished (finished_encode verify_data) (hc_session_keys s)) (\<lambda>fin.
     ethen (send_flight [ccs, fin])
     (case hc_session_keys s of
        Some keys \<Rightarrow> become_connected env keys
      | None \<Rightarrow> ethen (set_state StFailed) (dtls_err ''Session keys not derived'')))))))"

definition handle_finished :: "dtls_env \<Rightarrow> handshake_message \<Rightarrow> bytes \<Rightarrow> unit dtls" where
  "handle_finished env msg raw_msg =
     rmatch (finished_decode (msg_body msg)) (\<lambda>e. ret ()) (\<lambda>(verify_data, _). eget (\<lambda>s.
       if \<not> env_is_client env
       then ethen (case hc_session_keys s of
              Some keys \<Rightarrow> check_finished env keys ''client finished'' verify_data | None \<Rightarrow> ret ())
            (server_finished env raw_msg)
       else case hc_session_keys s of
              Some keys \<Rightarrow> ethen (check_finished env keys ''server finished'' verify_data)
                             (become_connected env keys)
            | None \<Rightarrow> ret ()))"

section \<open>Client: HelloVerifyRequest, ServerHello, certificate and key exchange\<close>

definition own_client_hello :: "dtls_random \<Rightarrow> bytes \<Rightarrow> client_hello" where
  "own_client_hello random cookie = \<lparr>ch_version = DTLS_1_2, ch_random = random, ch_session_id = [],
     ch_cookie = cookie, ch_cipher_suites = get_client_hello_cipher_suites, ch_compression_methods = [0],
     ch_extensions = get_client_hello_extensions\<rparr>"

definition random_of_bytes :: "bytes \<Rightarrow> rtc_error fault + dtls_random" where
  "random_of_bytes bs = rbind (at32 bs 0) (\<lambda>gmt. rbind (slice bs 4 32) (\<lambda>rb.
     Ok \<lparr>gmt_unix_time = gmt, random_bytes = rb\<rparr>))"

definition handle_hello_verify_request :: "dtls_env \<Rightarrow> handshake_message \<Rightarrow> unit dtls" where
  "handle_hello_verify_request env msg =
     rmatch (hello_verify_request_decode (msg_body msg)) (\<lambda>e. ret ()) (\<lambda>(hvr, _).
       ethen (emod (\<lambda>s. s\<lparr>hc_handshake_messages := []\<rparr>)) (eget (\<lambda>s.
       ebind (case hc_client_random s of
           Some bs \<Rightarrow> elift (random_of_bytes bs) | None \<Rightarrow> random_new env) (\<lambda>random.
       ebind (emit_message env ClientHello (client_hello_encode (own_client_hello random (hvr_cookie hvr))) None) (\<lambda>r.
       ethen (send_flight [r]) (ethen next_message_seq (emod (\<lambda>s. s\<lparr>hc_post_hvr := True\<rparr>))))))))"

definition show_suite :: "u16 \<Rightarrow> string" where
  "show_suite w = ''0x'' @ hex_fixed (CHR ''a'') 4 (unat w)"

definition handle_server_hello :: "dtls_env \<Rightarrow> handshake_message \<Rightarrow> unit dtls" where
  "handle_server_hello env msg =
     (if \<not> env_is_client env then ret ()
      else rmatch (server_hello_decode (msg_body msg)) (\<lambda>e. ret ()) (\<lambda>(sh, _).
        if sh_cipher_suite sh \<noteq> SUPPORTED_CIPHER_SUITE
        then ethen (set_state StFailed)
          (dtls_err (''ServerHello negotiated unsupported cipher suite '' @ show_suite (sh_cipher_suite sh)
             @ '' (expected '' @ show_suite SUPPORTED_CIPHER_SUITE @ '')''))
        else emod (\<lambda>s. fold apply_server_extension (hello_extensions (sh_extensions sh))
               (s\<lparr>hc_server_random := Some (random_encode (sh_random sh))\<rparr>))))"

definition handle_certificate :: "dtls_env \<Rightarrow> handshake_message \<Rightarrow> unit dtls" where
  "handle_certificate env msg =
     ebind (elift (certificate_message_decode (msg_body msg))) (\<lambda>(certs, _).
       case certs of
         [] \<Rightarrow> ethen (set_state StFailed)
           (dtls_err ''DTLS certificate message did not contain a leaf certificate'')
       | leaf # _ \<Rightarrow> eget (\<lambda>s.
           let actual = fingerprint_from_der (env_crypto env) leaf;
               accept = rmatch (certificate_public_key (env_crypto env) leaf)
                 (\<lambda>e. ethen (set_state StFailed) (efail e))
                 (\<lambda>_. emod (\<lambda>s. s\<lparr>hc_peer_certificate := Some leaf\<rparr>))
           in case hc_expected_fingerprint s of
                None \<Rightarrow> accept
              | Some expected \<Rightarrow>
                  if actual \<noteq> expected
                  then ethen (set_state StFailed)
                    (dtls_err (''DTLS fingerprint mismatch: expected '' @ expected @ '', got '' @ actual))
                  else accept))"

definition handle_server_key_exchange :: "dtls_env \<Rightarrow> handshake_message \<Rightarrow> unit dtls" where
  "handle_server_key_exchange env msg =
     (if env_is_client env
      then rmatch (server_key_exchange_decode (msg_body msg)) (\<lambda>e. ret ()) (\<lambda>(ske, _). eget (\<lambda>s.
        case hc_peer_certificate s of
          None \<Rightarrow> ethen (set_state StFailed)
            (dtls_err ''Received ServerKeyExchange before a verifiable DTLS certificate'')
        | Some cert \<Rightarrow>
        case (hc_client_random s, hc_server_random s) of
          (Some cr, Some sr) \<Rightarrow>
            rmatch (verify_server_key_exchange_signature (env_crypto env) cert cr sr ske)
              (\<lambda>e. ethen (set_state StFailed) (efail e))
              (\<lambda>_. emod (\<lambda>s. s\<lparr>hc_peer_public_key := Some (ske_public_key ske), hc_ske_verified := True\<rparr>))
        | _ \<Rightarrow> ethen (set_state StFailed)
            (dtls_err ''Missing DTLS random values for ServerKeyExchange verification'')))
      else ret ())"

definition handle_server_hello_done :: "dtls_env \<Rightarrow> unit dtls" where
  "handle_server_hello_done env = eget (\<lambda>s.
     if hc_session_keys s \<noteq> None then ret ()
     else if env_is_client env \<and> \<not> hc_ske_verified s
     then ethen (set_state StFailed)
       (dtls_err ''DTLS server identity was not verified before ServerHelloDone'')
     else ebind (emit_message env ClientKeyExchange
       (client_key_exchange_encode \<lparr>identity_hint = [], cke_public_key = hc_local_public_key s\<rparr>) None) (\<lambda>cke.
     ethen next_message_seq
     (with_session_keys env (\<lambda>keys.
       ethen (install_keys env keys)
       (ebind change_cipher_spec (\<lambda>ccs. eget (\<lambda>s.
       ebind (elift (calculate_verify_data (env_crypto env) (master_secret keys) ''client finished''
         (hc_handshake_messages s))) (\<lambda>verify_data.
       ebind (emit_message env Finished (finished_encode verify_data) (hc_session_keys s)) (\<lambda>fin.
       ethen (send_flight [cke, ccs, fin]) next_message_seq)))))))))"

definition handle_handshake_message :: "dtls_env \<Rightarrow> handshake_message \<Rightarrow> bytes \<Rightarrow> unit dtls" where
  "handle_handshake_message env msg raw_msg =
     (case msg_type msg of
        ClientHello \<Rightarrow> handle_client_hello env msg
      | ClientKeyExchange \<Rightarrow> handle_client_key_exchange env msg
      | Finished \<Rightarrow> handle_finished env msg raw_msg
      | HelloVerifyRequest \<Rightarrow> handle_hello_verify_request env msg
      | ServerHello \<Rightarrow> handle_server_hello env msg
      | Certificate \<Rightarrow> handle_certificate env msg
      | ServerKeyExchange \<Rightarrow> handle_server_key_exchange env msg
      | ServerHelloDone \<Rightarrow> handle_server_hello_done env
      | _ \<Rightarrow> ret ())"

section \<open>What the handlers leave alone\<close>

text \<open>The bookkeeping of message numbers, pending messages and fragments belongs to the caller of the
  handlers; the expected fingerprint and the own public key never change.\<close>

definition same_bookkeeping :: "handshake_context \<Rightarrow> handshake_context \<Rightarrow> bool" where
  "same_bookkeeping s t \<longleftrightarrow> hc_recv_message_seq t = hc_recv_message_seq s
     \<and> hc_pending_messages t = hc_pending_messages s \<and> hc_incomplete_fragments t = hc_incomplete_fragments s
     \<and> hc_expected_fingerprint t = hc_expected_fingerprint s \<and> hc_local_public_key t = hc_local_public_key s
     \<and> di_incoming t = di_incoming s \<and> hc_read_epoch t = hc_read_epoch s"

interpretation bk: state_order same_bookkeeping
  by unfold_locales (auto simp: same_bookkeeping_def)

lemma bk_prod [intro]: "(\<And>a b. bk.keeps (k a b)) \<Longrightarrow> bk.keeps (case p of (a, b) \<Rightarrow> k a b)"
  by (cases p) simp

lemma bk_list [intro]: "bk.keeps m \<Longrightarrow> (\<And>x xs. bk.keeps (k x xs)) \<Longrightarrow> bk.keeps (case l of [] \<Rightarrow> m | x # xs \<Rightarrow> k x xs)"
  by (cases l) simp_all

lemma bk_emod [intro]: "(\<And>s. same_bookkeeping s (f s)) \<Longrightarrow> bk.keeps (emod f)"
  by (rule bk.keeps_emod)

lemmas bk_intros = bk.keeps_ebind bk.keeps_ethen bk.keeps_eget bk.keeps_rmatch bk.keeps_option bk.keeps_if
  bk_prod bk_list bk_emod bk.keeps_ret bk.keeps_elift bk.keeps_efail

lemma same_bookkeeping_fold: "same_bookkeeping s (fold apply_server_extension xs s)"
proof (induction xs arbitrary: s)
  case (Cons x xs)
  have "same_bookkeeping s (apply_server_extension x s)"
    by (auto simp: apply_server_extension_def same_bookkeeping_def split: prod.splits)
  with Cons show ?case using bk.order_trans by fastforce
qed (simp add: same_bookkeeping_def)

lemma bk_primitives [intro, simp]:
  "bk.keeps (set_state st)" "bk.keeps (transmit rs)" "bk.keeps (rng_fill env n)" "bk.keeps (random_new env)"
  "bk.keeps (send_flight rs)" "bk.keeps resend_last_flight" "bk.keeps next_message_seq"
  "bk.keeps send_handshake_failure_alert" "bk.keeps change_cipher_spec" "bk.keeps (dtls_err m)"
  "bk.keeps (build_handshake_record env msg ep keys)"
  unfolding set_state_def transmit_def rng_fill_def random_new_def send_flight_def resend_last_flight_def
    next_message_seq_def send_handshake_failure_alert_def change_cipher_spec_def dtls_err_def
    build_handshake_record_def Let_def
  by (intro bk_intros; simp add: same_bookkeeping_def)+

lemma bk_emit [intro, simp]: "bk.keeps (emit_message env ty body keys)"
  unfolding emit_message_def Let_def by (intro bk_intros bk_primitives) (simp add: same_bookkeeping_def)

lemma bk_server_flight: "bk.keeps (server_flight env ch r sid suite)"
  unfolding server_flight_def Let_def by (intro bk_intros bk_primitives bk_emit)

lemma bk_client_hello: "bk.keeps (handle_client_hello env msg)"
  unfolding handle_client_hello_def
  by (intro bk_intros bk_primitives bk_emit bk_server_flight; simp add: same_bookkeeping_def)

lemma bk_with_session_keys: "(\<And>ks. bk.keeps (k ks)) \<Longrightarrow> bk.keeps (with_session_keys env k)"
  unfolding with_session_keys_def by (intro bk_intros)

lemma bk_install_keys [intro, simp]: "bk.keeps (install_keys env ks)"
  unfolding install_keys_def by (intro bk_intros) (simp add: same_bookkeeping_def)

lemma bk_client_key_exchange: "bk.keeps (handle_client_key_exchange env msg)"
  unfolding handle_client_key_exchange_def
  by (intro bk_intros bk_with_session_keys bk_install_keys; simp add: same_bookkeeping_def)

lemma bk_finished: "bk.keeps (handle_finished env msg raw)"
  unfolding handle_finished_def server_finished_def check_finished_def become_connected_def
  by (intro bk_intros bk_primitives bk_emit; simp add: same_bookkeeping_def)

lemma bk_hello_verify_request: "bk.keeps (handle_hello_verify_request env msg)"
  unfolding handle_hello_verify_request_def
  by (intro bk_intros bk_primitives bk_emit; simp add: same_bookkeeping_def)

lemma bk_server_hello: "bk.keeps (handle_server_hello env msg)"
  unfolding handle_server_hello_def
  by (intro bk_intros bk_primitives bk.order_trans [OF _ same_bookkeeping_fold]; simp add: same_bookkeeping_def)

lemma bk_certificate: "bk.keeps (handle_certificate env msg)"
  unfolding handle_certificate_def Let_def
  by (intro bk_intros bk_primitives; simp add: same_bookkeeping_def)

lemma bk_server_key_exchange: "bk.keeps (handle_server_key_exchange env msg)"
  unfolding handle_server_key_exchange_def
  by (intro bk_intros bk_primitives; simp add: same_bookkeeping_def)

lemma bk_server_hello_done: "bk.keeps (handle_server_hello_done env)"
  unfolding handle_server_hello_done_def
  by (intro bk_intros bk_primitives bk_emit bk_with_session_keys bk_install_keys)

lemma handler_keeps_bookkeeping: "bk.keeps (handle_handshake_message env msg raw)"
  unfolding handle_handshake_message_def
  by (cases "msg_type msg") (simp_all add: bk_client_hello bk_client_key_exchange bk_finished
      bk_hello_verify_request bk_server_hello bk_certificate bk_server_key_exchange bk_server_hello_done)

end
