(* ===== verification/Dtls_Session.thy ===== *)
theory Dtls_Session
  imports Dtls_Handlers
begin

text \<open>
  The task of a DTLS connection (\<open>src/transports/dtls/mod.rs\<close>): taking handshake messages off a payload
  in the order of their numbers, with duplicates, reordering and fragments; decrypting and dispatching
  the records of a datagram; starting the handshake, the events of its loop, and sending application
  data. Message numbers are \<open>u16\<close>, and counting past the last one panics.
\<close>

section \<open>Handshake messages of a record\<close>

definition MAX_PENDING_HANDSHAKE_MESSAGES :: nat where
  "MAX_PENDING_HANDSHAKE_MESSAGES = 16"

definition MAX_FINAL_FLIGHT_RESENDS :: u8 where
  "MAX_FINAL_FLIGHT_RESENDS = 12"

definition is_connected :: "dtls_state \<Rightarrow> bool" where
  "is_connected st \<longleftrightarrow> (case st of StConnected _ _ \<Rightarrow> True | _ \<Rightarrow> False)"

definition append_transcript :: "handshake_message \<Rightarrow> bytes \<Rightarrow> handshake_context \<Rightarrow> handshake_context" where
  "append_transcript msg raw s =
     (if msg_type msg \<noteq> Finished \<and> msg_type msg \<noteq> HelloRequest \<and> msg_type msg \<noteq> HelloVerifyRequest
      then s\<lparr>hc_handshake_messages := hc_handshake_messages s @ raw\<rparr> else s)"

lemma append_transcript_pending [simp]: "hc_pending_messages (append_transcript m r s) = hc_pending_messages s"
  by (simp add: append_transcript_def)

lemma pending_smaller: "bt_get k m = Some v \<Longrightarrow> length (bt_remove k m) < length m"
proof -
  assume "bt_get k m = Some v"
  then have "(k, v) \<in> set m" by (simp add: bt_get_def map_of_SomeD)
  then show ?thesis unfolding bt_remove_def by (rule length_filter_less) simp
qed

text \<open>\<open>while let Some(..) = ctx.pending_messages.remove(&ctx.recv_message_seq)\<close>\<close>

function drain_pending :: "dtls_env \<Rightarrow> unit dtls" where
  "drain_pending env s =
     (case bt_get (hc_recv_message_seq s) (hc_pending_messages s) of
        None \<Rightarrow> (Ok (), s)
      | Some (msg, raw) \<Rightarrow>
          (case handle_handshake_message env msg raw (append_transcript msg raw
              (s\<lparr>hc_pending_messages := bt_remove (hc_recv_message_seq s) (hc_pending_messages s)\<rparr>)) of
             (Inl f, s) \<Rightarrow> (Inl f, s)
           | (Inr _, s) \<Rightarrow>
               (case checked_suc (hc_recv_message_seq s) of
                  Inl f \<Rightarrow> (Inl f, s)
                | Inr n \<Rightarrow> drain_pending env (s\<lparr>hc_recv_message_seq := n\<rparr>))))"
  by pat_completeness auto
termination
  by (relation "measure (\<lambda>(env, s). length (hc_pending_messages s))")
    (auto dest!: bk.keepsD [OF handler_keeps_bookkeeping, OF sym] pending_smaller simp: same_bookkeeping_def)

declare drain_pending.simps [simp del]

text \<open>A complete message whose turn it is.\<close>

definition deliver_message :: "dtls_env \<Rightarrow> handshake_message \<Rightarrow> bytes \<Rightarrow> unit dtls" where
  "deliver_message env msg raw =
     eget (\<lambda>s. ebind (elift (checked_suc (hc_recv_message_seq s))) (\<lambda>n.
     ethen (emod (\<lambda>s. append_transcript msg raw (s\<lparr>hc_recv_message_seq := n\<rparr>)))
     (ethen (handle_handshake_message env msg raw) (drain_pending env))))"

definition accept_message :: "dtls_env \<Rightarrow> handshake_message \<Rightarrow> bytes \<Rightarrow> unit dtls" where
  "accept_message env msg raw =
     ethen (emod (\<lambda>s. s\<lparr>hc_post_hvr := False\<rparr>))
     (if total_length msg \<noteq> fragment_length msg
      then eget (\<lambda>s. case reassembly_push (hc_incomplete_fragments s) (message_seq msg)
             (unat (total_length msg)) (fragment_offset msg) (msg_body msg) of (res, r) \<Rightarrow>
        ethen (emod (\<lambda>s. s\<lparr>hc_incomplete_fragments := r\<rparr>))
        (rmatch res (\<lambda>e. emod (\<lambda>s. s\<lparr>hc_incomplete_fragments := reassembly_default\<rparr>)) (\<lambda>v.
          case v of None \<Rightarrow> ret ()
          | Some body \<Rightarrow>
              let full = \<lparr>msg_type = msg_type msg, total_length = total_length msg,
                    message_seq = message_seq msg, fragment_offset = 0,
                    fragment_length = total_length msg, msg_body = body\<rparr>
              in deliver_message env full (handshake_encode full))))
      else deliver_message env msg raw)"

text \<open>A message with a number already seen: a repeated ClientHello or Finished makes the server resend.\<close>

definition duplicate_message :: "dtls_env \<Rightarrow> u16 \<Rightarrow> handshake_message \<Rightarrow> bytes \<Rightarrow> unit dtls" where
  "duplicate_message env epoch msg raw = eget (\<lambda>s.
     if msg_type msg = ClientHello \<and> \<not> env_is_client env
     then handle_handshake_message env msg raw
     else if msg_type msg = Finished \<and> \<not> env_is_client env \<and> 0 < epoch \<and> fragment_offset msg = 0
       \<and> hc_final_flight_resends s < MAX_FINAL_FLIGHT_RESENDS \<and> is_connected (di_state s)
     then ethen (emod (\<lambda>s. s\<lparr>hc_final_flight_resends := hc_final_flight_resends s + 1\<rparr>)) resend_last_flight
     else ret ())"

definition process_message :: "dtls_env \<Rightarrow> u16 \<Rightarrow> handshake_message \<Rightarrow> bytes \<Rightarrow> unit dtls" where
  "process_message env epoch msg raw = eget (\<lambda>s.
     let sync = emod (\<lambda>s. s\<lparr>hc_recv_message_seq := message_seq msg, hc_post_hvr := False\<rparr>)
     in if message_seq msg < hc_recv_message_seq s
        then if hc_post_hvr s \<and> env_is_client env
             then ethen sync (accept_message env msg raw)
             else duplicate_message env epoch msg raw
        else if hc_recv_message_seq s < message_seq msg
        then if hc_post_hvr s \<and> env_is_client env
             then ethen sync (accept_message env msg raw)
             else if total_length msg = fragment_length msg
               \<and> length (hc_pending_messages s) < MAX_PENDING_HANDSHAKE_MESSAGES
             then emod (\<lambda>s. s\<lparr>hc_pending_messages :=
                    bt_insert (message_seq msg) (msg, raw) (hc_pending_messages s)\<rparr>)
             else ret ()
        else accept_message env msg raw)"

function process_handshake_payload :: "dtls_env \<Rightarrow> u16 \<Rightarrow> bytes \<Rightarrow> unit dtls" where
  "process_handshake_payload env epoch body s =
     (if body = [] then (Ok (), s)
      else case handshake_decode body of
        Inr None \<Rightarrow> (Ok (), s)
      | Inl (Err e) \<Rightarrow> (Ok (), s)
      | Inl Panic \<Rightarrow> (Panicked, s)
      | Inr (Some (msg, rest)) \<Rightarrow>
          (case process_message env epoch msg (take (length body - length rest) body) s of
             (Inl f, s) \<Rightarrow> (Inl f, s)
           | (Inr _, s) \<Rightarrow> process_handshake_payload env epoch rest s))"
  by pat_completeness auto
termination
  by (relation "measure (\<lambda>(env, epoch, body, s). length body)") (auto dest: handshake_decode_shorter)

declare process_handshake_payload.simps [simp del]

section \<open>Records of a datagram\<close>

definition peer_write_key :: "bool \<Rightarrow> session_keys \<Rightarrow> bytes \<times> bytes" where
  "peer_write_key is_client keys =
     (if is_client then (server_write_key keys, server_write_iv keys)
      else (client_write_key keys, client_write_iv keys))"

definition decryption_failed :: "rtc_error fault + bytes \<Rightarrow> rtc_error fault + bytes" where
  "decryption_failed r = (case r of Inl (Err e) \<Rightarrow> bail (''Decryption failed: '' @ show_error e) | _ \<Rightarrow> r)"

definition try_decrypt_record :: "dtls_env \<Rightarrow> dtls_record \<Rightarrow> handshake_context \<Rightarrow> rtc_error fault + bytes" where
  "try_decrypt_record env r s =
     (if rec_epoch r = 0 then Ok (rec_payload r)
      else case hc_session_crypto s of
        Some crypto \<Rightarrow> let (key, iv) = peer_write_key (env_is_client env) crypto
          in decryption_failed (decrypt_record_with_cipher (env_crypto env) (rec_type r) (rec_version r)
               (full_seq (rec_epoch r) (rec_seq r)) (rec_payload r) key iv)
      | None \<Rightarrow>
        (case hc_session_keys s of
           Some keys \<Rightarrow> let (key, iv) = peer_write_key (env_is_client env) keys
             in decryption_failed (decrypt_record (env_crypto env) (rec_type r) (rec_version r)
                  (full_seq (rec_epoch r) (rec_seq r)) (rec_payload r) key iv)
         | None \<Rightarrow> bail ''Received encrypted record but no keys available''))"

definition saturating_suc :: "u16 \<Rightarrow> u16" where
  "saturating_suc w = (if w = - 1 then w else w + 1)"

definition handle_decrypted_record :: "dtls_env \<Rightarrow> content_type \<Rightarrow> u16 \<Rightarrow> bytes \<Rightarrow> unit dtls" where
  "handle_decrypted_record env ct epoch payload =
     (case ct of
        ChangeCipherSpec \<Rightarrow> emod (\<lambda>s. s\<lparr>hc_read_epoch := saturating_suc (hc_read_epoch s)\<rparr>)
      | ApplicationData \<Rightarrow> emod (\<lambda>s. s\<lparr>di_incoming := di_incoming s @ [payload]\<rparr>)
      | Handshake \<Rightarrow> process_handshake_payload env epoch payload
      | Alert \<Rightarrow> (case payload of _ # description # _ \<Rightarrow> if description = 0 then set_state StClosed else ret ()
                 | _ \<Rightarrow> ret ())
      | Heartbeat \<Rightarrow> ret ())"

function handle_incoming_packet :: "dtls_env \<Rightarrow> bytes \<Rightarrow> unit dtls" where
  "handle_incoming_packet env data s =
     (if data = [] then (Ok (), s)
      else case dtls_record_decode data of
        Inr None \<Rightarrow> (Ok (), s)
      | Inl (Err e) \<Rightarrow> (Ok (), s)
      | Inl Panic \<Rightarrow> (Panicked, s)
      | Inr (Some (r, rest)) \<Rightarrow>
          (case try_decrypt_record env r s of
             Inl (Err e) \<Rightarrow> (Ok (), s)
           | Inl Panic \<Rightarrow> (Panicked, s)
           | Inr payload \<Rightarrow>
               (case handle_decrypted_record env (rec_type r) (rec_epoch r) payload s of
                  (Inl f, s) \<Rightarrow> (Inl f, s)
                | (Inr _, s) \<Rightarrow> handle_incoming_packet env rest s)))"
  by pat_completeness auto
termination
  by (relation "measure (\<lambda>(env, data, s). length data)") (auto dest: record_decode_shorter)

declare handle_incoming_packet.simps [simp del]

section \<open>The task\<close>

definition inner_new :: dtls_inner where
  "inner_new = \<lparr>di_state = StNew, di_published = StNew, di_write_seq = 0, di_write_epoch = 0,
     di_sent = [], di_incoming = [], di_draws = 0\<rparr>"

definition handshake_context_new :: "dtls_inner \<Rightarrow> string option \<Rightarrow> bytes \<Rightarrow> (bytes \<Rightarrow> rtc_error fault + bytes) \<Rightarrow> handshake_context" where
  "handshake_context_new di fp public secret = dtls_inner.extend di
     (handshake_context.fields 0 0 0 0 0 False None 0 reassembly_default [] (Some secret) public None None
        None None None None [] False None fp False)"

text \<open>The start of \<open>handshake\<close>, up to its loop: the client sends its ClientHello.\<close>

definition start_handshake :: "dtls_env \<Rightarrow> unit dtls" where
  "start_handshake env =
     (if env_is_client env
      then ebind (random_new env) (\<lambda>random.
        ethen (emod (\<lambda>s. s\<lparr>hc_client_random := Some (random_encode random)\<rparr>))
        (ebind (emit_message env ClientHello (client_hello_encode (own_client_hello random [])) None) (\<lambda>r.
        ethen (send_flight [r]) next_message_seq)))
      else ret ())"

text \<open>The answer to \<open>close\<close>: a close_notify alert under the session keys, if there are any.\<close>

definition send_close_notify :: "dtls_env \<Rightarrow> unit dtls" where
  "send_close_notify env = eget (\<lambda>s.
     case hc_session_keys s of None \<Rightarrow> ret ()
     | Some keys \<Rightarrow> let (key, iv) = own_write_key (env_is_client env) keys
       in rmatch (encrypt_record (env_crypto env) Alert DTLS_1_2 (full_seq (hc_epoch s) (hc_sequence_number s))
                   [1, 0] key iv) (\<lambda>e. ret ())
            (\<lambda>encrypted. transmit [dtls_record_encode \<lparr>rec_type = Alert, rec_version = DTLS_1_2,
               rec_epoch = hc_epoch s, rec_seq = hc_sequence_number s, rec_payload = encrypted\<rparr>]))"

datatype dtls_event = SocketGone | CloseRequested | DeadlineReached | RetransmitTick | PacketReceived bytes | FeederClosed

text \<open>One iteration of the loop: \<open>True\<close> goes on, \<open>False\<close> is a normal end. The deadline only runs while
  handshaking, so its event is ignored in other states.\<close>

definition task_event :: "dtls_env \<Rightarrow> dtls_event \<Rightarrow> bool dtls" where
  "task_event env ev =
     (case ev of
        SocketGone \<Rightarrow> eget (\<lambda>s.
          if di_state s = StHandshaking
          then ethen (set_state StFailed) (dtls_err ''ICE socket closed during DTLS handshake'')
          else ethen (set_state StClosed) (ret False))
      | CloseRequested \<Rightarrow> ethen (send_close_notify env) (ret False)
      | DeadlineReached \<Rightarrow> eget (\<lambda>s.
          if di_state s = StHandshaking
          then ethen (set_state StFailed) (dtls_err ''DTLS handshake timed out after 30s'')
          else ret True)
      | RetransmitTick \<Rightarrow> ethen handle_retransmit (ret True)
      | FeederClosed \<Rightarrow> ret False
      | PacketReceived packet \<Rightarrow> (\<lambda>s. case handle_incoming_packet env packet s of
            (Inl (Err e), s) \<Rightarrow> if di_state s = StFailed then (Fail e, s) else (Ok True, s)
          | (Inl Panic, s) \<Rightarrow> (Panicked, s)
          | (Inr _, s) \<Rightarrow> (Ok True, s)))"

section \<open>Application data\<close>

definition MAX_APP_DATA_RECORD_SIZE :: nat where
  "MAX_APP_DATA_RECORD_SIZE = 1200"

text \<open>\<open>data.chunks(n)\<close>\<close>

function chunks :: "nat \<Rightarrow> bytes \<Rightarrow> bytes list" where
  "chunks n data = (if data = [] \<or> n = 0 then [] else take n data # chunks n (drop n data))"
  by pat_completeness auto
termination
  by (relation "measure (\<lambda>(n, data). length data)") auto

declare chunks.simps [simp del]

definition send_record :: "dtls_env \<Rightarrow> session_keys \<Rightarrow> bytes \<Rightarrow> unit dtls" where
  "send_record env crypto data = eget (\<lambda>s.
     let (cipher, iv) = own_write_key (env_is_client env) crypto;
         epoch = di_write_epoch s; sq = di_write_seq s; fseq = full_seq epoch sq;
         header = content_type_u8 ApplicationData # ver_major DTLS_1_2 # ver_minor DTLS_1_2
           # u16_be epoch @ u48_be sq @ u16_be (of_nat (8 + length data + 16));
         aad = u64_be fseq @ content_type_u8 ApplicationData # ver_major DTLS_1_2 # ver_minor DTLS_1_2
           # u16_be (of_nat (length data))
     in ethen (emod (\<lambda>s. s\<lparr>di_write_seq := di_write_seq s + 1\<rparr>))
        (ebind (elift (record_nonce iv (u64_be fseq))) (\<lambda>nonce.
         case gcm_seal (env_crypto env) cipher nonce aad data of
           None \<Rightarrow> dtls_err ''Encryption failed: aead::Error''
         | Some (ctext, tag) \<Rightarrow>
             ethen (transmit [header @ u64_be fseq @ ctext @ tag16 tag])
               (case env_conn_send env (length (di_sent s)) of
                  None \<Rightarrow> ret ()
                | Some e \<Rightarrow> dtls_err (''Send failed: '' @ show_error e)))))"

fun send_chunks :: "dtls_env \<Rightarrow> session_keys \<Rightarrow> bytes list \<Rightarrow> unit dtls" where
  "send_chunks env crypto [] = ret ()"
| "send_chunks env crypto (c # cs) = ethen (send_record env crypto c) (send_chunks env crypto cs)"

definition dtls_send :: "dtls_env \<Rightarrow> bytes \<Rightarrow> unit dtls" where
  "dtls_send env data = eget (\<lambda>s. case di_state s of
       StConnected crypto _ \<Rightarrow> send_chunks env crypto (chunks MAX_APP_DATA_RECORD_SIZE data)
     | _ \<Rightarrow> efail (InvalidState ''DTLS not connected''))"

definition export_keying_material :: "dtls_env \<Rightarrow> handshake_context \<Rightarrow> string \<Rightarrow> nat \<Rightarrow> rtc_error fault + bytes" where
  "export_keying_material env s label len =
     (case di_state s of
        StConnected crypto _ \<Rightarrow> prf_sha256 (env_crypto env) (master_secret crypto) (ascii label)
          (keys_client_random crypto @ keys_server_random crypto) len
      | _ \<Rightarrow> Fail (InvalidState ''DTLS not connected''))"

section \<open>Runs of a connection\<close>

text \<open>
  The states of a connection: the task starts, then events of its loop and calls of \<open>send\<close> from other
  tasks interleave. When the task ends with an error its runner publishes \<open>Failed\<close>; after its end only
  \<open>send\<close> remains. The flag says whether the task still runs.
\<close>

definition runner_failed :: "handshake_context \<Rightarrow> handshake_context" where
  "runner_failed s = s\<lparr>di_state := StFailed, di_published := StFailed\<rparr>"

inductive dtls_run :: "dtls_env \<Rightarrow> string option \<Rightarrow> bool \<Rightarrow> handshake_context \<Rightarrow> bool"
  for env fp where
  start: "env_ecdh env = Ok (public, secret)
    \<Longrightarrow> start_handshake env (handshake_context_new (inner_new\<lparr>di_state := StHandshaking, di_published := StHandshaking\<rparr>)
          fp public secret) = (Ok (), s) \<Longrightarrow> dtls_run env fp True s"
| event: "dtls_run env fp True s \<Longrightarrow> task_event env ev s = (Ok go, t) \<Longrightarrow> dtls_run env fp go t"
| failed: "dtls_run env fp True s \<Longrightarrow> task_event env ev s = (Fail e, t) \<Longrightarrow> dtls_run env fp False (runner_failed t)"
| panicked: "dtls_run env fp True s \<Longrightarrow> task_event env ev s = (Panicked, t) \<Longrightarrow> dtls_run env fp False t"
| send: "dtls_run env fp b s \<Longrightarrow> dtls_send env data s = (r, t) \<Longrightarrow> dtls_run env fp b t"

section \<open>Invariants of a connection\<close>

text \<open>
  The interface between the handlers and the task: a predicate on states that every handler keeps and
  that does not depend on the bookkeeping of the task holds in every state of every run. The task is
  gone through once, here; the invariants below only look at the handlers.
\<close>

locale session_invariant =
  fixes env :: dtls_env and I :: "handshake_context \<Rightarrow> bool"
  assumes handler: "I s \<Longrightarrow> I (snd (handle_handshake_message env msg raw s))"
    and upd_numbers: "I s \<Longrightarrow> I (s\<lparr>hc_recv_message_seq := n, hc_post_hvr := b, hc_final_flight_resends := k\<rparr>)"
    and upd_pending: "I s \<Longrightarrow> I (s\<lparr>hc_pending_messages := p\<rparr>)"
    and upd_transcript: "I s \<Longrightarrow> I (s\<lparr>hc_handshake_messages := h\<rparr>)"
    and upd_fragments: "I s \<Longrightarrow> reassembly_ok r \<Longrightarrow> I (s\<lparr>hc_incomplete_fragments := r\<rparr>)"
    and fragments: "I s \<Longrightarrow> reassembly_ok (hc_incomplete_fragments s)"
    and upd_io: "I s \<Longrightarrow> I (s\<lparr>di_sent := x, di_incoming := y, hc_read_epoch := e, di_write_seq := q\<rparr>)"
    and upd_ended: "I s \<Longrightarrow> st = StFailed \<or> st = StClosed \<Longrightarrow> I (s\<lparr>di_state := st, di_published := st\<rparr>)"
begin

lemma upd_recv: "I s \<Longrightarrow> I (s\<lparr>hc_recv_message_seq := n\<rparr>)"
  using upd_numbers [where s = s and n = n and b = "hc_post_hvr s" and k = "hc_final_flight_resends s"] by simp

lemma upd_hvr: "I s \<Longrightarrow> I (s\<lparr>hc_post_hvr := b\<rparr>)"
  using upd_numbers [where s = s and n = "hc_recv_message_seq s" and b = b and k = "hc_final_flight_resends s"] by simp

lemma upd_recv_hvr: "I s \<Longrightarrow> I (s\<lparr>hc_recv_message_seq := n, hc_post_hvr := b\<rparr>)"
  using upd_numbers [where s = s and n = n and b = b and k = "hc_final_flight_resends s"] by simp

lemma upd_resends: "I s \<Longrightarrow> I (s\<lparr>hc_final_flight_resends := k\<rparr>)"
  using upd_numbers [where s = s and n = "hc_recv_message_seq s" and b = "hc_post_hvr s" and k = k] by simp

lemma upd_sent: "I s \<Longrightarrow> I (s\<lparr>di_sent := x\<rparr>)"
  using upd_io [where s = s and x = x and y = "di_incoming s" and e = "hc_read_epoch s" and q = "di_write_seq s"] by simp

lemma upd_incoming: "I s \<Longrightarrow> I (s\<lparr>di_incoming := x\<rparr>)"
  using upd_io [where s = s and x = "di_sent s" and y = x and e = "hc_read_epoch s" and q = "di_write_seq s"] by simp

lemma upd_read_epoch: "I s \<Longrightarrow> I (s\<lparr>hc_read_epoch := e\<rparr>)"
  using upd_io [where s = s and x = "di_sent s" and y = "di_incoming s" and e = e and q = "di_write_seq s"] by simp

lemma upd_write_seq: "I s \<Longrightarrow> I (s\<lparr>di_write_seq := q\<rparr>)"
  using upd_io [where s = s and x = "di_sent s" and y = "di_incoming s" and e = "hc_read_epoch s" and q = q] by simp

lemma append_transcript_keeps: "I s \<Longrightarrow> I (append_transcript msg raw s)"
  by (simp add: append_transcript_def upd_transcript)

lemma handler_wp: "I s \<Longrightarrow> wp (handle_handshake_message env msg raw) (\<lambda>_. I) (\<lambda>_. I) s"
  by (simp add: wp_snd handler)

lemma drain_keeps_aux: "e = env \<Longrightarrow> I s \<Longrightarrow> I (snd (drain_pending e s))"
proof (induction e s rule: drain_pending.induct)
  case (1 e s)
  show ?case
  proof (cases "bt_get (hc_recv_message_seq s) (hc_pending_messages s)")
    case None
    then show ?thesis using 1 by (simp add: drain_pending.simps)
  next
    case (Some m)
    obtain msg raw where m: "m = (msg, raw)" by force
    let ?s = "append_transcript msg raw (s\<lparr>hc_pending_messages := bt_remove (hc_recv_message_seq s) (hc_pending_messages s)\<rparr>)"
    obtain r t where h: "handle_handshake_message e msg raw ?s = (r, t)" by force
    have t: "I t" using handler [of ?s msg raw] h 1 by (simp add: append_transcript_keeps upd_pending)
    show ?thesis
    proof (cases r)
      case (Inl f)
      with Some m h t show ?thesis by (simp add: drain_pending.simps)
    next
      case (Inr u)
      show ?thesis
      proof (cases "checked_suc (hc_recv_message_seq t) :: rtc_error fault + u16")
        case (Inl f)
        with Some m h Inr t show ?thesis by (simp add: drain_pending.simps)
      next
        case n: (Inr n)
        with Some m h Inr have "drain_pending e s = drain_pending e (t\<lparr>hc_recv_message_seq := n\<rparr>)"
          by (subst drain_pending.simps) simp
        with "1.IH" [OF Some m [symmetric] h [symmetric] Inr n] t "1.prems" show ?thesis by (simp add: upd_recv)
      qed
    qed
  qed
qed

lemma drain_keeps: "I s \<Longrightarrow> I (snd (drain_pending env s))"
  by (rule drain_keeps_aux [OF refl])

lemma resend_keeps: "I s \<Longrightarrow> wp resend_last_flight (\<lambda>_. I) (\<lambda>_. I) s"
  by (simp add: resend_last_flight_def transmit_def wp_simps upd_sent)

lemma deliver_keeps: "I s \<Longrightarrow> wp (deliver_message env msg raw) (\<lambda>_. I) (\<lambda>_. I) s"
  unfolding deliver_message_def wp_simps
  by (intro conjI allI impI, assumption, rule wp_mono [OF handler_wp])
    (simp_all add: append_transcript_keeps upd_recv wp_snd drain_keeps)

lemma accept_keeps: "I s \<Longrightarrow> wp (accept_message env msg raw) (\<lambda>_. I) (\<lambda>_. I) s"
proof -
  assume "I s"
  then have s: "I (s\<lparr>hc_post_hvr := False\<rparr>)" by (rule upd_hvr)
  obtain res r where r: "reassembly_push (hc_incomplete_fragments s) (message_seq msg) (unat (total_length msg))
      (fragment_offset msg) (msg_body msg) = (res, r)" by force
  then have "reassembly_ok r" using push_preserves_ok [OF fragments [OF \<open>I s\<close>]] by (metis snd_conv)
  with s r show ?thesis
    unfolding accept_message_def
    by (simp add: wp_simps deliver_keeps upd_fragments Let_def)
qed

lemma process_message_keeps: "I s \<Longrightarrow> wp (process_message env epoch msg raw) (\<lambda>_. I) (\<lambda>_. I) s"
  unfolding process_message_def duplicate_message_def Let_def wp_simps
  by (simp add: accept_keeps upd_recv_hvr handler_wp resend_keeps upd_resends upd_pending)

lemma payload_keeps_aux: "e = env \<Longrightarrow> I s \<Longrightarrow> I (snd (process_handshake_payload e epoch body s))"
proof (induction e epoch body s rule: process_handshake_payload.induct)
  case (1 e epoch body s)
  show ?case
  proof (cases "body = [] \<or> (\<forall>m rest. handshake_decode body \<noteq> Ok (Some (m, rest)))")
    case True
    then show ?thesis using "1.prems"
      by (subst process_handshake_payload.simps) (auto split: sum.splits fault.splits option.splits)
  next
    case False
    then obtain msg rest where d: "body \<noteq> []" "handshake_decode body = Ok (Some (msg, rest))" by blast
    obtain r t where h: "process_message e epoch msg (take (length body - length rest) body) s = (r, t)" by force
    have t: "I t" using process_message_keeps [of s epoch msg] h "1.prems" by (simp add: wp_snd) (metis snd_conv)
    show ?thesis
    proof (cases r)
      case (Inl f)
      with d h t show ?thesis by (subst process_handshake_payload.simps) simp
    next
      case (Inr u)
      with d h have "process_handshake_payload e epoch body s = process_handshake_payload e epoch rest t"
        by (subst process_handshake_payload.simps) simp
      with "1.IH" [OF d refl refl h [symmetric] Inr] t "1.prems" show ?thesis by simp
    qed
  qed
qed

lemma record_keeps: "I s \<Longrightarrow> I (snd (handle_decrypted_record env ct epoch payload s))"
proof (cases ct)
  case Alert
  assume "I s"
  with Alert show ?thesis
    by (auto simp: handle_decrypted_record_def ret_def set_state_def emod_def upd_ended split: list.splits)
qed (simp_all add: handle_decrypted_record_def emod_def ret_def upd_read_epoch upd_incoming payload_keeps_aux)

lemma packet_keeps_aux: "e = env \<Longrightarrow> I s \<Longrightarrow> I (snd (handle_incoming_packet e data s))"
proof (induction e data s rule: handle_incoming_packet.induct)
  case (1 e data s)
  show ?case
  proof (cases "data = [] \<or> (\<forall>r rest. dtls_record_decode data \<noteq> Ok (Some (r, rest)))")
    case True
    then show ?thesis using "1.prems"
      by (subst handle_incoming_packet.simps) (auto split: sum.splits fault.splits option.splits)
  next
    case False
    then obtain rc rest where d: "data \<noteq> []" "dtls_record_decode data = Ok (Some (rc, rest))" by blast
    show ?thesis
    proof (cases "try_decrypt_record e rc s")
      case (Inl f)
      then show ?thesis using d "1.prems" by (subst handle_incoming_packet.simps) (auto split: fault.splits)
    next
      case p: (Inr payload)
      obtain r t where h: "handle_decrypted_record e (rec_type rc) (rec_epoch rc) payload s = (r, t)" by force
      have t: "I t" using record_keeps [of s] h "1.prems" by (metis snd_conv)
      show ?thesis
      proof (cases r)
        case (Inl f)
        with d p h t show ?thesis by (subst handle_incoming_packet.simps) simp
      next
        case (Inr u)
        with d p h have "handle_incoming_packet e data s = handle_incoming_packet e rest t"
          by (subst handle_incoming_packet.simps) simp
        with "1.IH" [OF d refl refl p h [symmetric] Inr] t "1.prems" show ?thesis by simp
      qed
    qed
  qed
qed

lemma event_keeps: "I s \<Longrightarrow> task_event env ev s = (r, t) \<Longrightarrow> I t"
proof -
  assume s: "I s" and ev: "task_event env ev s = (r, t)"
  have "I (snd (task_event env ev s))"
  proof (cases ev)
    case (PacketReceived packet)
    obtain r' t' where h: "handle_incoming_packet env packet s = (r', t')" by force
    then have "I t'" using packet_keeps_aux [OF refl s] by (metis snd_conv)
    with PacketReceived h show ?thesis by (auto simp: task_event_def split: sum.splits fault.splits)
  next
    case CloseRequested
    with s have "wp (task_event env ev) (\<lambda>_. I) (\<lambda>_. I) s"
      by (simp add: task_event_def send_close_notify_def transmit_def wp_simps upd_sent split_beta Let_def)
    then show ?thesis by (simp add: wp_snd)
  next
    case RetransmitTick
    have "wp (task_event env ev) (\<lambda>_. I) (\<lambda>_. I) s"
      unfolding RetransmitTick task_event_def handle_retransmit_def dtls_event.case wp_simps
      using resend_keeps [OF s] s by (simp add: wp_simps)
    then show ?thesis by (simp add: wp_snd)
  qed (use s in \<open>simp_all add: task_event_def eget_def ethen_def ebind_def set_state_def emod_def ret_def
        dtls_err_def efail_def upd_ended\<close>)
  with ev show ?thesis by simp
qed

lemma send_record_keeps: "I s \<Longrightarrow> wp (send_record env crypto c) (\<lambda>_. I) (\<lambda>_. I) s"
  by (auto simp: send_record_def transmit_def dtls_err_def Let_def split_beta wp_simps upd_sent upd_write_seq)

lemma send_chunks_keeps: "I s \<Longrightarrow> wp (send_chunks env crypto cs) (\<lambda>_. I) (\<lambda>_. I) s"
proof (induction cs arbitrary: s)
  case (Cons c cs)
  then show ?case unfolding send_chunks.simps wp_simps by (intro wp_mono [OF send_record_keeps]) auto
qed (simp add: wp_simps)

lemma dtls_send_keeps: "I s \<Longrightarrow> dtls_send env data s = (r, t) \<Longrightarrow> I t"
proof -
  assume "I s" and d: "dtls_send env data s = (r, t)"
  then have "wp (dtls_send env data) (\<lambda>_. I) (\<lambda>_. I) s"
    by (cases "di_state s") (simp_all add: dtls_send_def wp_simps send_chunks_keeps)
  with d show ?thesis by (simp add: wp_snd)
qed

theorem run_invariant:
  assumes "dtls_run env fp b s"
    and "\<And>public secret s. env_ecdh env = Ok (public, secret)
      \<Longrightarrow> start_handshake env (handshake_context_new (inner_new\<lparr>di_state := StHandshaking, di_published := StHandshaking\<rparr>)
          fp public secret) = (Ok (), s) \<Longrightarrow> I s"
  shows "I s"
  using assms(1)
proof (induction rule: dtls_run.induct)
  case (failed s ev e t)
  then show ?case using event_keeps upd_ended unfolding runner_failed_def by blast
qed (use assms(2) event_keeps dtls_send_keeps in blast)+

end

section \<open>One message in its turn\<close>

text \<open>A plaintext record with one unfragmented message whose turn it is, and nothing buffered: the datagram
  is the handler, after the bookkeeping.\<close>

definition plain_record :: "u64 \<Rightarrow> handshake_message \<Rightarrow> dtls_record" where
  "plain_record sq msg = \<lparr>rec_type = Handshake, rec_version = DTLS_1_2, rec_epoch = 0, rec_seq = sq,
     rec_payload = handshake_encode msg\<rparr>"

definition in_turn :: "handshake_message \<Rightarrow> handshake_context \<Rightarrow> handshake_context" where
  "in_turn msg s = append_transcript msg (handshake_encode msg)
     (s\<lparr>hc_post_hvr := False, hc_recv_message_seq := hc_recv_message_seq s + 1\<rparr>)"

lemma payload_in_turn:
  assumes "message_fits msg" "total_length msg = fragment_length msg" "message_seq msg = hc_recv_message_seq s"
    and "hc_pending_messages s = []" and "message_seq msg \<noteq> - 1"
  shows "process_handshake_payload env epoch (handshake_encode msg) s
    = handle_handshake_message env msg (handshake_encode msg) (in_turn msg s)"
proof -
  have ne: "handshake_encode msg \<noteq> []" by (simp add: handshake_encode_def)
  have d: "handshake_decode (handshake_encode msg) = Ok (Some (msg, []))"
    using handshake_decode_encode [OF assms(1), of "[]"] by simp
  obtain r t where h: "handle_handshake_message env msg (handshake_encode msg) (in_turn msg s) = (r, t)" by force
  have "hc_pending_messages t = []"
    using bk.keepsD [OF handler_keeps_bookkeeping h] assms(4) by (simp add: same_bookkeeping_def in_turn_def)
  then have dr: "drain_pending env t = (Ok (), t)" by (simp add: drain_pending.simps bt_get_def)
  have "process_message env epoch msg (handshake_encode msg) s = (r, t)"
    using assms h dr unfolding in_turn_def
    by (cases r) (simp_all add: process_message_def accept_message_def deliver_message_def Let_def eget_def
        ethen_def ebind_def emod_def elift_def checked_suc_def)
  with d ne h show ?thesis
    by (subst process_handshake_payload.simps) (cases r; simp add: process_handshake_payload.simps)
qed

lemma packet_in_turn:
  assumes "message_fits msg" "total_length msg = fragment_length msg" "message_seq msg = hc_recv_message_seq s"
    and "hc_pending_messages s = []" and "message_seq msg \<noteq> - 1" and "length (msg_body msg) < 60000" and "take_bit 48 sq = sq"
  shows "task_event env (PacketReceived (dtls_record_encode (plain_record sq msg))) s
    = (case handle_handshake_message env msg (handshake_encode msg) (in_turn msg s) of
         (Inl (Err e), t) \<Rightarrow> if di_state t = StFailed then (Fail e, t) else (Ok True, t)
       | (Inl Panic, t) \<Rightarrow> (Panicked, t)
       | (Inr _, t) \<Rightarrow> (Ok True, t))"
proof -
  let ?r = "plain_record sq msg"
  have ne: "dtls_record_encode ?r \<noteq> []" by (simp add: dtls_record_encode_def)
  have "record_fits ?r" using assms(6,7) by (simp add: record_fits_def plain_record_def length_handshake_encode)
  then have d: "dtls_record_decode (dtls_record_encode ?r) = Ok (Some (?r, []))"
    using record_decode_encode [of ?r "[]"] by simp
  have p: "try_decrypt_record env ?r s = Ok (handshake_encode msg)"
    by (simp add: try_decrypt_record_def plain_record_def)
  have "handle_incoming_packet env (dtls_record_encode ?r) s
      = (case handle_decrypted_record env Handshake 0 (handshake_encode msg) s of
           (Inl f, s) \<Rightarrow> (Inl f, s) | (Inr _, s) \<Rightarrow> (Ok (), s))"
    using d p ne by (subst handle_incoming_packet.simps)
      (simp add: plain_record_def handle_incoming_packet.simps split: prod.splits sum.splits)
  also have "\<dots> = handle_handshake_message env msg (handshake_encode msg) (in_turn msg s)"
    using payload_in_turn [OF assms(1-5), of env 0]
    by (simp add: handle_decrypted_record_def split: prod.splits sum.splits)
  finally show ?thesis by (simp add: task_event_def)
qed

end
