(* ===== verification/Dtls_Panic.thy ===== *)
theory Dtls_Panic
  imports Dtls_Session
begin

text \<open>
  The task of a DTLS connection panics only where the hello decoders do and where a counter overflows. The invariant keeps what
  the indexing of the handlers relies on: randoms of 32 bytes, implicit nonces of four, and a consistent
  reassembly buffer. The crypto backend is taken to return its errors, not to panic.
\<close>

definition backend_total :: "dtls_env \<Rightarrow> bool" where
  "backend_total env \<longleftrightarrow>
     (\<forall>p. verifying_key_from_point (env_crypto env) p \<noteq> Panicked
        \<and> (\<forall>v m s. verifying_key_from_point (env_crypto env) p = Ok v \<longrightarrow> v m s \<noteq> Panicked))
     \<and> (\<forall>d. signing_key_from_pkcs8 (env_crypto env) d \<noteq> Panicked
        \<and> (\<forall>sg m. signing_key_from_pkcs8 (env_crypto env) d = Ok sg \<longrightarrow> sg m \<noteq> Panicked))
     \<and> (\<forall>public secret p. env_ecdh env = Ok (public, secret) \<longrightarrow> secret p \<noteq> Panicked)"

definition iv_ok :: "session_keys \<Rightarrow> bool" where
  "iv_ok ks \<longleftrightarrow> length (client_write_iv ks) = 4 \<and> length (server_write_iv ks) = 4"

definition wf_session :: "handshake_context \<Rightarrow> bool" where
  "wf_session s \<longleftrightarrow> reassembly_ok (hc_incomplete_fragments s)
     \<and> (\<forall>cr. hc_client_random s = Some cr \<longrightarrow> length cr = 32)
     \<and> (\<forall>ks. hc_session_keys s = Some ks \<longrightarrow> iv_ok ks) \<and> (\<forall>ks. hc_session_crypto s = Some ks \<longrightarrow> iv_ok ks)
     \<and> (\<forall>ks p. di_state s = StConnected ks p \<longrightarrow> iv_ok ks)
     \<and> (\<forall>f p. hc_local_secret s = Some f \<longrightarrow> f p \<noteq> Panicked)"

text \<open>A counter of the connection that stands at its last value: the next increment panics.\<close>

definition counter_full :: "handshake_context \<Rightarrow> bool" where
  "counter_full s \<longleftrightarrow>
     hc_recv_message_seq s = - 1 \<or> hc_message_seq s = - 1 \<or> hc_epoch s = - 1 \<or> hc_sequence_number s = - 1"

lemma counter_fullI [simp]:
  "hc_recv_message_seq s = - 1 \<Longrightarrow> counter_full s" "hc_message_seq s = - 1 \<Longrightarrow> counter_full s"
  "hc_epoch s = - 1 \<Longrightarrow> counter_full s" "hc_sequence_number s = - 1 \<Longrightarrow> counter_full s"
  by (simp_all add: counter_full_def)

abbreviation safe :: "'a dtls \<Rightarrow> handshake_context \<Rightarrow> bool" where
  "safe m s \<equiv> wp m (\<lambda>_. wf_session) (\<lambda>f t. wf_session t \<and> (f = Panic \<longrightarrow> counter_full t)) s"

lemma wf_fail: "wf_session s \<Longrightarrow> safe (ethen (set_state StFailed) (efail e)) s"
  by (simp add: set_state_def wp_simps wf_session_def)

lemma own_write_key_iv: "iv_ok ks \<Longrightarrow> length (snd (own_write_key c ks)) = 4"
  by (simp add: own_write_key_def iv_ok_def)

lemma build_record_safe:
  assumes "wf_session s" and "\<And>ks. keys = Some ks \<Longrightarrow> iv_ok ks"
  shows "wp (build_handshake_record env msg ep keys)
     (\<lambda>_ t. wf_session t \<and> hc_session_keys t = hc_session_keys s)
     (\<lambda>f t. wf_session t \<and> (f = Panic \<longrightarrow> counter_full t)) s"
proof -
  have "encrypt_record C ct v q p k (snd (own_write_key c ks)) \<noteq> Panicked" if "keys = Some ks" for C ct v q p k c ks
    using encrypt_no_panic own_write_key_iv assms(2) that by blast
  with assms(1) show ?thesis
    by (auto simp: build_handshake_record_def Let_def wp_simps split_beta wf_session_def)
qed

lemma emit_safe:
  assumes "wf_session s" and "\<And>ks. keys = Some ks \<Longrightarrow> iv_ok ks"
  shows "wp (emit_message env ty body keys)
     (\<lambda>_ t. wf_session t \<and> hc_session_keys t = hc_session_keys s)
     (\<lambda>f t. wf_session t \<and> (f = Panic \<longrightarrow> counter_full t)) s"
proof -
  have "wf_session (s\<lparr>hc_handshake_messages := h\<rparr>)" for h using assms(1) by (simp add: wf_session_def)
  from build_record_safe [OF this] assms(2) show ?thesis
    by (simp add: emit_message_def Let_def wp_simps)
qed

lemma emit_plain_safe:
  "wf_session s \<Longrightarrow> (\<And>x t. wf_session t \<Longrightarrow> safe (k x) t) \<Longrightarrow> safe (ebind (emit_message env ty body None) k) s"
  unfolding wp_ebind by (rule wp_mono [OF emit_safe]) auto

lemma random_new_safe:
  assumes "wf_session s" and "\<And>r t. wf_session t \<Longrightarrow> length (random_bytes r) = 28 \<Longrightarrow> safe (k r) t"
  shows "safe (ebind (random_new env) k) s"
proof -
  have "wf_session (s\<lparr>di_draws := n\<rparr>)" for n using assms(1) by (simp add: wf_session_def)
  with assms(2) show ?thesis by (simp add: random_new_def rng_fill_def wp_simps)
qed

lemma next_safe: "wf_session s \<Longrightarrow> (\<And>t. wf_session t \<Longrightarrow> safe k t) \<Longrightarrow> safe (ethen next_message_seq k) s"
  by (simp add: next_message_seq_def wp_simps wf_session_def)

lemma io_safe: "wf_session s \<Longrightarrow> safe (send_flight rs) s" "wf_session s \<Longrightarrow> safe resend_last_flight s"
    "wf_session s \<Longrightarrow> safe next_message_seq s"
  by (auto simp: send_flight_def resend_last_flight_def transmit_def next_message_seq_def wp_simps wf_session_def)

lemma elift_safe:
  "wf_session s \<Longrightarrow> r \<noteq> Panicked \<Longrightarrow> (\<And>x. r = Ok x \<Longrightarrow> safe (k x) s) \<Longrightarrow> safe (ebind (elift r) k) s"
  by (auto simp: wp_simps)

lemma eget_safe: "safe (k s) s \<Longrightarrow> safe (eget k) s"
  by (simp add: wp_eget)

lemmas safe_intros = emit_plain_safe next_safe elift_safe eget_safe io_safe random_new_safe

lemma server_flight_safe:
  assumes "backend_total env" "wf_session s"
  shows "safe (server_flight env ch r sid suite) s"
proof -
  have b: "signing_key_from_pkcs8 (env_crypto env) d \<noteq> Panicked"
    "signing_key_from_pkcs8 (env_crypto env) d = Ok sg \<Longrightarrow> sg m \<noteq> Panicked" for d sg m
    using assms(1) by (auto simp: backend_total_def)
  show ?thesis
    unfolding server_flight_def Let_def by (intro safe_intros b; (rule assms(2) | assumption))
qed

definition hello_34 :: "handshake_message \<Rightarrow> bool" where
  "hello_34 msg \<longleftrightarrow> (msg_type msg = ClientHello \<or> msg_type msg = ServerHello) \<and> length (msg_body msg) = 34"

abbreviation safe_unless :: "bool \<Rightarrow> 'a dtls \<Rightarrow> handshake_context \<Rightarrow> bool" where
  "safe_unless b m s \<equiv> wp m (\<lambda>_. wf_session) (\<lambda>f t. wf_session t \<and> (f = Panic \<longrightarrow> b \<or> counter_full t)) s"

lemma safe_weaken: "safe m s \<Longrightarrow> safe_unless b m s"
  by (erule wp_mono) auto

lemma client_hello_random: "client_hello_decode buf = Ok (ch, rest) \<Longrightarrow> length (random_bytes (ch_random ch)) = 28"
  by (auto simp: client_hello_decode_def hello_front_def rbind_Inr_iff bail_def cursor_ok split: if_splits)

lemma client_hello_safe:
  assumes "backend_total env" "wf_session s"
  shows "safe_unless (length (msg_body msg) = 34) (handle_client_hello env msg) s"
proof -
  have accepted: "safe (ethen (emod (\<lambda>s. s\<lparr>hc_client_random := Some (random_encode (ch_random ch)),
                            hc_ems_negotiated := hc_ems_negotiated s \<or> offers_ems (ch_extensions ch)\<rparr>))
        (ebind (random_new env) (\<lambda>random.
        ethen (emod (\<lambda>s. s\<lparr>hc_server_random := Some (random_encode random)\<rparr>))
        (ethen (case select_srtp_profile (offered_srtp_profiles (ch_extensions ch)) of
            None \<Rightarrow> ret ()
          | Some p \<Rightarrow> emod (\<lambda>s. s\<lparr>hc_srtp_profile := Some p\<rparr>))
        (ebind (rng_fill env 32) (\<lambda>session_id.
        case negotiate_cipher_suite (ch_cipher_suites ch) of
          None \<Rightarrow> ethen send_handshake_failure_alert (ethen (set_state StFailed)
            (dtls_err ''ClientHello offers no supported cipher suite (need 0xC02B)''))
        | Some suite \<Rightarrow> server_flight env ch random session_id suite)))))) s"
    if "length (random_bytes (ch_random ch)) = 28" for ch
  proof -
    have "wf_session (s\<lparr>hc_client_random := Some (random_encode (ch_random ch)), hc_ems_negotiated := b\<rparr>)" for b
      using assms(2) that by (simp add: wf_session_def)
    moreover have "safe (server_flight env ch r sid suite) (t\<lparr>di_draws := n\<rparr>)" if "wf_session t" for t r sid suite n
      using server_flight_safe [OF assms(1)] that by (simp add: wf_session_def)
    moreover have "wf_session (t\<lparr>di_draws := n\<rparr>)" "wf_session (t\<lparr>hc_server_random := v\<rparr>)" "wf_session (t\<lparr>hc_srtp_profile := w\<rparr>)"
      "wf_session (t\<lparr>di_sent := x\<rparr>)" if "wf_session t" for t n v w x
      using that by (simp_all add: wf_session_def)
    ultimately show ?thesis
      by (auto simp: random_new_def rng_fill_def wp_simps send_handshake_failure_alert_def transmit_def dtls_err_def
          intro!: wf_fail [unfolded wp_ethen])
  qed
  show ?thesis
    unfolding handle_client_hello_def wp_if wp_eget wp_rmatch
    using assms(2) client_hello_panic_iff [of "msg_body msg"]
    by (auto simp: wp_ret intro!: safe_weaken io_safe accepted dest: client_hello_random)
qed

lemma derive_keys_total [simp]: "derive_keys C ems tr pm cr sr \<noteq> Panicked"
  by (auto simp: derive_keys_def rbind_Inl_iff)

lemma derive_keys_iv: "derive_keys C ems tr pm cr sr = Ok ks \<Longrightarrow> iv_ok ks"
  by (auto simp: derive_keys_def rbind_Inr_iff iv_ok_def dest: expand_keys_ok)

lemma with_session_keys_safe:
  assumes "wf_session s" and "\<And>ks. iv_ok ks \<Longrightarrow> safe (k ks) s"
  shows "safe (with_session_keys env k) s"
proof -
  have "f p \<noteq> Panicked" if "hc_local_secret s = Some f" for f p using assms(1) that by (simp add: wf_session_def)
  with assms show ?thesis unfolding with_session_keys_def by (auto simp: wp_simps dest: derive_keys_iv)
qed

lemma create_session_crypto_total [simp]: "create_session_crypto C ks \<noteq> Panicked"
  by (simp add: create_session_crypto_def)

lemma install_safe: "iv_ok ks \<Longrightarrow> wf_session s \<Longrightarrow> safe (install_keys env ks) s"
  by (auto simp: install_keys_def wp_simps wf_session_def create_session_crypto_def bail_def)

lemma client_key_exchange_safe:
  assumes "wf_session s"
  shows "safe (handle_client_key_exchange env msg) s"
proof -
  have "wf_session (s\<lparr>hc_peer_public_key := p\<rparr>)" for p using assms by (simp add: wf_session_def)
  with assms show ?thesis
    unfolding handle_client_key_exchange_def
    by (auto simp: wp_simps client_key_exchange_no_panic intro!: with_session_keys_safe install_safe)
qed

lemma become_connected_safe: "iv_ok ks \<Longrightarrow> wf_session s \<Longrightarrow> safe (become_connected env ks) s"
  by (auto simp: become_connected_def set_state_def wp_simps wf_session_def create_session_crypto_def bail_def)

lemma change_cipher_spec_safe:
  "wf_session s \<Longrightarrow> (\<And>c t. wf_session t \<Longrightarrow> hc_session_keys t = hc_session_keys s \<Longrightarrow> safe (k c) t)
     \<Longrightarrow> safe (ebind change_cipher_spec k) s"
  by (simp add: change_cipher_spec_def wp_simps wf_session_def)

lemma emit_keys_safe:
  assumes "wf_session s" and "keys = hc_session_keys s"
    and "\<And>x t. wf_session t \<Longrightarrow> hc_session_keys t = hc_session_keys s \<Longrightarrow> safe (k x) t"
  shows "safe (ebind (emit_message env ty body keys) k) s"
  unfolding wp_ebind
proof (rule wp_mono [OF emit_safe [OF assms(1)]])
  show "iv_ok ks" if "keys = Some ks" for ks using that assms(1,2) by (simp add: wf_session_def)
qed (use assms(3) in auto)

lemma flight_then_safe:
  "wf_session s \<Longrightarrow> (\<And>t. wf_session t \<Longrightarrow> hc_session_keys t = hc_session_keys s \<Longrightarrow> safe k t)
     \<Longrightarrow> safe (ethen (send_flight rs) k) s"
  by (simp add: send_flight_def transmit_def wp_simps wf_session_def)

lemma check_finished_safe: "wf_session s \<Longrightarrow> safe (check_finished env ks l vd) s"
  by (auto simp: check_finished_def dtls_err_def wp_simps) (simp add: wf_session_def)

lemma server_finished_safe:
  assumes "wf_session s"
  shows "safe (server_finished env raw) s"
proof -
  have w: "wf_session (s\<lparr>hc_handshake_messages := h\<rparr>)" for h using assms by (simp add: wf_session_def)
  have iv: "iv_ok ks" if "wf_session t" "hc_session_keys t = Some ks" for t ks
    using that by (simp add: wf_session_def)
  have fin: "safe (case hc_session_keys t of Some keys \<Rightarrow> become_connected env keys
      | None \<Rightarrow> ethen (set_state StFailed) (dtls_err ''Session keys not derived'')) u"
    if "wf_session t" "wf_session u" for t u
    using that iv by (cases "hc_session_keys t") (auto simp: dtls_err_def intro: become_connected_safe wf_fail)
  have vd: "safe (ebind (case v of Some keys \<Rightarrow> elift (calculate_verify_data C (m keys) l tr) | None \<Rightarrow> ret d) k) t"
    if "wf_session t" "\<And>vd. safe (k vd) t" for v C m l tr d k t
    using that by (cases v) (auto simp: wp_simps)
  have "safe (ebind (emit_message env Finished (finished_encode vd) (hc_session_keys t)) (\<lambda>fin.
      ethen (send_flight [ccs, fin]) (case hc_session_keys t of Some keys \<Rightarrow> become_connected env keys
      | None \<Rightarrow> ethen (set_state StFailed) (dtls_err ''Session keys not derived'')))) t"
    if "wf_session t" for vd ccs t
    using that by (intro emit_keys_safe flight_then_safe fin) auto
  note emit = this
  show ?thesis
    unfolding server_finished_def
    by (simp only: wp_ethen wp_emod) (intro change_cipher_spec_safe eget_safe vd emit w; assumption)
qed

lemma finished_safe:
  assumes "wf_session s"
  shows "safe (handle_finished env msg raw) s"
proof -
  have iv: "iv_ok ks" if "hc_session_keys s = Some ks" for ks using that assms by (simp add: wf_session_def)
  have c: "wp (check_finished env ks l vd) (\<lambda>_. safe k) (\<lambda>f t. wf_session t \<and> (f = Panic \<longrightarrow> counter_full t)) s"
    if "\<And>t. wf_session t \<Longrightarrow> safe k t" for ks l vd k
    using that by (intro wp_mono [OF check_finished_safe [OF assms]]) auto
  show ?thesis
    unfolding handle_finished_def
    using assms iv by (auto simp: wp_simps intro!: c server_finished_safe become_connected_safe)
qed

lemma random_of_bytes_total: "length bs = 32 \<Longrightarrow> random_of_bytes bs \<noteq> Panicked"
  by (auto simp: random_of_bytes_def rbind_Inl_iff)

lemma hello_verify_request_safe:
  assumes "wf_session s"
  shows "safe (handle_hello_verify_request env msg) s"
proof -
  have w: "wf_session (s\<lparr>hc_handshake_messages := h\<rparr>)" for h using assms by (simp add: wf_session_def)
  have hvr: "safe (emod (\<lambda>s. s\<lparr>hc_post_hvr := True\<rparr>)) t" if "wf_session t" for t
    using that by (simp add: wp_emod wf_session_def)
  have rest: "safe (ebind (emit_message env ClientHello body None) (\<lambda>r. ethen (send_flight [r])
      (ethen next_message_seq (emod (\<lambda>s. s\<lparr>hc_post_hvr := True\<rparr>))))) t" if "wf_session t" for body t
    using that by (intro emit_plain_safe flight_then_safe next_safe hvr)
  have "safe (eget (\<lambda>s. ebind (case hc_client_random s of Some bs \<Rightarrow> elift (random_of_bytes bs)
        | None \<Rightarrow> random_new env) (\<lambda>random. ebind (emit_message env ClientHello (g random) None) (\<lambda>r.
        ethen (send_flight [r]) (ethen next_message_seq (emod (\<lambda>s. s\<lparr>hc_post_hvr := True\<rparr>)))))))
      (s\<lparr>hc_handshake_messages := h\<rparr>)" for g h
  proof (cases "hc_client_random s")
    case None
    with w show ?thesis by (simp add: wp_eget) (intro random_new_safe rest)
  next
    case (Some bs)
    then have "random_of_bytes bs \<noteq> Panicked" using assms by (intro random_of_bytes_total) (simp add: wf_session_def)
    with Some w show ?thesis by (simp add: wp_eget) (intro elift_safe rest)
  qed
  then show ?thesis
    unfolding handle_hello_verify_request_def using assms
    by (auto simp: wp_rmatch wp_ret wp_ethen wp_emod hello_verify_request_no_panic)
qed

lemma wf_fold: "wf_session s \<Longrightarrow> wf_session (fold apply_server_extension xs s)"
proof (induction xs arbitrary: s)
  case (Cons x xs)
  have "wf_session (apply_server_extension x s)"
    using Cons.prems by (auto simp: apply_server_extension_def wf_session_def split: prod.splits)
  with Cons show ?case by simp
qed simp

lemma server_hello_safe:
  assumes "wf_session s"
  shows "safe_unless (length (msg_body msg) = 34) (handle_server_hello env msg) s"
proof -
  have "wf_session (s\<lparr>hc_server_random := r\<rparr>)" for r using assms by (simp add: wf_session_def)
  with assms show ?thesis
    unfolding handle_server_hello_def dtls_err_def
    using server_hello_panic_iff [of "msg_body msg"]
    by (auto simp: wp_if wp_ret wp_rmatch wp_emod intro!: safe_weaken [OF wf_fail] wf_fold)
qed

lemma certificate_public_key_total:
  assumes "backend_total env"
  shows "certificate_public_key (env_crypto env) c \<noteq> Panicked"
    "certificate_public_key (env_crypto env) c = Ok v \<Longrightarrow> v m sg \<noteq> Panicked"
  using assms extract_p256_point_no_panic [of c]
  by (auto simp: certificate_public_key_def backend_total_def rbind_Inl_iff rbind_Inr_iff)

lemma certificate_safe:
  assumes "backend_total env" "wf_session s"
  shows "safe (handle_certificate env msg) s"
proof -
  have "wf_session (s\<lparr>hc_peer_certificate := c\<rparr>)" for c using assms(2) by (simp add: wf_session_def)
  then show ?thesis
    unfolding handle_certificate_def Let_def dtls_err_def
    using certificate_message_no_panic [of "msg_body msg"] certificate_public_key_total(1) [OF assms(1)] assms(2)
    by (auto simp: wp_ebind wp_elift wp_eget wp_rmatch wp_option wp_if wp_emod wf_fail split: prod.splits list.splits)
qed

lemma verify_signature_total:
  "backend_total env \<Longrightarrow> verify_server_key_exchange_signature (env_crypto env) c cr sr ske \<noteq> Panicked"
proof
  assume b: "backend_total env" and "verify_server_key_exchange_signature (env_crypto env) c cr sr ske = Panicked"
  then obtain v where c: "certificate_public_key (env_crypto env) c = Ok v"
    and v: "(case v (signed_params cr sr ske) (ske_signature ske) of
          Inl (Err e) \<Rightarrow> bail (''ServerKeyExchange signature verification failed: '' @ show_error e)
        | r \<Rightarrow> r) = Panicked"
    using certificate_public_key_total(1) [OF b, of c]
    unfolding verify_server_key_exchange_signature_def rbind_Inl_iff by (auto simp: rbind_Inl_iff split: if_splits)
  have "v (signed_params cr sr ske) (ske_signature ske) = Panicked"
    using v by (cases "v (signed_params cr sr ske) (ske_signature ske)") (auto split: fault.splits)
  then show False using certificate_public_key_total(2) [OF b c] by blast
qed

lemma server_key_exchange_safe:
  assumes "backend_total env" "wf_session s"
  shows "safe (handle_server_key_exchange env msg) s"
proof -
  have "wf_session (s\<lparr>hc_peer_public_key := p, hc_ske_verified := True\<rparr>)" for p
    using assms(2) by (simp add: wf_session_def)
  then show ?thesis
    unfolding handle_server_key_exchange_def dtls_err_def
    using server_key_exchange_no_panic [of "msg_body msg"] verify_signature_total [OF assms(1)] assms(2)
    by (auto simp: wp_if wp_ret wp_eget wp_rmatch wp_emod wf_fail split: option.splits)
qed

lemma server_hello_done_safe:
  assumes "wf_session s"
  shows "safe (handle_server_hello_done env) s"
proof -
  have tail: "safe (ebind change_cipher_spec (\<lambda>ccs. eget (\<lambda>s.
       ebind (elift (calculate_verify_data (env_crypto env) (master_secret keys) ''client finished''
         (hc_handshake_messages s))) (\<lambda>verify_data.
       ebind (emit_message env Finished (finished_encode verify_data) (hc_session_keys s)) (\<lambda>fin.
       ethen (send_flight [cke, ccs, fin]) next_message_seq))))) t"
    if "wf_session t" for cke keys t
    using that by (intro change_cipher_spec_safe eget_safe elift_safe emit_keys_safe flight_then_safe io_safe) simp_all
  have inst: "safe (ethen (install_keys env ks) k) t" if "iv_ok ks" "wf_session t" "\<And>u. wf_session u \<Longrightarrow> safe k u" for ks k t
    unfolding wp_ethen using that by (intro wp_mono [OF install_safe]) auto
  show ?thesis
    unfolding handle_server_hello_done_def dtls_err_def wp_eget wp_if
    using assms by (auto simp: wp_ret wf_fail intro!: emit_plain_safe next_safe with_session_keys_safe inst tail)
qed

lemma handler_safe:
  assumes "backend_total env" "wf_session s"
  shows "safe_unless (hello_34 msg) (handle_handshake_message env msg raw) s"
proof -
  note h = client_key_exchange_safe finished_safe hello_verify_request_safe certificate_safe
    server_key_exchange_safe server_hello_done_safe
  show ?thesis
    using assms client_hello_safe [OF assms, of msg] server_hello_safe [OF assms(2), where msg = msg and env = env]
    unfolding handle_handshake_message_def hello_34_def
    by (cases "msg_type msg") (simp_all add: h wp_ret)
qed

section \<open>From the handlers to the task\<close>

text \<open>
  The interface of \<open>session_invariant\<close> extended by the faults: where the handlers panic only on the
  messages \<open>bad\<close> or at a full counter, and opening a record does not panic, the task panics only in a handler
  on a bad message or at a full counter.
\<close>

locale session_safe = session_invariant env I for env I +
  fixes bad :: "handshake_message \<Rightarrow> bool"
  assumes handler_panic: "I s \<Longrightarrow> handle_handshake_message env msg raw s = (Panicked, t) \<Longrightarrow> bad msg \<or> counter_full t"
    and decrypt_total: "I s \<Longrightarrow> try_decrypt_record env r s \<noteq> Panicked"
    and encrypt_total: "I s \<Longrightarrow> hc_session_keys s = Some keys \<Longrightarrow> length (snd (own_write_key c keys)) = 4"
begin

definition bad_panic :: "handshake_context \<Rightarrow> bool" where
  "bad_panic t \<longleftrightarrow> counter_full t \<or> (\<exists>msg raw u. bad msg \<and> I u \<and> handle_handshake_message env msg raw u = (Panicked, t))"

abbreviation guarded :: "'a dtls \<Rightarrow> handshake_context \<Rightarrow> bool" where
  "guarded m s \<equiv> wp m (\<lambda>_. I) (\<lambda>f t. I t \<and> (f = Panic \<longrightarrow> bad_panic t)) s"

lemma guarded_iff: "guarded m s \<longleftrightarrow> I (snd (m s)) \<and> (fst (m s) = Panicked \<longrightarrow> bad_panic (snd (m s)))"
  by (auto simp: wp_def split: prod.splits sum.splits)

lemma handler_guarded: "I s \<Longrightarrow> guarded (handle_handshake_message env msg raw) s"
proof -
  assume s: "I s"
  obtain r t where h: "handle_handshake_message env msg raw s = (r, t)" by force
  then have "I t" using handler [OF s, of msg raw] by simp
  with s h handler_panic [OF s, of msg raw t] show ?thesis unfolding guarded_iff by (auto simp: bad_panic_def)
qed

lemma drain_guarded_aux: "e = env \<Longrightarrow> I s \<Longrightarrow> guarded (drain_pending e) s"
proof (induction e s rule: drain_pending.induct)
  case (1 e s)
  show ?case
  proof (cases "bt_get (hc_recv_message_seq s) (hc_pending_messages s)")
    case None
    then show ?thesis using "1.prems" by (simp add: guarded_iff drain_pending.simps)
  next
    case (Some m)
    obtain msg raw where m: "m = (msg, raw)" by force
    let ?s = "append_transcript msg raw (s\<lparr>hc_pending_messages := bt_remove (hc_recv_message_seq s) (hc_pending_messages s)\<rparr>)"
    obtain r t where h: "handle_handshake_message e msg raw ?s = (r, t)" by force
    have t: "guarded (handle_handshake_message e msg raw) ?s"
      using handler_guarded "1.prems" by (simp add: append_transcript_keeps upd_pending)
    show ?thesis
    proof (cases r)
      case (Inl f)
      with Some m h t show ?thesis by (simp add: guarded_iff drain_pending.simps)
    next
      case (Inr u)
      show ?thesis
      proof (cases "checked_suc (hc_recv_message_seq t) :: rtc_error fault + u16")
        case (Inl f)
        with Some m h Inr have "drain_pending e s = (Panicked, t)" by (subst drain_pending.simps) simp
        moreover have "bad_panic t" using Inl by (simp add: bad_panic_def)
        ultimately show ?thesis using t h by (simp add: guarded_iff)
      next
        case n: (Inr n)
        with Some m h Inr have "drain_pending e s = drain_pending e (t\<lparr>hc_recv_message_seq := n\<rparr>)"
          by (subst drain_pending.simps) simp
        with "1.IH" [OF Some m [symmetric] h [symmetric] Inr n] t h "1.prems" show ?thesis
          by (simp add: guarded_iff upd_recv)
      qed
    qed
  qed
qed

lemma deliver_guarded: "I s \<Longrightarrow> guarded (deliver_message env msg raw) s"
  unfolding deliver_message_def wp_simps
  by (intro conjI allI impI, assumption, simp add: bad_panic_def, rule wp_mono [OF handler_guarded])
    (simp_all add: append_transcript_keeps upd_recv drain_guarded_aux)

lemma accept_guarded: "I s \<Longrightarrow> guarded (accept_message env msg raw) s"
proof -
  assume "I s"
  then have s: "I (s\<lparr>hc_post_hvr := False\<rparr>)" by (rule upd_hvr)
  obtain res r where r: "reassembly_push (hc_incomplete_fragments s) (message_seq msg) (unat (total_length msg))
      (fragment_offset msg) (msg_body msg) = (res, r)" by force
  then have "reassembly_ok r" "res \<noteq> Panicked"
    using push_preserves_ok [OF fragments [OF \<open>I s\<close>]] by (metis snd_conv, metis fst_conv)
  with s r show ?thesis
    unfolding accept_message_def
    by (simp add: wp_simps deliver_guarded upd_fragments Let_def)
qed

lemma process_message_guarded: "I s \<Longrightarrow> guarded (process_message env epoch msg raw) s"
proof -
  assume s: "I s"
  have "guarded resend_last_flight t" if "I t" for t
    using that by (simp add: resend_last_flight_def transmit_def wp_simps upd_sent)
  with s show ?thesis
    unfolding process_message_def duplicate_message_def Let_def wp_simps
    by (simp add: accept_guarded upd_recv_hvr handler_guarded upd_resends upd_pending)
qed

lemma payload_guarded_aux: "e = env \<Longrightarrow> I s \<Longrightarrow> guarded (process_handshake_payload e epoch body) s"
proof (induction e epoch body s rule: process_handshake_payload.induct)
  case (1 e epoch body s)
  show ?case
  proof (cases "body = [] \<or> (\<forall>m rest. handshake_decode body \<noteq> Ok (Some (m, rest)))")
    case True
    then show ?thesis using "1.prems" handshake_decode_no_panic [of body]
      by (simp add: guarded_iff) (subst (1 2 3) process_handshake_payload.simps, auto split: sum.splits fault.splits option.splits)
  next
    case False
    then obtain msg rest where d: "body \<noteq> []" "handshake_decode body = Ok (Some (msg, rest))" by blast
    let ?p = "process_message e epoch msg (take (length body - length rest) body)"
    obtain r t where h: "?p s = (r, t)" by force
    have t: "guarded ?p s" using process_message_guarded "1.prems" by simp
    show ?thesis
    proof (cases r)
      case (Inl f)
      with d h have "process_handshake_payload e epoch body s = (Inl f, t)"
        by (subst process_handshake_payload.simps) simp
      with t h Inl show ?thesis by (simp add: guarded_iff)
    next
      case (Inr u)
      with d h have "process_handshake_payload e epoch body s = process_handshake_payload e epoch rest t"
        by (subst process_handshake_payload.simps) simp
      with "1.IH" [OF d refl refl h [symmetric] Inr] t h "1.prems" show ?thesis by (simp add: guarded_iff)
    qed
  qed
qed

lemma record_guarded: "I s \<Longrightarrow> guarded (handle_decrypted_record env ct epoch payload) s"
proof (cases ct)
  case Alert
  assume "I s"
  with Alert show ?thesis
    by (auto simp: handle_decrypted_record_def wp_simps set_state_def upd_ended split: list.splits)
qed (simp_all add: handle_decrypted_record_def wp_simps upd_read_epoch upd_incoming payload_guarded_aux)

lemma packet_guarded_aux: "e = env \<Longrightarrow> I s \<Longrightarrow> guarded (handle_incoming_packet e data) s"
proof (induction e data s rule: handle_incoming_packet.induct)
  case (1 e data s)
  show ?case
  proof (cases "data = [] \<or> (\<forall>r rest. dtls_record_decode data \<noteq> Ok (Some (r, rest)))")
    case True
    then have "handle_incoming_packet e data s = (Ok (), s)"
      using record_decode_no_panic [of data]
      by (subst handle_incoming_packet.simps) (auto split: sum.splits fault.splits option.splits)
    with "1.prems" show ?thesis by (simp add: guarded_iff)
  next
    case False
    then obtain rc rest where d: "data \<noteq> []" "dtls_record_decode data = Ok (Some (rc, rest))" by blast
    show ?thesis
    proof (cases "try_decrypt_record e rc s")
      case (Inl f)
      then have "handle_incoming_packet e data s = (Ok (), s)"
        using d decrypt_total [of s rc] "1.prems"
        by (subst handle_incoming_packet.simps) (auto split: fault.splits)
      with "1.prems" show ?thesis by (simp add: guarded_iff)
    next
      case p: (Inr payload)
      let ?h = "handle_decrypted_record e (rec_type rc) (rec_epoch rc) payload"
      obtain r t where h: "?h s = (r, t)" by force
      have t: "guarded ?h s" using record_guarded "1.prems" by simp
      show ?thesis
      proof (cases r)
        case (Inl f)
        with d p h have "handle_incoming_packet e data s = (Inl f, t)"
          by (subst handle_incoming_packet.simps) simp
        with t h Inl show ?thesis by (simp add: guarded_iff)
      next
        case (Inr u)
        with d p h have "handle_incoming_packet e data s = handle_incoming_packet e rest t"
          by (subst handle_incoming_packet.simps) simp
        with "1.IH" [OF d refl refl p h [symmetric] Inr] t h "1.prems" show ?thesis by (simp add: guarded_iff)
      qed
    qed
  qed
qed

lemma event_panic:
  assumes "I s" and "task_event env ev s = (Panicked, t)"
  shows "bad_panic t"
proof (cases ev)
  case (PacketReceived packet)
  then have "handle_incoming_packet env packet s = (Panicked, t)"
    using assms(2) by (auto simp: task_event_def split: prod.splits sum.splits fault.splits if_splits)
  with packet_guarded_aux [OF refl assms(1), of packet] show ?thesis by (simp add: guarded_iff)
next
  case CloseRequested
  have "wp (task_event env ev) (\<lambda>_ _. True) (\<lambda>f _. f \<noteq> Panic) s"
    using encrypt_total [OF assms(1)] encrypt_no_panic CloseRequested
    by (auto simp: task_event_def send_close_notify_def transmit_def wp_simps split_beta Let_def)
  from wp_fault [OF this assms(2)] show ?thesis by simp
next
  case RetransmitTick
  then have "wp (task_event env ev) (\<lambda>_ _. True) (\<lambda>f _. f \<noteq> Panic) s"
    by (auto simp: task_event_def handle_retransmit_def resend_last_flight_def transmit_def wp_simps)
  from wp_fault [OF this assms(2)] show ?thesis by simp
qed (use assms(2) in \<open>auto simp: task_event_def eget_def ethen_def ebind_def set_state_def emod_def ret_def
        dtls_err_def efail_def split: if_splits\<close>)

end

definition panic_inv :: "dtls_env \<Rightarrow> handshake_context \<Rightarrow> bool" where
  "panic_inv env s \<longleftrightarrow> backend_total env \<and> wf_session s"

lemma peer_write_key_iv: "iv_ok ks \<Longrightarrow> length (snd (peer_write_key c ks)) = 4"
  by (simp add: peer_write_key_def iv_ok_def)

lemma try_decrypt_total: "wf_session s \<Longrightarrow> try_decrypt_record env r s \<noteq> Panicked"
proof -
  have d: "decryption_failed x = Panicked \<longleftrightarrow> x = Panicked" for x
    by (auto simp: decryption_failed_def split: sum.splits fault.splits)
  assume "wf_session s"
  then show ?thesis
    using decrypt_no_panic peer_write_key_iv
    by (auto simp: try_decrypt_record_def d Let_def split_beta wf_session_def split: option.splits)
qed

interpretation panics: session_safe env "panic_inv env" hello_34 for env
proof unfold_locales
  fix s msg raw
  assume "panic_inv env s"
  then show "panic_inv env (snd (handle_handshake_message env msg raw s))"
    using handler_safe [of env s msg raw]
    by (auto simp: panic_inv_def wp_def split: prod.splits sum.splits)
next
  fix s msg raw t
  assume "panic_inv env s" "handle_handshake_message env msg raw s = (Panicked, t)"
  then show "hello_34 msg \<or> counter_full t" using handler_safe [of env s msg raw] by (auto simp: panic_inv_def wp_def)
next
  fix s r
  assume "panic_inv env s"
  then show "try_decrypt_record env r s \<noteq> Panicked" by (simp add: panic_inv_def try_decrypt_total)
next
  fix s keys c
  assume "panic_inv env s" "hc_session_keys s = Some keys"
  then show "length (snd (own_write_key c keys)) = 4"
    by (simp add: panic_inv_def own_write_key_iv wf_session_def)
qed (auto simp: panic_inv_def wf_session_def)

lemma panic_start:
  assumes "backend_total env" and "env_ecdh env = Ok (public, secret)"
    and "start_handshake env (handshake_context_new (inner_new\<lparr>di_state := StHandshaking, di_published := StHandshaking\<rparr>)
      fp public secret) = (Ok (), s)"
  shows "panic_inv env s"
proof -
  let ?s = "handshake_context_new (inner_new\<lparr>di_state := StHandshaking, di_published := StHandshaking\<rparr>) fp public secret"
  have w: "wf_session ?s"
    using assms(1,2) by (simp add: wf_session_def handshake_context_new_def inner_new_def backend_total_def
        dtls_inner.defs handshake_context.defs)
  have "wf_session (t\<lparr>hc_client_random := Some (random_encode r)\<rparr>)" if "wf_session t" "length (random_bytes r) = 28" for t r
    using that by (simp add: wf_session_def)
  then have set: "safe (ethen (emod (\<lambda>s. s\<lparr>hc_client_random := Some (random_encode r)\<rparr>)) k) t"
    if "wf_session t" "length (random_bytes r) = 28" "\<And>u. wf_session u \<Longrightarrow> safe k u" for t r k
    using that by (simp add: wp_simps)
  have "safe (start_handshake env) ?s"
    unfolding start_handshake_def using w
    by (auto simp: wp_ret intro!: random_new_safe set emit_plain_safe flight_then_safe io_safe)
  with wp_ok [OF this assms(3)] assms(1) show ?thesis by (simp add: panic_inv_def)
qed


text \<open>
  The counter of received messages is within reach of the peer: a client that has answered a
  HelloVerifyRequest takes over the number of the next message, and the number 65535 makes it panic.
\<close>

lemma hello_verify_sync_overflows:
  assumes "env_is_client env" "hc_post_hvr s" "hc_recv_message_seq s < message_seq msg" "message_seq msg = - 1"
    and "total_length msg = fragment_length msg"
  shows "fst (process_message env epoch msg raw s) = Panicked"
  using assms
  by (simp add: process_message_def accept_message_def deliver_message_def eget_def ethen_def ebind_def emod_def elift_def Let_def)

section \<open>A concrete server\<close>

definition null_crypto :: dtls_crypto where
  "null_crypto = \<lparr>sha256 = (\<lambda>_ _. 0), hmac_new = (\<lambda>_. Some (\<lambda>_ _. 0)), gcm_key_ok = (\<lambda>_. True),
     gcm_seal = (\<lambda>k n a p. Some (p, \<lambda>_. 0)), gcm_open = (\<lambda>k n a c t. Some c), gcm_decrypt = (\<lambda>k n a m. Some m),
     verifying_key_from_point = (\<lambda>_. Ok (\<lambda>_ _. Ok ())), signing_key_from_pkcs8 = (\<lambda>_. Ok (\<lambda>_. Ok []))\<rparr>"

definition null_env :: "bool \<Rightarrow> dtls_env" where
  "null_env client = \<lparr>env_crypto = null_crypto, env_is_client = client, env_certificates = [], env_private_key = [],
     env_ecdh = Ok ([], \<lambda>p. Ok p), env_rng = (\<lambda>_ _. 0), env_unix_ms = (\<lambda>_. None), env_conn_send = (\<lambda>_. None)\<rparr>"

lemma null_env_total: "backend_total (null_env c)"
  by (auto simp: backend_total_def null_env_def null_crypto_def)

lemma server_start:
  "dtls_run (null_env False) fp True (handshake_context_new
     (inner_new\<lparr>di_state := StHandshaking, di_published := StHandshaking\<rparr>) fp [] (\<lambda>p. Ok p))"
  by (rule dtls_run.start) (simp_all add: null_env_def start_handshake_def ret_def)


end
