(* ===== verification/Dtls_Auth.thy ===== *)
theory Dtls_Auth
  imports Dtls_Panic
begin

text \<open>
  What a DTLS connection guarantees. In the client role, keys are only ever derived from a public key
  that a certificate with the expected fingerprint has signed, whatever packets arrive in whatever order;
  the receive path panics only on a hello body of 34 bytes; and application data sent on one side comes
  out on the other. The two invariants are interpretations of \<open>session_invariant\<close>.
\<close>

section \<open>Authentication of the server\<close>

definition cert_trusted :: "dtls_env \<Rightarrow> string option \<Rightarrow> bytes \<Rightarrow> bool" where
  "cert_trusted env fp cert \<longleftrightarrow> (\<forall>x. fp = Some x \<longrightarrow> fingerprint_from_der (env_crypto env) cert = x)"

definition signed_key :: "dtls_env \<Rightarrow> string option \<Rightarrow> bytes \<Rightarrow> bool" where
  "signed_key env fp pk \<longleftrightarrow> (\<exists>cert cr sr ske. cert_trusted env fp cert \<and> ske_public_key ske = pk
     \<and> verify_server_key_exchange_signature (env_crypto env) cert cr sr ske = Ok ())"

definition agreed_keys :: "dtls_env \<Rightarrow> string option \<Rightarrow> session_keys \<Rightarrow> bool" where
  "agreed_keys env fp ks \<longleftrightarrow> (\<exists>public secret pk shared ems transcript cr sr.
     env_ecdh env = Ok (public, secret) \<and> signed_key env fp pk \<and> secret pk = Ok shared
     \<and> derive_keys (env_crypto env) ems transcript shared cr sr = Ok ks)"

definition client_auth :: "dtls_env \<Rightarrow> string option \<Rightarrow> handshake_context \<Rightarrow> bool" where
  "client_auth env fp s \<longleftrightarrow> hc_expected_fingerprint s = fp \<and> reassembly_ok (hc_incomplete_fragments s)
     \<and> (\<forall>c. hc_peer_certificate s = Some c \<longrightarrow> cert_trusted env fp c)
     \<and> (hc_ske_verified s \<longrightarrow> (\<forall>pk. hc_peer_public_key s = Some pk \<longrightarrow> signed_key env fp pk))
     \<and> (\<forall>f. hc_local_secret s = Some f \<longrightarrow> (\<exists>public. env_ecdh env = Ok (public, f)))
     \<and> (\<forall>ks. hc_session_keys s = Some ks \<longrightarrow> agreed_keys env fp ks)
     \<and> (\<forall>ks p. di_state s = StConnected ks p \<longrightarrow> agreed_keys env fp ks)"

text \<open>The fields the invariant is about.\<close>

definition same_auth :: "handshake_context \<Rightarrow> handshake_context \<Rightarrow> bool" where
  "same_auth s t \<longleftrightarrow> hc_expected_fingerprint t = hc_expected_fingerprint s
     \<and> hc_incomplete_fragments t = hc_incomplete_fragments s \<and> hc_peer_certificate t = hc_peer_certificate s
     \<and> hc_ske_verified t = hc_ske_verified s \<and> hc_peer_public_key t = hc_peer_public_key s
     \<and> hc_local_secret t = hc_local_secret s \<and> hc_session_keys t = hc_session_keys s \<and> di_state t = di_state s"

interpretation au: state_order same_auth
  by unfold_locales (auto simp: same_auth_def)

lemma au_prod [intro]: "(\<And>a b. au.keeps (k a b)) \<Longrightarrow> au.keeps (case p of (a, b) \<Rightarrow> k a b)"
  by (cases p) simp

lemmas au_intros = au.keeps_ebind au.keeps_ethen au.keeps_eget au.keeps_rmatch au.keeps_option au.keeps_if
  au_prod au.keeps_emod au.keeps_ret au.keeps_elift au.keeps_efail

lemma au_primitives:
  "au.keeps (transmit rs)" "au.keeps (rng_fill env n)" "au.keeps (random_new env)"
  "au.keeps (send_flight rs)" "au.keeps next_message_seq" "au.keeps change_cipher_spec"
  "au.keeps (build_handshake_record env msg ep keys)"
  unfolding transmit_def rng_fill_def random_new_def send_flight_def next_message_seq_def
    change_cipher_spec_def build_handshake_record_def Let_def
  by (intro au_intros; simp add: same_auth_def)+

lemma au_emit: "au.keeps (emit_message env ty body keys)"
  unfolding emit_message_def Let_def by (intro au_intros au_primitives) (simp add: same_auth_def)

lemma client_auth_cong: "same_auth s t \<Longrightarrow> client_auth env fp s \<Longrightarrow> client_auth env fp t"
  by (simp add: same_auth_def client_auth_def)

lemma client_auth_keeps:
  "au.keeps m \<Longrightarrow> client_auth env fp s \<Longrightarrow> wp m (\<lambda>_. client_auth env fp) (\<lambda>_. client_auth env fp) s"
  using client_auth_cong by (auto intro: au.wp_keeps)

lemma client_auth_fold:
  "client_auth env fp s \<Longrightarrow> client_auth env fp (fold apply_server_extension xs s)"
proof (induction xs arbitrary: s)
  case (Cons x xs)
  have "client_auth env fp (apply_server_extension x s)"
    using Cons.prems by (auto simp: apply_server_extension_def client_auth_def split: prod.splits)
  with Cons show ?case by simp
qed simp

abbreviation wp_auth :: "dtls_env \<Rightarrow> string option \<Rightarrow> 'a dtls \<Rightarrow> handshake_context \<Rightarrow> bool" where
  "wp_auth env fp m s \<equiv> wp m (\<lambda>_. client_auth env fp) (\<lambda>_. client_auth env fp) s"


lemma client_auth_state: "client_auth env fp s \<Longrightarrow> st = StFailed \<or> st = StClosed \<Longrightarrow> client_auth env fp (s\<lparr>di_state := st, di_published := st\<rparr>)"
  by (auto simp: client_auth_def)

lemma wp_fail_auth: "client_auth env fp s \<Longrightarrow> wp_auth env fp (ethen (set_state StFailed) (efail e)) s"
  by (simp add: set_state_def wp_simps client_auth_state)

lemma auth_hello_verify_request: "client_auth env fp s \<Longrightarrow> wp_auth env fp (handle_hello_verify_request env msg) s"
  by (rule client_auth_keeps)
    (unfold handle_hello_verify_request_def, intro au_intros au_primitives au_emit; simp add: same_auth_def)

lemma auth_server_hello: "client_auth env fp s \<Longrightarrow> wp_auth env fp (handle_server_hello env msg) s"
  unfolding handle_server_hello_def
  by (auto simp: wp_simps wp_fail_auth dtls_err_def set_state_def client_auth_state
      intro!: client_auth_fold) (simp add: client_auth_def)

lemma auth_certificate: "client_auth env fp s \<Longrightarrow> wp_auth env fp (handle_certificate env msg) s"
  unfolding handle_certificate_def Let_def dtls_err_def
  by (auto simp: wp_simps wp_fail_auth set_state_def client_auth_state split: prod.splits list.splits)
    (auto simp: client_auth_def cert_trusted_def)

lemma auth_server_key_exchange: "client_auth env fp s \<Longrightarrow> wp_auth env fp (handle_server_key_exchange env msg) s"
  unfolding handle_server_key_exchange_def dtls_err_def
  by (auto simp: wp_simps wp_fail_auth set_state_def client_auth_state split: prod.splits option.splits)
    (auto simp: client_auth_def signed_key_def)

lemma auth_finished:
  "env_is_client env \<Longrightarrow> client_auth env fp s \<Longrightarrow> wp_auth env fp (handle_finished env msg raw) s"
  unfolding handle_finished_def check_finished_def become_connected_def dtls_err_def set_state_def
  by (auto simp: wp_simps create_session_crypto_def) (auto simp: client_auth_def)

lemma auth_with_session_keys:
  assumes "client_auth env fp s" "hc_ske_verified s"
    and k: "\<And>ks. agreed_keys env fp ks \<Longrightarrow> wp_auth env fp (k ks) s"
  shows "wp_auth env fp (with_session_keys env k) s"
proof -
  have "agreed_keys env fp ks"
    if "hc_peer_public_key s = Some pk" "hc_local_secret s = Some f" "f pk = Ok shared"
      "derive_keys (env_crypto env) ems tr shared cr sr = Ok ks" for pk f shared ems tr cr sr ks
    using that assms(1,2) unfolding agreed_keys_def client_auth_def by blast
  then show ?thesis
    unfolding with_session_keys_def using assms(1) k by (auto simp: wp_simps)
qed

lemma auth_install: "agreed_keys env fp ks \<Longrightarrow> client_auth env fp s \<Longrightarrow> wp_auth env fp (install_keys env ks) s"
  by (auto simp: install_keys_def wp_simps client_auth_def)

lemma auth_server_hello_done:
  assumes "env_is_client env" "client_auth env fp s"
  shows "wp_auth env fp (handle_server_hello_done env) s"
proof -
  let ?tail = "\<lambda>cke keys. ebind change_cipher_spec (\<lambda>ccs. eget (\<lambda>s.
       ebind (elift (calculate_verify_data (env_crypto env) (master_secret keys) ''client finished''
         (hc_handshake_messages s))) (\<lambda>verify_data.
       ebind (emit_message env Finished (finished_encode verify_data) (hc_session_keys s)) (\<lambda>fin.
       ethen (send_flight [cke, ccs, fin]) next_message_seq))))"
  have tail: "au.keeps (?tail cke keys)" for cke keys
    by (intro au_intros au_primitives au_emit)
  have keys: "wp_auth env fp (with_session_keys env (\<lambda>keys. ethen (install_keys env keys) (?tail cke keys))) t"
    if "client_auth env fp t" "hc_ske_verified t" for cke t
  proof (rule auth_with_session_keys [OF that])
    fix ks assume "agreed_keys env fp ks"
    then show "wp_auth env fp (ethen (install_keys env ks) (?tail cke ks)) t"
      unfolding wp_ethen using that(1)
      by (intro wp_mono [OF auth_install]) (auto intro: client_auth_keeps [OF tail])
  qed
  have "wp_auth env fp (ebind (emit_message env ClientKeyExchange body None) (\<lambda>cke. ethen next_message_seq
      (with_session_keys env (\<lambda>keys. ethen (install_keys env keys) (?tail cke keys))))) s"
    if "hc_ske_verified s" for body
    unfolding wp_ebind
  proof (rule au.wp_keeps [OF au_emit])
    fix cke t assume t: "same_auth s t"
    show "wp_auth env fp (ethen next_message_seq
        (with_session_keys env (\<lambda>keys. ethen (install_keys env keys) (?tail cke keys)))) t"
      unfolding wp_ethen
    proof (rule au.wp_keeps [OF au_primitives(5)])
      fix u assume "same_auth t u"
      with t have "client_auth env fp u" "hc_ske_verified u"
        using assms(2) that client_auth_cong by (auto simp: same_auth_def)
      then show "wp_auth env fp (with_session_keys env (\<lambda>keys. ethen (install_keys env keys) (?tail cke keys))) u"
        by (rule keys)
    qed (use t assms(2) client_auth_cong in blast)
  qed (use assms(2) client_auth_cong in blast)
  then show ?thesis
    unfolding handle_server_hello_done_def wp_eget dtls_err_def
    using assms by (auto simp: wp_ret wp_fail_auth wp_if simp del: ethen_def)
qed

lemma client_handler_auth:
  "env_is_client env \<Longrightarrow> client_auth env fp s \<Longrightarrow> wp_auth env fp (handle_handshake_message env msg raw) s"
  unfolding handle_handshake_message_def
  by (cases "msg_type msg") (simp_all add: auth_hello_verify_request auth_server_hello auth_certificate
      auth_server_key_exchange auth_finished auth_server_hello_done handle_client_hello_def
      handle_client_key_exchange_def wp_ret)

definition auth_inv :: "dtls_env \<Rightarrow> string option \<Rightarrow> handshake_context \<Rightarrow> bool" where
  "auth_inv env fp s \<longleftrightarrow> reassembly_ok (hc_incomplete_fragments s) \<and> (env_is_client env \<longrightarrow> client_auth env fp s)"

interpretation auth: session_invariant env "auth_inv env fp" for env fp
proof unfold_locales
  fix s msg raw
  assume "auth_inv env fp s"
  moreover have "same_bookkeeping s (snd (handle_handshake_message env msg raw s))"
    using handler_keeps_bookkeeping [of env msg raw] by (simp add: bk.keeps_def)
  ultimately show "auth_inv env fp (snd (handle_handshake_message env msg raw s))"
    using client_handler_auth [of env fp s msg raw] by (auto simp: wp_snd auth_inv_def same_bookkeeping_def)
qed (auto simp: auth_inv_def client_auth_def)

lemma client_auth_start:
  assumes "env_is_client env" and "env_ecdh env = Ok (public, secret)"
    and "start_handshake env (handshake_context_new (inner_new\<lparr>di_state := StHandshaking, di_published := StHandshaking\<rparr>)
      fp public secret) = (Ok (), s)"
  shows "auth_inv env fp s"
proof -
  let ?s = "handshake_context_new (inner_new\<lparr>di_state := StHandshaking, di_published := StHandshaking\<rparr>) fp public secret"
  have "client_auth env fp ?s"
    using assms(2) by (simp add: client_auth_def handshake_context_new_def inner_new_def
        dtls_inner.defs handshake_context.defs)
  moreover have "au.keeps (start_handshake env)"
    unfolding start_handshake_def by (intro au_intros au_primitives au_emit; simp add: same_auth_def)
  ultimately have "client_auth env fp s"
    using au.keepsD [of "start_handshake env"] assms(3) client_auth_cong by blast
  then show ?thesis by (simp add: auth_inv_def client_auth_def)
qed

text \<open>
  C4: A DTLS client is connected only to the server the fingerprint names. In every state of every run
  of a client, whatever packets, timer ticks, closes and sends occurred in whatever order, keys of a
  connected state come from a key agreement between the client's ephemeral secret and a public key in a
  ServerKeyExchange whose signature verified under a certificate with the expected fingerprint.
\<close>

theorem dtls_client_authenticates_server:
  assumes "env_is_client env" and "dtls_run env fp b s" and "di_state s = StConnected keys profile"
  shows "\<exists>public secret shared ems transcript cr sr cert cr' sr' ske.
      env_ecdh env = Ok (public, secret) \<and> secret (ske_public_key ske) = Ok shared
    \<and> derive_keys (env_crypto env) ems transcript shared cr sr = Ok keys
    \<and> verify_server_key_exchange_signature (env_crypto env) cert cr' sr' ske = Ok ()
    \<and> (fp = None \<or> fp = Some (fingerprint_from_der (env_crypto env) cert))"
proof -
  have "auth_inv env fp s"
    using auth.run_invariant [OF assms(2), of fp] client_auth_start [OF assms(1)] by blast
  then have "client_auth env fp s" using assms(1) by (simp add: auth_inv_def)
  with assms(3) have "agreed_keys env fp keys" by (simp add: client_auth_def)
  then obtain public secret pk shared ems transcript cr sr cert cr' sr' ske
    where k: "env_ecdh env = Ok (public, secret)" "secret pk = Ok shared"
      "derive_keys (env_crypto env) ems transcript shared cr sr = Ok keys"
      "cert_trusted env fp cert" "ske_public_key ske = pk"
      "verify_server_key_exchange_signature (env_crypto env) cert cr' sr' ske = Ok ()"
    unfolding agreed_keys_def signed_key_def by blast
  then have "fp = None \<or> fp = Some (fingerprint_from_der (env_crypto env) cert)"
    by (cases fp) (auto simp: cert_trusted_def)
  with k show ?thesis by blast
qed

section \<open>A concrete handshake\<close>

text \<open>The client of \<open>null_env\<close> against a server that sends its flight in order.\<close>

abbreviation must :: "'a dtls \<Rightarrow> (handshake_context \<Rightarrow> bool) \<Rightarrow> handshake_context \<Rightarrow> bool" where
  "must m Q s \<equiv> wp m (\<lambda>_. Q) (\<lambda>_ _. False) s"

lemma mustE: "must m Q s \<Longrightarrow> (\<And>x t. m s = (Ok x, t) \<Longrightarrow> Q t \<Longrightarrow> P) \<Longrightarrow> P"
  unfolding wp_def by (cases "m s"; cases "fst (m s)") auto

lemma step_in_turn:
  assumes "dtls_run env fp True s" and "length body < 60000"
    and "hc_pending_messages s = []" and "hc_recv_message_seq s = n" and "n \<noteq> - 1"
    and "must (handle_handshake_message env (whole_message ty n body) (handshake_encode (whole_message ty n body))) Q
      (in_turn (whole_message ty n body) s)"
  shows "\<exists>t. dtls_run env fp True t \<and> Q t \<and> hc_recv_message_seq t = n + 1 \<and> hc_pending_messages t = []"
proof -
  let ?m = "whole_message ty n body"
  have fits: "message_fits ?m" "total_length ?m = fragment_length ?m"
    using assms(2) by (simp_all add: message_fits_def whole_message_def fits24_def unat_of_nat fits24_of_nat [unfolded fits24_def])
  obtain u t where h: "handle_handshake_message env ?m (handshake_encode ?m) (in_turn ?m s) = (Ok u, t)" and q: "Q t"
    using assms(6) by (rule mustE)
  have b: "hc_recv_message_seq t = n + 1" "hc_pending_messages t = []"
    using bk.keepsD [OF handler_keeps_bookkeeping h] assms(3,4)
    by (simp_all add: same_bookkeeping_def in_turn_def append_transcript_def)
  have "task_event env (PacketReceived (dtls_record_encode (plain_record 0 ?m))) s = (Ok True, t)"
    using packet_in_turn [OF fits, of s 0 env] h assms(2-5) by (simp add: whole_message_def)
  from dtls_run.event [OF assms(1) this] q b show ?thesis by blast
qed

definition demo_cert :: bytes where
  "demo_cert = x509_der \<lparr>x_version = None, x_serial = [1], x_sigalg = [], x_issuer = [], x_validity = [],
     x_subject = [], x_point = [4], x_extensions = [], x_signature = []\<rparr>"

lemma demo_cert_key: "certificate_public_key null_crypto demo_cert = Ok (\<lambda>_ _. Ok ())"
  unfolding certificate_public_key_def demo_cert_def
  by (subst extract_p256_point_x509)
    (simp_all add: x509_der_def x509_tbs_def x509_spki_def length_der der_len_def OID_EC_PUBLIC_KEY_def
      OID_PRIME256V1_def null_crypto_def)

lemma null_prf: "\<exists>v. prf_sha256 null_crypto sec l sd n = Ok v"
  by (simp add: prf_sha256_def null_crypto_def)

lemma null_derive: "\<exists>ks. derive_keys null_crypto ems tr pm cr sr = Ok ks"
proof -
  have "\<exists>ms. (if ems then prf_sha256 null_crypto pm (ascii ''extended master secret'') (digest32 (sha256 null_crypto tr)) 48
      else prf_sha256 null_crypto pm (ascii ''master secret'') (cr @ sr) 48) = Ok ms"
    by (simp add: null_prf)
  then obtain ms where ms: "(if ems then prf_sha256 null_crypto pm (ascii ''extended master secret'') (digest32 (sha256 null_crypto tr)) 48
      else prf_sha256 null_crypto pm (ascii ''master secret'') (cr @ sr) 48) = Ok ms" ..
  obtain kb where kb: "prf_sha256 null_crypto ms (ascii ''key expansion'') (sr @ cr) 40 = Ok kb" using null_prf by blast
  then have "length kb = 40" by (rule prf_length)
  with ms kb show ?thesis by (simp add: derive_keys_def expand_keys_def slice_def)
qed

lemma null_verify_data: "\<exists>v. calculate_verify_data null_crypto ms l tr = Ok v"
  by (simp add: calculate_verify_data_def null_prf)

text \<open>What the later steps need of the state.\<close>

definition demo_fp :: "string option" where
  "demo_fp = Some (fingerprint_from_der null_crypto demo_cert)"

definition demo_state :: "bool \<Rightarrow> bool \<Rightarrow> bool \<Rightarrow> handshake_context \<Rightarrow> bool" where
  "demo_state hello cert key s \<longleftrightarrow> hc_expected_fingerprint s = demo_fp \<and> hc_local_secret s = Some (\<lambda>p. Ok p)
     \<and> hc_message_seq s = 1 \<and> hc_epoch s = 0 \<and> hc_sequence_number s = 1
     \<and> hc_client_random s \<noteq> None \<and> hc_session_keys s = None \<and> (hello \<longrightarrow> hc_server_random s \<noteq> None)
     \<and> (cert \<longrightarrow> hc_peer_certificate s = Some demo_cert)
     \<and> (key \<longrightarrow> hc_ske_verified s \<and> hc_peer_public_key s \<noteq> None)"

lemma demo_in_turn [simp]: "demo_state a b c (in_turn m s) = demo_state a b c s"
  by (simp add: demo_state_def in_turn_def append_transcript_def)

lemma null_encrypt: "length iv = 4 \<Longrightarrow> encrypt_record null_crypto ct v q p k iv = Ok (u64_be q @ p @ tag16 (\<lambda>_. 0))"
  by (simp add: encrypt_record_def null_crypto_def)

text \<open>Emitting a message always succeeds here, and only touches the counters and the transcript.\<close>

lemma must_emit:
  assumes "\<And>x t. (\<exists>h. t = s\<lparr>hc_handshake_messages := h, hc_sequence_number := hc_sequence_number s + 1\<rparr>) \<Longrightarrow> must (k x) Q t"
    and "hc_sequence_number s \<noteq> - 1" and "\<And>ks. keys = Some ks \<Longrightarrow> iv_ok ks"
  shows "must (ebind (emit_message (null_env c) ty body keys) k) Q s"
proof -
  have e: "encrypt_record null_crypto Handshake DTLS_1_2 q p a (snd (own_write_key c ks))
      = Ok (u64_be q @ p @ tag16 (\<lambda>_. 0))" if "keys = Some ks" for q p a ks
    using assms(3) [OF that] by (intro null_encrypt own_write_key_iv)
  have "env_is_client (null_env c) = c" "env_crypto (null_env c) = null_crypto" by (simp_all add: null_env_def)
  then show ?thesis
    using e assms(2) by (cases keys) (auto simp: emit_message_def build_handshake_record_def Let_def wp_simps split_beta
        intro!: assms(1))
qed

lemma demo_start: "\<exists>s. dtls_run (null_env True) demo_fp True s \<and> demo_state False False False s
     \<and> hc_recv_message_seq s = 0 \<and> hc_pending_messages s = []"
proof -
  let ?s = "handshake_context_new (inner_new\<lparr>di_state := StHandshaking, di_published := StHandshaking\<rparr>) demo_fp [] (\<lambda>p. Ok p)"
  let ?Q = "\<lambda>s. demo_state False False False s \<and> hc_recv_message_seq s = 0 \<and> hc_pending_messages s = []"
  have "env_is_client (null_env True)" by (simp add: null_env_def)
  then have "must (start_handshake (null_env True)) ?Q ?s"
    unfolding start_handshake_def random_new_def rng_fill_def
    by (auto simp: wp_eget wp_ebind [of "eget _"] wp_ethen wp_emod wp_ret wp_ebind [of "ethen _ _"]
        send_flight_def transmit_def next_message_seq_def demo_state_def handshake_context_new_def wp_ebind [of "elift _"] wp_elift
        dtls_inner.defs handshake_context.defs intro!: must_emit)
  then obtain u t where "start_handshake (null_env True) ?s = (Ok u, t)" "?Q t" by (rule mustE)
  moreover have "dtls_run (null_env True) demo_fp True t"
    by (rule dtls_run.start [where public = "[]" and secret = "\<lambda>p. Ok p"])
      (use calculation in \<open>simp_all add: null_env_def\<close>)
  ultimately show ?thesis by blast
qed

definition demo_server_hello :: server_hello where
  "demo_server_hello = \<lparr>sh_version = DTLS_1_2, sh_random = \<lparr>gmt_unix_time = 0, random_bytes = replicate 28 0\<rparr>,
     sh_session_id = [], sh_cipher_suite = 0xC02B, sh_compression_method = 0, sh_extensions = []\<rparr>"

definition demo_key_exchange :: server_key_exchange where
  "demo_key_exchange = \<lparr>curve_type = 3, named_curve = 23, ske_public_key = [4, 4], ske_signature = []\<rparr>"

lemma null_env_simps [simp]:
  "env_is_client (null_env c) = c" "env_crypto (null_env c) = null_crypto"
  by (simp_all add: null_env_def)

lemma demo_hello_step:
  "demo_state False False False s \<Longrightarrow> must (handle_handshake_message (null_env True)
     (whole_message ServerHello n (server_hello_encode demo_server_hello)) raw) (demo_state True False False) s"
proof -
  have "server_hello_decode (server_hello_encode demo_server_hello) = Ok (demo_server_hello, [])"
    by (rule server_hello_roundtrip) (simp add: server_hello_fits_def demo_server_hello_def)
  then show "demo_state False False False s \<Longrightarrow> ?thesis"
    by (auto simp: handle_handshake_message_def whole_message_def handle_server_hello_def wp_simps
        SUPPORTED_CIPHER_SUITE_def demo_server_hello_def demo_state_def)
qed

lemma demo_cert_step:
  "demo_state True False False s \<Longrightarrow> must (handle_handshake_message (null_env True)
     (whole_message Certificate n (certificate_message_encode [demo_cert])) raw) (demo_state True True False) s"
proof -
  have "length demo_cert < 1000"
    by (simp add: demo_cert_def x509_der_def x509_tbs_def x509_spki_def length_der der_len_def
        OID_EC_PUBLIC_KEY_def OID_PRIME256V1_def)
  then have "certificate_message_decode (certificate_message_encode [demo_cert]) = Ok ([demo_cert], [])"
    by (intro certificate_message_roundtrip) simp
  then show "demo_state True False False s \<Longrightarrow> ?thesis"
    by (auto simp: handle_handshake_message_def whole_message_def handle_certificate_def wp_simps Let_def
        demo_cert_key demo_state_def demo_fp_def)
qed

lemma demo_key_step:
  "demo_state True True False s \<Longrightarrow> must (handle_handshake_message (null_env True)
     (whole_message ServerKeyExchange n (server_key_exchange_encode demo_key_exchange)) raw)
     (demo_state True True True) s"
proof -
  have "server_key_exchange_decode (server_key_exchange_encode demo_key_exchange) = Ok (demo_key_exchange, [])"
    by (rule server_key_exchange_roundtrip) (simp_all add: demo_key_exchange_def)
  moreover have "verify_server_key_exchange_signature null_crypto demo_cert cr sr demo_key_exchange = Ok ()" for cr sr
    by (simp add: verify_server_key_exchange_signature_def demo_cert_key demo_key_exchange_def)
  ultimately show "demo_state True True False s \<Longrightarrow> ?thesis"
    by (auto simp: handle_handshake_message_def whole_message_def handle_server_key_exchange_def wp_simps
        demo_state_def)
qed

lemma demo_done_step:
  assumes "demo_state True True True s"
  shows "must (handle_handshake_message (null_env True) (whole_message ServerHelloDone n []) raw)
     (\<lambda>t. hc_session_keys t \<noteq> None) s"
proof -
  have iv: "derive_keys null_crypto e h sh cr sr = Ok ks \<Longrightarrow> iv_ok ks" for e h sh cr sr ks by (rule derive_keys_iv)
  obtain cr sr pk where s: "hc_client_random s = Some cr" "hc_server_random s = Some sr" "hc_peer_public_key s = Some pk"
    using assms by (auto simp: demo_state_def)
  have dk: "must (rmatch (derive_keys null_crypto e h sh cr sr) (\<lambda>e. ret ()) k) Q t"
    if "\<And>ks. iv_ok ks \<Longrightarrow> must (k ks) Q t" for e h sh k Q t
    using that null_derive [of e h sh cr sr] iv by (auto simp: wp_simps)
  have vd: "must (ebind (elift (calculate_verify_data null_crypto ms l tr)) k) Q t"
    if "\<And>v. must (k v) Q t" for ms l tr k Q t
    using that null_verify_data [of ms l tr] by (auto simp: wp_simps)
  have ok: "create_session_crypto null_crypto ks = Ok ks" for ks
    by (simp add: create_session_crypto_def null_crypto_def)
  show ?thesis
    unfolding handle_handshake_message_def whole_message_def
    using assms s
    by (auto simp: handle_server_hello_done_def wp_eget wp_if demo_state_def with_session_keys_def install_keys_def ok
        next_message_seq_def wp_ethen wp_emod wp_option rmatch_def [of "Ok _"] wp_ebind [of "eget _"]
        change_cipher_spec_def wp_ret wp_ebind [of "elift (Ok _)"] wp_ebind [of "elift (checked_suc _)"] wp_elift send_flight_def transmit_def
        intro!: must_emit dk vd)
qed

lemma demo_connected:
  "\<exists>s keys profile. dtls_run (null_env True) demo_fp True s \<and> di_state s = StConnected keys profile"
proof -
  obtain s0 where s0: "dtls_run (null_env True) demo_fp True s0" "demo_state False False False s0"
      "hc_recv_message_seq s0 = 0" "hc_pending_messages s0 = []"
    using demo_start by blast
  have l: "length (server_hello_encode demo_server_hello) < 60000"
    "length (certificate_message_encode [demo_cert]) < 60000"
    "length (server_key_exchange_encode demo_key_exchange) < 60000"
    by (simp_all add: server_hello_encode_def demo_server_hello_def certificate_message_encode_def
        certificate_entry_encode_def server_key_exchange_encode_def demo_key_exchange_def demo_cert_def x509_der_def
        x509_tbs_def x509_spki_def length_der der_len_def OID_EC_PUBLIC_KEY_def OID_PRIME256V1_def)
  from step_in_turn [OF s0(1) l(1) s0(4,3) _ demo_hello_step] s0(2) obtain s1 where s1:
      "dtls_run (null_env True) demo_fp True s1" "demo_state True False False s1"
      "hc_recv_message_seq s1 = 0 + 1" "hc_pending_messages s1 = []" by auto
  from step_in_turn [OF s1(1) l(2) s1(4,3) _ demo_cert_step] s1(2) obtain s2 where s2:
      "dtls_run (null_env True) demo_fp True s2" "demo_state True True False s2"
      "hc_recv_message_seq s2 = 0 + 1 + 1" "hc_pending_messages s2 = []" by auto
  from step_in_turn [OF s2(1) l(3) s2(4,3) _ demo_key_step] s2(2) obtain s3 where s3:
      "dtls_run (null_env True) demo_fp True s3" "demo_state True True True s3"
      "hc_recv_message_seq s3 = 0 + 1 + 1 + 1" "hc_pending_messages s3 = []" by auto
  from step_in_turn [OF s3(1) _ s3(4,3) _ demo_done_step] s3(2) obtain s4 keys where s4:
      "dtls_run (null_env True) demo_fp True s4" "hc_session_keys s4 = Some keys"
      "hc_recv_message_seq s4 = 0 + 1 + 1 + 1 + 1" "hc_pending_messages s4 = []" by auto
  obtain vd where vd: "calculate_verify_data null_crypto (master_secret keys) ''server finished''
      (hc_handshake_messages s4) = Ok vd" using null_verify_data by blast
  then have lvd: "length vd < 60000" using verify_data_length by fastforce
  have "create_session_crypto null_crypto keys = Ok keys" by (simp add: create_session_crypto_def null_crypto_def)
  then have "must (handle_handshake_message (null_env True) (whole_message Finished n vd) raw)
      (\<lambda>t. \<exists>profile. di_state t = StConnected keys profile) (in_turn (whole_message Finished n vd) s4)" for n raw
    using s4(2) vd by (simp add: handle_handshake_message_def whole_message_def handle_finished_def
        check_finished_def become_connected_def set_state_def wp_simps in_turn_def append_transcript_def)
  from step_in_turn [OF s4(1) lvd s4(4,3) _ this] show ?thesis by auto
qed

theorem dtls_client_authenticates_server_witness:
  "\<exists>s keys profile cert cr sr ske. dtls_run (null_env True) demo_fp True s \<and> di_state s = StConnected keys profile
     \<and> verify_server_key_exchange_signature null_crypto cert cr sr ske = Ok ()
     \<and> demo_fp = Some (fingerprint_from_der null_crypto cert)"
proof -
  obtain s keys profile where s: "dtls_run (null_env True) demo_fp True s" "di_state s = StConnected keys profile"
    using demo_connected by blast
  have "env_is_client (null_env True)" "demo_fp \<noteq> None" by (simp_all add: demo_fp_def)
  with dtls_client_authenticates_server [OF _ s] s show ?thesis by (metis null_env_simps(2))
qed

end
