(* ===== verification/Dtls_Flow.thy ===== *)
theory Dtls_Flow
  imports Dtls_Auth
begin

text \<open>
  The passage to the connected state and the flow of application data: a connection is only established
  by a Finished message that verifies, data sent on one side comes out on the other, and two places where
  record protection does not hold what the protocol asks for.
\<close>

section \<open>The Finished message is the gate\<close>

text \<open>Every handler but the one of Finished leaves a connection as it is or fails it.\<close>

definition not_connecting :: "handshake_context \<Rightarrow> handshake_context \<Rightarrow> bool" where
  "not_connecting s t \<longleftrightarrow> is_connected (di_state t) \<longrightarrow> di_state t = di_state s"

interpretation nc: state_order not_connecting
  by unfold_locales (auto simp: not_connecting_def)

lemma nc_prod [intro]: "(\<And>a b. nc.keeps (k a b)) \<Longrightarrow> nc.keeps (case p of (a, b) \<Rightarrow> k a b)"
  by (cases p) simp

lemma nc_list [intro]: "nc.keeps m \<Longrightarrow> (\<And>x xs. nc.keeps (k x xs)) \<Longrightarrow> nc.keeps (case l of [] \<Rightarrow> m | x # xs \<Rightarrow> k x xs)"
  by (cases l) simp_all

lemmas nc_intros = nc.keeps_ebind nc.keeps_ethen nc.keeps_eget nc.keeps_rmatch nc.keeps_option nc.keeps_if
  nc_prod nc_list nc.keeps_emod nc.keeps_ret nc.keeps_elift nc.keeps_efail

lemma nc_primitives:
  "nc.keeps (transmit rs)" "nc.keeps (rng_fill env n)" "nc.keeps (random_new env)" "nc.keeps (set_state StFailed)"
  "nc.keeps (send_flight rs)" "nc.keeps resend_last_flight" "nc.keeps next_message_seq"
  "nc.keeps send_handshake_failure_alert" "nc.keeps change_cipher_spec" "nc.keeps (dtls_err m)"
  "nc.keeps (build_handshake_record env msg ep keys)" "nc.keeps (install_keys env ks)"
  unfolding set_state_def transmit_def rng_fill_def random_new_def send_flight_def resend_last_flight_def
    next_message_seq_def send_handshake_failure_alert_def change_cipher_spec_def dtls_err_def
    build_handshake_record_def install_keys_def Let_def
  by (intro nc_intros; simp add: not_connecting_def is_connected_def)+

lemma nc_emit: "nc.keeps (emit_message env ty body keys)"
  unfolding emit_message_def Let_def by (intro nc_intros nc_primitives) (simp add: not_connecting_def)

lemma nc_fold: "not_connecting s (fold apply_server_extension xs (s\<lparr>hc_server_random := r\<rparr>))"
proof -
  have "di_state (fold apply_server_extension xs u) = di_state u" for u
    by (induction xs arbitrary: u) (auto simp: apply_server_extension_def split: prod.splits)
  then show ?thesis by (simp add: not_connecting_def)
qed

lemma nc_handlers: "msg_type msg \<noteq> Finished \<Longrightarrow> nc.keeps (handle_handshake_message env msg raw)"
proof -
  assume "msg_type msg \<noteq> Finished"
  moreover have "nc.keeps (handle_client_hello env msg)"
    unfolding handle_client_hello_def server_flight_def Let_def
    by (intro nc_intros nc_primitives nc_emit; simp add: not_connecting_def)
  moreover have "nc.keeps (handle_client_key_exchange env msg)"
    unfolding handle_client_key_exchange_def with_session_keys_def
    by (intro nc_intros nc_primitives; simp add: not_connecting_def)
  moreover have "nc.keeps (handle_hello_verify_request env msg)"
    unfolding handle_hello_verify_request_def
    by (intro nc_intros nc_primitives nc_emit; simp add: not_connecting_def)
  moreover have "nc.keeps (handle_server_hello env msg)"
    unfolding handle_server_hello_def by (intro nc_intros nc_primitives nc_fold)
  moreover have "nc.keeps (handle_certificate env msg)"
    unfolding handle_certificate_def Let_def by (intro nc_intros nc_primitives; simp add: not_connecting_def)
  moreover have "nc.keeps (handle_server_key_exchange env msg)"
    unfolding handle_server_key_exchange_def by (intro nc_intros nc_primitives; simp add: not_connecting_def)
  moreover have "nc.keeps (handle_server_hello_done env)"
    unfolding handle_server_hello_done_def with_session_keys_def by (intro nc_intros nc_primitives nc_emit)
  ultimately show ?thesis by (cases "msg_type msg") (simp_all add: handle_handshake_message_def)
qed

text \<open>The label that the peer's Finished is computed with.\<close>

definition peer_finished_label :: "bool \<Rightarrow> string" where
  "peer_finished_label is_client = (if is_client then ''server finished'' else ''client finished'')"

lemma finished_gate_aux:
  assumes "\<not> is_connected (di_state s)"
  shows "wp (handle_finished env msg raw)
    (\<lambda>_ t. \<forall>ks p. di_state t = StConnected ks p \<longrightarrow> hc_session_keys s = Some ks
       \<and> calculate_verify_data (env_crypto env) (master_secret ks) (peer_finished_label (env_is_client env))
           (hc_handshake_messages s) = Ok (msg_body msg))
    (\<lambda>_ t. \<not> is_connected (di_state t)) s"
  using assms
  unfolding handle_finished_def check_finished_def server_finished_def change_cipher_spec_def emit_message_def
    build_handshake_record_def send_flight_def transmit_def become_connected_def set_state_def dtls_err_def
    create_session_crypto_def Let_def
  by (auto simp: wp_simps split_beta is_connected_def peer_finished_label_def bail_def)

text \<open>
  C5: Only a valid Finished message establishes a connection. When a handler moves a connection that is
  not connected to the connected state, in either role, the message it handled was a Finished, its body
  is the verify data of the peer's label over the transcript so far under the session keys, and these
  session keys are the ones of the connected state.
\<close>

theorem dtls_connected_only_by_verified_finished:
  assumes "handle_handshake_message env msg raw s = (r, t)" and "\<not> is_connected (di_state s)"
    and "di_state t = StConnected keys profile"
  shows "msg_type msg = Finished \<and> r = Ok () \<and> hc_session_keys s = Some keys
    \<and> calculate_verify_data (env_crypto env) (master_secret keys) (peer_finished_label (env_is_client env))
        (hc_handshake_messages s) = Ok (msg_body msg)"
proof -
  have fin: "msg_type msg = Finished"
  proof (rule ccontr)
    assume "msg_type msg \<noteq> Finished"
    moreover have "is_connected (di_state t)" using assms(3) by (simp add: is_connected_def)
    ultimately show False
      using nc.keepsD [OF nc_handlers assms(1)] assms(2) by (simp add: not_connecting_def)
  qed
  then have "handle_finished env msg raw s = (r, t)" using assms(1) by (simp add: handle_handshake_message_def)
  with finished_gate_aux [OF assms(2), of env msg raw] assms(3) fin show ?thesis
    by (cases r) (auto simp: wp_def is_connected_def)
qed

theorem dtls_connected_only_by_verified_finished_witness:
  "\<exists>s msg t keys profile. handle_handshake_message (null_env True) msg [] s = (Ok (), t)
     \<and> \<not> is_connected (di_state s) \<and> di_state t = StConnected keys profile \<and> msg_type msg = Finished
     \<and> calculate_verify_data null_crypto (master_secret keys) ''server finished'' (hc_handshake_messages s) = Ok (msg_body msg)"
proof -
  define keys where "keys = \<lparr>client_write_key = [], server_write_key = [], client_write_iv = [], server_write_iv = [],
    master_secret = [1], keys_client_random = [], keys_server_random = []\<rparr>"
  define s where "s = (handshake_context_new inner_new None [] (\<lambda>p. Ok p))\<lparr>hc_session_keys := Some keys\<rparr>"
  have st: "di_state s = StNew" "hc_session_keys s = Some keys"
    by (simp_all add: s_def handshake_context_new_def inner_new_def dtls_inner.defs handshake_context.defs)
  obtain vd where vd: "calculate_verify_data null_crypto (master_secret keys) ''server finished'' (hc_handshake_messages s) = Ok vd"
    using null_verify_data by blast
  have "create_session_crypto null_crypto keys = Ok keys" by (simp add: create_session_crypto_def null_crypto_def)
  then have "must (handle_handshake_message (null_env True) (whole_message Finished 0 vd) [])
      (\<lambda>t. \<exists>profile. di_state t = StConnected keys profile) s"
    using st vd by (simp add: handle_handshake_message_def whole_message_def handle_finished_def
        check_finished_def become_connected_def set_state_def wp_simps)
  then obtain u t profile where t: "handle_handshake_message (null_env True) (whole_message Finished 0 vd) [] s = (Ok u, t)"
      "di_state t = StConnected keys profile"
    by (rule mustE) blast
  have n: "\<not> is_connected (di_state s)" by (simp add: st is_connected_def)
  from dtls_connected_only_by_verified_finished [OF t(1) n t(2)] t n show ?thesis
    by (simp add: peer_finished_label_def) blast
qed

section \<open>Application data\<close>

lemma chunks_concat: "0 < n \<Longrightarrow> concat (chunks n data) = data"
proof (induction n data rule: chunks.induct)
  case (1 n data)
  then show ?case by (subst chunks.simps) auto
qed

lemma chunks_bounded: "\<forall>c \<in> set (chunks n data). 0 < length c \<and> length c \<le> n"
proof (induction n data rule: chunks.induct)
  case (1 n data)
  then show ?case by (subst chunks.simps) auto
qed

definition app_record :: "u16 \<Rightarrow> u64 \<Rightarrow> bytes \<Rightarrow> dtls_record" where
  "app_record epoch sq payload = \<lparr>rec_type = ApplicationData, rec_version = DTLS_1_2, rec_epoch = epoch,
     rec_seq = sq, rec_payload = payload\<rparr>"

text \<open>The hand-written record of \<open>send_record\<close> is the record codec applied to a payload sealed by
  \<open>encrypt_record\<close>.\<close>

lemma send_record_encrypts:
  assumes "gcm_correct (env_crypto env)" "iv_ok crypto" "gcm_key_ok (env_crypto env) (fst (own_write_key (env_is_client env) crypto))"
    and "send_record env crypto data s = (Ok (), t)"
  obtains e where "encrypt_record (env_crypto env) ApplicationData DTLS_1_2 (full_seq (di_write_epoch s) (di_write_seq s)) data
      (fst (own_write_key (env_is_client env) crypto)) (snd (own_write_key (env_is_client env) crypto)) = Ok e"
    and "t = s\<lparr>di_write_seq := di_write_seq s + 1,
           di_sent := di_sent s @ [dtls_record_encode (app_record (di_write_epoch s) (di_write_seq s) e)]\<rparr>"
proof -
  let ?k = "fst (own_write_key (env_is_client env) crypto)" and ?iv = "snd (own_write_key (env_is_client env) crypto)"
  let ?q = "full_seq (di_write_epoch s) (di_write_seq s)"
  have iv: "length ?iv = 4" using assms(2) by (rule own_write_key_iv)
  let ?aad = "u64_be ?q @ content_type_u8 ApplicationData # ver_major DTLS_1_2 # ver_minor DTLS_1_2
           # u16_be (of_nat (length data))"
  have aad: "?aad = make_aad ?q ApplicationData DTLS_1_2 (length data)" by (simp add: make_aad_def)
  obtain c tg where sl: "gcm_seal (env_crypto env) ?k (?iv @ u64_be ?q) ?aad data = Some (c, tg)"
    and t: "t = s\<lparr>di_write_seq := di_write_seq s + 1, di_sent := di_sent s @
        [content_type_u8 ApplicationData # ver_major DTLS_1_2 # ver_minor DTLS_1_2 # u16_be (di_write_epoch s)
          @ u48_be (di_write_seq s) @ u16_be (of_nat (8 + length data + 16)) @ u64_be ?q @ c @ tag16 tg]\<rparr>"
    using assms(4) iv unfolding send_record_def
    by (auto simp: eget_def ethen_def ebind_def emod_def elift_def Let_def split_beta dtls_err_def efail_def ret_def transmit_def
        split: option.splits)
  have "length c = length data" using assms(1) sl unfolding gcm_correct_def by blast
  then have "t = s\<lparr>di_write_seq := di_write_seq s + 1, di_sent := di_sent s @
      [dtls_record_encode (app_record (di_write_epoch s) (di_write_seq s) (u64_be ?q @ c @ tag16 tg))]\<rparr>"
    unfolding t by (simp add: dtls_record_encode_def app_record_def)
  moreover have "encrypt_record (env_crypto env) ApplicationData DTLS_1_2 ?q data ?k ?iv = Ok (u64_be ?q @ c @ tag16 tg)"
    using assms(3) iv sl unfolding aad by (simp add: encrypt_record_def)
  ultimately show ?thesis using that by blast
qed

lemma keys_cross: "own_write_key c ks = peer_write_key (\<not> c) ks"
  by (simp add: own_write_key_def peer_write_key_def)

lemma receive_app_record:
  assumes "gcm_correct (env_crypto env)" "iv_ok ks" "hc_session_crypto s = Some ks"
    and "epoch \<noteq> 0" "take_bit 48 sq = sq" "length data \<le> 1200"
    and "encrypt_record (env_crypto env) ApplicationData DTLS_1_2 (full_seq epoch sq) data
      (fst (peer_write_key (env_is_client env) ks)) (snd (peer_write_key (env_is_client env) ks)) = Ok e"
  shows "handle_incoming_packet env (dtls_record_encode (app_record epoch sq e)) s
      = (Ok (), s\<lparr>di_incoming := di_incoming s @ [data]\<rparr>)" "length (dtls_record_encode (app_record epoch sq e)) = length data + 37"
proof -
  let ?r = "app_record epoch sq e"
  have iv: "length (snd (peer_write_key (env_is_client env) ks)) = 4" using assms(2) by (rule peer_write_key_iv)
  note dec = decrypt_encrypt [OF assms(1) iv assms(7)]
  have ne: "dtls_record_encode ?r \<noteq> []" by (simp add: dtls_record_encode_def)
  have "record_fits ?r" using assms(5,6) dec(3) by (simp add: record_fits_def app_record_def)
  then have d: "dtls_record_decode (dtls_record_encode ?r) = Ok (Some (?r, []))"
    using record_decode_encode [of ?r "[]"] by simp
  have p: "try_decrypt_record env ?r s = Ok data"
    using assms(3,4) dec(1) by (simp add: try_decrypt_record_def app_record_def split_beta decryption_failed_def)
  show "handle_incoming_packet env (dtls_record_encode ?r) s = (Ok (), s\<lparr>di_incoming := di_incoming s @ [data]\<rparr>)"
    using d p ne by (subst handle_incoming_packet.simps)
      (simp add: app_record_def handle_decrypted_record_def emod_def handle_incoming_packet.simps)
  show "length (dtls_record_encode ?r) = length data + 37"
    using dec(3) by (simp add: dtls_record_encode_def app_record_def)
qed

definition deliver_all :: "dtls_env \<Rightarrow> bytes list \<Rightarrow> handshake_context \<Rightarrow> handshake_context" where
  "deliver_all env ds s = fold (\<lambda>d s. snd (handle_incoming_packet env d s)) ds s"

lemma take_bit_48: "unat q < 2 ^ 48 \<Longrightarrow> take_bit 48 (q :: u64) = q"
  by (rule take_bit_small) simp

lemma send_chunks_delivered:
  assumes "gcm_correct (env_crypto envA)" "env_crypto envB = env_crypto envA" "env_is_client envB = (\<not> env_is_client envA)"
    and "iv_ok ks" "gcm_key_ok (env_crypto envA) (fst (own_write_key (env_is_client envA) ks))"
    and "hc_session_crypto b = Some ks" "di_write_epoch a \<noteq> 0" "unat (di_write_seq a) + length cs \<le> 2 ^ 48"
    and "\<forall>c \<in> set cs. length c \<le> 1200" "send_chunks envA ks cs a = (Ok (), a')"
  shows "\<exists>ds. di_sent a' = di_sent a @ ds \<and> length ds = length cs \<and> (\<forall>d \<in> set ds. length d \<le> 1237)
     \<and> deliver_all envB ds b = b\<lparr>di_incoming := di_incoming b @ cs\<rparr>"
  using assms(6-)
proof (induction cs arbitrary: a b)
  case Nil
  then show ?case by (simp add: ret_def deliver_all_def)
next
  case (Cons c cs)
  then obtain a1 where a1: "send_record envA ks c a = (Ok (), a1)" "send_chunks envA ks cs a1 = (Ok (), a')"
    by (auto simp: ethen_def ebind_def split: prod.splits sum.splits)
  obtain e where e: "encrypt_record (env_crypto envA) ApplicationData DTLS_1_2 (full_seq (di_write_epoch a) (di_write_seq a)) c
      (fst (own_write_key (env_is_client envA) ks)) (snd (own_write_key (env_is_client envA) ks)) = Ok e"
    and a1': "a1 = a\<lparr>di_write_seq := di_write_seq a + 1,
        di_sent := di_sent a @ [dtls_record_encode (app_record (di_write_epoch a) (di_write_seq a) e)]\<rparr>"
    by (rule send_record_encrypts [OF assms(1,4,5) a1(1)])
  let ?d = "dtls_record_encode (app_record (di_write_epoch a) (di_write_seq a) e)"
  have w: "unat (di_write_seq a + 1) = Suc (unat (di_write_seq a))"
    using Cons.prems(3) by (simp add: unat_word_ariths)
  have "take_bit 48 (di_write_seq a) = di_write_seq a" using Cons.prems(3) by (intro take_bit_48) simp
  then have r: "handle_incoming_packet envB ?d b = (Ok (), b\<lparr>di_incoming := di_incoming b @ [c]\<rparr>)"
      "length ?d = length c + 37"
    using receive_app_record [of envB ks b "di_write_epoch a" "di_write_seq a" c e] assms(1-4) Cons.prems e
    by (simp_all add: keys_cross)
  obtain ds where "di_sent a' = di_sent a1 @ ds" "length ds = length cs" "\<forall>d \<in> set ds. length d \<le> 1237"
     "deliver_all envB ds (b\<lparr>di_incoming := di_incoming b @ [c]\<rparr>)
        = (b\<lparr>di_incoming := di_incoming b @ [c]\<rparr>)\<lparr>di_incoming := di_incoming (b\<lparr>di_incoming := di_incoming b @ [c]\<rparr>) @ cs\<rparr>"
    using Cons.IH [of "b\<lparr>di_incoming := di_incoming b @ [c]\<rparr>" a1] Cons.prems a1 w by (auto simp: a1')
  then show ?case
    using r Cons.prems by (intro exI [of _ "?d # ds"]) (simp add: a1' deliver_all_def)
qed

text \<open>
  C7: Application data arrives as it was sent. When \<open>send\<close> succeeds on a connected endpoint, it hands
  datagrams of at most 1237 bytes to the network, and an endpoint of the opposite role with the same
  session keys that receives them in order delivers exactly the data, cut into pieces of at most 1200
  bytes, and changes nothing else. (The record sequence number must still fit its 48 bits.)
\<close>

theorem dtls_application_data_delivered:
  assumes "gcm_correct (env_crypto envA)" and "env_crypto envB = env_crypto envA"
    and "env_is_client envB = (\<not> env_is_client envA)"
    and "iv_ok keys" and "gcm_key_ok (env_crypto envA) (fst (own_write_key (env_is_client envA) keys))"
    and "di_state a = StConnected keys profile" and "di_write_epoch a \<noteq> 0"
    and "unat (di_write_seq a) + length (chunks MAX_APP_DATA_RECORD_SIZE data) \<le> 2 ^ 48"
    and "hc_session_crypto b = Some keys" and "dtls_send envA data a = (Ok (), a')"
  shows "\<exists>ds pieces. di_sent a' = di_sent a @ ds \<and> (\<forall>d \<in> set ds. length d \<le> 1237)
     \<and> deliver_all envB ds b = b\<lparr>di_incoming := di_incoming b @ pieces\<rparr>
     \<and> concat pieces = data \<and> (\<forall>p \<in> set pieces. length p \<le> 1200)"
proof -
  let ?cs = "chunks MAX_APP_DATA_RECORD_SIZE data"
  have cs: "\<forall>c \<in> set ?cs. length c \<le> 1200" "concat ?cs = data"
    using chunks_bounded [of MAX_APP_DATA_RECORD_SIZE data] chunks_concat [of MAX_APP_DATA_RECORD_SIZE data]
    by (auto simp: MAX_APP_DATA_RECORD_SIZE_def)
  have "send_chunks envA keys ?cs a = (Ok (), a')"
    using assms(6,10) by (simp add: dtls_send_def eget_def)
  from send_chunks_delivered [OF assms(1-5,9,7,8) cs(1) this] cs show ?thesis by blast
qed

definition demo_keys :: session_keys where
  "demo_keys = \<lparr>client_write_key = [], server_write_key = [], client_write_iv = [1, 2, 3, 4], server_write_iv = [5, 6, 7, 8],
     master_secret = [], keys_client_random = [], keys_server_random = []\<rparr>"

definition demo_endpoint :: handshake_context where
  "demo_endpoint = (handshake_context_new (inner_new\<lparr>di_state := StConnected demo_keys None, di_write_epoch := 1,
     di_write_seq := 1\<rparr>) None [] (\<lambda>p. Ok p))\<lparr>hc_session_keys := Some demo_keys, hc_session_crypto := Some demo_keys,
     hc_epoch := 1, hc_sequence_number := 1\<rparr>"

lemma demo_endpoint_simps [simp]:
  "di_state demo_endpoint = StConnected demo_keys None" "di_write_epoch demo_endpoint = 1" "di_write_seq demo_endpoint = 1"
  "hc_session_crypto demo_endpoint = Some demo_keys" "hc_session_keys demo_endpoint = Some demo_keys"
  "hc_epoch demo_endpoint = 1" "hc_sequence_number demo_endpoint = 1" "di_sent demo_endpoint = []"
  by (simp_all add: demo_endpoint_def handshake_context_new_def inner_new_def dtls_inner.defs handshake_context.defs)

definition ideal_env :: "bool \<Rightarrow> dtls_env" where
  "ideal_env client = (null_env client)\<lparr>env_crypto := toy_crypto\<lparr>gcm_key_ok := \<lambda>_. True\<rparr>\<rparr>"

lemma ideal_env_simps:
  "gcm_correct (env_crypto (ideal_env c))" "gcm_key_ok (env_crypto (ideal_env c)) k" "env_is_client (ideal_env c) = c"
  "env_crypto (ideal_env c) = env_crypto (ideal_env d)"
  "\<exists>ct tg. gcm_seal (env_crypto (ideal_env c)) k n ad p = Some (ct, tg)"
  by (simp_all add: ideal_env_def gcm_correct_def toy_crypto_def toy_open_def null_env_def)

lemma demo_send:
  "\<exists>t. dtls_send (ideal_env c) [7, 8, 9] demo_endpoint = (Ok (), t)"
  by (simp add: dtls_send_def MAX_APP_DATA_RECORD_SIZE_def chunks.simps eget_def send_record_def ethen_def ebind_def emod_def
      Let_def split_beta elift_def own_write_key_def demo_keys_def ret_def ideal_env_def toy_crypto_def null_env_def transmit_def)

theorem dtls_application_data_delivered_witness:
  "\<exists>t ds pieces. dtls_send (ideal_env True) [7, 8, 9] demo_endpoint = (Ok (), t) \<and> di_sent t = ds
     \<and> di_incoming (deliver_all (ideal_env False) ds demo_endpoint) = di_incoming demo_endpoint @ pieces
     \<and> concat pieces = [7, 8, 9]"
proof -
  obtain t where t: "dtls_send (ideal_env True) [7, 8, 9] demo_endpoint = (Ok (), t)" using demo_send by blast
  have iv: "iv_ok demo_keys" by (simp add: iv_ok_def demo_keys_def)
  have "chunks MAX_APP_DATA_RECORD_SIZE [7, 8, 9] = [[7, 8, 9]]" by (simp add: chunks.simps MAX_APP_DATA_RECORD_SIZE_def)
  with dtls_application_data_delivered [OF ideal_env_simps(1) ideal_env_simps(4) _ iv ideal_env_simps(2)
      demo_endpoint_simps(1) _ _ demo_endpoint_simps(4) t, of False]
  show ?thesis using t by (auto simp: ideal_env_simps(3))
qed

section \<open>Two defects of record protection\<close>

text \<open>
  C34: The close_notify alert reuses a nonce. When a connected endpoint, whose write counters were taken
  over from the handshake, has sent application data and is then closed, the alert is sealed under the
  sequence number of the first application record: both records carry the same epoch and sequence number,
  hence the same AES-GCM nonce under the same key.
\<close>

theorem close_notify_reuses_nonce:
  assumes "di_state s = StConnected keys profile" and "hc_session_keys s = Some keys" and "iv_ok keys"
    and "gcm_correct (env_crypto env)" "gcm_key_ok (env_crypto env) (fst (own_write_key (env_is_client env) keys))"
    and "di_write_epoch s = hc_epoch s" "di_write_seq s = hc_sequence_number s"
    and "data \<noteq> []" "length data \<le> 1200" and "dtls_send env data s = (Ok (), t)"
    and "send_close_notify env t = (Ok (), u)" and "di_sent u \<noteq> di_sent t"
  shows "\<exists>e e'. di_sent u = di_sent s @
      [dtls_record_encode (app_record (hc_epoch s) (hc_sequence_number s) e),
       dtls_record_encode \<lparr>rec_type = Alert, rec_version = DTLS_1_2, rec_epoch = hc_epoch s,
         rec_seq = hc_sequence_number s, rec_payload = e'\<rparr>]
    \<and> take 8 e = take 8 e'"
proof -
  let ?k = "fst (own_write_key (env_is_client env) keys)" and ?iv = "snd (own_write_key (env_is_client env) keys)"
  let ?q = "full_seq (hc_epoch s) (hc_sequence_number s)"
  have iv: "length ?iv = 4" using assms(3) by (rule own_write_key_iv)
  have "chunks MAX_APP_DATA_RECORD_SIZE data = [data]"
    using assms(8,9) by (simp add: chunks.simps MAX_APP_DATA_RECORD_SIZE_def)
  then have "send_record env keys data s = (Ok (), t)"
    using assms(1,10) by (auto simp: dtls_send_def eget_def ethen_def ebind_def ret_def split: prod.splits sum.splits)
  then obtain e where e: "encrypt_record (env_crypto env) ApplicationData DTLS_1_2 ?q data ?k ?iv = Ok e"
    and t: "t = s\<lparr>di_write_seq := di_write_seq s + 1,
           di_sent := di_sent s @ [dtls_record_encode (app_record (hc_epoch s) (hc_sequence_number s) e)]\<rparr>"
    by (rule send_record_encrypts [OF assms(4,3,5)]) (simp add: assms(6,7))
  obtain e' where e': "encrypt_record (env_crypto env) Alert DTLS_1_2 ?q [1, 0] ?k ?iv = Ok e'"
    and u: "di_sent u = di_sent t @ [dtls_record_encode \<lparr>rec_type = Alert, rec_version = DTLS_1_2, rec_epoch = hc_epoch s,
         rec_seq = hc_sequence_number s, rec_payload = e'\<rparr>]"
    using assms(2,11,12) unfolding send_close_notify_def t
    by (auto simp: eget_def Let_def split_beta rmatch_def ret_def elift_def transmit_def emod_def
        split: sum.splits fault.splits)
  have "take 8 x = u64_be ?q" if "encrypt_record (env_crypto env) ct DTLS_1_2 ?q p ?k ?iv = Ok x" for ct p x
    by (rule encrypt_record_ok [OF assms(4) iv that]) simp
  with e e' have "take 8 e = take 8 e'" by metis
  with u t show ?thesis by auto
qed

theorem close_notify_reuses_nonce_witness:
  "\<exists>t u e e'. dtls_send (ideal_env True) [7, 8, 9] demo_endpoint = (Ok (), t)
     \<and> send_close_notify (ideal_env True) t = (Ok (), u)
     \<and> di_sent u = [dtls_record_encode (app_record 1 1 e),
         dtls_record_encode \<lparr>rec_type = Alert, rec_version = DTLS_1_2, rec_epoch = 1, rec_seq = 1, rec_payload = e'\<rparr>]
     \<and> take 8 e = take 8 e'"
proof -
  obtain t where t: "dtls_send (ideal_env True) [7, 8, 9] demo_endpoint = (Ok (), t)" using demo_send by blast
  have iv: "iv_ok demo_keys" by (simp add: iv_ok_def demo_keys_def)
  have same: "hc_session_keys t = Some demo_keys"
    using t by (auto simp: dtls_send_def MAX_APP_DATA_RECORD_SIZE_def chunks.simps eget_def send_record_def ethen_def
        ebind_def emod_def Let_def split_beta elift_def own_write_key_def demo_keys_def ret_def ideal_env_def toy_crypto_def
        null_env_def transmit_def)
  then obtain u where u: "send_close_notify (ideal_env True) t = (Ok (), u)" "di_sent u \<noteq> di_sent t"
    by (simp add: send_close_notify_def eget_def Let_def split_beta rmatch_def own_write_key_def demo_keys_def
        encrypt_record_def record_nonce_def ideal_env_def toy_crypto_def null_env_def transmit_def emod_def)
  from close_notify_reuses_nonce [OF demo_endpoint_simps(1,5) iv ideal_env_simps(1,2) _ _ _ _ t u] t u
  show ?thesis by auto
qed

text \<open>
  C35: Plaintext application data is delivered in every state. A record of epoch 0 is never decrypted, so
  that anyone who can reach the socket can insert data into a connection, established or not, that the
  application receives as if the peer had sent it.
\<close>

theorem plaintext_application_data_accepted:
  assumes "take_bit 48 sq = sq" and "length payload < 65536"
  shows "handle_incoming_packet env (dtls_record_encode (app_record 0 sq payload)) s
     = (Ok (), s\<lparr>di_incoming := di_incoming s @ [payload]\<rparr>)"
proof -
  let ?r = "app_record 0 sq payload"
  have ne: "dtls_record_encode ?r \<noteq> []" by (simp add: dtls_record_encode_def)
  have "record_fits ?r" using assms by (simp add: record_fits_def app_record_def)
  then have d: "dtls_record_decode (dtls_record_encode ?r) = Ok (Some (?r, []))"
    using record_decode_encode [of ?r "[]"] by simp
  have p: "try_decrypt_record env ?r s = Ok payload" by (simp add: try_decrypt_record_def app_record_def)
  show ?thesis
    using d p ne by (subst handle_incoming_packet.simps)
      (simp add: app_record_def handle_decrypted_record_def emod_def handle_incoming_packet.simps)
qed

theorem plaintext_application_data_accepted_witness:
  "handle_incoming_packet (null_env True) (dtls_record_encode (app_record 0 1 [104, 105])) demo_endpoint
     = (Ok (), demo_endpoint\<lparr>di_incoming := di_incoming demo_endpoint @ [[104, 105]]\<rparr>)"
  by (rule plaintext_application_data_accepted) (simp_all add: take_bit_eq_mod)

end
