(* ===== verification/Data_Channel.thy ===== *)
theory Data_Channel
  imports Utf8
begin

text \<open>
  Data channels (\<open>transports/datachannel.rs\<close>): the messages of the Data Channel Establishment Protocol,
  the channel with its event queue, and the buffered-amount bookkeeping behind the
  \<open>BufferedAmountLow\<close> event. The unbounded channel between \<open>tx\<close> and \<open>rx\<close> is the list of events not yet
  received; the receiver lives in the same struct, so a send fails only after \<open>close_channel\<close>.
\<close>

section \<open>DCEP messages\<close>

definition DATA_CHANNEL_PPID_DCEP :: u32 where "DATA_CHANNEL_PPID_DCEP = 50"
definition DATA_CHANNEL_PPID_STRING :: u32 where "DATA_CHANNEL_PPID_STRING = 51"
definition DATA_CHANNEL_PPID_BINARY :: u32 where "DATA_CHANNEL_PPID_BINARY = 53"
definition DCEP_TYPE_OPEN :: u8 where "DCEP_TYPE_OPEN = 0x03"
definition DCEP_TYPE_ACK :: u8 where "DCEP_TYPE_ACK = 0x02"

lemmas dcep_consts = DATA_CHANNEL_PPID_DCEP_def DATA_CHANNEL_PPID_STRING_def DATA_CHANNEL_PPID_BINARY_def
  DCEP_TYPE_OPEN_def DCEP_TYPE_ACK_def

datatype dcep_error = Open_too_short | Invalid_type | Open_short_payload | Not_utf8 | Ack_too_short

record data_channel_open =
  message_type :: u8
  channel_type :: u8
  priority :: u16
  reliability_parameter :: u32
  open_label :: utf8
  open_protocol :: utf8

definition open_marshal :: "data_channel_open \<Rightarrow> bytes" where
  "open_marshal d =
     [message_type d, channel_type d] @ u16_be (priority d) @ u32_be (reliability_parameter d)
     @ u16_be (of_nat (length (open_label d))) @ u16_be (of_nat (length (open_protocol d)))
     @ open_label d @ open_protocol d"

definition open_unmarshal :: "bytes \<Rightarrow> dcep_error fault + data_channel_open" where
  "open_unmarshal data =
     (if length data < 12 then Fail Open_too_short
      else
        rbind (get_u8 data) (\<lambda>(mt, buf).
        if mt \<noteq> DCEP_TYPE_OPEN then Fail Invalid_type
        else
          rbind (get_u8 buf) (\<lambda>(ct, buf).
          rbind (get_u16 buf) (\<lambda>(prio, buf).
          rbind (get_u32 buf) (\<lambda>(rel, buf).
          rbind (get_u16 buf) (\<lambda>(label_len, buf).
          rbind (get_u16 buf) (\<lambda>(protocol_len, buf).
          if length buf < unat label_len + unat protocol_len then Fail Open_short_payload
          else
            rbind (split_to (unat label_len) buf) (\<lambda>(label_bytes, buf).
            rbind (split_to (unat protocol_len) buf) (\<lambda>(protocol_bytes, _).
            rbind (ok_or (from_utf8 label_bytes) Not_utf8) (\<lambda>label.
            rbind (ok_or (from_utf8 protocol_bytes) Not_utf8) (\<lambda>protocol.
            Ok \<lparr>message_type = mt, channel_type = ct, priority = prio, reliability_parameter = rel,
                open_label = label, open_protocol = protocol\<rparr>)))))))))))"

record data_channel_ack =
  ack_message_type :: u8

definition ack_marshal :: "data_channel_ack \<Rightarrow> bytes" where
  "ack_marshal a = [ack_message_type a]"

definition ack_unmarshal :: "bytes \<Rightarrow> dcep_error fault + data_channel_ack" where
  "ack_unmarshal data =
     (if data = [] then Fail Ack_too_short
      else rbind (at8 data 0) (\<lambda>mt. if mt \<noteq> DCEP_TYPE_ACK then Fail Invalid_type else Ok \<lparr>ack_message_type = mt\<rparr>))"

section \<open>The channel\<close>

datatype dc_event = Ev_Open | Ev_Message bytes | Ev_Close | BufferedAmountLow nat

datatype dc_state = DC_Connecting | DC_Open | DC_Closing | DC_Closed

record data_channel_config =
  cfg_label :: utf8
  cfg_protocol :: utf8
  cfg_ordered :: bool
  cfg_max_retransmits :: "u16 option"
  cfg_max_packet_life_time :: "u16 option"
  cfg_max_payload_size :: "nat option"
  cfg_negotiated :: "u16 option"
  cfg_low_threshold :: nat

record data_channel =
  dc_id :: u16
  dc_label :: utf8
  dc_protocol :: utf8
  dc_ordered :: bool
  dc_max_retransmits :: "u16 option"
  dc_max_packet_life_time :: "u16 option"
  dc_max_payload_size :: nat
  dc_negotiated :: bool
  dc_st :: dc_state
  dc_next_ssn :: u16
  dc_tx_open :: bool
  dc_events :: "dc_event list"
  reassembly_buffer :: bytes
  buffered_amount :: nat
  low_threshold :: nat
  above_low_threshold :: bool

text \<open>\<open>From<usize> for DataChannelState\<close>.\<close>

definition dc_state_from :: "nat \<Rightarrow> dc_state" where
  "dc_state_from v = (if v = 0 then DC_Connecting else if v = 1 then DC_Open else if v = 2 then DC_Closing else DC_Closed)"

definition data_channel_new :: "u16 \<Rightarrow> data_channel_config \<Rightarrow> data_channel" where
  "data_channel_new i config =
     \<lparr>dc_id = i, dc_label = cfg_label config, dc_protocol = cfg_protocol config, dc_ordered = cfg_ordered config,
      dc_max_retransmits = cfg_max_retransmits config, dc_max_packet_life_time = cfg_max_packet_life_time config,
      dc_max_payload_size = (case cfg_max_payload_size config of None \<Rightarrow> 1200 | Some n \<Rightarrow> n),
      dc_negotiated = (cfg_negotiated config \<noteq> None), dc_st = DC_Connecting, dc_next_ssn = 0,
      dc_tx_open = True, dc_events = [], reassembly_buffer = [], buffered_amount = 0,
      low_threshold = cfg_low_threshold config, above_low_threshold = False\<rparr>"

definition send_event :: "dc_event \<Rightarrow> data_channel \<Rightarrow> data_channel" where
  "send_event ev dc = (if dc_tx_open dc then dc\<lparr>dc_events := dc_events dc @ [ev]\<rparr> else dc)"

definition close_channel :: "data_channel \<Rightarrow> data_channel" where
  "close_channel dc = dc\<lparr>dc_tx_open := False\<rparr>"

definition set_buffered_amount_low_threshold :: "nat \<Rightarrow> data_channel \<Rightarrow> data_channel" where
  "set_buffered_amount_low_threshold t dc = dc\<lparr>low_threshold := t\<rparr>"

definition on_buffered_amount :: "nat \<Rightarrow> data_channel \<Rightarrow> data_channel" where
  "on_buffered_amount amount dc =
     (let prev = buffered_amount dc; dc = dc\<lparr>buffered_amount := amount\<rparr> in
      if prev = amount then dc
      else if low_threshold dc = 0 then dc
      else if low_threshold dc < amount then dc\<lparr>above_low_threshold := True\<rparr>
      else let was_above = above_low_threshold dc; dc = dc\<lparr>above_low_threshold := False\<rparr> in
        if was_above then send_event (BufferedAmountLow amount) dc else dc)"

text \<open>\<open>recv\<close>: \<open>None\<close> is a call that waits, \<open>Some None\<close> the end of the stream.\<close>

definition dc_recv :: "data_channel \<Rightarrow> dc_event option option \<times> data_channel" where
  "dc_recv dc =
     (case dc_events dc of
        ev # evs \<Rightarrow> (Some (Some ev), dc\<lparr>dc_events := evs\<rparr>)
      | [] \<Rightarrow> (if dc_tx_open dc then None else Some None, dc))"

section \<open>Round trip of the open message\<close>

definition open_fits :: "data_channel_open \<Rightarrow> bool" where
  "open_fits d \<longleftrightarrow> message_type d = DCEP_TYPE_OPEN \<and> length (open_label d) < 65536
     \<and> length (open_protocol d) < 65536 \<and> utf8_valid (open_label d) \<and> utf8_valid (open_protocol d)"

lemma open_roundtrip: "open_fits d \<Longrightarrow> open_unmarshal (open_marshal d) = Ok d"
  unfolding open_unmarshal_def open_marshal_def open_fits_def
  by (simp add: read_simps from_utf8_def)

lemma ack_roundtrip: "ack_unmarshal (ack_marshal \<lparr>ack_message_type = DCEP_TYPE_ACK\<rparr>) = Ok \<lparr>ack_message_type = DCEP_TYPE_ACK\<rparr>"
  by (simp add: ack_unmarshal_def ack_marshal_def at8_def)

lemma open_unmarshal_no_panic: "open_unmarshal data \<noteq> Panicked"
  unfolding open_unmarshal_def
  by (auto simp: rbind_Inl_iff cursor_ok ok_or_def split: if_splits option.splits)

section \<open>The low-watermark event\<close>

text \<open>
  Specification: among successive amounts, the event fires at each one that is at or below the
  threshold while its predecessor is above it, and nowhere else.
\<close>

fun falls :: "nat \<Rightarrow> nat \<Rightarrow> nat list \<Rightarrow> nat list" where
  "falls t prev [] = []"
| "falls t prev (a # as) = (if t < prev \<and> a \<le> t then a # falls t a as else falls t a as)"

definition low_ok :: "data_channel \<Rightarrow> bool" where
  "low_ok dc \<longleftrightarrow> (above_low_threshold dc \<longleftrightarrow> low_threshold dc \<noteq> 0 \<and> low_threshold dc < buffered_amount dc)"

lemma low_ok_new: "low_ok (data_channel_new i config)"
  by (simp add: low_ok_def data_channel_new_def)

lemma on_buffered_amount_step:
  assumes "low_ok dc" and "dc_tx_open dc"
  shows "low_ok (on_buffered_amount a dc) \<and> dc_tx_open (on_buffered_amount a dc)
    \<and> low_threshold (on_buffered_amount a dc) = low_threshold dc
    \<and> buffered_amount (on_buffered_amount a dc) = a
    \<and> dc_events (on_buffered_amount a dc) = dc_events dc
        @ (if low_threshold dc \<noteq> 0 \<and> low_threshold dc < buffered_amount dc \<and> a \<le> low_threshold dc
           then [BufferedAmountLow a] else [])"
  using assms by (auto simp: on_buffered_amount_def low_ok_def send_event_def Let_def)

lemma on_buffered_amount_run:
  assumes "low_ok dc" and "dc_tx_open dc"
  shows "dc_events (fold on_buffered_amount as dc) = dc_events dc
    @ (if low_threshold dc = 0 then [] else map BufferedAmountLow (falls (low_threshold dc) (buffered_amount dc) as))"
  using assms
proof (induction as arbitrary: dc)
  case (Cons a as)
  then show ?case using on_buffered_amount_step [OF Cons.prems, of a] by simp
qed simp

end
