(* ===== verification/Sctp_Crc.thy ===== *)
theory Sctp_Crc
  imports Prelude
begin

text \<open>
  The SCTP checksum of \<open>transports/sctp.rs\<close>: CRC-32C over a table of 256 entries, and the variants for
  processors with CRC instructions (x86 and aarch64), which are parameters. The bit-serial
  definition (\<open>crc_bit\<close>, one division step of the reflected polynomial) is the reference: it is linear and
  injective, from which follow the equivalence of the routines and the errors that the
  checksum always detects.
\<close>

section \<open>The program\<close>

definition crc_bit :: "u32 \<Rightarrow> u32" where
  "crc_bit crc = (if crc AND 1 \<noteq> 0 then drop_bit 1 crc XOR 0x82F63B78 else drop_bit 1 crc)"

definition crc32c_table :: "u32 list" where
  "crc32c_table = map (\<lambda>i. (crc_bit ^^ 8) (of_nat i)) [0..<256]"

definition crc32c_soft_append :: "u32 \<Rightarrow> bytes \<Rightarrow> u32" where
  "crc32c_soft_append crc data =
     NOT (foldl (\<lambda>crc byte. crc32c_table ! unat ((crc XOR ucast byte) AND 0xFF) XOR drop_bit 8 crc) (NOT crc) data)"

text \<open>
  The accelerated routines take eight bytes at a time (\<open>chunks_exact(8)\<close>, read in little-endian order)
  and the remainder byte by byte. The register of the x86 routine has 64 bits between the chunks and is
  narrowed for the remainder; that of the aarch64 routine has 32 bits throughout.
\<close>

fun u64_le :: "bytes \<Rightarrow> u64" where
  "u64_le [] = 0"
| "u64_le (b # bs) = ucast b OR push_bit 8 (u64_le bs)"

function crc_chunks :: "('c \<Rightarrow> u64 \<Rightarrow> 'c) \<Rightarrow> ('c \<Rightarrow> u32) \<Rightarrow> (u32 \<Rightarrow> u8 \<Rightarrow> u32) \<Rightarrow> 'c \<Rightarrow> bytes \<Rightarrow> u32" where
  "crc_chunks crc_u64 narrow crc_u8 c data =
     (if 8 \<le> length data then crc_chunks crc_u64 narrow crc_u8 (crc_u64 c (u64_le (take 8 data))) (drop 8 data)
      else foldl crc_u8 (narrow c) data)"
  by auto
termination by (relation "measure (\<lambda>(_, _, _, _, data). length data)") auto

declare crc_chunks.simps [simp del]

definition crc32c_append_x86 :: "(u64 \<Rightarrow> u64 \<Rightarrow> u64) \<Rightarrow> (u32 \<Rightarrow> u8 \<Rightarrow> u32) \<Rightarrow> u32 \<Rightarrow> bytes \<Rightarrow> u32" where
  "crc32c_append_x86 mm_crc32_u64 mm_crc32_u8 crc data =
     crc_chunks mm_crc32_u64 ucast mm_crc32_u8 (ucast (crc XOR 0xFFFFFFFF)) data XOR 0xFFFFFFFF"

definition crc32c_append_aarch64 :: "(u32 \<Rightarrow> u64 \<Rightarrow> u32) \<Rightarrow> (u32 \<Rightarrow> u8 \<Rightarrow> u32) \<Rightarrow> u32 \<Rightarrow> bytes \<Rightarrow> u32" where
  "crc32c_append_aarch64 crc32cd crc32cb crc data =
     crc_chunks crc32cd (\<lambda>c. c) crc32cb (crc XOR 0xFFFFFFFF) data XOR 0xFFFFFFFF"

text \<open>
  The choice by processor. The rest of the development uses the software branch; the other two
  compute the same (\<open>crc32c_select_eq\<close>).
\<close>

datatype crc_cpu =
    Cpu_plain
  | Cpu_sse42 "u64 \<Rightarrow> u64 \<Rightarrow> u64" "u32 \<Rightarrow> u8 \<Rightarrow> u32"
  | Cpu_arm_crc "u32 \<Rightarrow> u64 \<Rightarrow> u32" "u32 \<Rightarrow> u8 \<Rightarrow> u32"

fun crc32c_select :: "crc_cpu \<Rightarrow> u32 \<Rightarrow> bytes \<Rightarrow> u32" where
  "crc32c_select Cpu_plain crc data = crc32c_soft_append crc data"
| "crc32c_select (Cpu_sse42 f64 f8) crc data = crc32c_append_x86 f64 f8 crc data"
| "crc32c_select (Cpu_arm_crc f64 f8) crc data = crc32c_append_aarch64 f64 f8 crc data"

definition sctp_crc32c_append :: "u32 \<Rightarrow> bytes \<Rightarrow> u32" where
  "sctp_crc32c_append crc data = crc32c_select Cpu_plain crc data"

definition sctp_crc32c :: "bytes \<Rightarrow> u32" where
  "sctp_crc32c data = sctp_crc32c_append 0 data"

section \<open>One division step\<close>

lemma and_1_bit: "x AND 1 \<noteq> (0 :: u32) \<longleftrightarrow> bit x 0"
  by (simp add: and_one_eq odd_iff_mod_2_eq_one [symmetric] bit_0 mod_2_eq_odd)

lemma crc_bit_alt: "crc_bit x = drop_bit 1 x XOR (if bit x 0 then 0x82F63B78 else 0)"
  unfolding crc_bit_def and_1_bit by simp

lemma crc_bit_xor: "crc_bit (x XOR y) = crc_bit x XOR crc_bit y"
proof -
  have "drop_bit 1 (x XOR y) = drop_bit 1 x XOR drop_bit 1 y" by (simp add: drop_bit_xor)
  then show ?thesis
    by (simp add: crc_bit_alt bit_xor_iff xor.assoc xor.left_commute)
qed

lemma crc_bit_0_iff: "crc_bit x = 0 \<longleftrightarrow> x = 0"
proof
  assume z: "crc_bit x = 0"
  have poly: "bit (0x82F63B78 :: u32) 31" by simp
  have top: "\<not> bit (drop_bit 1 x) 31" using bit_imp_le_length [of x 32] by (auto simp: bit_drop_bit_eq)
  have low: "\<not> bit x 0"
  proof
    assume "bit x 0"
    with z have "drop_bit 1 x XOR 0x82F63B78 = 0" by (simp add: crc_bit_alt)
    then have "bit (drop_bit 1 x XOR 0x82F63B78) 31 = bit (0 :: u32) 31" by simp
    with poly top show False by (simp add: bit_xor_iff)
  qed
  with z have d: "drop_bit 1 x = 0" by (simp add: crc_bit_alt)
  show "x = 0"
  proof (rule bit_word_eqI)
    fix n
    show "bit x n = bit 0 n" using low arg_cong [OF d, of "\<lambda>w. bit w (n - 1)"] by (cases n) (simp_all add: bit_drop_bit_eq)
  qed
qed (simp add: crc_bit_alt)

lemma crc_steps_xor: "(crc_bit ^^ n) (x XOR y) = (crc_bit ^^ n) x XOR (crc_bit ^^ n) y"
  by (induction n) (simp_all add: crc_bit_xor)

lemma crc_steps_0_iff: "(crc_bit ^^ n) x = 0 \<longleftrightarrow> x = 0"
  by (induction n) (simp_all add: crc_bit_0_iff)

lemma xor_0_iff: "x XOR y = 0 \<longleftrightarrow> x = y" for x y :: "'a::len word"
  by (metis xor.assoc xor.right_neutral xor_self_eq)

lemma xor_right_cancel: "x XOR z = y XOR z \<longleftrightarrow> x = y" for x y z :: "'a::len word"
proof
  assume "x XOR z = y XOR z"
  then have "(x XOR z) XOR z = (y XOR z) XOR z" by (rule arg_cong)
  then show "x = y" by (simp add: xor.assoc)
qed simp

lemma xor_left_cancel: "z XOR x = z XOR y \<longleftrightarrow> x = y" for x y z :: "'a::len word"
  by (simp add: xor.commute [of z] xor_right_cancel)

lemma crc_steps_inj: "(crc_bit ^^ n) x = (crc_bit ^^ n) y \<longleftrightarrow> x = y"
  using crc_steps_0_iff [of n "x XOR y"] by (simp add: crc_steps_xor xor_0_iff)

lemma crc_steps_shift: "n \<le> 32 \<Longrightarrow> (\<forall>i < n. \<not> bit x i) \<Longrightarrow> (crc_bit ^^ n) x = drop_bit n x"
proof (induction n)
  case (Suc n)
  then have "(crc_bit ^^ n) x = drop_bit n x" by simp
  moreover have "\<not> bit (drop_bit n x) 0" using Suc.prems(2) by (simp add: bit_drop_bit_eq)
  ultimately show ?case using crc_bit_alt [of "drop_bit n x"] by (simp add: drop_bit_drop_bit del: bit_0)
qed simp

lemma crc_table_step: "crc32c_table ! unat (x AND 0xFF) XOR drop_bit 8 x = (crc_bit ^^ 8) x"
proof -
  have "unat (x AND 0xFF) < 256"
    using word_and_le1 [of x "0xFF"] by (simp add: word_le_nat_alt)
  then have "crc32c_table ! unat (x AND 0xFF) = (crc_bit ^^ 8) (x AND 0xFF)"
    by (simp add: crc32c_table_def)
  moreover have "(crc_bit ^^ 8) (x AND NOT 0xFF) = drop_bit 8 (x AND NOT 0xFF)"
  proof (rule crc_steps_shift)
    have "bit (0xFF :: u32) i" if "i < 8" for i
      using that by (simp add: less_eq_Suc_le numeral_eq_Suc le_Suc_eq, auto)
    then show "\<forall>i < 8. \<not> bit (x AND NOT 0xFF) i" by (simp add: bit_simps)
  qed simp
  moreover have "drop_bit 8 (x AND NOT 0xFF) = drop_bit 8 x"
  proof (rule bit_word_eqI)
    fix n
    have "bit (drop_bit 8 (0xFF :: u32)) n = bit (0 :: u32) n" by simp
    then have "\<not> bit (0xFF :: u32) (8 + n)" by (simp only: bit_drop_bit_eq comp_def bit_0_eq) simp
    then show "bit (drop_bit 8 (x AND NOT 0xFF)) n = bit (drop_bit 8 x) n"
      using bit_imp_le_length [of x "8 + n"] unfolding bit_drop_bit_eq comp_def bit_and_iff bit_not_iff by auto
  qed
  moreover have "x = (x AND 0xFF) XOR (x AND NOT 0xFF)"
    by (rule bit_word_eqI) (auto simp: bit_simps)
  ultimately show ?thesis using crc_steps_xor [of 8 "x AND 0xFF" "x AND NOT 0xFF"] by simp
qed

section \<open>The reference: one byte at a time, bit by bit\<close>

definition crc_step :: "u32 \<Rightarrow> u8 \<Rightarrow> u32" where
  "crc_step c b = (crc_bit ^^ 8) (c XOR ucast b)"

lemma crc_table_byte: "crc32c_table ! unat ((c XOR ucast b) AND 0xFF) XOR drop_bit 8 c = crc_step c b"
proof -
  have "drop_bit 8 (ucast b :: u32) = 0" by (rule bit_word_eqI) (simp add: bit_simps)
  then have "drop_bit 8 (c XOR ucast b) = drop_bit 8 c" by (simp add: drop_bit_xor)
  then show ?thesis using crc_table_step [of "c XOR ucast b"] by (simp add: crc_step_def)
qed

lemma crc32c_soft_append_step: "crc32c_soft_append crc data = NOT (foldl crc_step (NOT crc) data)"
  unfolding crc32c_soft_append_def by (simp only: crc_table_byte)

lemma sctp_crc32c_append_append:
  "sctp_crc32c_append (sctp_crc32c_append crc xs) ys = sctp_crc32c_append crc (xs @ ys)"
  by (simp add: sctp_crc32c_append_def crc32c_soft_append_step)

lemma crc_step_inj: "crc_step c b = crc_step d b \<longleftrightarrow> c = d"
  by (simp only: crc_step_def crc_steps_inj xor_right_cancel)

lemma crc_fold_inj: "foldl crc_step c bs = foldl crc_step d bs \<longleftrightarrow> c = d"
  by (induction bs arbitrary: c d) (simp_all add: crc_step_inj)

text \<open>Four bytes at most enter the register as one little-endian number.\<close>

fun crc_window :: "bytes \<Rightarrow> u32" where
  "crc_window [] = 0"
| "crc_window (b # bs) = ucast b XOR push_bit 8 (crc_window bs)"

lemma crc_window_high: "8 * length bs \<le> n \<Longrightarrow> \<not> bit (crc_window bs) n"
  by (induction bs arbitrary: n) (auto simp: bit_simps)

lemma bit_crc_window:
  "bit (crc_window (b # bs)) n \<longleftrightarrow> (if n < 8 then bit b n else n < 32 \<and> bit (crc_window bs) (n - 8))"
  by (simp add: bit_xor_iff bit_push_bit_iff bit_unsigned_iff)

lemma crc_window_shift: "length bs \<le> 3 \<Longrightarrow> (crc_bit ^^ 8) (push_bit 8 (crc_window bs)) = crc_window bs"
proof -
  assume len: "length bs \<le> 3"
  have "(crc_bit ^^ 8) (push_bit 8 (crc_window bs)) = drop_bit 8 (push_bit 8 (crc_window bs))"
    by (rule crc_steps_shift) (simp_all add: bit_simps)
  also have "\<dots> = crc_window bs"
    proof (rule bit_word_eqI)
    fix n
    assume "n < LENGTH(32)"
    then show "bit (drop_bit 8 (push_bit 8 (crc_window bs))) n = bit (crc_window bs) n"
      using len crc_window_high [of bs n] by (cases "n < 24") (simp_all add: bit_simps)
  qed
  finally show ?thesis .
qed

lemma crc_fold_window:
  "length bs \<le> 4 \<Longrightarrow> foldl crc_step c bs = (crc_bit ^^ (8 * length bs)) (c XOR crc_window bs)"
proof (induction bs arbitrary: c)
  case (Cons b bs)
  then have len: "length bs \<le> 3" and "length bs \<le> 4" by simp_all
  then have "foldl crc_step c (b # bs) = (crc_bit ^^ (8 * length bs)) (crc_step c b XOR crc_window bs)"
    using Cons.IH by simp
  also have "crc_step c b XOR crc_window bs = (crc_bit ^^ 8) (c XOR crc_window (b # bs))"
    using crc_window_shift [OF len] by (simp only: crc_step_def crc_window.simps crc_steps_xor xor.assoc)
  also have "(crc_bit ^^ (8 * length bs)) \<dots> = (crc_bit ^^ (8 * length bs + 8)) (c XOR crc_window (b # bs))"
    unfolding funpow_add comp_def ..
  finally show ?case by (simp add: add.commute)
qed simp

lemma crc_window_inj: "length bs = length cs \<Longrightarrow> length bs \<le> 4 \<Longrightarrow> crc_window bs = crc_window cs \<Longrightarrow> bs = cs"
proof (induction bs cs rule: list_induct2)
  case (Cons b bs c cs)
  have bits: "bit (crc_window (b # bs)) n = bit (crc_window (c # cs)) n" for n
    using Cons.prems by (simp only:)
  have "b = c"
  proof (rule bit_word_eqI)
    fix n assume "n < LENGTH(8)"
    with bits [of n] show "bit b n = bit c n" by (simp add: bit_crc_window del: crc_window.simps)
  qed
  moreover have "crc_window bs = crc_window cs"
  proof (rule bit_word_eqI)
    fix n
    assume "n < LENGTH(32)"
    show "bit (crc_window bs) n = bit (crc_window cs) n"
    proof (cases "n < 24")
      case True
      with bits [of "n + 8"] show ?thesis by (simp add: bit_crc_window del: crc_window.simps)
    next
      case False
      with Cons.hyps Cons.prems show ?thesis by (simp add: crc_window_high)
    qed
  qed
  ultimately show ?case using Cons.IH Cons.prems(1) by simp
qed simp

lemma crc_detects_burst:
  assumes "length bs = length cs" and "length bs \<le> 4" and "bs \<noteq> cs"
  shows "sctp_crc32c (pre @ bs @ post) \<noteq> sctp_crc32c (pre @ cs @ post)"
proof -
  let ?c = "foldl crc_step (NOT 0) pre"
  have "crc_window bs \<noteq> crc_window cs" using crc_window_inj assms by blast
  then have "?c XOR crc_window bs \<noteq> ?c XOR crc_window cs" by (simp add: xor_left_cancel)
  then have "foldl crc_step ?c bs \<noteq> foldl crc_step ?c cs"
    using assms(1,2) by (simp add: crc_fold_window crc_steps_inj)
  then show ?thesis
    by (simp add: sctp_crc32c_def sctp_crc32c_append_def crc32c_soft_append_step crc_fold_inj)
qed

text \<open>
  The accelerated routines, for instructions that do what their documentation says: the byte
  instruction is eight division steps, the quadword instruction is eight byte instructions.
\<close>

lemma crc_chunks_step:
  assumes u8: "\<And>c b. crc_u8 c b = crc_step c b" and narrow: "\<And>c. narrow (widen c) = c"
    and u64: "\<And>c bs. length bs = 8 \<Longrightarrow> crc_u64 (widen c) (u64_le bs) = widen (foldl crc_u8 c bs)"
  shows "crc_chunks crc_u64 narrow crc_u8 (widen c) data = foldl crc_step c data"
proof (induction "length data" arbitrary: c data rule: less_induct)
  case less
  have f: "foldl crc_u8 d xs = foldl crc_step d xs" for d xs
    by (induction xs arbitrary: d) (simp_all add: u8)
  show ?case
  proof (cases "8 \<le> length data")
    case True
    then have "crc_chunks crc_u64 narrow crc_u8 (widen c) data
        = crc_chunks crc_u64 narrow crc_u8 (widen (foldl crc_step c (take 8 data))) (drop 8 data)"
      by (subst crc_chunks.simps) (simp add: u64 f)
    also have "\<dots> = foldl crc_step (foldl crc_step c (take 8 data)) (drop 8 data)"
      using True by (intro less.hyps) simp
    also have "\<dots> = foldl crc_step c data" by (metis append_take_drop_id foldl_append)
    finally show ?thesis .
  next
    case False
    then show ?thesis by (subst crc_chunks.simps) (simp add: f narrow)
  qed
qed

fun crc_cpu_ok :: "crc_cpu \<Rightarrow> bool" where
  "crc_cpu_ok Cpu_plain \<longleftrightarrow> True"
| "crc_cpu_ok (Cpu_sse42 f64 f8) \<longleftrightarrow>
     (\<forall>c b. f8 c b = crc_step c b) \<and> (\<forall>c bs. length bs = 8 \<longrightarrow> f64 (ucast c) (u64_le bs) = ucast (foldl f8 c bs))"
| "crc_cpu_ok (Cpu_arm_crc f64 f8) \<longleftrightarrow>
     (\<forall>c b. f8 c b = crc_step c b) \<and> (\<forall>c bs. length bs = 8 \<longrightarrow> f64 c (u64_le bs) = foldl f8 c bs)"

lemma crc32c_select_eq:
  assumes "crc_cpu_ok cpu"
  shows "crc32c_select cpu crc data = sctp_crc32c_append crc data"
proof -
  have "(0xFFFFFFFF :: u32) = - 1" by simp
  then have n: "x XOR 0xFFFFFFFF = NOT x" for x :: u32 by (simp only: bit.xor_one_right)
  have d: "(ucast (ucast c :: u64) :: u32) = c" for c by (simp add: ucast_down_ucast_id is_down)
  show ?thesis
  proof (cases cpu)
    case (Cpu_sse42 f64 f8)
    with assms crc_chunks_step [of f8 ucast ucast f64, OF _ d] show ?thesis
      by (simp add: crc32c_append_x86_def sctp_crc32c_append_def crc32c_soft_append_step n)
  next
    case (Cpu_arm_crc f64 f8)
    with assms crc_chunks_step [of f8 "\<lambda>c. c" "\<lambda>c. c" f64] show ?thesis
      by (simp add: crc32c_append_aarch64_def sctp_crc32c_append_def crc32c_soft_append_step n)
  qed (simp add: sctp_crc32c_append_def)
qed

end
