(* ===== verification/Sctp_State.thy ===== *)
theory Sctp_State
  imports Complex_Main Data_Channel Btree_Map Serial Effect Sctp_Crc
begin

text \<open>
  The state of an SCTP association (\<open>SctpInner\<close> of \<open>transports/sctp.rs\<close>) and the operations every handler
  uses: the buffered-amount accounts, the retransmission timeout, the SACK scheduling, the state cell and
  the packet output. The fields of \<open>SctpInner\<close> are grouped in records (configuration, receiving side,
  sending side, congestion control, timers, counters). The list of weak references to data channels is
  a list of optional channels, \<open>None\<close> for one that the application has dropped. Time is a number of
  nanoseconds; a handler reads the clock (\<open>sctp_now\<close>) as one instant. The binary64 numbers of the timeout
  calculator are real numbers: rounding is not modelled.
\<close>

section \<open>Constants\<close>

definition SCTP_COMMON_HEADER_SIZE :: nat where "SCTP_COMMON_HEADER_SIZE = 12"
definition CHUNK_HEADER_SIZE :: nat where "CHUNK_HEADER_SIZE = 4"
definition MAX_SCTP_PACKET_SIZE :: nat where "MAX_SCTP_PACKET_SIZE = 1200"
definition DEFAULT_MAX_PAYLOAD_SIZE :: nat where "DEFAULT_MAX_PAYLOAD_SIZE = 1172"
definition DUP_THRESH :: u8 where "DUP_THRESH = 3"
definition CWND_INITIAL :: nat where "CWND_INITIAL = MAX_SCTP_PACKET_SIZE * 10"
definition SSTHRESH_MIN :: nat where "SSTHRESH_MIN = MAX_SCTP_PACKET_SIZE * 4"
definition CWND_MIN_AFTER_RTO :: nat where "CWND_MIN_AFTER_RTO = MAX_SCTP_PACKET_SIZE * 4"
definition MAX_INBOUND_STREAM_PENDING :: nat where "MAX_INBOUND_STREAM_PENDING = 128"
definition MAX_DUPS_BUFFER_SIZE :: nat where "MAX_DUPS_BUFFER_SIZE = 32"
definition MAX_RECEIVED_QUEUE_SIZE :: nat where "MAX_RECEIVED_QUEUE_SIZE = 512"
definition SCTP_MAX_INIT_RETRANS :: nat where "SCTP_MAX_INIT_RETRANS = 8"
definition RETRANSMIT_BURST :: nat where "RETRANSMIT_BURST = 4"
definition COOKIE_HMAC_LEN :: nat where "COOKIE_HMAC_LEN = 20"
definition COOKIE_TIMESTAMP_LEN :: nat where "COOKIE_TIMESTAMP_LEN = 8"
definition COOKIE_TOTAL_LEN :: nat where "COOKIE_TOTAL_LEN = COOKIE_TIMESTAMP_LEN + COOKIE_HMAC_LEN"
definition COOKIE_LIFETIME_MS :: nat where "COOKIE_LIFETIME_MS = 60000"

definition millis :: "nat \<Rightarrow> nat" where "millis n = n * 1000000"
definition secs :: "nat \<Rightarrow> nat" where "secs n = n * 1000000000"

definition FAST_RECOVERY_REENTRY_COOLDOWN :: nat where "FAST_RECOVERY_REENTRY_COOLDOWN = millis 500"
definition SACK_DELAY :: nat where "SACK_DELAY = millis 0"

definition CT_DATA :: u8 where "CT_DATA = 0"
definition CT_INIT :: u8 where "CT_INIT = 1"
definition CT_INIT_ACK :: u8 where "CT_INIT_ACK = 2"
definition CT_SACK :: u8 where "CT_SACK = 3"
definition CT_HEARTBEAT :: u8 where "CT_HEARTBEAT = 4"
definition CT_HEARTBEAT_ACK :: u8 where "CT_HEARTBEAT_ACK = 5"
definition CT_ABORT :: u8 where "CT_ABORT = 6"
definition CT_SHUTDOWN :: u8 where "CT_SHUTDOWN = 7"
definition CT_SHUTDOWN_ACK :: u8 where "CT_SHUTDOWN_ACK = 8"
definition CT_COOKIE_ECHO :: u8 where "CT_COOKIE_ECHO = 10"
definition CT_COOKIE_ACK :: u8 where "CT_COOKIE_ACK = 11"
definition CT_RECONFIG :: u8 where "CT_RECONFIG = 130"
definition CT_FORWARD_TSN :: u8 where "CT_FORWARD_TSN = 192"
definition RECONFIG_PARAM_OUTGOING_SSN_RESET :: u16 where "RECONFIG_PARAM_OUTGOING_SSN_RESET = 13"
definition RECONFIG_PARAM_RESPONSE :: u16 where "RECONFIG_PARAM_RESPONSE = 16"

lemmas ct_consts = CT_DATA_def CT_INIT_def CT_INIT_ACK_def CT_SACK_def CT_HEARTBEAT_def CT_HEARTBEAT_ACK_def
  CT_ABORT_def CT_SHUTDOWN_def CT_SHUTDOWN_ACK_def CT_COOKIE_ECHO_def CT_COOKIE_ACK_def CT_RECONFIG_def
  CT_FORWARD_TSN_def

lemmas sctp_consts = SCTP_COMMON_HEADER_SIZE_def CHUNK_HEADER_SIZE_def MAX_SCTP_PACKET_SIZE_def
  DEFAULT_MAX_PAYLOAD_SIZE_def DUP_THRESH_def CWND_INITIAL_def SSTHRESH_MIN_def CWND_MIN_AFTER_RTO_def
  MAX_INBOUND_STREAM_PENDING_def MAX_DUPS_BUFFER_SIZE_def MAX_RECEIVED_QUEUE_SIZE_def
  SCTP_MAX_INIT_RETRANS_def RETRANSMIT_BURST_def COOKIE_HMAC_LEN_def COOKIE_TIMESTAMP_LEN_def
  COOKIE_TOTAL_LEN_def COOKIE_LIFETIME_MS_def millis_def secs_def FAST_RECOVERY_REENTRY_COOLDOWN_def SACK_DELAY_def

section \<open>Serial numbers\<close>

definition tsn_gt :: "u32 \<Rightarrow> u32 \<Rightarrow> bool" where
  "tsn_gt a b \<longleftrightarrow> 0 < sint (a - b)"

definition ssn_gt :: "u16 \<Rightarrow> u16 \<Rightarrow> bool" where
  "ssn_gt a b \<longleftrightarrow> 0 < sint (a - b)"

interpretation tsn: serial_order tsn_gt
  by unfold_locales (simp add: tsn_gt_def sint_pos_iff ahead_def)

interpretation ssn: serial_order ssn_gt
  by unfold_locales (simp add: ssn_gt_def sint_pos_iff ahead_def)

section \<open>Queue entries\<close>

record chunk_record =
  payload :: bytes
  sent_time :: nat
  transmit_count :: u32
  missing_reports :: u8
  abandoned :: bool
  fast_retransmit :: bool
  needs_retransmit :: bool
  fast_retransmit_time :: "nat option"
  in_flight :: bool
  acked :: bool
  rec_stream :: u16
  rec_ssn :: u16
  rec_flags :: u8
  rec_max_retransmits :: "u16 option"
  rec_expiry :: "nat option"

record outbound_chunk =
  oc_stream :: u16
  oc_ppid :: u32
  oc_payload :: bytes
  oc_flags :: u8
  oc_ssn :: u16
  oc_max_retransmits :: "u16 option"
  oc_expiry :: "nat option"

datatype sctp_state = Sctp_New | Sctp_Connecting | Sctp_Connected | Sctp_Closed

section \<open>Ordered delivery within a stream\<close>

record inbound_stream =
  next_ssn :: u16
  pending :: "(u16, bytes) btree"

definition inbound_stream_new :: inbound_stream where
  "inbound_stream_new = \<lparr>next_ssn = 0, pending = []\<rparr>"

text \<open>\<open>drain_ready\<close> removes an entry in every round, so the map bounds the number of rounds.\<close>

lemma bt_remove_length: "bt_get k m = Some v \<Longrightarrow> length (bt_remove k m) < length m"
proof -
  assume "bt_get k m = Some v"
  then have "(k, v) \<in> set m" by (simp add: bt_get_def map_of_SomeD)
  then show ?thesis unfolding bt_remove_def by (intro length_filter_less) auto
qed

function drain_ready :: "inbound_stream \<Rightarrow> bytes list \<times> inbound_stream" where
  "drain_ready st =
     (case bt_get (next_ssn st) (pending st) of
        None \<Rightarrow> ([], st)
      | Some msg \<Rightarrow>
          (case drain_ready \<lparr>next_ssn = next_ssn st + 1, pending = bt_remove (next_ssn st) (pending st)\<rparr> of
             (out, st') \<Rightarrow> (msg # out, st')))"
  by auto
termination
  by (relation "measure (\<lambda>st. length (pending st))") (auto simp: bt_remove_length)

declare drain_ready.simps [simp del]

definition enqueue :: "u16 \<Rightarrow> bytes \<Rightarrow> inbound_stream \<Rightarrow> bytes list \<times> inbound_stream" where
  "enqueue ssn msg st =
     (let insert_and_drain = (\<lambda>st. drain_ready (st\<lparr>pending := bt_insert ssn msg (pending st)\<rparr>)) in
      if MAX_INBOUND_STREAM_PENDING \<le> length (pending st)
      then (case drain_ready st of (ready, st') \<Rightarrow> if ready \<noteq> [] then (ready, st') else insert_and_drain st')
      else insert_and_drain st)"

definition advance_ssn_to :: "u16 \<Rightarrow> inbound_stream \<Rightarrow> inbound_stream" where
  "advance_ssn_to ssn st =
     (if ssn_gt (ssn + 1) (next_ssn st)
      then \<lparr>next_ssn = ssn + 1, pending = filter (\<lambda>(s, _). ssn_gt s ssn) (pending st)\<rparr>
      else st)"

section \<open>The retransmission timeout\<close>

record rto_calculator =
  srtt :: real
  rttvar :: real
  rto :: real
  rto_min :: real
  rto_max :: real

definition rto_calc_new :: "real \<Rightarrow> real \<Rightarrow> real \<Rightarrow> rto_calculator" where
  "rto_calc_new initial lo hi = \<lparr>srtt = 0, rttvar = 0, rto = initial, rto_min = lo, rto_max = hi\<rparr>"

text \<open>\<open>f64::clamp\<close> panics when the bounds are the wrong way round; the calculator below is called only with a
  configuration whose bounds are in order (\<open>rto_ok\<close>), for which this is its value.\<close>

definition clamp :: "real \<Rightarrow> real \<Rightarrow> real \<Rightarrow> real" where
  "clamp lo hi x = (if x < lo then lo else if hi < x then hi else x)"

definition rto_calc_update :: "real \<Rightarrow> rto_calculator \<Rightarrow> rto_calculator" where
  "rto_calc_update rtt r =
     (let r = (if srtt r = 0 then r\<lparr>srtt := rtt, rttvar := rtt / 2\<rparr>
               else let v = (1 - 1 / 4) * rttvar r + 1 / 4 * \<bar>srtt r - rtt\<bar> in
                 r\<lparr>rttvar := v, srtt := (1 - 1 / 8) * srtt r + 1 / 8 * rtt\<rparr>) in
      r\<lparr>rto := clamp (rto_min r) (rto_max r) (srtt r + 4 * rttvar r)\<rparr>)"

definition rto_calc_backoff :: "rto_calculator \<Rightarrow> rto_calculator" where
  "rto_calc_backoff r = r\<lparr>rto := min (rto r * 2) (rto_max r)\<rparr>"

text \<open>\<open>Duration::from_secs_f64\<close> and \<open>as_secs_f64\<close>.\<close>

definition from_secs :: "real \<Rightarrow> nat" where
  "from_secs x = nat (round (x * 1000000000))"

definition as_secs :: "nat \<Rightarrow> real" where
  "as_secs n = real n / 1000000000"

section \<open>The association\<close>

record sctp_cfg =
  local_port :: u16
  remote_port :: u16
  is_client :: bool
  local_rwnd :: nat
  max_association_retransmits :: nat
  heartbeat_interval :: nat
  max_heartbeat_failures :: nat
  max_tsn_retransmits :: u32
  max_burst_packets :: nat
  max_cwnd :: nat
  max_buffered_amount :: nat
  has_listener :: bool
  cookie_hmac_key :: bytes
  hmac_sha1 :: "bytes \<Rightarrow> bytes \<Rightarrow> bytes"

record sctp_rx =
  cumulative_tsn_ack :: u32
  received_queue :: "(u32, u8 \<times> bytes) btree"
  used_rwnd :: nat
  dups_buffer :: "u32 list"
  sack_needed :: bool
  sack_delayed_until :: "nat option"
  inbound_streams :: "(u16, inbound_stream) btree"
  peer_reconfig_request_sn :: u32

record sctp_tx =
  next_tsn :: u32
  sent_queue :: "(u32, chunk_record) btree"
  outbound_queue :: "outbound_chunk list"
  queued_bytes :: nat
  stream_buffered :: "(u16, nat) btree"
  flight_size :: nat
  peer_rwnd :: u32
  window_limited :: bool
  last_sack_sig :: u64
  advanced_peer_ack_tsn :: u32
  forward_tsn_pending :: bool
  forward_tsn_streams :: "(u16 \<times> u16) list"
  has_pr_sctp :: bool
  last_send_or_ack :: nat
  tlp_probe_sent :: bool
  reconfig_request_sn :: u32

record sctp_cc =
  cwnd_tx :: nat
  cwnd_rx :: nat
  ssthresh :: nat
  partial_bytes_acked :: nat
  fast_recovery_exit_tsn :: u32
  fast_recovery_active :: bool
  fast_recovery_transmit :: bool
  last_fast_recovery_entry :: nat

record sctp_timers =
  rto_state :: rto_calculator
  t1_chunk :: "(u8 \<times> bytes \<times> u32) option"
  t1_failures :: nat
  t1_sent_time :: "nat option"
  t1_active :: bool
  association_error_count :: nat
  heartbeat_sent_time :: "nat option"
  consecutive_heartbeat_failures :: nat
  last_t3_fire_time :: "nat option"
  cached_rto_timeout :: "(nat \<times> nat) option"
  last_sack_time :: "nat option"
  timer_notify :: bool

record sctp_stats =
  stats_bytes_sent :: nat
  stats_bytes_received :: nat
  stats_packets_sent :: nat
  stats_packets_received :: nat
  stats_retransmissions :: nat
  stats_heartbeats_sent :: nat
  stats_tlp_probes :: nat

record sctp =
  cfg :: sctp_cfg
  assoc_state :: sctp_state
  verification_tag :: u32
  remote_verification_tag :: u32
  data_channels :: "data_channel option list"
  announced :: "u16 list"
  rx :: sctp_rx
  tx :: sctp_tx
  cc :: sctp_cc
  tm :: sctp_timers
  stats :: sctp_stats
  outgoing :: "bytes list"
  outgoing_open :: bool
  close_reason :: "string option"
  sctp_now :: nat
  unix_ms :: nat
  rng :: "nat \<Rightarrow> u32"
  rng_pos :: nat

text \<open>
  \<open>Flow_wait\<close> is not an error of the code: it stands for the \<open>await\<close> on the flow-control notification,
  at which the calling task stops until another task frees window credit.
\<close>

datatype sctp_error = Dcep dcep_error | Transport_channel_closed | Association_closed | Flow_wait

type_synonym 'a sctp_eff = "(sctp, sctp_error, 'a) eff"

definition upd_rx :: "(sctp_rx \<Rightarrow> sctp_rx) \<Rightarrow> sctp \<Rightarrow> sctp" where "upd_rx f s = s\<lparr>rx := f (rx s)\<rparr>"
definition upd_tx :: "(sctp_tx \<Rightarrow> sctp_tx) \<Rightarrow> sctp \<Rightarrow> sctp" where "upd_tx f s = s\<lparr>tx := f (tx s)\<rparr>"
definition upd_cc :: "(sctp_cc \<Rightarrow> sctp_cc) \<Rightarrow> sctp \<Rightarrow> sctp" where "upd_cc f s = s\<lparr>cc := f (cc s)\<rparr>"
definition upd_tm :: "(sctp_timers \<Rightarrow> sctp_timers) \<Rightarrow> sctp \<Rightarrow> sctp" where "upd_tm f s = s\<lparr>tm := f (tm s)\<rparr>"
definition upd_stats :: "(sctp_stats \<Rightarrow> sctp_stats) \<Rightarrow> sctp \<Rightarrow> sctp" where "upd_stats f s = s\<lparr>stats := f (stats s)\<rparr>"

lemmas upd_defs = upd_rx_def upd_tx_def upd_cc_def upd_tm_def upd_stats_def

section \<open>Data channels by stream identifier\<close>

text \<open>The loops over the weak references stop at the first live channel with the identifier.\<close>

fun dc_find :: "u16 \<Rightarrow> data_channel option list \<Rightarrow> data_channel option" where
  "dc_find i [] = None"
| "dc_find i (None # dcs) = dc_find i dcs"
| "dc_find i (Some dc # dcs) = (if dc_id dc = i then Some dc else dc_find i dcs)"

fun dc_update :: "u16 \<Rightarrow> (data_channel \<Rightarrow> data_channel) \<Rightarrow> data_channel option list \<Rightarrow> data_channel option list" where
  "dc_update i f [] = []"
| "dc_update i f (None # dcs) = None # dc_update i f dcs"
| "dc_update i f (Some dc # dcs) = (if dc_id dc = i then Some (f dc) # dcs else Some dc # dc_update i f dcs)"

definition upd_dc :: "u16 \<Rightarrow> (data_channel \<Rightarrow> data_channel) \<Rightarrow> sctp \<Rightarrow> sctp" where
  "upd_dc i f s = s\<lparr>data_channels := dc_update i f (data_channels s)\<rparr>"

section \<open>Buffered amounts\<close>

definition buffered_amount_for :: "u16 \<Rightarrow> sctp \<Rightarrow> nat" where
  "buffered_amount_for i s = (case bt_get i (stream_buffered (tx s)) of None \<Rightarrow> 0 | Some n \<Rightarrow> n)"

definition publish_stream_buffered :: "u16 \<Rightarrow> nat \<Rightarrow> sctp \<Rightarrow> sctp" where
  "publish_stream_buffered i amount s = upd_dc i (on_buffered_amount amount) s"

definition account_stream_queued :: "u16 \<Rightarrow> nat \<Rightarrow> sctp \<Rightarrow> sctp" where
  "account_stream_queued i len s =
     (if len = 0 then s
      else let amount = buffered_amount_for i s + len in
        publish_stream_buffered i amount (upd_tx (\<lambda>t. t\<lparr>stream_buffered := bt_insert i amount (stream_buffered t)\<rparr>) s))"

definition account_stream_acked :: "u16 \<Rightarrow> nat \<Rightarrow> sctp \<Rightarrow> sctp" where
  "account_stream_acked i len s =
     (case bt_get i (stream_buffered (tx s)) of
        Some n \<Rightarrow> publish_stream_buffered i (n - len)
                   (upd_tx (\<lambda>t. t\<lparr>stream_buffered := bt_insert i (n - len) (stream_buffered t)\<rparr>) s)
      | None \<Rightarrow> publish_stream_buffered i 0 s)"

definition clear_stream_buffered :: "u16 \<Rightarrow> sctp \<Rightarrow> sctp" where
  "clear_stream_buffered i s =
     publish_stream_buffered i 0 (upd_tx (\<lambda>t. t\<lparr>stream_buffered := bt_remove i (stream_buffered t)\<rparr>) s)"

section \<open>State, timers and SACK scheduling\<close>

definition set_state :: "sctp_state \<Rightarrow> sctp \<Rightarrow> sctp" where
  "set_state new_state s = (if assoc_state s \<noteq> new_state then s\<lparr>assoc_state := new_state\<rparr> else s)"

definition close_with :: "string \<Rightarrow> sctp \<Rightarrow> sctp" where
  "close_with reason s = set_state Sctp_Closed (s\<lparr>close_reason := Some reason\<rparr>)"

definition notify_timer :: "sctp \<Rightarrow> sctp" where
  "notify_timer s = upd_tm (\<lambda>t. t\<lparr>timer_notify := True\<rparr>) s"

definition random_u32 :: "u32 sctp_eff" where
  "random_u32 = eget (\<lambda>s. ethen (emod (\<lambda>s. s\<lparr>rng_pos := rng_pos s + 1\<rparr>)) (ret (rng s (rng_pos s))))"

definition t1_start :: "u8 \<Rightarrow> bytes \<Rightarrow> u32 \<Rightarrow> sctp \<Rightarrow> sctp" where
  "t1_start chunk_type chunk_body vtag s =
     upd_tm (\<lambda>t. t\<lparr>t1_chunk := Some (chunk_type, chunk_body, vtag), t1_failures := 0,
       t1_sent_time := Some (sctp_now s), t1_active := True\<rparr>) s"

definition t1_cancel :: "sctp \<Rightarrow> sctp" where
  "t1_cancel s = upd_tm (\<lambda>t. t\<lparr>t1_active := False, t1_chunk := None, t1_sent_time := None, t1_failures := 0\<rparr>) s"

text \<open>\<open>clamp\<close> panics when the bounds are the wrong way round.\<close>

definition update_rto :: "real \<Rightarrow> unit sctp_eff" where
  "update_rto rtt = eget (\<lambda>s.
     if rto_max (rto_state (tm s)) < rto_min (rto_state (tm s)) then elift Panicked
     else emod (upd_tm (\<lambda>t. t\<lparr>rto_state := rto_calc_update rtt (rto_state t)\<rparr>)))"

definition schedule_sack_delayed :: "sctp \<Rightarrow> sctp" where
  "schedule_sack_delayed s =
     (if sack_delayed_until (rx s) \<noteq> None
      then notify_timer (upd_rx (\<lambda>r. r\<lparr>sack_delayed_until := None, sack_needed := True\<rparr>) s)
      else notify_timer (upd_rx (\<lambda>r. r\<lparr>sack_delayed_until := Some (sctp_now s + SACK_DELAY)\<rparr>) s))"

definition schedule_sack_immediate :: "sctp \<Rightarrow> sctp" where
  "schedule_sack_immediate s = upd_rx (\<lambda>r. r\<lparr>sack_delayed_until := None, sack_needed := True\<rparr>) s"

definition flush_expired_sack_delay :: "sctp \<Rightarrow> sctp" where
  "flush_expired_sack_delay s =
     (case sack_delayed_until (rx s) of
        Some d \<Rightarrow> if d \<le> sctp_now s then upd_rx (\<lambda>r. r\<lparr>sack_delayed_until := None, sack_needed := True\<rparr>) s else s
      | None \<Rightarrow> s)"

definition sack_delay_timeout :: "sctp \<Rightarrow> nat" where
  "sack_delay_timeout s =
     (case sack_delayed_until (rx s) of
        Some d \<Rightarrow> if sctp_now s < d then d - sctp_now s else millis 1
      | None \<Rightarrow> secs 3600)"

definition advertised_rwnd :: "sctp \<Rightarrow> u32" where
  "advertised_rwnd s =
     (let byte_based = local_rwnd (cfg s) - used_rwnd (rx s) in
      if max (MAX_RECEIVED_QUEUE_SIZE * 7 div 8) 1 \<le> length (received_queue (rx s)) then 0
      else if byte_based < 2 ^ 32 then of_nat byte_based else 0)"

definition note_send_or_ack :: "sctp \<Rightarrow> sctp" where
  "note_send_or_ack s = upd_tx (\<lambda>t. t\<lparr>last_send_or_ack := sctp_now s\<rparr>) s"

definition tlp_pto :: "sctp \<Rightarrow> nat" where
  "tlp_pto s =
     (let r = rto_state (tm s); pto_floor = max (rto_min r / 2) (1 / 1000) in
      if 0 < srtt r then from_secs (max (2 * srtt r) pto_floor) else from_secs (max (2 * rto r) pto_floor))"

definition tlp_timeout :: "sctp \<Rightarrow> nat" where
  "tlp_timeout s =
     (let has_inflight = (\<exists>(_, r) \<in> set (sent_queue (tx s)). \<not> acked r \<and> \<not> abandoned r \<and> in_flight r) in
      if \<not> has_inflight \<or> tlp_probe_sent (tx s) then secs 3600
      else let elapsed = sctp_now s - last_send_or_ack (tx s); pto = tlp_pto s in
        if pto \<le> elapsed then millis 1 else pto - elapsed)"

section \<open>Packets\<close>

definition u32_le_bytes :: "u32 \<Rightarrow> bytes" where
  "u32_le_bytes w = rev (u32_be w)"

text \<open>Type, flags, length, value and padding, as every sender of a chunk writes them.\<close>

definition wire_chunk :: "u8 \<Rightarrow> u8 \<Rightarrow> bytes \<Rightarrow> bytes" where
  "wire_chunk t f value =
     [t, f] @ u16_be (of_nat (CHUNK_HEADER_SIZE + length value)) @ value
     @ replicate (pad_len (CHUNK_HEADER_SIZE + length value)) 0"

text \<open>The packet is built with a checksum of zero, over which the checksum is computed and then written.\<close>

definition build_packet :: "u16 \<Rightarrow> u16 \<Rightarrow> u32 \<Rightarrow> bytes list \<Rightarrow> bytes" where
  "build_packet sport dport tag chunks =
     (let buf = u16_be sport @ u16_be dport @ u32_be tag @ u32_be 0 @ concat chunks in
      take 8 buf @ u32_le_bytes (sctp_crc32c buf) @ drop 12 buf)"

definition send_packet_with_tag :: "bytes list \<Rightarrow> u32 \<Rightarrow> unit sctp_eff" where
  "send_packet_with_tag chunks tag = eget (\<lambda>s.
     let buf = build_packet (local_port (cfg s)) (remote_port (cfg s)) tag chunks in
     ethen (emod (upd_stats (\<lambda>t. t\<lparr>stats_bytes_sent := stats_bytes_sent t + length buf,
                                  stats_packets_sent := stats_packets_sent t + 1\<rparr>)))
       (if outgoing_open s then emod (\<lambda>s. s\<lparr>outgoing := outgoing s @ [buf]\<rparr>)
        else ethen (emod (close_with ''TRANSPORT_CLOSED'')) (efail Transport_channel_closed)))"

fun batch_chunks :: "u32 \<Rightarrow> bytes list \<Rightarrow> bytes list \<Rightarrow> nat \<Rightarrow> unit sctp_eff" where
  "batch_chunks tag [] batch len = (if batch \<noteq> [] then send_packet_with_tag batch tag else ret ())"
| "batch_chunks tag (chunk # chunks) batch len =
     (if batch \<noteq> [] \<and> MAX_SCTP_PACKET_SIZE < len + length chunk
      then ethen (send_packet_with_tag batch tag)
             (batch_chunks tag chunks [chunk] (SCTP_COMMON_HEADER_SIZE + length chunk))
      else batch_chunks tag chunks (batch @ [chunk]) (len + length chunk))"

definition transmit_chunks_with_tag :: "bytes list \<Rightarrow> u32 \<Rightarrow> unit sctp_eff" where
  "transmit_chunks_with_tag chunks tag =
     (if chunks = [] then ret () else batch_chunks tag chunks [] SCTP_COMMON_HEADER_SIZE)"

definition transmit_chunks :: "bytes list \<Rightarrow> unit sctp_eff" where
  "transmit_chunks chunks = eget (\<lambda>s. transmit_chunks_with_tag chunks (remote_verification_tag s))"

definition send_chunk :: "u8 \<Rightarrow> u8 \<Rightarrow> bytes \<Rightarrow> u32 \<Rightarrow> unit sctp_eff" where
  "send_chunk t f value tag = transmit_chunks_with_tag [wire_chunk t f value] tag"

end
