(* ===== verification/Sctp_Sack.thy ===== *)
theory Sctp_Sack
  imports Sctp_State
begin

text \<open>
  Selective acknowledgement (\<open>transports/sctp.rs\<close>): the gap ack blocks a receiver builds from its queue, and
  what a sender does with them to the chunks it keeps (\<open>apply_sack_to_sent_queue\<close>). The lemmas state what a
  SACK acknowledges on both sides, and that the sender's flight accounting is exact.
\<close>

section \<open>The program: building the blocks\<close>

definition push_block :: "u32 \<Rightarrow> u32 \<Rightarrow> u32 \<Rightarrow> (u16 \<times> u16) list \<Rightarrow> (u16 \<times> u16) list" where
  "push_block cum start end_tsn blocks =
     (let start_off = start - cum; end_off = end_tsn - cum in
      if start_off \<le> 0xFFFF \<and> end_off \<le> 0xFFFF then blocks @ [(ucast start_off, ucast end_off)] else blocks)"

fun gap_loop :: "u32 \<Rightarrow> u32 list \<Rightarrow> (u32 \<times> u32) option \<Rightarrow> (u16 \<times> u16) list \<Rightarrow> (u32 \<times> u32) option \<times> (u16 \<times> u16) list" where
  "gap_loop cum [] current blocks = (current, blocks)"
| "gap_loop cum (tsn # tsns) current blocks =
     (if sint (tsn - cum) \<le> 0 then gap_loop cum tsns current blocks
      else
        let (current, blocks) =
          (case current of
             Some (start, end_tsn) \<Rightarrow>
               if tsn = end_tsn + 1 then (Some (start, tsn), blocks)
               else (Some (tsn, tsn), push_block cum start end_tsn blocks)
           | None \<Rightarrow> (Some (tsn, tsn), blocks)) in
        if 16 \<le> length blocks then (current, blocks) else gap_loop cum tsns current blocks)"

definition build_gap_ack_blocks_from_map :: "(u32, u8 \<times> bytes) btree \<Rightarrow> u32 \<Rightarrow> (u16 \<times> u16) list" where
  "build_gap_ack_blocks_from_map received cum =
     (case gap_loop cum (bt_keys received) None [] of (current, blocks) \<Rightarrow>
        if length blocks < 16
        then (case current of Some (start, end_tsn) \<Rightarrow> push_block cum start end_tsn blocks | None \<Rightarrow> blocks)
        else blocks)"

section \<open>The program: applying a SACK\<close>

record sack_outcome =
  flight_reduction :: nat
  bytes_acked_by_cum_tsn :: nat
  bytes_acked_by_gap :: nat
  rtt_samples :: "real list"
  retransmit :: "(u32 \<times> bytes) list"
  head_moved :: bool
  max_reported :: u32
  bytes_acked_per_stream :: "(u16 \<times> nat) list"

definition sack_outcome_default :: sack_outcome where
  "sack_outcome_default = \<lparr>flight_reduction = 0, bytes_acked_by_cum_tsn = 0, bytes_acked_by_gap = 0,
     rtt_samples = [], retransmit = [], head_moved = False, max_reported = 0, bytes_acked_per_stream = []\<rparr>"

definition highest_reported :: "u32 \<Rightarrow> (u16 \<times> u16) list \<Rightarrow> u32" where
  "highest_reported cum gap_blocks =
     foldl (\<lambda>m (_, e). let block_end = cum + ucast e in if 0 < sint (block_end - m) then block_end else m) cum gap_blocks"

text \<open>Step 1: a record removed by the cumulative acknowledgement.\<close>

definition ack_cumulative :: "nat \<Rightarrow> sack_outcome \<Rightarrow> chunk_record \<Rightarrow> sack_outcome" where
  "ack_cumulative now outcome record =
     (let len = length (payload record) in
      outcome\<lparr>bytes_acked_per_stream := bytes_acked_per_stream outcome @ [(rec_stream record, len)],
        flight_reduction := flight_reduction outcome + (if in_flight record then len else 0),
        bytes_acked_by_cum_tsn := bytes_acked_by_cum_tsn outcome + len,
        rtt_samples := rtt_samples outcome
          @ (if transmit_count record = 1 \<and> \<not> acked record then [as_secs (now - sent_time record)] else [])\<rparr>)"

text \<open>Step 2: the records of a gap ack block; the range wraps with the sequence numbers.\<close>

definition block_range :: "u32 \<Rightarrow> u32 \<Rightarrow> (u32, chunk_record) btree \<Rightarrow> u32 list" where
  "block_range s e q =
     (if s \<le> e then filter (\<lambda>t. s \<le> t \<and> t \<le> e) (bt_keys q)
      else filter (\<lambda>t. s \<le> t) (bt_keys q) @ filter (\<lambda>t. t \<le> e) (bt_keys q))"

definition ack_gap :: "nat \<Rightarrow> (u32, chunk_record) btree \<times> sack_outcome \<Rightarrow> u32 \<Rightarrow> (u32, chunk_record) btree \<times> sack_outcome" where
  "ack_gap now st tsn =
     (case st of (q, outcome) \<Rightarrow>
      case bt_get tsn q of
        None \<Rightarrow> (q, outcome)
      | Some record \<Rightarrow>
          if acked record then (q, outcome)
          else
            let len = length (payload record) in
            (bt_insert tsn (record\<lparr>acked := True, in_flight := False, payload := []\<rparr>) q,
             outcome\<lparr>bytes_acked_by_gap := bytes_acked_by_gap outcome + len,
               bytes_acked_per_stream := bytes_acked_per_stream outcome @ [(rec_stream record, len)],
               flight_reduction := flight_reduction outcome + (if in_flight record then len else 0),
               rtt_samples := rtt_samples outcome
                 @ (if transmit_count record = 1 then [as_secs (now - sent_time record)] else [])\<rparr>))"

definition ack_block :: "nat \<Rightarrow> u32 \<Rightarrow> (u32, chunk_record) btree \<times> sack_outcome \<Rightarrow> u16 \<times> u16
    \<Rightarrow> (u32, chunk_record) btree \<times> sack_outcome" where
  "ack_block now cum st block =
     (case block of (start, end_off) \<Rightarrow>
      foldl (ack_gap now) st (block_range (cum + ucast start) (cum + ucast end_off) (fst st)))"

text \<open>Step 3: missing reports and fast retransmission of one record.\<close>

definition saturating_inc :: "u8 \<Rightarrow> u8" where
  "saturating_inc n = (if n = 0xFF then 0xFF else n + 1)"

definition can_fast_retransmit :: "nat \<Rightarrow> u32 \<Rightarrow> chunk_record \<Rightarrow> bool" where
  "can_fast_retransmit now max_retrans record =
     (if fast_retransmit record
      then if max_retrans \<le> transmit_count record then False
        else (case fast_retransmit_time record of
                Some fr_time \<Rightarrow> if now - fr_time < millis 50 then False else DUP_THRESH \<le> missing_reports record
              | None \<Rightarrow> True)
      else True)"

definition mark_missing :: "nat \<Rightarrow> bool \<Rightarrow> u32 \<Rightarrow> u32 \<Rightarrow> u32 \<Rightarrow> sack_outcome \<Rightarrow> chunk_record \<Rightarrow> chunk_record \<times> sack_outcome" where
  "mark_missing now count_missing max_retrans hi tsn outcome record =
     (if sint (tsn - hi) \<le> 0 \<and> \<not> acked record \<and> count_missing
      then
        let record = record\<lparr>missing_reports := saturating_inc (missing_reports record)\<rparr> in
        if DUP_THRESH \<le> missing_reports record \<and> \<not> abandoned record \<and> can_fast_retransmit now max_retrans record
        then
          (record\<lparr>missing_reports := 0, transmit_count := transmit_count record + 1, sent_time := now,
             fast_retransmit := True, needs_retransmit := True, fast_retransmit_time := Some now,
             in_flight := False\<rparr>,
           outcome\<lparr>flight_reduction := flight_reduction outcome + (if in_flight record then length (payload record) else 0),
             retransmit := retransmit outcome @ [(tsn, payload record)]\<rparr>)
        else (record, outcome)
      else (record, outcome))"

fun mark_all :: "nat \<Rightarrow> bool \<Rightarrow> u32 \<Rightarrow> u32 \<Rightarrow> (u32, chunk_record) btree \<Rightarrow> sack_outcome
    \<Rightarrow> (u32, chunk_record) btree \<times> sack_outcome" where
  "mark_all now count_missing max_retrans hi [] outcome = ([], outcome)"
| "mark_all now count_missing max_retrans hi ((tsn, record) # q) outcome =
     (case mark_missing now count_missing max_retrans hi tsn outcome record of (record, outcome) \<Rightarrow>
      case mark_all now count_missing max_retrans hi q outcome of (q, outcome) \<Rightarrow> ((tsn, record) # q, outcome))"

definition late_sack :: "(u32, chunk_record) btree \<Rightarrow> u32 \<Rightarrow> (u16 \<times> u16) list \<Rightarrow> bool" where
  "late_sack q cum gap_blocks =
     (case bt_first q of
        None \<Rightarrow> False
      | Some lowest \<Rightarrow> sint (cum - (lowest - 1)) < 0 \<and> sint (highest_reported cum gap_blocks - lowest) < 0)"

definition apply_sack_to_sent_queue :: "(u32, chunk_record) btree \<Rightarrow> u32 \<Rightarrow> (u16 \<times> u16) list \<Rightarrow> nat \<Rightarrow> bool \<Rightarrow> u32
    \<Rightarrow> (u32, chunk_record) btree \<times> sack_outcome" where
  "apply_sack_to_sent_queue q cum gap_blocks now count_missing max_retrans =
     (if late_sack q cum gap_blocks then (q, sack_outcome_default)
      else
        let hi = highest_reported cum gap_blocks;
            outcome = sack_outcome_default\<lparr>max_reported := hi\<rparr>;
            removed = filter (\<lambda>(tsn, _). sint (tsn - cum) \<le> 0) q;
            q1 = filter (\<lambda>(tsn, _). \<not> sint (tsn - cum) \<le> 0) q;
            outcome = foldl (ack_cumulative now) outcome (map snd removed) in
        case foldl (ack_block now cum) (q1, outcome) gap_blocks of (q2, outcome) \<Rightarrow>
        case mark_all now count_missing max_retrans hi q2 outcome of (q3, outcome) \<Rightarrow>
          (q3, outcome\<lparr>head_moved := (bt_first q \<noteq> bt_first q3)\<rparr>))"

section \<open>Membership of a block\<close>

definition in_block :: "u32 \<Rightarrow> u32 \<Rightarrow> u32 \<Rightarrow> bool" where
  "in_block s e t \<longleftrightarrow> (if s \<le> e then s \<le> t \<and> t \<le> e else s \<le> t \<or> t \<le> e)"

lemma set_block_range: "set (block_range s e q) = {t \<in> set (bt_keys q). in_block s e t}"
  by (auto simp: block_range_def in_block_def)

lemma unat_diff_cases: "unat (a - b) = (if b \<le> a then unat a - unat b else 2 ^ LENGTH('a) + unat a - unat b)"
  for a b :: "'a::len word"
proof (cases "b \<le> a")
  case True
  then show ?thesis by (simp add: unat_sub)
next
  case False
  then have "a \<le> b" and "a \<noteq> b" by auto
  then have "unat (b - a) = unat b - unat a" by (simp add: unat_sub)
  moreover have "unat a < unat b" using False unfolding not_le word_less_nat_alt .
  moreover have "unat (b - a) + unat (a - b) = 2 ^ LENGTH('a)"
    using ahead_swap [of b a] \<open>a \<noteq> b\<close> by (simp add: ahead_def)
  ultimately show ?thesis using False by simp
qed

lemma in_block_ahead: "in_block s e t \<longleftrightarrow> ahead t s \<le> ahead e s"
proof -
  have "unat s < 2 ^ 32" and "unat e < 2 ^ 32" and "unat t < 2 ^ 32"
    using unsigned_less [of s, where ?'a = nat] unsigned_less [of e, where ?'a = nat]
      unsigned_less [of t, where ?'a = nat] by simp_all
  then show ?thesis
    unfolding in_block_def ahead_def unat_diff_cases word_le_nat_alt by auto
qed

lemma unat_u16_u32 [simp]: "unat (ucast (a :: u16) :: u32) = unat a"
  by (simp add: unsigned_ucast_eq take_bit_nat_eq_self_iff order_less_trans [OF unat_u16_less])

lemma unat_u32_u16: "unat (w :: u32) < 65536 \<Longrightarrow> unat (ucast w :: u16) = unat w"
  by (simp add: unsigned_ucast_eq take_bit_nat_eq_self_iff)

lemma in_block_offsets:
  assumes "a \<le> b"
  shows "in_block (cum + ucast (a :: u16)) (cum + ucast (b :: u16)) t \<longleftrightarrow> unat a \<le> ahead t cum \<and> ahead t cum \<le> unat b"
proof -
  let ?s = "cum + ucast a" and ?e = "cum + ucast b"
  have len: "unat a < 65536" "unat b < 65536" "unat a \<le> unat b"
    using assms by (simp_all add: word_le_nat_alt)
  have s: "ahead ?s cum = unat a" and e: "ahead ?e cum = unat b"
    by (simp_all add: ahead_def)
  have es: "ahead ?e ?s = unat b - unat a" using ahead_diff [of ?s cum ?e] s e len by simp
  show ?thesis
  proof (cases "unat a \<le> ahead t cum")
    case True
    then have "ahead t ?s = ahead t cum - unat a" using ahead_diff [of ?s cum t] s by simp
    with True show ?thesis unfolding in_block_ahead es using len by auto
  next
    case False
    then have "ahead ?s t = unat a - ahead t cum" using ahead_diff [of t cum ?s] s by simp
    moreover have "?s \<noteq> t" using False s by auto
    then have "ahead ?s t + ahead t ?s = 2 ^ LENGTH(32)" by (rule ahead_swap)
    moreover have "(2 :: nat) ^ LENGTH(32) = 4294967296" by simp
    ultimately have "unat b - unat a < ahead t ?s" using len False by linarith
    with False show ?thesis unfolding in_block_ahead es by simp
  qed
qed

text \<open>The sequence numbers a list of gap ack blocks reports.\<close>

definition reported :: "u32 \<Rightarrow> (u16 \<times> u16) list \<Rightarrow> u32 \<Rightarrow> bool" where
  "reported cum blocks t \<longleftrightarrow> (\<exists>(a, b) \<in> set blocks. in_block (cum + ucast a) (cum + ucast b) t)"

section \<open>What the receiver reports\<close>

text \<open>
  The invariant of the loop: every block pushed so far, and the run being built, covers received
  sequence numbers ahead of the cumulative acknowledgement only; the run is nonempty.
\<close>

definition run_ok :: "u32 \<Rightarrow> u32 set \<Rightarrow> u32 \<times> u32 \<Rightarrow> bool" where
  "run_ok cum K run = (case run of (s, e) \<Rightarrow>
     0 < ahead s cum \<and> ahead s cum \<le> ahead e cum \<and> ahead e cum < 2 ^ 31
     \<and> (\<forall>t. ahead s cum \<le> ahead t cum \<and> ahead t cum \<le> ahead e cum \<longrightarrow> t \<in> K))"

definition blocks_ok :: "u32 \<Rightarrow> u32 set \<Rightarrow> (u16 \<times> u16) list \<Rightarrow> bool" where
  "blocks_ok cum K blocks \<longleftrightarrow>
     (\<forall>(a, b) \<in> set blocks. 0 < a \<and> a \<le> b \<and> (\<forall>t. unat a \<le> ahead t cum \<and> ahead t cum \<le> unat b \<longrightarrow> t \<in> K))"

lemma ahead_eq_iff: "unat (s - cum) = ahead s cum" by (simp add: ahead_def)

lemma push_block_ok:
  assumes "run_ok cum K (s, e)" and "blocks_ok cum K blocks"
  shows "blocks_ok cum K (push_block cum s e blocks)"
proof (cases "s - cum \<le> 0xFFFF \<and> e - cum \<le> 0xFFFF")
  case True
  then have "unat (s - cum) < 65536" "unat (e - cum) < 65536" by (simp_all add: word_le_nat_alt)
  then have "unat (ucast (s - cum) :: u16) = ahead s cum" "unat (ucast (e - cum) :: u16) = ahead e cum"
    by (simp_all add: ahead_def unat_u32_u16)
  with True assms show ?thesis
    by (auto simp: push_block_def blocks_ok_def run_ok_def Let_def word_le_nat_alt word_less_nat_alt)
next
  case False
  with assms show ?thesis by (auto simp: push_block_def Let_def)
qed

lemma sint_nonpos_tsn: "sint (t - cum) \<le> 0 \<longleftrightarrow> \<not> tsn_gt t cum" for t cum :: u32
  by (simp add: tsn_gt_def not_less)

lemma run_single: "tsn_gt t cum \<Longrightarrow> t \<in> K \<Longrightarrow> run_ok cum K (t, t)"
  by (auto simp: run_ok_def tsn.gt_ahead dest: ahead_inj [of _ cum, OF antisym])

lemma run_extend:
  assumes "run_ok cum K (s, e)" and "tsn_gt (e + 1) cum" and "e + 1 \<in> K"
  shows "run_ok cum K (s, e + 1)"
proof -
  have "e + 1 \<noteq> cum" using assms(2) tsn.gt_irrefl by auto
  then have "1 + (e - cum) \<noteq> 0" by (simp add: algebra_simps)
  then have "unat (1 + (e - cum)) = Suc (unat (e - cum))" by (rule unatSuc)
  then have e: "ahead (e + 1) cum = Suc (ahead e cum)" by (simp add: ahead_def algebra_simps)
  have "t \<in> K" if "ahead s cum \<le> ahead t cum" "ahead t cum \<le> Suc (ahead e cum)" for t
  proof (cases "ahead t cum = Suc (ahead e cum)")
    case True
    with e have "t = e + 1" by (intro ahead_inj [of t cum]) simp
    with assms(3) show ?thesis by simp
  next
    case False
    with that assms(1) show ?thesis by (simp add: run_ok_def)
  qed
  with e assms(1,2) show ?thesis by (simp add: run_ok_def tsn.gt_ahead)
qed

lemma gap_loop_ok:
  assumes "set tsns \<subseteq> K" and "\<forall>run. current = Some run \<longrightarrow> run_ok cum K run" and "blocks_ok cum K blocks"
    and "gap_loop cum tsns current blocks = (current', blocks')"
  shows "(\<forall>run. current' = Some run \<longrightarrow> run_ok cum K run) \<and> blocks_ok cum K blocks'"
  using assms
proof (induction cum tsns current blocks rule: gap_loop.induct)
  case (2 cum tsn tsns current blocks)
  show ?case
  proof (cases "tsn_gt tsn cum")
    case False
    with 2 show ?thesis by (simp add: sint_nonpos_tsn)
  next
    case True
    obtain c b where step: "(case current of
             Some (start, end_tsn) \<Rightarrow>
               if tsn = end_tsn + 1 then (Some (start, tsn), blocks)
               else (Some (tsn, tsn), push_block cum start end_tsn blocks)
           | None \<Rightarrow> (Some (tsn, tsn), blocks)) = (c, b)" by fastforce
    have ok: "(\<forall>run. c = Some run \<longrightarrow> run_ok cum K run) \<and> blocks_ok cum K b"
      using step "2.prems" True run_single [OF True] run_extend push_block_ok
      by (auto split: option.splits if_splits)
    show ?thesis
    proof (cases "16 \<le> length b")
      case True
      with "2.prems"(4) \<open>tsn_gt tsn cum\<close> step ok show ?thesis by (simp add: sint_nonpos_tsn)
    next
      case False
      with "2.prems"(4) \<open>tsn_gt tsn cum\<close> step have "gap_loop cum tsns c b = (current', blocks')"
        by (simp add: sint_nonpos_tsn)
      with "2.IH"(2) [OF _ step [symmetric] refl False] ok "2.prems"(1) True show ?thesis
        by (simp add: sint_nonpos_tsn \<open>tsn_gt tsn cum\<close>)
    qed
  qed
qed simp

lemma gap_blocks_sound: "blocks_ok cum (set (bt_keys received)) (build_gap_ack_blocks_from_map received cum)"
proof -
  let ?K = "set (bt_keys received)"
  obtain c b where loop: "gap_loop cum (bt_keys received) None [] = (c, b)" by fastforce
  have "(\<forall>run. c = Some run \<longrightarrow> run_ok cum ?K run) \<and> blocks_ok cum ?K b"
    by (rule gap_loop_ok [OF _ _ _ loop]) (auto simp: blocks_ok_def)
  with loop show ?thesis
    by (auto simp: build_gap_ack_blocks_from_map_def push_block_ok split: option.splits)
qed

lemma blocks_ok_reported: "blocks_ok cum K blocks \<Longrightarrow> reported cum blocks t \<Longrightarrow> t \<in> K"
  unfolding blocks_ok_def reported_def by (force simp: in_block_offsets)

section \<open>What the sender does with a SACK\<close>

text \<open>
  The three passes over the sent queue in closed form: the records up to the cumulative
  acknowledgement go; of the others, the reported ones are marked and lose their payload, and the
  rest count a missing report.
\<close>

definition gap_acked :: "chunk_record \<Rightarrow> chunk_record" where
  "gap_acked r = (if acked r then r else r\<lparr>acked := True, in_flight := False, payload := []\<rparr>)"

definition marked :: "nat \<Rightarrow> bool \<Rightarrow> u32 \<Rightarrow> u32 \<Rightarrow> u32 \<Rightarrow> chunk_record \<Rightarrow> chunk_record" where
  "marked now count_missing max_retrans hi tsn r =
     fst (mark_missing now count_missing max_retrans hi tsn sack_outcome_default r)"

definition rec_flight :: "chunk_record \<Rightarrow> nat" where
  "rec_flight r = (if in_flight r then length (payload r) else 0)"

definition flight_sum :: "(u32, chunk_record) btree \<Rightarrow> nat" where
  "flight_sum q = sum_list (map (\<lambda>(_, r). rec_flight r) q)"

lemma flight_sum_simps [simp]: "flight_sum [] = 0" "flight_sum ((t, r) # q) = rec_flight r + flight_sum q"
  by (simp_all add: flight_sum_def)

lemma bt_insert_present:
  assumes "bt_ok q" and "bt_get k q = Some r"
  shows "bt_insert k v q = map (\<lambda>(t, r). (t, if t = k then v else r)) q"
  using assms
proof (induction k v q rule: bt_insert.induct)
  case (2 k v k' v' m)
  have "map (\<lambda>(t, r). (t, if t = k then v else r)) m = m" if "k \<le> k'"
    using "2.prems"(1) that by (intro map_idI) (fastforce simp: bt_ok_def)
  moreover have "\<not> k < k'"
    using "2.prems" by (fastforce simp: bt_ok_def bt_get_def split: if_splits dest: map_of_SomeD)
  ultimately show ?case using 2 by (auto simp: bt_ok_def bt_get_def)
qed (simp add: bt_get_def)

lemma bt_ok_map: "bt_ok (map (\<lambda>(t, r). (t, f t r)) q) \<longleftrightarrow> bt_ok q"
  by (simp add: bt_ok_def comp_def split_def)

lemma bt_keys_map [simp]: "bt_keys (map (\<lambda>(t, r). (t, f t r)) q) = bt_keys q"
  by (simp add: bt_keys_def comp_def split_def)

lemma bt_ok_filter: "bt_ok q \<Longrightarrow> bt_ok (filter P q)"
  unfolding bt_ok_def by (induction q) auto

lemma bt_get_in: "bt_ok q \<Longrightarrow> bt_get t q = Some r \<longleftrightarrow> (t, r) \<in> set q"
  unfolding bt_get_def by (simp add: map_of_eq_Some_iff bt_ok_def strict_sorted_iff)

lemma ack_gap_queue:
  assumes "bt_ok q"
  shows "fst (ack_gap now (q, o1) tsn) = map (\<lambda>(t, r). (t, if t = tsn then gap_acked r else r)) q"
proof (cases "bt_get tsn q")
  case None
  then have "map (\<lambda>(t, r). (t, if t = tsn then gap_acked r else r)) q = q"
    by (intro map_idI) (auto simp: bt_get_def map_of_eq_None_iff image_iff)
  with None show ?thesis by (simp add: ack_gap_def)
next
  case (Some r)
  have same: "r' = r" if "(tsn, r') \<in> set q" for r' using that Some assms by (metis bt_get_in option.inject)
  show ?thesis
  proof (cases "acked r")
    case True
    then have "map (\<lambda>(t, r). (t, if t = tsn then gap_acked r else r)) q = q"
      using same by (intro map_idI) (auto simp: gap_acked_def)
    with True Some show ?thesis by (simp add: ack_gap_def)
  next
    case False
    with Some assms show ?thesis
      by (auto simp: ack_gap_def Let_def bt_insert_present gap_acked_def dest!: same)
  qed
qed

lemma gap_acked_idem [simp]: "gap_acked (gap_acked r) = gap_acked r"
  by (simp add: gap_acked_def)

lemma ack_gaps_queue:
  "bt_ok q \<Longrightarrow> fst (foldl (ack_gap now) (q, o1) ts) = map (\<lambda>(t, r). (t, if t \<in> set ts then gap_acked r else r)) q"
proof (induction ts arbitrary: q o1)
  case Nil
  then show ?case by (simp add: split_def)
next
  case (Cons t ts)
  obtain q' o2 where step: "ack_gap now (q, o1) t = (q', o2)" by fastforce
  then have q': "q' = map (\<lambda>(t', r). (t', if t' = t then gap_acked r else r)) q"
    using ack_gap_queue [OF Cons.prems, of now o1 t] by simp
  then have "bt_ok q'" using Cons.prems bt_ok_map [of "\<lambda>t' r. if t' = t then gap_acked r else r"] by simp
  with Cons.IH step q' show ?case by (auto intro!: map_cong)
qed

lemma ack_blocks_queue:
  "bt_ok q \<Longrightarrow> fst (foldl (ack_block now cum) (q, o1) blocks)
     = map (\<lambda>(t, r). (t, if reported cum blocks t then gap_acked r else r)) q"
proof (induction blocks arbitrary: q o1)
  case Nil
  then show ?case by (simp add: reported_def split_def)
next
  case (Cons b blocks)
  obtain a e where b: "b = (a, e)" by fastforce
  obtain q' o2 where step: "ack_block now cum (q, o1) b = (q', o2)" by fastforce
  define P where "P t \<longleftrightarrow> in_block (cum + ucast a) (cum + ucast e) t" for t
  have q': "q' = map (\<lambda>(t, r). (t, if P t then gap_acked r else r)) q"
    using step ack_gaps_queue [OF Cons.prems, of now o1 "block_range (cum + ucast a) (cum + ucast e) q"]
    by (auto simp: ack_block_def b set_block_range P_def bt_keys_def image_iff intro!: map_cong) (metis fst_conv)
  then have "bt_ok q'" using Cons.prems bt_ok_map [of "\<lambda>t r. if P t then gap_acked r else r"] by simp
  with Cons.IH step q' b show ?case by (auto simp: reported_def P_def intro!: map_cong)
qed

lemma mark_missing_queue: "fst (mark_missing now c m hi t o1 r) = marked now c m hi t r"
  by (simp add: mark_missing_def marked_def Let_def)

lemma mark_all_queue: "fst (mark_all now c m hi q o1) = map (\<lambda>(t, r). (t, marked now c m hi t r)) q"
proof (induction q arbitrary: o1)
  case (Cons x q)
  obtain t r where x: "x = (t, r)" by fastforce
  obtain r' o2 where mark: "mark_missing now c m hi t o1 r = (r', o2)" by fastforce
  then have "r' = marked now c m hi t r" using mark_missing_queue [of now c m hi t o1 r] by simp
  with Cons.IH [of o2] x mark show ?case by (simp add: split_def)
qed simp

lemma apply_sack_queue:
  assumes "bt_ok q"
  shows "fst (apply_sack_to_sent_queue q cum blocks now c m) =
    (if late_sack q cum blocks then q
     else map (\<lambda>(t, r). (t, marked now c m (highest_reported cum blocks) t
                              (if reported cum blocks t then gap_acked r else r)))
            (filter (\<lambda>(t, _). tsn_gt t cum) q))"
proof (cases "late_sack q cum blocks")
  case False
  define out where "out = foldl (ack_cumulative now) (sack_outcome_default\<lparr>max_reported := highest_reported cum blocks\<rparr>)
    (map snd (filter (\<lambda>(tsn, _). sint (tsn - cum) \<le> 0) q))"
  let ?q1 = "filter (\<lambda>(t, _). tsn_gt t cum) q"
  obtain q2 o2 where 2: "foldl (ack_block now cum) (?q1, out) blocks = (q2, o2)" by fastforce
  obtain q3 o3 where 3: "mark_all now c m (highest_reported cum blocks) q2 o2 = (q3, o3)" by fastforce
  have "q2 = map (\<lambda>(t, r). (t, if reported cum blocks t then gap_acked r else r)) ?q1"
    using ack_blocks_queue [of ?q1 now cum out blocks, OF bt_ok_filter [OF assms]] 2 by (metis fst_conv)
  moreover have "q3 = map (\<lambda>(t, r). (t, marked now c m (highest_reported cum blocks) t r)) q2"
    using mark_all_queue [of now c m "highest_reported cum blocks" q2 o2] 3 by simp
  moreover have "fst (apply_sack_to_sent_queue q cum blocks now c m) = q3"
    using False 2 3 by (simp add: apply_sack_to_sent_queue_def Let_def out_def sint_nonpos_tsn)
  ultimately show ?thesis using False by (simp add: comp_def split_def)
qed (simp add: apply_sack_to_sent_queue_def)

section \<open>Flight accounting\<close>

lemma ack_cumulative_flight:
  "flight_reduction (foldl (ack_cumulative now) o1 rs) = flight_reduction o1 + sum_list (map rec_flight rs)"
  by (induction rs arbitrary: o1) (simp_all add: ack_cumulative_def Let_def rec_flight_def)

lemma flight_sum_filter: "flight_sum (filter P q) + flight_sum (filter (\<lambda>x. \<not> P x) q) = flight_sum q"
  by (induction q) auto

lemma flight_sum_replace:
  assumes "bt_ok q" and "(k, r) \<in> set q"
  shows "flight_sum (map (\<lambda>(t, r). (t, if t = k then v else r)) q) + rec_flight r = flight_sum q + rec_flight v"
  using assms
proof (induction q)
  case (Cons x q)
  obtain t r' where x: "x = (t, r')" by fastforce
  show ?case
  proof (cases "t = k")
    case True
    then have "k \<notin> fst ` set q" using Cons.prems x by (fastforce simp: bt_ok_def)
    then have "map (\<lambda>(t, r). (t, if t = k then v else r)) q = q" by (intro map_idI) (auto simp: image_iff)
    moreover have "r' = r" using Cons.prems x True \<open>k \<notin> fst ` set q\<close> by (auto simp: image_iff)
    ultimately show ?thesis using x True by simp
  next
    case False
    with Cons x show ?thesis by (auto simp: bt_ok_def)
  qed
qed simp

lemma ack_gap_flight:
  assumes "bt_ok q" and "ack_gap now (q, o1) t = (q', o2)"
  shows "flight_sum q' + flight_reduction o2 = flight_sum q + flight_reduction o1 \<and> bt_ok q'"
proof (cases "bt_get t q")
  case (Some r)
  then have r: "(t, r) \<in> set q" using bt_get_in [OF assms(1)] by blast
  have "bt_ok q'"
    using assms(2) ack_gap_queue [OF assms(1), of now o1 t] assms(1)
      bt_ok_map [of "\<lambda>t' r. if t' = t then gap_acked r else r" q] by simp
  then show ?thesis
    using assms Some flight_sum_replace [OF assms(1) r, of "r\<lparr>acked := True, in_flight := False, payload := []\<rparr>"]
    by (auto simp: ack_gap_def Let_def rec_flight_def bt_insert_present split: if_splits)
qed (use assms in \<open>simp add: ack_gap_def\<close>)

lemma ack_gaps_flight:
  "bt_ok q \<Longrightarrow> foldl (ack_gap now) (q, o1) ts = (q', o2)
     \<Longrightarrow> flight_sum q' + flight_reduction o2 = flight_sum q + flight_reduction o1 \<and> bt_ok q'"
proof (induction ts arbitrary: q o1)
  case (Cons t ts)
  obtain q1 o3 where step: "ack_gap now (q, o1) t = (q1, o3)" by fastforce
  from ack_gap_flight [OF Cons.prems(1) step] Cons.IH Cons.prems(2) step show ?case by fastforce
qed simp

lemma ack_blocks_flight:
  "bt_ok q \<Longrightarrow> foldl (ack_block now cum) (q, o1) blocks = (q', o2)
     \<Longrightarrow> flight_sum q' + flight_reduction o2 = flight_sum q + flight_reduction o1 \<and> bt_ok q'"
proof (induction blocks arbitrary: q o1)
  case (Cons b blocks)
  obtain q1 o3 where step: "ack_block now cum (q, o1) b = (q1, o3)" by fastforce
  then have "flight_sum q1 + flight_reduction o3 = flight_sum q + flight_reduction o1 \<and> bt_ok q1"
    using ack_gaps_flight [OF Cons.prems(1)] by (auto simp: ack_block_def split: prod.splits)
  with Cons.IH Cons.prems(2) step show ?case by fastforce
qed simp

lemma mark_all_flight:
  "mark_all now c m hi q o1 = (q', o2) \<Longrightarrow> flight_sum q' + flight_reduction o2 = flight_sum q + flight_reduction o1"
proof (induction q arbitrary: o1 q' o2)
  case (Cons x q)
  obtain t r where x: "x = (t, r)" by fastforce
  obtain r' o3 where mark: "mark_missing now c m hi t o1 r = (r', o3)" by fastforce
  obtain q1 o4 where rest: "mark_all now c m hi q o3 = (q1, o4)" by fastforce
  have "rec_flight r' + flight_reduction o3 = rec_flight r + flight_reduction o1"
    using mark by (auto simp: mark_missing_def Let_def rec_flight_def split: if_splits)
  moreover have "q' = (t, r') # q1" and "o2 = o4" using Cons.prems x mark rest by simp_all
  ultimately show ?case using Cons.IH [OF rest] x by simp
qed simp

lemma apply_sack_flight:
  assumes "bt_ok q" and "apply_sack_to_sent_queue q cum blocks now c m = (q', o')"
  shows "flight_sum q' + flight_reduction o' = flight_sum q"
proof (cases "late_sack q cum blocks")
  case True
  with assms show ?thesis by (auto simp: apply_sack_to_sent_queue_def sack_outcome_default_def)
next
  case False
  define P :: "u32 \<times> chunk_record \<Rightarrow> bool" where "P = (\<lambda>(t, _). sint (t - cum) \<le> 0)"
  let ?q1 = "filter (\<lambda>x. \<not> P x) q"
  define out where "out = foldl (ack_cumulative now) (sack_outcome_default\<lparr>max_reported := highest_reported cum blocks\<rparr>)
    (map snd (filter P q))"
  obtain q2 o2 where 2: "foldl (ack_block now cum) (?q1, out) blocks = (q2, o2)" by fastforce
  obtain q3 o3 where 3: "mark_all now c m (highest_reported cum blocks) q2 o2 = (q3, o3)" by fastforce
  have "(\<lambda>x. \<not> P x) = (\<lambda>(t, _). \<not> sint (t - cum) \<le> 0)" by (auto simp: P_def)
  then have "q' = q3" and "flight_reduction o' = flight_reduction o3"
    using assms(2) False 2 3 unfolding apply_sack_to_sent_queue_def out_def P_def by (auto simp: Let_def)
  moreover have "flight_reduction out = flight_sum (filter P q)"
    by (simp add: out_def ack_cumulative_flight sack_outcome_default_def flight_sum_def comp_def split_def)
  ultimately show ?thesis
    using ack_blocks_flight [OF bt_ok_filter [OF assms(1)] 2] mark_all_flight [OF 3] flight_sum_filter [of P q]
    by simp
qed

end
