(* ===== verification/Sctp_Outbound.thy ===== *)
theory Sctp_Outbound
  imports Sctp_Sack
begin

text \<open>
  The sending half of an association (\<open>transports/sctp.rs\<close>): fragmentation of messages into the outbound
  queue, the transmission of chunks within the congestion window, the tail loss probe, and the
  abandonment of chunks on partially reliable channels.
\<close>

section \<open>Sending a message\<close>

record send_params =
  sp_channel :: u16
  sp_ppid :: u32
  sp_ssn :: u16
  sp_flags :: u8
  sp_max_payload :: nat
  sp_max_retransmits :: "u16 option"
  sp_expiry :: "nat option"

text \<open>
  \<open>send_data_raw\<close> first reads the channel and takes its next stream sequence number, under the channel's
  send lock. It then waits for window credit (\<open>send_admit\<close> is one round of that loop): a sender that waits
  (\<open>Flow_wait\<close>) repeats \<open>send_admit\<close> with the parameters it already has.
\<close>

definition send_begin :: "u16 \<Rightarrow> u32 \<Rightarrow> send_params sctp_eff" where
  "send_begin channel_id ppid = eget (\<lambda>s.
     let is_dcep = (ppid = DATA_CHANNEL_PPID_DCEP) in
     case dc_find channel_id (data_channels s) of
       Some dc \<Rightarrow>
         let ordered = (\<not> is_dcep \<and> dc_ordered dc);
             ssn = (if ordered then dc_next_ssn dc else 0);
             max_retransmits = (if is_dcep then None else dc_max_retransmits dc);
             expiry = (if is_dcep then None
                       else map_option (\<lambda>ms. sctp_now s + millis (unat ms)) (dc_max_packet_life_time dc)) in
         ethen (emod (\<lambda>s. if ordered then upd_dc channel_id (\<lambda>dc. dc\<lparr>dc_next_ssn := dc_next_ssn dc + 1\<rparr>) s else s))
         (ethen (emod (\<lambda>s. if max_retransmits \<noteq> None \<or> expiry \<noteq> None then upd_tx (\<lambda>t. t\<lparr>has_pr_sctp := True\<rparr>) s else s))
         (ret \<lparr>sp_channel = channel_id, sp_ppid = ppid, sp_ssn = ssn, sp_flags = (if ordered then 0 else 4),
            sp_max_payload = min (dc_max_payload_size dc) DEFAULT_MAX_PAYLOAD_SIZE,
            sp_max_retransmits = max_retransmits, sp_expiry = expiry\<rparr>))
     | None \<Rightarrow>
         ret \<lparr>sp_channel = channel_id, sp_ppid = ppid, sp_ssn = 0, sp_flags = (if is_dcep then 4 else 0),
            sp_max_payload = DEFAULT_MAX_PAYLOAD_SIZE, sp_max_retransmits = None, sp_expiry = None\<rparr>)"

definition out_chunk :: "send_params \<Rightarrow> u8 \<Rightarrow> bytes \<Rightarrow> outbound_chunk" where
  "out_chunk p flags data =
     \<lparr>oc_stream = sp_channel p, oc_ppid = sp_ppid p, oc_payload = data, oc_flags = flags, oc_ssn = sp_ssn p,
      oc_max_retransmits = sp_max_retransmits p, oc_expiry = sp_expiry p\<rparr>"

text \<open>
  The fragments of a message. With a maximal payload of zero the offset never moves and the loop
  pushes empty chunks for ever, which is the value \<open>None\<close>.
\<close>

partial_function (option) fragment_loop :: "send_params \<Rightarrow> bytes \<Rightarrow> nat \<Rightarrow> outbound_chunk list option" where
  "fragment_loop p data offset =
     (if offset < length data
      then
        let size = min (length data - offset) (sp_max_payload p);
            flags = (if offset = 0 then sp_flags p OR 2 else sp_flags p);
            flags = (if length data \<le> offset + size then flags OR 1 else flags);
            chunk = out_chunk p flags (take size (drop offset data)) in
        Option.bind (fragment_loop p data (offset + size)) (\<lambda>chunks. Some (chunk # chunks))
      else Some [])"

text \<open>
  When the fragmentation does not end, the queue grows until the allocator gives up, which aborts the
  program; the model has the fault \<open>Panic\<close> for it, and none of the later steps happen.
\<close>

definition send_admit :: "send_params \<Rightarrow> bytes \<Rightarrow> unit sctp_eff" where
  "send_admit p data = eget (\<lambda>s.
     if assoc_state s = Sctp_Closed then efail Association_closed
     else if \<not> (max_buffered_amount (cfg s) = 0 \<or> flight_size (tx s) + queued_bytes (tx s) \<le> max_buffered_amount (cfg s))
     then efail Flow_wait
     else
       ethen (emod (upd_tx (\<lambda>t. t\<lparr>queued_bytes := queued_bytes t + length data\<rparr>)))
       (ethen (emod (account_stream_queued (sp_channel p) (length data)))
       (if data = []
        then ethen (emod (upd_tx (\<lambda>t. t\<lparr>outbound_queue := outbound_queue t @ [out_chunk p (sp_flags p OR 3) []]\<rparr>)))
               (emod notify_timer)
        else
          (case fragment_loop p data 0 of
             None \<Rightarrow> elift Panicked
           | Some chunks \<Rightarrow>
               ethen (emod (upd_tx (\<lambda>t. t\<lparr>outbound_queue := outbound_queue t @ chunks\<rparr>))) (emod notify_timer)))))"

definition send_data_raw :: "u16 \<Rightarrow> u32 \<Rightarrow> bytes \<Rightarrow> unit sctp_eff" where
  "send_data_raw channel_id ppid data = ebind (send_begin channel_id ppid) (\<lambda>p. send_admit p data)"

definition send_data :: "u16 \<Rightarrow> bytes \<Rightarrow> unit sctp_eff" where
  "send_data channel_id data = send_data_raw channel_id DATA_CHANNEL_PPID_BINARY data"

definition send_text :: "u16 \<Rightarrow> utf8 \<Rightarrow> unit sctp_eff" where
  "send_text channel_id data = send_data_raw channel_id DATA_CHANNEL_PPID_STRING data"

definition dcep_open_of :: "data_channel \<Rightarrow> data_channel_open" where
  "dcep_open_of dc =
     \<lparr>message_type = DCEP_TYPE_OPEN,
      channel_type =
        (if dc_ordered dc
         then if dc_max_retransmits dc \<noteq> None then 0x01 else if dc_max_packet_life_time dc \<noteq> None then 0x02 else 0x00
         else if dc_max_retransmits dc \<noteq> None then 0x81 else if dc_max_packet_life_time dc \<noteq> None then 0x82 else 0x80),
      priority = 0,
      reliability_parameter =
        (case dc_max_retransmits dc of
           Some r \<Rightarrow> ucast r
         | None \<Rightarrow> (case dc_max_packet_life_time dc of Some t \<Rightarrow> ucast t | None \<Rightarrow> 0)),
      open_label = dc_label dc, open_protocol = dc_protocol dc\<rparr>"

definition send_dcep_open :: "data_channel \<Rightarrow> unit sctp_eff" where
  "send_dcep_open dc = send_data_raw (dc_id dc) DATA_CHANNEL_PPID_DCEP (open_marshal (dcep_open_of dc))"

definition send_dcep_ack :: "u16 \<Rightarrow> unit sctp_eff" where
  "send_dcep_ack channel_id =
     send_data_raw channel_id DATA_CHANNEL_PPID_DCEP (ack_marshal \<lparr>ack_message_type = DCEP_TYPE_ACK\<rparr>)"

section \<open>Chunks\<close>

definition data_value :: "u16 \<Rightarrow> u32 \<Rightarrow> bytes \<Rightarrow> u16 \<Rightarrow> u32 \<Rightarrow> bytes" where
  "data_value channel_id ppid data ssn tsn = u32_be tsn @ u16_be channel_id @ u16_be ssn @ u32_be ppid @ data"

definition create_data_chunk :: "u16 \<Rightarrow> u32 \<Rightarrow> bytes \<Rightarrow> u16 \<Rightarrow> u8 \<Rightarrow> u32 \<Rightarrow> bytes" where
  "create_data_chunk channel_id ppid data ssn flags tsn =
     wire_chunk CT_DATA flags (data_value channel_id ppid data ssn tsn)"

definition sack_value :: "u32 \<Rightarrow> u32 \<Rightarrow> (u16 \<times> u16) list \<Rightarrow> u32 list \<Rightarrow> bytes" where
  "sack_value cum rwnd gap_blocks dups =
     u32_be cum @ u32_be rwnd @ u16_be (of_nat (length gap_blocks)) @ u16_be (of_nat (length dups))
     @ concat (map (\<lambda>(a, b). u16_be a @ u16_be b) gap_blocks) @ concat (map u32_be dups)"

definition create_sack_chunk :: "bytes sctp_eff" where
  "create_sack_chunk = eget (\<lambda>s.
     let cum = cumulative_tsn_ack (rx s);
         gap_blocks = build_gap_ack_blocks_from_map (received_queue (rx s)) cum;
         dups = take 32 (dups_buffer (rx s)) in
     ethen (emod (upd_rx (\<lambda>r. r\<lparr>dups_buffer := drop 32 (dups_buffer r)\<rparr>)))
     (ret (wire_chunk CT_SACK 0 (sack_value cum (advertised_rwnd s) gap_blocks dups))))"

definition create_forward_tsn_chunk :: "bytes option sctp_eff" where
  "create_forward_tsn_chunk = eget (\<lambda>s.
     let advanced = advanced_peer_ack_tsn (tx s) in
     if \<not> tsn_gt advanced (cumulative_tsn_ack (rx s)) then ret None
     else
       ethen (emod (upd_tx (\<lambda>t. t\<lparr>forward_tsn_streams := []\<rparr>)))
       (ret (Some (wire_chunk CT_FORWARD_TSN 0
          (u32_be advanced @ concat (map (\<lambda>(sid, ssn). u16_be sid @ u16_be ssn) (forward_tsn_streams (tx s))))))))"

section \<open>Partial reliability\<close>

definition should_abandon :: "nat \<Rightarrow> chunk_record \<Rightarrow> bool" where
  "should_abandon now r \<longleftrightarrow> abandoned r
     \<or> (case rec_max_retransmits r of Some max_r \<Rightarrow> ucast max_r < transmit_count r | None \<Rightarrow> False)
     \<or> (case rec_expiry r of Some e \<Rightarrow> e < now | None \<Rightarrow> False)"

definition abandon_set :: "nat \<Rightarrow> (u32, chunk_record) btree \<Rightarrow> (u16 \<times> u16) list" where
  "abandon_set now q =
     map (\<lambda>(_, r). (rec_stream r, rec_ssn r))
       (filter (\<lambda>(_, r). \<not> acked r \<and> \<not> abandoned r \<and> should_abandon now r) q)"

fun abandon_marked :: "(u16 \<times> u16) list \<Rightarrow> (u32, chunk_record) btree \<Rightarrow> nat \<Rightarrow> (u32, chunk_record) btree \<times> nat" where
  "abandon_marked pairs [] flight = ([], flight)"
| "abandon_marked pairs ((tsn, r) # q) flight =
     (if (rec_stream r, rec_ssn r) \<in> set pairs
      then
        let r' = r\<lparr>abandoned := True, needs_retransmit := False, in_flight := False\<rparr>;
            flight = (if in_flight r then flight - length (payload r) else flight) in
        case abandon_marked pairs q flight of (q', flight) \<Rightarrow> ((tsn, r') # q', flight)
      else case abandon_marked pairs q flight of (q', flight) \<Rightarrow> ((tsn, r) # q', flight))"

fun advance_point :: "(u32, chunk_record) btree \<Rightarrow> u32 \<Rightarrow> bool \<Rightarrow> u32 \<times> bool" where
  "advance_point [] adv has_abandoned = (adv, has_abandoned)"
| "advance_point ((tsn, r) # q) adv has_abandoned =
     (if \<not> tsn_gt tsn adv \<and> tsn \<noteq> adv + 1 then advance_point q adv has_abandoned
      else if tsn \<noteq> adv + 1 then (adv, has_abandoned)
      else if abandoned r then advance_point q tsn True
      else (adv, has_abandoned))"

fun stream_ssns :: "(u32, chunk_record) btree \<Rightarrow> (u16, u16) btree \<Rightarrow> (u16, u16) btree" where
  "stream_ssns [] m = m"
| "stream_ssns ((_, r) # q) m =
     (if abandoned r
      then
        let e = (case bt_get (rec_stream r) m of None \<Rightarrow> 0 | Some e \<Rightarrow> e) in
        stream_ssns q (bt_insert (rec_stream r) (if ssn_gt (rec_ssn r) e \<or> e = 0 then rec_ssn r else e) m)
      else stream_ssns q m)"

definition update_advanced_peer_ack_point :: "sctp \<Rightarrow> sctp" where
  "update_advanced_peer_ack_point s =
     (let pairs = abandon_set (sctp_now s) (sent_queue (tx s));
          (q, flight) = (if pairs \<noteq> [] then abandon_marked pairs (sent_queue (tx s)) (flight_size (tx s))
                         else (sent_queue (tx s), flight_size (tx s)));
          s = upd_tx (\<lambda>t. t\<lparr>sent_queue := q, flight_size := flight\<rparr>) s;
          last_sacked = cumulative_tsn_ack (rx s);
          advanced = (if tsn_gt last_sacked (advanced_peer_ack_tsn (tx s)) then last_sacked else advanced_peer_ack_tsn (tx s));
          (new_advanced, has_abandoned) = advance_point q advanced False in
      if has_abandoned \<and> tsn_gt new_advanced advanced
      then upd_tx (\<lambda>t. t\<lparr>advanced_peer_ack_tsn := new_advanced, forward_tsn_pending := True,
             forward_tsn_streams := stream_ssns (filter (\<lambda>(t, _). \<not> tsn_gt t new_advanced) q) [],
             sent_queue := filter (\<lambda>(t, _). tsn_gt t new_advanced) q\<rparr>) s
      else s)"

section \<open>Transmission\<close>

text \<open>Retransmission phase: the records marked for it, the bytes that enter the flight, the chunks to send.\<close>

fun retransmit_phase :: "nat \<Rightarrow> (u32, chunk_record) btree \<Rightarrow> (u32, chunk_record) btree \<times> nat \<times> bytes list" where
  "retransmit_phase now [] = ([], 0, [])"
| "retransmit_phase now ((tsn, r) # q) =
     (case retransmit_phase now q of (q', added, chunks) \<Rightarrow>
      if needs_retransmit r
      then ((tsn, r\<lparr>in_flight := True, needs_retransmit := False, sent_time := now\<rparr>) # q',
            (if in_flight r then 0 else length (payload r)) + added, payload r # chunks)
      else ((tsn, r) # q', added, chunks))"

text \<open>New data: chunks leave the queue while there is budget, a thousand at most.\<close>

fun take_batch :: "nat \<Rightarrow> nat \<Rightarrow> outbound_chunk list \<Rightarrow> outbound_chunk list \<times> outbound_chunk list" where
  "take_batch budget slots [] = ([], [])"
| "take_batch budget slots (c # q) =
     (if 0 < budget \<and> 0 < slots
      then
        let size = CHUNK_HEADER_SIZE + 12 + length (oc_payload c) in
        case take_batch (budget - (size + pad_len size)) (slots - 1) q of (batch, rest) \<Rightarrow> (c # batch, rest)
      else ([], c # q))"

definition new_record :: "nat \<Rightarrow> outbound_chunk \<Rightarrow> u32 \<Rightarrow> chunk_record" where
  "new_record now c tsn =
     \<lparr>payload = create_data_chunk (oc_stream c) (oc_ppid c) (oc_payload c) (oc_ssn c) (oc_flags c) tsn,
      sent_time = now, transmit_count = 1, missing_reports = 0, abandoned = False, fast_retransmit = False,
      needs_retransmit = False, fast_retransmit_time = None, in_flight = True, acked = False,
      rec_stream = oc_stream c, rec_ssn = oc_ssn c, rec_flags = oc_flags c,
      rec_max_retransmits = oc_max_retransmits c, rec_expiry = oc_expiry c\<rparr>"

fun send_batch :: "nat \<Rightarrow> outbound_chunk list \<Rightarrow> sctp_tx \<Rightarrow> bytes list \<times> sctp_tx" where
  "send_batch now [] t = ([], t)"
| "send_batch now (c # cs) t =
     (let r = new_record now c (next_tsn t);
          t = t\<lparr>next_tsn := next_tsn t + 1, sent_queue := bt_insert (next_tsn t) r (sent_queue t),
                flight_size := flight_size t + length (payload r)\<rparr> in
      case send_batch now cs t of (chunks, t) \<Rightarrow> (payload r # chunks, t))"

definition effective_window :: "sctp \<Rightarrow> nat" where
  "effective_window s =
     (let burst_limit = (if 0 < max_burst_packets (cfg s) then max_burst_packets (cfg s) else 4) * MAX_SCTP_PACKET_SIZE in
      min (min (flight_size (tx s) + burst_limit) (cwnd_tx (cc s))) (unat (peer_rwnd (tx s))))"

definition transmit_retransmissions :: "bytes list sctp_eff" where
  "transmit_retransmissions = eget (\<lambda>s.
     case retransmit_phase (sctp_now s) (sent_queue (tx s)) of (q, added, chunks) \<Rightarrow>
       ethen (emod (upd_tx (\<lambda>t. t\<lparr>sent_queue := q, flight_size := flight_size t + added\<rparr>)))
       (ethen (emod (\<lambda>s. if chunks \<noteq> [] then upd_cc (\<lambda>c. c\<lparr>fast_recovery_transmit := False\<rparr>) s else s))
       (ret chunks)))"

definition transmit_new_data :: "nat \<Rightarrow> bytes list sctp_eff" where
  "transmit_new_data window = eget (\<lambda>s.
     case take_batch (window - flight_size (tx s)) 1000 (outbound_queue (tx s)) of (batch, rest) \<Rightarrow>
     case send_batch (sctp_now s) batch
            ((tx s)\<lparr>outbound_queue := rest, window_limited := (rest \<noteq> [] \<or> 1000 \<le> length batch),
               queued_bytes := queued_bytes (tx s) - sum_list (map (\<lambda>c. length (oc_payload c)) batch)\<rparr>) of
       (chunks, t) \<Rightarrow>
         ethen (emod (upd_tx (\<lambda>_. t)))
         (ethen (emod (\<lambda>s. if batch \<noteq> [] then note_send_or_ack s else s))
         (ret chunks)))"

definition transmit_forward_tsn :: "bytes list sctp_eff" where
  "transmit_forward_tsn = eget (\<lambda>s.
     if has_pr_sctp (tx s)
     then
       ethen (emod update_advanced_peer_ack_point)
       (eget (\<lambda>s.
          ethen (emod (upd_tx (\<lambda>t. t\<lparr>forward_tsn_pending := False\<rparr>)))
          (if forward_tsn_pending (tx s)
           then ebind create_forward_tsn_chunk (\<lambda>fwd. ret (case fwd of Some c \<Rightarrow> [c] | None \<Rightarrow> []))
           else ret [])))
     else ret [])"

definition transmit_sack :: "bytes list sctp_eff" where
  "transmit_sack = eget (\<lambda>s.
     if sack_needed (rx s)
     then ethen (emod (upd_rx (\<lambda>r. r\<lparr>sack_needed := False\<rparr>))) (ebind create_sack_chunk (\<lambda>c. ret [c]))
     else ret [])"

definition transmit :: "unit sctp_eff" where
  "transmit =
     ebind transmit_sack (\<lambda>sack.
     eget (\<lambda>s. let window = effective_window s in
     ebind transmit_retransmissions (\<lambda>retrans.
     ebind (transmit_new_data window) (\<lambda>fresh.
     ebind transmit_forward_tsn (\<lambda>fwd.
     let chunks = sack @ retrans @ fresh @ fwd in
     if chunks \<noteq> [] then transmit_chunks chunks else ret ())))))"

section \<open>Tail loss probe\<close>

definition maybe_send_tlp_probe :: "sctp \<Rightarrow> sctp" where
  "maybe_send_tlp_probe s =
     (if tlp_probe_sent (tx s) then s
      else case find (\<lambda>(_, r). \<not> acked r \<and> \<not> abandoned r) (rev (sent_queue (tx s))) of
        None \<Rightarrow> s
      | Some (tail_tsn, r) \<Rightarrow>
          let r' = r\<lparr>needs_retransmit := True,
                     transmit_count := (if transmit_count r = 0xFFFFFFFF then 0xFFFFFFFF else transmit_count r + 1),
                     sent_time := sctp_now s, in_flight := True\<rparr> in
          notify_timer (upd_stats (\<lambda>t. t\<lparr>stats_tlp_probes := stats_tlp_probes t + 1\<rparr>)
            (upd_tx (\<lambda>t. t\<lparr>sent_queue := bt_insert tail_tsn r' (sent_queue t),
               flight_size := flight_size t + (if in_flight r then 0 else length (payload r)),
               tlp_probe_sent := True\<rparr>) s)))"

end
