(* ===== verification/Sctp_Inbound.thy ===== *)
theory Sctp_Inbound
  imports Sctp_Outbound
begin

text \<open>
  The receiving half of an association (\<open>transports/sctp.rs\<close>): DATA chunks, their reassembly into messages
  and the ordered delivery to the data channels, the Data Channel Establishment Protocol, FORWARD-TSN and
  RE-CONFIG.
\<close>

section \<open>Parameters of a chunk\<close>

text \<open>
  The loops over the parameters of a chunk take a type, a length and a value off the front and skip the
  padding when it is there; they stop at the first parameter that does not fit.
\<close>

definition param_split :: "bytes \<Rightarrow> (u16 \<times> bytes \<times> bytes) option" where
  "param_split buf =
     (case buf of
        a # b # c # d # rest \<Rightarrow>
          let len = unat (be16 c d) in
          if len < 4 \<or> length rest < len - 4 then None
          else
            let value = take (len - 4) rest; rest = drop (len - 4) rest in
            Some (be16 a b, value, if pad_len len \<le> length rest then drop (pad_len len) rest else rest)
      | _ \<Rightarrow> None)"

lemma param_split_length: "param_split buf = Some (t, v, rest) \<Longrightarrow> length rest < length buf"
  by (auto simp: param_split_def Let_def split: list.splits if_splits)

function params :: "bytes \<Rightarrow> (u16 \<times> bytes) list" where
  "params buf = (case param_split buf of None \<Rightarrow> [] | Some (t, v, rest) \<Rightarrow> (t, v) # params rest)"
  by auto
termination by (relation "measure length") (auto dest: param_split_length)

declare params.simps [simp del]

section \<open>Data Channel Establishment Protocol\<close>

definition dcep_config :: "data_channel_open \<Rightarrow> data_channel_config" where
  "dcep_config d =
     \<lparr>cfg_label = open_label d, cfg_protocol = open_protocol d, cfg_ordered = (channel_type d AND 0x80 = 0),
      cfg_max_retransmits = (if channel_type d AND 0x03 = 0x01 then Some (ucast (reliability_parameter d)) else None),
      cfg_max_packet_life_time = (if channel_type d AND 0x03 = 0x02 then Some (ucast (reliability_parameter d)) else None),
      cfg_max_payload_size = None, cfg_negotiated = None, cfg_low_threshold = 0\<rparr>"

text \<open>
  A channel opened by the peer is handed to the listener, if there is one whose receiving end still
  exists (\<open>has_listener\<close>), and lives as long as the application keeps it; without one, the only strong
  reference is dropped at the end of the handler.
\<close>

definition handle_dcep :: "u16 \<Rightarrow> bytes \<Rightarrow> unit sctp_eff" where
  "handle_dcep stream_id data =
     (if data = [] then ret ()
      else
        ebind (elift (at8 data 0)) (\<lambda>msg_type.
        if msg_type = DCEP_TYPE_OPEN
        then
          rmatch (open_unmarshal data) (\<lambda>e. efail (Dcep e)) (\<lambda>d.
            ethen
              (eget (\<lambda>s.
                 if dc_find stream_id (data_channels s) \<noteq> None then ret ()
                 else
                   let dc = send_event Ev_Open ((data_channel_new stream_id (dcep_config d))\<lparr>dc_st := DC_Open\<rparr>) in
                   if has_listener (cfg s)
                   then emod (\<lambda>s. s\<lparr>data_channels := data_channels s @ [Some dc], announced := announced s @ [stream_id]\<rparr>)
                   else emod (\<lambda>s. s\<lparr>data_channels := data_channels s @ [None]\<rparr>)))
              (send_dcep_ack stream_id))
        else if msg_type = DCEP_TYPE_ACK
        then emod (upd_dc stream_id (\<lambda>dc. if dc_st dc = DC_Connecting then send_event Ev_Open (dc\<lparr>dc_st := DC_Open\<rparr>) else dc))
        else ret ()))"

section \<open>Delivery\<close>

text \<open>\<open>entry(stream_id).or_insert_with(InboundStream::new)\<close>, then \<open>enqueue\<close>.\<close>

definition stream_enqueue :: "u16 \<Rightarrow> u16 \<Rightarrow> bytes \<Rightarrow> (u16, inbound_stream) btree \<Rightarrow> bytes list \<times> (u16, inbound_stream) btree" where
  "stream_enqueue sid ssn msg streams =
     (let st = (case bt_get sid streams of None \<Rightarrow> inbound_stream_new | Some st \<Rightarrow> st) in
      case enqueue ssn msg st of (ready, st') \<Rightarrow> (ready, bt_insert sid st' streams))"

definition deliver_messages :: "bytes list \<Rightarrow> data_channel \<Rightarrow> data_channel" where
  "deliver_messages msgs dc = fold (\<lambda>m. send_event (Ev_Message m)) msgs dc"

definition deliver_data :: "u8 \<Rightarrow> u16 \<Rightarrow> u16 \<Rightarrow> bytes \<Rightarrow> sctp \<Rightarrow> sctp" where
  "deliver_data flags stream_id stream_seq user_data s =
     (case dc_find stream_id (data_channels s) of
        None \<Rightarrow> s
      | Some dc \<Rightarrow>
          let b_bit = (flags AND 0x02 \<noteq> 0); e_bit = (flags AND 0x01 \<noteq> 0); unordered = (flags AND 0x04 \<noteq> 0);
              buffer = (if b_bit then [] else reassembly_buffer dc) @ user_data in
          if \<not> e_bit then upd_dc stream_id (\<lambda>dc. dc\<lparr>reassembly_buffer := buffer\<rparr>) s
          else
            let s = upd_dc stream_id (\<lambda>dc. dc\<lparr>reassembly_buffer := []\<rparr>) s in
            if unordered \<or> \<not> dc_ordered dc then upd_dc stream_id (send_event (Ev_Message buffer)) s
            else
              case stream_enqueue stream_id stream_seq buffer (inbound_streams (rx s)) of (ready, streams) \<Rightarrow>
                upd_dc stream_id (deliver_messages ready) (upd_rx (\<lambda>r. r\<lparr>inbound_streams := streams\<rparr>) s))"

definition process_data_payload :: "u8 \<Rightarrow> bytes \<Rightarrow> unit sctp_eff" where
  "process_data_payload flags chunk =
     ebind (elift (split_to 4 chunk)) (\<lambda>(_, buf).
     ebind (elift (get_u16 buf)) (\<lambda>(stream_id, buf).
     ebind (elift (get_u16 buf)) (\<lambda>(stream_seq, buf).
     ebind (elift (get_u32 buf)) (\<lambda>(payload_proto, user_data).
     if payload_proto = DATA_CHANNEL_PPID_DCEP
     then
       ethen (emod (\<lambda>s. if flags AND 0x04 = 0
                        then upd_rx (\<lambda>r. r\<lparr>inbound_streams := snd (stream_enqueue stream_id stream_seq [] (inbound_streams r))\<rparr>) s
                        else s))
         (handle_dcep stream_id user_data)
     else emod (deliver_data flags stream_id stream_seq user_data)))))"

section \<open>DATA chunks\<close>

function drain_received :: "u32 \<Rightarrow> (u32, u8 \<times> bytes) btree \<Rightarrow> (u8 \<times> bytes) list \<times> (u32, u8 \<times> bytes) btree" where
  "drain_received t q =
     (case bt_get t q of
        None \<Rightarrow> ([], q)
      | Some entry \<Rightarrow> (case drain_received (t + 1) (bt_remove t q) of (out, q') \<Rightarrow> (entry # out, q')))"
  by auto
termination by (relation "measure (\<lambda>(_, q). length q)") (auto simp: bt_remove_length)

declare drain_received.simps [simp del]

definition process_entry :: "u8 \<times> bytes \<Rightarrow> unit sctp_eff" where
  "process_entry entry =
     (case entry of (p_flags, p_chunk) \<Rightarrow>
      eget (\<lambda>s.
        let t = cumulative_tsn_ack (rx s) + 1 in
        ethen (process_data_payload p_flags p_chunk)
          (emod (upd_rx (\<lambda>r. r\<lparr>cumulative_tsn_ack := t, used_rwnd := used_rwnd r - length p_chunk\<rparr>)))))"

definition handle_data :: "u8 \<Rightarrow> bytes \<Rightarrow> unit sctp_eff" where
  "handle_data flags chunk =
     (if length chunk < 12 then ret ()
      else
        ebind (elift (get_u32 chunk)) (\<lambda>(tsn, _).
        eget (\<lambda>s.
          let diff = tsn - cumulative_tsn_ack (rx s) in
          if diff = 0 \<or> 0x80000000 < diff
          then
            ethen (emod (\<lambda>s. if length (dups_buffer (rx s)) < MAX_DUPS_BUFFER_SIZE
                             then upd_rx (\<lambda>r. r\<lparr>dups_buffer := dups_buffer r @ [tsn]\<rparr>) s else s))
              (emod schedule_sack_immediate)
          else if diff = 1 \<and> received_queue (rx s) = []
          then
            ethen (process_data_payload flags chunk)
            (ethen (emod (upd_rx (\<lambda>r. r\<lparr>cumulative_tsn_ack := tsn\<rparr>)))
              (emod schedule_sack_delayed))
          else
            ethen
              (if bt_get tsn (received_queue (rx s)) = None
               then emod (upd_rx (\<lambda>r. r\<lparr>used_rwnd := used_rwnd r + length chunk,
                      received_queue := bt_insert tsn (flags, chunk) (received_queue r)\<rparr>))
               else ret ())
            (eget (\<lambda>s.
               case drain_received (cumulative_tsn_ack (rx s) + 1) (received_queue (rx s)) of (to_process, q) \<Rightarrow>
                 ethen (emod (upd_rx (\<lambda>r. r\<lparr>received_queue := q\<rparr>)))
                 (ethen (eiter process_entry to_process)
                   (emod schedule_sack_immediate)))))))"

section \<open>FORWARD-TSN\<close>

fun ssn_pairs :: "bytes \<Rightarrow> (u16 \<times> u16) list" where
  "ssn_pairs (a # b # c # d # rest) = (be16 a b, be16 c d) # ssn_pairs rest"
| "ssn_pairs _ = []"

definition forward_stream :: "u16 \<times> u16 \<Rightarrow> sctp \<Rightarrow> sctp" where
  "forward_stream pair s =
     (case pair of (sid, ssn) \<Rightarrow>
      case bt_get sid (inbound_streams (rx s)) of
        None \<Rightarrow> s
      | Some st \<Rightarrow>
          (case drain_ready (advance_ssn_to ssn st) of (ready, st') \<Rightarrow>
             upd_dc sid (deliver_messages ready)
               (upd_rx (\<lambda>r. r\<lparr>inbound_streams := bt_insert sid st' (inbound_streams r)\<rparr>) s)))"

definition handle_forward_tsn :: "bytes \<Rightarrow> unit sctp_eff" where
  "handle_forward_tsn chunk =
     (if length chunk < 4 then ret ()
      else
        ebind (elift (get_u32 chunk)) (\<lambda>(new_cumulative_tsn, buf).
        eget (\<lambda>s.
          if cumulative_tsn_ack (rx s) < new_cumulative_tsn
          then
            ethen (emod (upd_rx (\<lambda>r. r\<lparr>cumulative_tsn_ack := new_cumulative_tsn,
                     received_queue := filter (\<lambda>(tsn, _). new_cumulative_tsn < tsn) (received_queue r)\<rparr>)))
            (ethen (emod (fold forward_stream (ssn_pairs buf)))
              (emod notify_timer))
          else ret ())))"

section \<open>RE-CONFIG\<close>

definition send_reconfig_response :: "u32 \<Rightarrow> u32 \<Rightarrow> unit sctp_eff" where
  "send_reconfig_response response_sn result = eget (\<lambda>s.
     transmit_chunks_with_tag
       [[CT_RECONFIG, 0] @ u16_be 16 @ u16_be RECONFIG_PARAM_RESPONSE @ u16_be 12 @ u32_be response_sn @ u32_be result]
       (remote_verification_tag s))"

fun u16s :: "bytes \<Rightarrow> u16 list" where
  "u16s (a # b # rest) = be16 a b # u16s rest"
| "u16s _ = []"

definition handle_reconfig_outgoing_ssn_reset :: "bytes \<Rightarrow> unit sctp_eff" where
  "handle_reconfig_outgoing_ssn_reset buf =
     (if length buf < 12 then ret ()
      else
        ebind (elift (get_u32 buf)) (\<lambda>(request_sn, buf).
        ebind (elift (get_u32 buf)) (\<lambda>(_, buf).
        ebind (elift (get_u32 buf)) (\<lambda>(_, buf).
        eget (\<lambda>s.
          let last_peer_sn = peer_reconfig_request_sn (rx s) in
          if request_sn \<le> last_peer_sn \<and> last_peer_sn \<noteq> 0xFFFFFFFF then send_reconfig_response request_sn 0
          else
            let streams = u16s buf in
            ethen (emod (upd_rx (\<lambda>r. r\<lparr>peer_reconfig_request_sn := request_sn\<rparr>)))
            (ethen (emod (\<lambda>s. s\<lparr>data_channels :=
                 map (map_option (\<lambda>dc. if streams = [] \<or> dc_id dc \<in> set streams then dc\<lparr>dc_next_ssn := 0\<rparr> else dc)) (data_channels s)\<rparr>))
            (ethen (emod (upd_rx (\<lambda>r. r\<lparr>inbound_streams :=
                 (if streams = [] then [] else fold bt_remove streams (inbound_streams r))\<rparr>)))
            (send_reconfig_response request_sn 1))))))))"

text \<open>The response is only logged.\<close>

definition handle_reconfig_response :: "bytes \<Rightarrow> unit sctp_eff" where
  "handle_reconfig_response buf =
     (if length buf < 8 then ret ()
      else ebind (elift (get_u32 buf)) (\<lambda>(_, buf). ebind (elift (get_u32 buf)) (\<lambda>(_, _). ret ())))"

definition handle_reconfig :: "bytes \<Rightarrow> unit sctp_eff" where
  "handle_reconfig chunk =
     eiter (\<lambda>(param_type, param_data).
       if param_type = RECONFIG_PARAM_OUTGOING_SSN_RESET then handle_reconfig_outgoing_ssn_reset param_data
       else if param_type = RECONFIG_PARAM_RESPONSE then handle_reconfig_response param_data
       else ret ()) (params chunk)"

definition send_reconfig_ssn_reset :: "u16 list \<Rightarrow> unit sctp_eff" where
  "send_reconfig_ssn_reset streams = eget (\<lambda>s.
     let request_sn = reconfig_request_sn (tx s);
         param_len = 16 + length streams * 2;
         param = u16_be RECONFIG_PARAM_OUTGOING_SSN_RESET @ u16_be (of_nat param_len) @ u32_be request_sn
                 @ u32_be 0 @ u32_be (next_tsn (tx s)) @ concat (map u16_be streams)
                 @ replicate (pad_len param_len) 0 in
     ethen (emod (upd_tx (\<lambda>t. t\<lparr>reconfig_request_sn := request_sn + 1\<rparr>)))
     (transmit_chunks_with_tag [[CT_RECONFIG, 0] @ u16_be (of_nat (4 + length param)) @ param]
       (remote_verification_tag s)))"

definition close_data_channel :: "u16 \<Rightarrow> unit sctp_eff" where
  "close_data_channel channel_id =
     ethen (emod (clear_stream_buffered channel_id))
     (ethen (emod (upd_dc channel_id (\<lambda>dc. dc\<lparr>dc_st := DC_Closing\<rparr>)))
     (ethen (send_reconfig_ssn_reset [channel_id])
     (ethen (emod (upd_rx (\<lambda>r. r\<lparr>inbound_streams := bt_remove channel_id (inbound_streams r)\<rparr>)))
     (emod (upd_dc channel_id (\<lambda>dc. send_event Ev_Close (dc\<lparr>dc_st := DC_Closed\<rparr>)))))))"

end
