(* ===== verification/Sctp_Assoc.thy ===== *)
theory Sctp_Assoc
  imports Sctp_Inbound
begin

text \<open>
  The association task (\<open>transports/sctp.rs\<close>): the four-way handshake with its state cookie, the processing
  of SACKs with congestion control and fast recovery, the retransmission and heartbeat timers, the
  dispatch of the chunks of a packet, and one iteration of the task's loop.
\<close>

section \<open>Errors that are logged\<close>

text \<open>
  \<open>if let Err(e) = operation.await\<close> with a log statement: an error is dropped. A call that waits is not an
  error, and a panic is not caught.
\<close>

definition eignore :: "unit sctp_eff \<Rightarrow> unit sctp_eff" where
  "eignore m = (\<lambda>s. case m s of
     (Inl (Err e), s') \<Rightarrow> if e = Flow_wait then (Inl (Err e), s') else (Ok (), s')
   | r \<Rightarrow> r)"

section \<open>The state cookie\<close>

definition nat_of_be :: "bytes \<Rightarrow> nat" where
  "nat_of_be bs = foldl (\<lambda>n b. n * 256 + unat b) 0 bs"

definition generate_cookie :: "sctp \<Rightarrow> bytes" where
  "generate_cookie s =
     (let timestamp = u64_be (of_nat (unix_ms s)) in
      timestamp @ hmac_sha1 (cfg s) (cookie_hmac_key (cfg s)) timestamp)"

definition validate_cookie :: "bytes \<Rightarrow> sctp \<Rightarrow> bool" where
  "validate_cookie cookie s =
     (if length cookie \<noteq> COOKIE_TOTAL_LEN then False
      else
        let timestamp = take COOKIE_TIMESTAMP_LEN cookie; received_mac = drop COOKIE_TIMESTAMP_LEN cookie in
        if hmac_sha1 (cfg s) (cookie_hmac_key (cfg s)) timestamp \<noteq> received_mac then False
        else let stamp_ms = nat_of_be timestamp in
          \<not> (unix_ms s < stamp_ms \<or> COOKIE_LIFETIME_MS < unix_ms s - stamp_ms))"

section \<open>The handshake\<close>

definition init_params :: "u32 \<Rightarrow> nat \<Rightarrow> u32 \<Rightarrow> bytes" where
  "init_params tag rwnd initial_tsn =
     u32_be tag @ u32_be (of_nat rwnd) @ u16_be 10 @ u16_be 10 @ u32_be initial_tsn
     @ u16_be 0xC000 @ u16_be 4 @ u16_be 0x8008 @ u16_be 5 @ [0xC0, 0] @ u16_be 0"

definition send_init :: "unit sctp_eff" where
  "send_init =
     ebind random_u32 (\<lambda>local_tag.
     ethen (emod (\<lambda>s. s\<lparr>verification_tag := local_tag\<rparr>))
     (ebind random_u32 (\<lambda>initial_tsn.
     ethen (emod (upd_tx (\<lambda>t. t\<lparr>next_tsn := initial_tsn\<rparr>)))
     (eget (\<lambda>s.
       let body = init_params local_tag (local_rwnd (cfg s)) initial_tsn
                  @ u16_be 12 @ u16_be 6 @ u16_be 5 @ u16_be 0 in
       ethen (send_chunk CT_INIT 0 body 0) (emod (t1_start CT_INIT body 0)))))))"

definition accept_init :: "u32 \<Rightarrow> u32 \<Rightarrow> u32 \<Rightarrow> sctp \<Rightarrow> sctp" where
  "accept_init initiate_tag a_rwnd initial_tsn s =
     upd_rx (\<lambda>r. r\<lparr>cumulative_tsn_ack := initial_tsn - 1\<rparr>)
       ((upd_cc (\<lambda>c. c\<lparr>ssthresh := max (unat a_rwnd) SSTHRESH_MIN\<rparr>)
          (upd_tx (\<lambda>t. t\<lparr>peer_rwnd := a_rwnd\<rparr>) s))\<lparr>remote_verification_tag := initiate_tag\<rparr>)"

definition handle_init :: "u32 \<Rightarrow> bytes \<Rightarrow> unit sctp_eff" where
  "handle_init remote_tag chunk =
     (if length chunk < 16 then ret ()
      else
        ebind (elift (get_u32 chunk)) (\<lambda>(initiate_tag, buf).
        ebind (elift (get_u32 buf)) (\<lambda>(a_rwnd, buf).
        ebind (elift (get_u16 buf)) (\<lambda>(_, buf).
        ebind (elift (get_u16 buf)) (\<lambda>(_, buf).
        ebind (elift (get_u32 buf)) (\<lambda>(initial_tsn, _).
        ethen (emod (accept_init initiate_tag a_rwnd initial_tsn))
        (ebind random_u32 (\<lambda>local_tag.
        ethen (emod (\<lambda>s. s\<lparr>verification_tag := local_tag\<rparr>))
        (ebind random_u32 (\<lambda>own_tsn.
        ethen (emod (upd_tx (\<lambda>t. t\<lparr>next_tsn := own_tsn\<rparr>)))
        (eget (\<lambda>s.
          let cookie = generate_cookie s in
          send_chunk CT_INIT_ACK 0
            (init_params local_tag (local_rwnd (cfg s)) own_tsn
             @ u16_be 7 @ u16_be (4 + of_nat (length cookie)) @ cookie @ replicate (pad_len (length cookie)) 0)
            initiate_tag))))))))))))"

definition handle_init_ack :: "bytes \<Rightarrow> unit sctp_eff" where
  "handle_init_ack chunk =
     ethen (emod t1_cancel)
     (if length chunk < 16 then ret ()
      else
        ebind (elift (get_u32 chunk)) (\<lambda>(initiate_tag, buf).
        ebind (elift (get_u32 buf)) (\<lambda>(a_rwnd, buf).
        ebind (elift (get_u16 buf)) (\<lambda>(_, buf).
        ebind (elift (get_u16 buf)) (\<lambda>(_, buf).
        ebind (elift (get_u32 buf)) (\<lambda>(initial_tsn, buf).
        ethen (emod (accept_init initiate_tag a_rwnd initial_tsn))
        (case find (\<lambda>(t, _). t = 7) (rev (params buf)) of
           None \<Rightarrow> ret ()
         | Some (_, cookie) \<Rightarrow>
             eget (\<lambda>s. let tag = remote_verification_tag s in
               ethen (send_chunk CT_COOKIE_ECHO 0 cookie tag) (emod (t1_start CT_COOKIE_ECHO cookie tag))))))))))"

text \<open>
  The end of the handshake on both sides: the association is connected, dropped channels leave the
  list, negotiated channels open and the others announce themselves to the peer.
\<close>

definition open_channel :: "nat \<Rightarrow> unit sctp_eff" where
  "open_channel i = eget (\<lambda>s.
     case data_channels s ! i of
       None \<Rightarrow> ret ()
     | Some dc \<Rightarrow>
         if dc_negotiated dc
         then emod (\<lambda>s. s\<lparr>data_channels := (data_channels s)[i := Some (send_event Ev_Open (dc\<lparr>dc_st := DC_Open\<rparr>))]\<rparr>)
         else if dc_st dc = DC_Connecting then eignore (send_dcep_open dc)
         else ret ())"

definition on_connected :: "unit sctp_eff" where
  "on_connected =
     ethen (emod (\<lambda>s. (upd_tx (\<lambda>t. t\<lparr>advanced_peer_ack_tsn := next_tsn t - 1\<rparr>) s)
              \<lparr>assoc_state := Sctp_Connected, data_channels := filter (\<lambda>dc. dc \<noteq> None) (data_channels s)\<rparr>))
     (eget (\<lambda>s. eiter open_channel [0..<length (data_channels s)]))"

definition handle_cookie_ack :: "bytes \<Rightarrow> unit sctp_eff" where
  "handle_cookie_ack chunk = ethen (emod t1_cancel) on_connected"

definition handle_cookie_echo :: "bytes \<Rightarrow> unit sctp_eff" where
  "handle_cookie_echo chunk = eget (\<lambda>s.
     if \<not> validate_cookie chunk s then ret ()
     else ethen (send_chunk CT_COOKIE_ACK 0 [] (remote_verification_tag s)) on_connected)"

section \<open>SACK\<close>

definition sack_signature :: "u32 \<Rightarrow> (u16 \<times> u16) list \<Rightarrow> u64" where
  "sack_signature cum gap_blocks =
     foldl (\<lambda>sig (a, b). sig * 0x9E3779B185EBCA87 + ((push_bit 16 (ucast a) OR ucast b) XOR drop_bit 32 sig))
       (push_bit 32 (ucast cum)) gap_blocks"

text \<open>Progress resets the error count and the probe; gap progress alone reduces the error count.\<close>

definition sack_activity :: "(u16 \<times> u16) list \<Rightarrow> sack_outcome \<Rightarrow> sctp \<Rightarrow> sctp" where
  "sack_activity gap_blocks outcome s =
     (if 0 < bytes_acked_by_cum_tsn outcome \<or> rtt_samples outcome \<noteq> []
      then
        let s = upd_tm (\<lambda>t. t\<lparr>association_error_count := 0, last_t3_fire_time := None\<rparr>) s;
            s = upd_tx (\<lambda>t. t\<lparr>tlp_probe_sent := False\<rparr>) (note_send_or_ack s);
            thresh = ssthresh (cc s); cwnd = cwnd_tx (cc s) in
        if thresh \<le> SSTHRESH_MIN \<and> 0 < bytes_acked_by_cum_tsn outcome \<and> thresh * 4 div 5 \<le> cwnd
        then upd_cc (\<lambda>c. c\<lparr>ssthresh := min (max (cwnd * 2) (CWND_INITIAL * 2)) (max_cwnd (cfg s))\<rparr>) s
        else s
      else if gap_blocks \<noteq> [] \<and> 0 < bytes_acked_by_gap outcome
      then
        let count = association_error_count (tm s) in
        if 0 < count
        then
          let packets_acked = (bytes_acked_by_gap outcome + MAX_SCTP_PACKET_SIZE - 1) div MAX_SCTP_PACKET_SIZE;
              reduction = max (min packets_acked count) 1 in
          upd_tm (\<lambda>t. t\<lparr>association_error_count := count - reduction\<rparr>) s
        else s
      else s)"

definition sack_rto_reset :: "sack_outcome \<Rightarrow> unit sctp_eff" where
  "sack_rto_reset outcome = eget (\<lambda>s.
     let r = rto_state (tm s) in
     if rtt_samples outcome = [] \<and> (0 < bytes_acked_by_cum_tsn outcome \<or> 0 < bytes_acked_by_gap outcome) \<and> 0 < srtt r
     then
       if rto_max r < rto_min r then elift Panicked
       else
         let computed_rto = clamp (rto_min r) (rto_max r) (srtt r + 4 * rttvar r) in
         if computed_rto < rto r then emod (upd_tm (\<lambda>t. t\<lparr>rto_state := r\<lparr>rto := computed_rto\<rparr>\<rparr>)) else ret ()
     else ret ())"

definition in_fast_recovery :: "u32 \<Rightarrow> sctp \<Rightarrow> bool" where
  "in_fast_recovery cum s \<longleftrightarrow> fast_recovery_active (cc s) \<and> sint (cum - fast_recovery_exit_tsn (cc s)) < 0"

text \<open>Window growth: in fast recovery, in slow start and in congestion avoidance.\<close>

definition grow_by :: "nat \<Rightarrow> nat \<Rightarrow> sctp \<Rightarrow> sctp" where
  "grow_by cwnd bytes s =
     upd_cc (\<lambda>c. c\<lparr>cwnd_tx := cwnd_tx c + (min (cwnd + bytes) (max_cwnd (cfg s)) - cwnd)\<rparr>) s"

definition sack_congestion :: "u32 \<Rightarrow> sack_outcome \<Rightarrow> sctp \<Rightarrow> sctp" where
  "sack_congestion cum outcome s =
     (if flight_reduction outcome = 0 then s
      else
        let s = upd_tx (\<lambda>t. t\<lparr>flight_size := flight_size t - flight_reduction outcome\<rparr>) s;
            cwnd = cwnd_tx (cc s); thresh = ssthresh (cc s);
            recovering = in_fast_recovery cum s;
            s = (if fast_recovery_active (cc s) \<and> \<not> recovering
                 then upd_cc (\<lambda>c. c\<lparr>fast_recovery_active := False, fast_recovery_exit_tsn := 0,
                        cwnd_tx := ssthresh c, partial_bytes_acked := 0\<rparr>) s
                 else s);
            done_bytes = bytes_acked_by_cum_tsn outcome + bytes_acked_by_gap outcome in
        if recovering
        then if 0 < done_bytes \<and> cwnd < max_cwnd (cfg s) then grow_by cwnd done_bytes s else s
        else
          let fully_utilized = (window_limited (tx s) \<or> cwnd \<le> flight_size (tx s)) in
          if 0 < done_bytes \<and> fully_utilized \<and> cwnd < max_cwnd (cfg s)
          then
            if cwnd \<le> thresh then grow_by cwnd done_bytes s
            else
              let total_pba = partial_bytes_acked (cc s) + done_bytes;
                  s = upd_cc (\<lambda>c. c\<lparr>partial_bytes_acked := total_pba\<rparr>) s in
              if cwnd \<le> total_pba
              then grow_by cwnd MAX_SCTP_PACKET_SIZE (upd_cc (\<lambda>c. c\<lparr>partial_bytes_acked := total_pba - cwnd\<rparr>) s)
              else s
          else s)"

definition sack_fast_recovery :: "u32 \<Rightarrow> sack_outcome \<Rightarrow> sctp \<Rightarrow> sctp" where
  "sack_fast_recovery cum outcome s =
     (if retransmit outcome = [] \<or> in_fast_recovery cum s
         \<or> sctp_now s - last_fast_recovery_entry (cc s) < FAST_RECOVERY_REENTRY_COOLDOWN
      then s
      else
        let near_floor = (cwnd_tx (cc s) \<le> SSTHRESH_MIN * 2);
            cut = (\<lambda>cwnd. if near_floor then max (cwnd * 7 div 10) SSTHRESH_MIN else max (cwnd div 2) SSTHRESH_MIN);
            new_ssthresh = min (cut (cwnd_tx (cc s))) (cut (cwnd_rx (cc s))) in
        upd_cc (\<lambda>c. c\<lparr>ssthresh := new_ssthresh, cwnd_tx := new_ssthresh, cwnd_rx := new_ssthresh,
          partial_bytes_acked := 0, fast_recovery_active := True, fast_recovery_transmit := True,
          fast_recovery_exit_tsn := next_tsn (tx s) - 1, last_fast_recovery_entry := sctp_now s\<rparr>) s)"

definition sack_accounts :: "sack_outcome \<Rightarrow> sctp \<Rightarrow> sctp" where
  "sack_accounts outcome s =
     fold (\<lambda>(sid, len) s. if 0 < len then account_stream_acked sid len s else s) (bytes_acked_per_stream outcome) s"

definition process_sack :: "u32 \<Rightarrow> u32 \<Rightarrow> (u16 \<times> u16) list \<Rightarrow> unit sctp_eff" where
  "process_sack cum a_rwnd gap_blocks =
     ethen (emod (upd_tx (\<lambda>t. t\<lparr>peer_rwnd := a_rwnd\<rparr>)))
     (eget (\<lambda>s.
       let sig = sack_signature cum gap_blocks in
       case apply_sack_to_sent_queue (sent_queue (tx s)) cum gap_blocks (sctp_now s)
              (last_sack_sig (tx s) \<noteq> sig) (max_tsn_retransmits (cfg s)) of
         (q, outcome) \<Rightarrow>
           ethen (emod (upd_tx (\<lambda>t. t\<lparr>last_sack_sig := sig, sent_queue := q\<rparr>)))
           (ethen (emod (upd_stats (\<lambda>t. t\<lparr>stats_retransmissions := stats_retransmissions t + length (retransmit outcome)\<rparr>)))
           (ethen (emod (sack_accounts outcome))
           (ethen (emod (sack_activity gap_blocks outcome))
           (ethen (eiter update_rto (rtt_samples outcome))
           (ethen (sack_rto_reset outcome)
           (ethen (emod (sack_congestion cum outcome))
           (ethen (emod (\<lambda>s. if head_moved outcome \<or> 0 < flight_reduction outcome
                              then upd_tm (\<lambda>t. t\<lparr>cached_rto_timeout := None\<rparr>) (notify_timer s) else s))
           (ethen (emod (sack_fast_recovery cum outcome))
           transmit))))))))))"

definition handle_sack :: "bytes \<Rightarrow> unit sctp_eff" where
  "handle_sack chunk =
     (if length chunk < 12 then ret ()
      else
        ethen (emod (\<lambda>s. upd_tm (\<lambda>t. t\<lparr>last_sack_time := Some (sctp_now s)\<rparr>) s))
        (ebind (elift (get_u32 chunk)) (\<lambda>(cum, buf).
        ebind (elift (get_u32 buf)) (\<lambda>(a_rwnd, buf).
        ebind (elift (get_u16 buf)) (\<lambda>(num_gap_ack_blocks, buf).
        ebind (elift (get_u16 buf)) (\<lambda>(_, buf).
        process_sack cum a_rwnd (take (unat num_gap_ack_blocks) (ssn_pairs buf))))))))"

section \<open>Timers\<close>

definition handle_t1_timeout :: "unit sctp_eff" where
  "handle_t1_timeout = eget (\<lambda>s.
     case t1_sent_time (tm s) of
       None \<Rightarrow> ret ()
     | Some t \<Rightarrow>
         if sctp_now s < t + from_secs (rto (rto_state (tm s))) then ret ()
         else
           let failures = t1_failures (tm s) + 1 in
           ethen (emod (upd_tm (\<lambda>t. t\<lparr>t1_failures := failures\<rparr>)))
           (if SCTP_MAX_INIT_RETRANS < failures
            then ethen (emod t1_cancel) (emod (close_with ''INIT_TIMEOUT''))
            else
              ethen (emod (upd_tm (\<lambda>t. t\<lparr>rto_state := rto_calc_backoff (rto_state t)\<rparr>)))
              (case t1_chunk (tm s) of
                 None \<Rightarrow> ret ()
               | Some (chunk_type, chunk_body, vtag) \<Rightarrow>
                   ethen (emod (upd_tm (\<lambda>t. t\<lparr>t1_sent_time := Some (sctp_now s)\<rparr>)))
                     (send_chunk chunk_type 0 chunk_body vtag))))"

text \<open>The T3 pass over the sent queue: the first unacknowledged chunks are retransmitted, a burst at most.\<close>

fun t3_pass :: "nat \<Rightarrow> u32 \<Rightarrow> nat \<Rightarrow> (u32, chunk_record) btree \<Rightarrow> (u32, chunk_record) btree" where
  "t3_pass now max_retrans n [] = []"
| "t3_pass now max_retrans n ((tsn, r) # q) =
     (if acked r \<or> abandoned r then (tsn, r) # t3_pass now max_retrans n q
      else
        let r = r\<lparr>in_flight := False\<rparr> in
        if (rec_max_retransmits r \<noteq> None \<or> rec_expiry r \<noteq> None) \<and> max_retrans \<le> transmit_count r
        then (tsn, r\<lparr>abandoned := True\<rparr>) # t3_pass now max_retrans n q
        else if n < RETRANSMIT_BURST
        then (tsn, r\<lparr>needs_retransmit := True, transmit_count := transmit_count r + 1, sent_time := now\<rparr>)
               # t3_pass now max_retrans (n + 1) q
        else (tsn, r\<lparr>sent_time := now\<rparr>) # t3_pass now max_retrans n q)"

definition t3_suppressed :: "sctp \<Rightarrow> bool" where
  "t3_suppressed s \<longleftrightarrow>
     (case last_t3_fire_time (tm s) of
        None \<Rightarrow> False
      | Some t \<Rightarrow> sctp_now s - t < from_secs (rto (rto_state (tm s))) div 2)"

definition t3_expired :: "sctp \<Rightarrow> bool" where
  "t3_expired s \<longleftrightarrow> (\<exists>(_, r) \<in> set (sent_queue (tx s)).
     \<not> acked r \<and> \<not> abandoned r \<and> sent_time r + from_secs (rto (rto_state (tm s))) \<le> sctp_now s)"

definition handle_timeout :: "sctp \<Rightarrow> sctp" where
  "handle_timeout s =
     (if t3_suppressed s \<or> \<not> t3_expired s then s
      else
        let s = upd_tm (\<lambda>t. t\<lparr>last_t3_fire_time := Some (sctp_now s), rto_state := rto_calc_backoff (rto_state t)\<rparr>) s;
            s = upd_tx (\<lambda>t. t\<lparr>tlp_probe_sent := False,
                  sent_queue := t3_pass (sctp_now s) (max_tsn_retransmits (cfg s)) 0 (sent_queue t),
                  flight_size := 0\<rparr>) s;
            new_ssthresh = max (cwnd_tx (cc s) div 2) (4 * MAX_SCTP_PACKET_SIZE) in
        notify_timer (upd_cc (\<lambda>c. c\<lparr>partial_bytes_acked := 0, fast_recovery_active := False,
          fast_recovery_exit_tsn := 0, fast_recovery_transmit := False, ssthresh := new_ssthresh,
          cwnd_tx := max new_ssthresh CWND_MIN_AFTER_RTO\<rparr>) s))"

text \<open>A heartbeat that is due while the last one is unanswered counts a failure, which may close.\<close>

definition heartbeat_failure :: "sctp \<Rightarrow> bool \<times> sctp" where
  "heartbeat_failure s =
     (let alive = (case last_sack_time (tm s) of None \<Rightarrow> False | Some t \<Rightarrow> sctp_now s - t < secs 30) in
      if alive then (False, upd_tm (\<lambda>t. t\<lparr>association_error_count := 0, consecutive_heartbeat_failures := 0\<rparr>) s)
      else
        let s = upd_tm (\<lambda>t. t\<lparr>consecutive_heartbeat_failures := consecutive_heartbeat_failures t + 1,
                  association_error_count := association_error_count t + 1\<rparr>) s in
        if max_association_retransmits (cfg s) \<le> association_error_count (tm s) \<and> 0 < max_association_retransmits (cfg s)
        then (True, close_with ''HEARTBEAT_TIMEOUT'' s) else (False, s))"

definition send_heartbeat :: "unit sctp_eff" where
  "send_heartbeat =
     ebind (estate (\<lambda>s. if heartbeat_sent_time (tm s) \<noteq> None then heartbeat_failure s else (False, s))) (\<lambda>dead.
     if dead then ret ()
     else
       ethen (emod (\<lambda>s. upd_tm (\<lambda>t. t\<lparr>heartbeat_sent_time := Some (sctp_now s)\<rparr>) s))
       (ebind random_u32 (\<lambda>info.
       eget (\<lambda>s. let tag = remote_verification_tag s in
         if tag = 0 then ret ()
         else ethen (emod (upd_stats (\<lambda>t. t\<lparr>stats_heartbeats_sent := stats_heartbeats_sent t + 1\<rparr>)))
                (send_chunk CT_HEARTBEAT 0 (u16_be 1 @ u16_be 8 @ u32_be info) tag)))))"

definition handle_heartbeat :: "bytes \<Rightarrow> unit sctp_eff" where
  "handle_heartbeat chunk = eget (\<lambda>s. send_chunk CT_HEARTBEAT_ACK 0 chunk (remote_verification_tag s))"

definition handle_heartbeat_ack :: "unit sctp_eff" where
  "handle_heartbeat_ack = eget (\<lambda>s.
     ethen (emod (upd_tm (\<lambda>t. t\<lparr>association_error_count := 0, consecutive_heartbeat_failures := 0\<rparr>)))
     (case heartbeat_sent_time (tm s) of
        None \<Rightarrow> ret ()
      | Some start \<Rightarrow>
          ethen (update_rto (as_secs (sctp_now s - start)))
            (emod (upd_tm (\<lambda>t. t\<lparr>heartbeat_sent_time := None\<rparr>)))))"

section \<open>Packets\<close>

definition chunk_split :: "bytes \<Rightarrow> (u8 \<times> u8 \<times> bytes \<times> bytes) option" where
  "chunk_split buf =
     (case buf of
        t # f # a # b # rest \<Rightarrow>
          let len = unat (be16 a b) in
          if len < CHUNK_HEADER_SIZE \<or> length rest < len - CHUNK_HEADER_SIZE then None
          else
            let value = take (len - CHUNK_HEADER_SIZE) rest; rest = drop (len - CHUNK_HEADER_SIZE) rest in
            Some (t, f, value, if pad_len len \<le> length rest then drop (pad_len len) rest else rest)
      | _ \<Rightarrow> None)"

lemma chunk_split_length: "chunk_split buf = Some (t, f, v, rest) \<Longrightarrow> length rest < length buf"
  by (auto simp: chunk_split_def Let_def split: list.splits if_splits)

function chunks :: "bytes \<Rightarrow> (u8 \<times> u8 \<times> bytes) list" where
  "chunks buf = (case chunk_split buf of None \<Rightarrow> [] | Some (t, f, v, rest) \<Rightarrow> (t, f, v) # chunks rest)"
  by auto
termination by (relation "measure length") (auto dest: chunk_split_length)

declare chunks.simps [simp del]

definition dispatch_chunk :: "u32 \<Rightarrow> u8 \<times> u8 \<times> bytes \<Rightarrow> unit sctp_eff" where
  "dispatch_chunk vtag c =
     (case c of (chunk_type, chunk_flags, value) \<Rightarrow>
      if chunk_type = CT_INIT then handle_init vtag value
      else if chunk_type = CT_INIT_ACK then handle_init_ack value
      else if chunk_type = CT_COOKIE_ECHO then handle_cookie_echo value
      else if chunk_type = CT_COOKIE_ACK then handle_cookie_ack value
      else if chunk_type = CT_DATA then handle_data chunk_flags value
      else if chunk_type = CT_SACK then handle_sack value
      else if chunk_type = CT_HEARTBEAT then handle_heartbeat value
      else if chunk_type = CT_HEARTBEAT_ACK then handle_heartbeat_ack
      else if chunk_type = CT_FORWARD_TSN then handle_forward_tsn value
      else if chunk_type = CT_RECONFIG then handle_reconfig value
      else if chunk_type = CT_ABORT then emod (close_with ''REMOTE_ABORT'')
      else if chunk_type = CT_SHUTDOWN then eget (\<lambda>s. send_chunk CT_SHUTDOWN_ACK 0 [] (remote_verification_tag s))
      else if chunk_type = CT_SHUTDOWN_ACK then emod (close_with ''REMOTE_SHUTDOWN'')
      else ret ())"

definition packet_checksum :: "bytes \<Rightarrow> u32" where
  "packet_checksum packet =
     sctp_crc32c_append (sctp_crc32c_append (sctp_crc32c (take 8 packet)) [0, 0, 0, 0]) (drop 12 packet)"

text \<open>The checksum travels in little-endian order (\<open>get_u32_le\<close>).\<close>

definition packet_ok :: "bytes \<Rightarrow> bool" where
  "packet_ok packet \<longleftrightarrow> take 4 (drop 8 packet) = u32_le_bytes (packet_checksum packet)"

definition handle_packet :: "bytes \<Rightarrow> unit sctp_eff" where
  "handle_packet packet =
     (if length packet < SCTP_COMMON_HEADER_SIZE then ret ()
      else
        ethen (emod (upd_stats (\<lambda>t. t\<lparr>stats_bytes_received := stats_bytes_received t + length packet,
                 stats_packets_received := stats_packets_received t + 1\<rparr>)))
        (ebind (elift (at32 packet 4)) (\<lambda>vtag.
         if \<not> packet_ok packet then ret ()
         else eiter (dispatch_chunk vtag) (chunks (drop 12 packet)))))"

section \<open>The task\<close>

definition sctp_new :: "sctp_cfg \<Rightarrow> rto_calculator \<Rightarrow> data_channel option list \<Rightarrow> (nat \<Rightarrow> u32) \<Rightarrow> nat \<Rightarrow> nat \<Rightarrow> sctp" where
  "sctp_new config rto_calc channels draws now wall =
     \<lparr>cfg = config, assoc_state = Sctp_New, verification_tag = 0, remote_verification_tag = 0,
      data_channels = channels, announced = [],
      rx = \<lparr>cumulative_tsn_ack = 0, received_queue = [], used_rwnd = 0, dups_buffer = [], sack_needed = False,
            sack_delayed_until = None, inbound_streams = [], peer_reconfig_request_sn = 0xFFFFFFFF\<rparr>,
      tx = \<lparr>next_tsn = 0, sent_queue = [], outbound_queue = [], queued_bytes = 0, stream_buffered = [],
            flight_size = 0, peer_rwnd = 256 * 1024, window_limited = False, last_sack_sig = 0,
            advanced_peer_ack_tsn = 0, forward_tsn_pending = False, forward_tsn_streams = [],
            has_pr_sctp = False, last_send_or_ack = now, tlp_probe_sent = False, reconfig_request_sn = 0\<rparr>,
      cc = \<lparr>cwnd_tx = CWND_INITIAL, cwnd_rx = CWND_INITIAL, ssthresh = 2 ^ 64 - 1, partial_bytes_acked = 0,
            fast_recovery_exit_tsn = 0, fast_recovery_active = False, fast_recovery_transmit = False,
            last_fast_recovery_entry = now - secs 10\<rparr>,
      tm = \<lparr>rto_state = rto_calc, t1_chunk = None, t1_failures = 0, t1_sent_time = None, t1_active = False,
            association_error_count = 0, heartbeat_sent_time = None, consecutive_heartbeat_failures = 0,
            last_t3_fire_time = None, cached_rto_timeout = None, last_sack_time = None, timer_notify = False\<rparr>,
      stats = \<lparr>stats_bytes_sent = 0, stats_bytes_received = 0, stats_packets_sent = 0, stats_packets_received = 0,
            stats_retransmissions = 0, stats_heartbeats_sent = 0, stats_tlp_probes = 0\<rparr>,
      outgoing = [], outgoing_open = True, close_reason = None, sctp_now = now, unix_ms = wall,
      rng = draws, rng_pos = 0\<rparr>"

definition rto_timeout :: "sctp \<Rightarrow> nat \<times> sctp" where
  "rto_timeout s =
     (let now = sctp_now s; recompute =
        (let expiries = map (\<lambda>(_, r). sent_time r + from_secs (rto (rto_state (tm s))))
               (filter (\<lambda>(_, r). \<not> acked r) (sent_queue (tx s)));
             t = (case expiries of
                    [] \<Rightarrow> secs 3600
                  | e # es \<Rightarrow> let soonest = fold min es e in if now < soonest then soonest - now else millis 1) in
         (t, upd_tm (\<lambda>m. m\<lparr>cached_rto_timeout := Some (now, t)\<rparr>) s)) in
      case cached_rto_timeout (tm s) of
        Some (last_calc, timeout) \<Rightarrow> if now - last_calc < millis 10 then (timeout, s) else recompute
      | None \<Rightarrow> recompute)"

text \<open>How long an iteration sleeps; a delayed SACK and a tail probe that are due act before it does.\<close>

definition loop_sleep :: "nat \<Rightarrow> sctp \<Rightarrow> nat \<times> sctp" where
  "loop_sleep last_heartbeat s =
     (case rto_timeout s of (t_rto, s) \<Rightarrow>
      let now = sctp_now s;
          t_heartbeat = (if last_heartbeat + heartbeat_interval (cfg s) \<le> now then millis 1
                         else last_heartbeat + heartbeat_interval (cfg s) - now);
          t_t1 = (if t1_active (tm s)
                  then (case t1_sent_time (tm s) of
                          Some sent \<Rightarrow> let expiry = sent + from_secs (rto (rto_state (tm s))) in
                            if now < expiry then expiry - now else millis 1
                        | None \<Rightarrow> secs 3600)
                  else secs 3600);
          t_sack = sack_delay_timeout s;
          s = flush_expired_sack_delay s;
          t_tlp = tlp_timeout s;
          s = (if t_tlp \<le> millis 1 then maybe_send_tlp_probe s else s) in
      (min (min (min (min t_rto t_heartbeat) t_t1) t_sack) t_tlp, s))"

datatype dtls_view = Dtls_up | Dtls_failed | Dtls_closed | Dtls_gone

datatype loop_event = Loop_close | Loop_dtls dtls_view | Loop_timer | Loop_sleep | Loop_packet "bytes option"

text \<open>The arms of the task's \<open>select\<close>; \<open>None\<close> leaves the loop, otherwise the time of the last heartbeat.\<close>

definition loop_event_step :: "loop_event \<Rightarrow> nat \<Rightarrow> nat option sctp_eff" where
  "loop_event_step ev last_heartbeat =
     (case ev of
        Loop_close \<Rightarrow> ethen (emod (\<lambda>s. s\<lparr>close_reason := Some ''LOCAL_CLOSE''\<rparr>)) (ret None)
      | Loop_dtls Dtls_up \<Rightarrow> ret (Some last_heartbeat)
      | Loop_dtls Dtls_failed \<Rightarrow> ethen (emod (\<lambda>s. s\<lparr>close_reason := Some ''DTLS_FAILED''\<rparr>)) (ret None)
      | Loop_dtls Dtls_closed \<Rightarrow> ethen (emod (\<lambda>s. s\<lparr>close_reason := Some ''DTLS_CLOSED''\<rparr>)) (ret None)
      | Loop_dtls Dtls_gone \<Rightarrow> ethen (emod (\<lambda>s. s\<lparr>close_reason := Some ''DTLS_CHANNEL_CLOSED''\<rparr>)) (ret None)
      | Loop_timer \<Rightarrow>
          ethen (emod (upd_tm (\<lambda>t. t\<lparr>timer_notify := False\<rparr>))) (ethen (eignore transmit) (ret (Some last_heartbeat)))
      | Loop_sleep \<Rightarrow>
          ethen (eignore handle_t1_timeout)
          (ethen (emod maybe_send_tlp_probe)
          (ethen (emod handle_timeout)
          (eget (\<lambda>s.
             if last_heartbeat + heartbeat_interval (cfg s) \<le> sctp_now s
             then ethen (eignore send_heartbeat) (ret (Some (sctp_now s)))
             else ret (Some last_heartbeat)))))
      | Loop_packet (Some packet) \<Rightarrow> ethen (eignore (handle_packet packet)) (ret (Some last_heartbeat))
      | Loop_packet None \<Rightarrow> ethen (emod (\<lambda>s. s\<lparr>close_reason := Some ''INCOMING_CHANNEL_CLOSED''\<rparr>)) (ret None))"

text \<open>\<open>queued\<close> are the packets that are received without waiting after the event.\<close>

definition loop_iteration :: "loop_event \<Rightarrow> bytes list \<Rightarrow> nat \<Rightarrow> nat option sctp_eff" where
  "loop_iteration ev queued last_heartbeat = eget (\<lambda>s.
     if assoc_state s = Sctp_Closed then ret None
     else
       ethen (emod (\<lambda>s. snd (loop_sleep last_heartbeat s)))
       (ebind (loop_event_step ev last_heartbeat) (\<lambda>next.
         case next of
           None \<Rightarrow> ret None
         | Some hb \<Rightarrow>
             ethen (eiter (\<lambda>p. eignore (handle_packet p)) queued)
             (ethen (eignore transmit) (ret (Some hb))))))"

text \<open>\<open>SctpCleanupGuard\<close>, dropped when the task ends for whatever reason.\<close>

definition cleanup :: "sctp \<Rightarrow> sctp" where
  "cleanup s = s\<lparr>assoc_state := Sctp_Closed,
     data_channels := map (map_option (\<lambda>dc.
       if dc_st dc \<noteq> DC_Closed then close_channel (send_event Ev_Close (dc\<lparr>dc_st := DC_Closed\<rparr>)) else dc)) (data_channels s)\<rparr>"

definition transport_close :: "sctp \<Rightarrow> sctp" where
  "transport_close s = s\<lparr>assoc_state := Sctp_Closed\<rparr>"

definition transport_buffered_amount :: "sctp \<Rightarrow> nat" where
  "transport_buffered_amount s = flight_size (tx s)"

end
