(* ===== verification/Sctp_Packet.thy ===== *)
theory Sctp_Packet
  imports Sctp_Assoc Framing
begin

text \<open>
  SCTP packets as a sender writes them and a receiver reads them: the chunks of a packet are read back
  as they were bundled, a packet that was built is accepted, and a packet that was changed in up to four
  consecutive bytes is dropped without an effect on the association.
\<close>

section \<open>Chunks\<close>

definition chunk_fits :: "u8 \<times> u8 \<times> bytes \<Rightarrow> bool" where
  "chunk_fits c \<longleftrightarrow> (case c of (_, _, v) \<Rightarrow> length v < 65532)"

definition chunk_wire :: "u8 \<times> u8 \<times> bytes \<Rightarrow> bytes" where
  "chunk_wire c = (case c of (t, f, v) \<Rightarrow> wire_chunk t f v)"

lemma chunk_split_wire:
  assumes "length v < 65532"
  shows "chunk_split (wire_chunk t f v @ rest) = Some (t, f, v, rest)"
proof -
  have "unat (be16 (ucast (drop_bit 8 w)) (ucast w)) = unat w" for w :: u16 by simp
  moreover have "unat (of_nat (4 + length v) :: u16) = 4 + length v"
    using assms by (intro unat_of_nat_u16) simp
  ultimately show ?thesis
    by (simp add: chunk_split_def wire_chunk_def u16_be_def CHUNK_HEADER_SIZE_def)
qed

interpretation sctp_chunks: framing
  "\<lambda>bs. case chunk_split bs of None \<Rightarrow> Fail () | Some (t, f, v, rest) \<Rightarrow> Ok ([(t, f, v)], rest)"
  "\<lambda>bs. Ok (chunks bs)" chunk_wire "\<lambda>c. [c]" chunk_fits
proof unfold_locales
  fix x :: "u8 \<times> u8 \<times> bytes" and rest :: bytes
  assume "chunk_fits x"
  then show "(case chunk_split (chunk_wire x @ rest) of None \<Rightarrow> Fail ()
      | Some (t, f, v, rest) \<Rightarrow> Ok ([(t, f, v)], rest)) = Ok ([x], rest)"
    by (cases x) (simp add: chunk_fits_def chunk_wire_def chunk_split_wire)
next
  show "Ok (chunks []) = Ok []" by (simp add: chunks.simps chunk_split_def)
next
  fix bs :: bytes and vs rest
  assume "(case chunk_split bs of None \<Rightarrow> Fail () | Some (t, f, v, rest) \<Rightarrow> Ok ([(t, f, v)], rest))
    = Ok (vs, rest)"
  then show "Ok (chunks bs) = rbind (Ok (chunks rest)) (\<lambda>ws. Ok (vs @ ws))"
    by (subst chunks.simps) (auto split: option.splits)
qed

lemma chunks_wire: "\<forall>c \<in> set cs. chunk_fits c \<Longrightarrow> chunks (concat (map chunk_wire cs)) = cs"
  using sctp_chunks.loop_wire [of cs] by simp

section \<open>Packets\<close>

lemma length_u32_le_bytes [simp]: "length (u32_le_bytes w) = 4"
  by (simp add: u32_le_bytes_def)

lemma packet_checksum_alt: "packet_checksum p = sctp_crc32c (take 8 p @ [0, 0, 0, 0] @ drop 12 p)"
  by (simp add: packet_checksum_def sctp_crc32c_def sctp_crc32c_append_append)

lemma build_packet_parts:
  "take 8 (build_packet sp dp tag cs) = u16_be sp @ u16_be dp @ u32_be tag"
  "drop 12 (build_packet sp dp tag cs) = concat cs"
  "length (build_packet sp dp tag cs) = 12 + length (concat cs)"
  by (simp_all add: build_packet_def Let_def)

lemma build_packet_ok: "packet_ok (build_packet sp dp tag cs)"
proof -
  let ?p = "build_packet sp dp tag cs"
  have zero: "u32_be 0 = [0, 0, 0, 0]" by (simp add: u32_be_def)
  have "packet_checksum ?p = sctp_crc32c (u16_be sp @ u16_be dp @ u32_be tag @ u32_be 0 @ concat cs)"
    by (simp add: packet_checksum_alt build_packet_parts zero)
  moreover have "take 4 (drop 8 ?p) = u32_le_bytes (sctp_crc32c (u16_be sp @ u16_be dp @ u32_be tag @ u32_be 0 @ concat cs))"
    by (simp add: build_packet_def Let_def)
  ultimately show ?thesis by (simp add: packet_ok_def)
qed

lemma handle_packet_built:
  "handle_packet (build_packet sp dp tag cs) =
     ethen (emod (upd_stats (\<lambda>t. t\<lparr>stats_bytes_received := stats_bytes_received t + (12 + length (concat cs)),
              stats_packets_received := stats_packets_received t + 1\<rparr>)))
       (eiter (dispatch_chunk tag) (chunks (concat cs)))"
proof -
  have "at32 (build_packet sp dp tag cs) 4 = (Ok tag :: sctp_error fault + u32)"
    by (simp add: build_packet_def Let_def read_simps)
  then show ?thesis
    by (simp add: handle_packet_def build_packet_parts build_packet_ok SCTP_COMMON_HEADER_SIZE_def
        elift_def ebind_def ethen_def)
qed

lemma crc_bytes_inj: "u32_le_bytes a = u32_le_bytes b \<longleftrightarrow> a = b"
  using get_u32_be(2) [of a] get_u32_be(2) [of b] by (auto simp: u32_le_bytes_def)

lemma corrupt_header:
  assumes "length good = length bad" and "length bad \<le> 4" and "good \<noteq> bad" and "length pre + length bad \<le> 8"
  shows "packet_checksum (pre @ good @ post) \<noteq> packet_checksum (pre @ bad @ post)
    \<and> take 4 (drop 8 (pre @ good @ post)) = take 4 (drop 8 (pre @ bad @ post))"
proof -
  let ?m = "8 - length pre - length bad" and ?n = "12 - length pre - length bad"
  have "packet_checksum (pre @ xs @ post) = sctp_crc32c (pre @ xs @ take ?m post @ [0, 0, 0, 0] @ drop ?n post)"
    if "length xs = length bad" for xs
    using that assms(4) by (simp add: packet_checksum_alt)
  then have "packet_checksum (pre @ good @ post) \<noteq> packet_checksum (pre @ bad @ post)"
    using crc_detects_burst [of good bad] assms(1-3) by simp
  with assms(1,4) show ?thesis by simp
qed

lemma corrupt_chunks:
  assumes "length good = length bad" and "length bad \<le> 4" and "good \<noteq> bad" and "12 \<le> length pre"
  shows "packet_checksum (pre @ good @ post) \<noteq> packet_checksum (pre @ bad @ post)
    \<and> take 4 (drop 8 (pre @ good @ post)) = take 4 (drop 8 (pre @ bad @ post))"
proof -
  have "packet_checksum (pre @ xs @ post) = sctp_crc32c ((take 8 pre @ [0, 0, 0, 0] @ drop 12 pre) @ xs @ post)" for xs
    using assms(4) by (simp add: packet_checksum_alt)
  then have "packet_checksum (pre @ good @ post) \<noteq> packet_checksum (pre @ bad @ post)"
    using crc_detects_burst [of good bad] assms(1-3) by (simp del: append_assoc)
  with assms(4) show ?thesis by simp
qed

lemma corrupt_checksum:
  assumes "length good = 4" and "length bad = 4" and "length pre = 8"
  shows "packet_checksum (pre @ good @ post) = packet_checksum (pre @ bad @ post)"
    and "take 4 (drop 8 (pre @ bad @ post)) = bad"
  using assms by (simp_all add: packet_checksum_alt)

text \<open>
  C36: A packet that the receiver accepts, changed in up to four consecutive bytes of the header or of
  the chunks (outside the checksum field), is dropped: nothing but the two receive counters changes. A
  packet whose checksum field alone is changed is dropped as well.
\<close>

theorem sctp_corruption_detected:
  assumes "packet_ok (pre @ good @ post)" and "length good = length bad" and "length bad \<le> 4" and "good \<noteq> bad"
    and "length pre + length bad \<le> 8 \<or> 12 \<le> length pre \<or> length pre = 8 \<and> length bad = 4"
    and "12 \<le> length (pre @ bad @ post)"
  shows "handle_packet (pre @ bad @ post) s =
    (Ok (), upd_stats (\<lambda>t. t\<lparr>stats_bytes_received := stats_bytes_received t + length (pre @ bad @ post),
       stats_packets_received := stats_packets_received t + 1\<rparr>) s)"
proof -
  have bad: "\<not> packet_ok (pre @ bad @ post)"
    using assms(5)
  proof (elim disjE conjE)
    assume "length pre + length bad \<le> 8"
    from corrupt_header [OF assms(2-4) this, of post] assms(1) show ?thesis
      by (simp add: packet_ok_def crc_bytes_inj)
  next
    assume "12 \<le> length pre"
    from corrupt_chunks [OF assms(2-4) this, of post] assms(1) show ?thesis
      by (simp add: packet_ok_def crc_bytes_inj)
  next
    assume "length pre = 8" and "length bad = 4"
    with assms(1,2,4) corrupt_checksum [of good bad pre post] corrupt_checksum(2) [of good good pre post]
    show ?thesis by (auto simp: packet_ok_def)
  qed
  have "\<exists>v. at32 (pre @ bad @ post) 4 = (Ok v :: sctp_error fault + u32)"
    using assms(6) at_in_range(4) [of 4 "pre @ bad @ post"] by simp
  with bad assms(6) show ?thesis
    by (auto simp: handle_packet_def SCTP_COMMON_HEADER_SIZE_def ethen_def ebind_def emod_def elift_def ret_def)
qed

theorem sctp_corruption_detected_witness:
  "packet_ok (build_packet 5000 5000 7 []) \<and>
   (\<exists>pre good post. build_packet 5000 5000 7 [] = pre @ good @ post
     \<and> handle_packet (pre @ map NOT good @ post) (sctp_new undefined undefined [] (\<lambda>_. 0) 0 0)
       = (Ok (), upd_stats (\<lambda>t. t\<lparr>stats_bytes_received := stats_bytes_received t + length (pre @ map NOT good @ post),
            stats_packets_received := stats_packets_received t + 1\<rparr>) (sctp_new undefined undefined [] (\<lambda>_. 0) 0 0)))"
proof -
  let ?p = "build_packet 5000 5000 7 []"
  have "NOT x \<noteq> x" for x :: u8
  proof
    assume "NOT x = x"
    then have "bit (NOT x) 0 = bit x 0" by simp
    then show False by (simp add: bit_not_iff del: bit_0)
  qed
  moreover have "packet_ok ([] @ take 1 ?p @ drop 1 ?p)"
    by (simp only: append_Nil append_take_drop_id build_packet_ok)
  ultimately have run: "handle_packet ([] @ map NOT (take 1 ?p) @ drop 1 ?p) s =
      (Ok (), upd_stats (\<lambda>t. t\<lparr>stats_bytes_received := stats_bytes_received t + length ([] @ map NOT (take 1 ?p) @ drop 1 ?p),
         stats_packets_received := stats_packets_received t + 1\<rparr>) s)" for s
    by (intro sctp_corruption_detected [where good = "take 1 ?p"])
       (assumption, simp_all add: u16_be_def build_packet_def Let_def)
  show ?thesis
    by (intro conjI build_packet_ok exI [of _ "[]"] exI [of _ "take 1 ?p"] exI [of _ "drop 1 ?p"] run) simp
qed

end
