(* ===== verification/Sctp_Frame.thy ===== *)
theory Sctp_Frame
  imports Sctp_Packet
begin

text \<open>
  Frame conditions of the association's operations. \<open>rview\<close> is what the receiving half depends on (the
  cumulative acknowledgement, the queue of received chunks, the streams and the channels with the messages
  delivered to them), \<open>tview\<close> what the sending half depends on. Operations of one half leave the view of
  the other unchanged; packets that an operation emits carry chunks it was given. Each is an instance
  of \<open>state_order\<close>.
\<close>

section \<open>Channels by identifier\<close>

lemma dc_find_update:
  assumes "\<And>dc. dc_id (f dc) = dc_id dc"
  shows "dc_find c (dc_update i f dcs) = (if c = i then map_option f (dc_find c dcs) else dc_find c dcs)"
proof (induction dcs)
  case (Cons x dcs)
  then show ?case by (cases x) (auto simp: assms)
qed simp

lemma dc_find_id: "dc_find c dcs = Some dc \<Longrightarrow> dc_id dc = c"
  by (induction c dcs rule: dc_find.induct) (auto split: if_splits)

lemma dc_find_upd_dc:
  "(\<And>dc. dc_id (f dc) = dc_id dc) \<Longrightarrow>
     dc_find c (data_channels (upd_dc i f s)) = (if c = i then map_option f (dc_find c (data_channels s)) else dc_find c (data_channels s))"
  by (simp add: upd_dc_def dc_find_update)

fun messages :: "dc_event list \<Rightarrow> bytes list" where
  "messages [] = []"
| "messages (Ev_Message m # evs) = m # messages evs"
| "messages (_ # evs) = messages evs"

lemma messages_append [simp]: "messages (xs @ ys) = messages xs @ messages ys"
  by (induction xs rule: messages.induct) simp_all

lemma send_event_simps [simp]:
  "dc_id (send_event ev dc) = dc_id dc" "dc_ordered (send_event ev dc) = dc_ordered dc"
  "dc_tx_open (send_event ev dc) = dc_tx_open dc" "reassembly_buffer (send_event ev dc) = reassembly_buffer dc"
  "dc_max_retransmits (send_event ev dc) = dc_max_retransmits dc"
  "dc_max_packet_life_time (send_event ev dc) = dc_max_packet_life_time dc"
  "dc_max_payload_size (send_event ev dc) = dc_max_payload_size dc" "dc_next_ssn (send_event ev dc) = dc_next_ssn dc"
  by (simp_all add: send_event_def)

lemma on_buffered_amount_simps [simp]:
  "dc_id (on_buffered_amount n dc) = dc_id dc" "dc_ordered (on_buffered_amount n dc) = dc_ordered dc"
  "dc_tx_open (on_buffered_amount n dc) = dc_tx_open dc"
  "reassembly_buffer (on_buffered_amount n dc) = reassembly_buffer dc"
  "messages (dc_events (on_buffered_amount n dc)) = messages (dc_events dc)"
  "dc_max_retransmits (on_buffered_amount n dc) = dc_max_retransmits dc"
  "dc_max_packet_life_time (on_buffered_amount n dc) = dc_max_packet_life_time dc"
  "dc_max_payload_size (on_buffered_amount n dc) = dc_max_payload_size dc"
  "dc_next_ssn (on_buffered_amount n dc) = dc_next_ssn dc"
  by (simp_all add: on_buffered_amount_def send_event_def Let_def)

section \<open>The receiving half's view\<close>

definition dc_rview :: "data_channel \<Rightarrow> bool \<times> bool \<times> bytes \<times> bytes list" where
  "dc_rview dc = (dc_ordered dc, dc_tx_open dc, reassembly_buffer dc, messages (dc_events dc))"

definition rview where
  "rview s = (cumulative_tsn_ack (rx s), received_queue (rx s), inbound_streams (rx s),
     (\<lambda>c. map_option dc_rview (dc_find c (data_channels s))))"

interpretation rv: state_order "\<lambda>s s'. rview s' = rview s"
  by unfold_locales simp_all

lemma rview_upd_dc:
  assumes "\<And>dc. dc_id (f dc) = dc_id dc" and "\<And>dc. dc_rview (f dc) = dc_rview dc"
  shows "rview (upd_dc i f s) = rview s"
proof -
  have "map_option dc_rview (dc_find c (data_channels (upd_dc i f s))) = map_option dc_rview (dc_find c (data_channels s))" for c
    by (simp add: dc_find_upd_dc assms option.map_comp comp_def)
  then show ?thesis by (simp add: rview_def) (simp add: upd_dc_def)
qed

lemma rview_upd [simp]:
  "rview (upd_tx f s) = rview s" "rview (upd_cc g s) = rview s" "rview (upd_tm h s) = rview s"
  "rview (upd_stats k s) = rview s" "rview (s\<lparr>outgoing := p\<rparr>) = rview s" "rview (s\<lparr>rng_pos := q\<rparr>) = rview s"
  "rview (s\<lparr>assoc_state := a\<rparr>) = rview s" "rview (s\<lparr>close_reason := r\<rparr>) = rview s" "rview (s\<lparr>sctp_now := t\<rparr>) = rview s"
  by (simp_all add: rview_def upd_defs)

lemma rview_upd_rx:
  "(\<And>r. cumulative_tsn_ack (f r) = cumulative_tsn_ack r \<and> received_queue (f r) = received_queue r
      \<and> inbound_streams (f r) = inbound_streams r) \<Longrightarrow> rview (upd_rx f s) = rview s"
  by (simp add: rview_def upd_rx_def)

lemma rview_simple [simp]:
  "rview (notify_timer s) = rview s" "rview (note_send_or_ack s) = rview s"
  "rview (set_state st s) = rview s" "rview (close_with reason s) = rview s"
  "rview (schedule_sack_immediate s) = rview s" "rview (schedule_sack_delayed s) = rview s"
  "rview (flush_expired_sack_delay s) = rview s"
  by (simp_all add: notify_timer_def note_send_or_ack_def set_state_def close_with_def schedule_sack_immediate_def
      schedule_sack_delayed_def flush_expired_sack_delay_def rview_upd_rx split: option.split)

lemma rview_publish [simp]: "rview (publish_stream_buffered i n s) = rview s"
  unfolding publish_stream_buffered_def by (rule rview_upd_dc) (simp_all add: dc_rview_def)

lemma rview_account [simp]: "rview (account_stream_queued i n s) = rview s" "rview (account_stream_acked i n s) = rview s"
  by (simp_all add: account_stream_queued_def account_stream_acked_def Let_def split: option.split)

lemma rview_accounts [simp]: "rview (sack_accounts outcome s) = rview s"
proof -
  have "rview (fold (\<lambda>(sid, len) s. if 0 < len then account_stream_acked sid len s else s) xs s) = rview s" for xs
    by (induction xs arbitrary: s) (auto split: prod.splits)
  then show ?thesis by (simp add: sack_accounts_def)
qed

lemma rview_sack [simp]:
  "rview (sack_activity gap_blocks outcome s) = rview s" "rview (sack_fast_recovery cum outcome s) = rview s"
  "rview (grow_by cwnd n s) = rview s"
  by (simp_all add: sack_activity_def sack_fast_recovery_def grow_by_def Let_def)

lemma rview_congestion [simp]: "rview (sack_congestion cum outcome s) = rview s"
  by (simp add: sack_congestion_def Let_def)

lemma rview_timers [simp]: "rview (handle_timeout s) = rview s" "rview (maybe_send_tlp_probe s) = rview s"
  "rview (snd (heartbeat_failure s)) = rview s"
  by (auto simp: handle_timeout_def maybe_send_tlp_probe_def heartbeat_failure_def Let_def split: option.split)

named_theorems rv_keeps "operations that leave the receiving half's view unchanged"

lemma rv_packets [rv_keeps]: "rv.keeps (send_packet_with_tag cs tag)"
  unfolding send_packet_with_tag_def by (intro rv.keeps_intros) simp_all

lemma rv_batch [rv_keeps]: "rv.keeps (batch_chunks tag cs batch len)"
  by (induction tag cs batch len rule: batch_chunks.induct) (auto intro: rv_packets)

lemma rv_output [rv_keeps]: "rv.keeps (transmit_chunks_with_tag cs tag)" "rv.keeps (transmit_chunks cs)"
  "rv.keeps (send_chunk t f v tag)"
  unfolding transmit_chunks_with_tag_def transmit_chunks_def send_chunk_def
  by (intro rv.keeps_intros rv_batch)+

lemma rv_random [rv_keeps]: "rv.keeps random_u32"
  unfolding random_u32_def by (intro rv.keeps_intros) simp

lemma rv_update_rto [rv_keeps]: "rv.keeps (update_rto x)" "rv.keeps (sack_rto_reset outcome)"
  unfolding update_rto_def sack_rto_reset_def by (intro rv.keeps_intros; simp)+

lemma rv_transmit_parts [rv_keeps]:
  "rv.keeps transmit_sack" "rv.keeps transmit_retransmissions" "rv.keeps (transmit_new_data w)" "rv.keeps transmit_forward_tsn"
  unfolding transmit_sack_def create_sack_chunk_def transmit_retransmissions_def transmit_new_data_def
    transmit_forward_tsn_def create_forward_tsn_chunk_def
  by (intro rv.keeps_intros; simp add: rview_upd_rx update_advanced_peer_ack_point_def Let_def split: prod.split)+

lemma rv_transmit [rv_keeps]: "rv.keeps transmit"
  unfolding transmit_def by (intro rv.keeps_intros rv_keeps)

lemma rv_sack [rv_keeps]: "rv.keeps (process_sack cum w gaps)" "rv.keeps (handle_sack v)"
proof -
  show p: "rv.keeps (process_sack cum w gaps)" for cum w gaps
    unfolding process_sack_def by (intro rv.keeps_intros rv_keeps) simp_all
  show "rv.keeps (handle_sack v)"
    unfolding handle_sack_def by (intro rv.keeps_intros p) simp
qed

lemma rv_heartbeat [rv_keeps]: "rv.keeps (handle_heartbeat v)" "rv.keeps handle_heartbeat_ack" "rv.keeps send_heartbeat"
proof -
  show "rv.keeps (handle_heartbeat v)" "rv.keeps handle_heartbeat_ack"
    unfolding handle_heartbeat_def handle_heartbeat_ack_def by (intro rv.keeps_intros rv_keeps; simp)+
  show "rv.keeps send_heartbeat"
    unfolding send_heartbeat_def by (intro rv.keeps_intros rv_keeps) simp_all
qed

lemma rv_send [rv_keeps]: "rv.keeps (send_begin c ppid)" "rv.keeps (send_admit p data)"
proof -
  show "rv.keeps (send_begin c ppid)"
    unfolding send_begin_def by (intro rv.keeps_intros; simp add: rview_upd_dc dc_rview_def)
  show "rv.keeps (send_admit p data)"
    unfolding send_admit_def by (intro rv.keeps_intros; simp)
qed

section \<open>The sending half's view\<close>

definition dc_tview where
  "dc_tview dc = (dc_ordered dc, dc_max_retransmits dc, dc_max_packet_life_time dc, dc_max_payload_size dc, dc_next_ssn dc)"

definition tview where
  "tview s = (cfg s, tx s, t1_sent_time (tm s), outgoing s, (\<lambda>c. map_option dc_tview (dc_find c (data_channels s))))"

lemma tview_upd_dc:
  assumes "\<And>dc. dc_id (f dc) = dc_id dc" and "\<And>dc. dc_tview (f dc) = dc_tview dc"
  shows "tview (upd_dc i f s) = tview s"
proof -
  have "map_option dc_tview (dc_find c (data_channels (upd_dc i f s))) = map_option dc_tview (dc_find c (data_channels s))" for c
    by (simp add: dc_find_upd_dc assms option.map_comp comp_def)
  then show ?thesis by (simp add: tview_def) (simp add: upd_dc_def)
qed

lemma tview_upd [simp]:
  "tview (upd_rx f s) = tview s" "tview (upd_cc g s) = tview s"
  "tview (upd_stats k s) = tview s" "tview (s\<lparr>rng_pos := q\<rparr>) = tview s"
  "tview (s\<lparr>assoc_state := a\<rparr>) = tview s" "tview (s\<lparr>close_reason := r\<rparr>) = tview s" "tview (s\<lparr>sctp_now := t\<rparr>) = tview s"
  by (simp_all add: tview_def upd_defs)

lemma tview_notify [simp]: "tview (notify_timer s) = tview s"
  by (simp add: tview_def notify_timer_def upd_defs)

lemma tview_sched [simp]:
  "tview (schedule_sack_immediate s) = tview s" "tview (schedule_sack_delayed s) = tview s"
  "tview (flush_expired_sack_delay s) = tview s"
  by (simp_all add: schedule_sack_immediate_def schedule_sack_delayed_def flush_expired_sack_delay_def
      split: option.split)

lemma deliver_messages_simps [simp]:
  "dc_id (deliver_messages ms dc) = dc_id dc" "dc_tview (deliver_messages ms dc) = dc_tview dc"
  "dc_ordered (deliver_messages ms dc) = dc_ordered dc" "dc_tx_open (deliver_messages ms dc) = dc_tx_open dc"
  "reassembly_buffer (deliver_messages ms dc) = reassembly_buffer dc"
  unfolding deliver_messages_def by (induction ms arbitrary: dc) (simp_all add: dc_tview_def)

lemma tview_deliver [simp]: "tview (deliver_data flags c ssn data s) = tview s"
proof -
  have t: "tview (upd_dc c (\<lambda>dc. dc\<lparr>reassembly_buffer := b\<rparr>) s) = tview s" for b s
    by (rule tview_upd_dc) (simp_all add: dc_tview_def)
  have e: "tview (upd_dc c (send_event ev) s) = tview s" for ev s
    by (rule tview_upd_dc) (simp_all add: dc_tview_def)
  have m: "tview (upd_dc c (deliver_messages ms) s) = tview s" for ms s
    by (rule tview_upd_dc) simp_all
  show ?thesis by (simp add: deliver_data_def Let_def t e m split: option.split prod.split)
qed

section \<open>Packets that leave\<close>

definition out_of :: "bytes set \<Rightarrow> sctp \<Rightarrow> sctp \<Rightarrow> bool" where
  "out_of C s s' \<longleftrightarrow> cfg s' = cfg s \<and> tx s' = tx s \<and> rx s' = rx s \<and> tm s' = tm s \<and> data_channels s' = data_channels s
     \<and> (\<exists>ps. outgoing s' = outgoing s @ ps
          \<and> (\<forall>p \<in> set ps. \<exists>sp dp tag cs. p = build_packet sp dp tag cs \<and> set cs \<subseteq> C))"

interpretation out: state_order "out_of C" for C
proof unfold_locales
  show "out_of C s s" for s by (simp add: out_of_def)
  show "out_of C s u" if "out_of C s t" and "out_of C t u" for s t u
    using that unfolding out_of_def by (auto simp: ball_Un)
qed

lemma out_packets: "set cs \<subseteq> C \<Longrightarrow> out.keeps C (send_packet_with_tag cs tag)"
  unfolding send_packet_with_tag_def out.keeps_def
  by (auto simp: out_of_def eget_def ethen_def ebind_def emod_def efail_def Let_def upd_defs close_with_def set_state_def)

lemma out_batch: "set cs \<subseteq> C \<Longrightarrow> set batch \<subseteq> C \<Longrightarrow> out.keeps C (batch_chunks tag cs batch len)"
  by (induction tag cs batch len rule: batch_chunks.induct) (auto intro!: out_packets)

lemma out_transmit: "set cs \<subseteq> C \<Longrightarrow> out.keeps C (transmit_chunks_with_tag cs tag)"
  "set cs \<subseteq> C \<Longrightarrow> out.keeps C (transmit_chunks cs)"
  unfolding transmit_chunks_with_tag_def transmit_chunks_def by (intro out.keeps_intros out_batch; simp)+

end
