(* ===== verification/Sctp_Delivery.thy ===== *)
theory Sctp_Delivery
  imports Sctp_Frame
begin

text \<open>
  From messages to fragments and back. A sender's messages become a sequence of fragments, the sequence
  is numbered by transmission sequence numbers, and the chunks arrive in any order and any number of
  times. The lemmas show that the receiver processes every fragment of the sequence once and in order
  (\<open>rx_inv\<close>), and that the fragments of a channel, fed to it in order, give back the messages.
\<close>

section \<open>Fragments of a message\<close>

function pieces :: "nat \<Rightarrow> bytes \<Rightarrow> bytes list" where
  "pieces m d = (if d = [] \<or> m = 0 then [] else take m d # pieces m (drop m d))"
  by auto
termination by (relation "measure (\<lambda>(_, d). length d)") auto

declare pieces.simps [simp del]

lemma concat_pieces: "0 < m \<Longrightarrow> concat (pieces m d) = d"
  by (induction m d rule: pieces.induct) (subst pieces.simps, auto)

lemma pieces_Nil_iff: "0 < m \<Longrightarrow> pieces m d = [] \<longleftrightarrow> d = []"
  by (subst pieces.simps) simp

lemma pieces_length: "x \<in> set (pieces m d) \<Longrightarrow> length x \<le> m"
proof (induction m d rule: pieces.induct)
  case (1 m d)
  then show ?case by (subst (asm) pieces.simps) (auto split: if_splits)
qed

lemma pieces_nonempty: "x \<in> set (pieces m d) \<Longrightarrow> x \<noteq> []"
proof (induction m d rule: pieces.induct)
  case (1 m d)
  then show ?case by (subst (asm) pieces.simps) (auto split: if_splits)
qed

fun flagged :: "send_params \<Rightarrow> bool \<Rightarrow> bytes list \<Rightarrow> outbound_chunk list" where
  "flagged p b [] = []"
| "flagged p b (x # xs) =
     out_chunk p ((if b then sp_flags p OR 2 else sp_flags p) OR (if xs = [] then 1 else 0)) x # flagged p False xs"

lemma fragment_loop_pieces:
  assumes "0 < sp_max_payload p" and "off \<le> length data"
  shows "fragment_loop p data off = Some (flagged p (off = 0) (pieces (sp_max_payload p) (drop off data)))"
  using assms(2)
proof (induction "length data - off" arbitrary: off rule: less_induct)
  case less
  let ?m = "sp_max_payload p"
  show ?case
  proof (cases "off < length data")
    case False
    with less.prems show ?thesis by (simp add: fragment_loop.simps pieces.simps)
  next
    case True
    let ?n = "min (length data - off) ?m"
    have n: "0 < ?n" using True assms(1) by simp
    have rest: "drop ?m (drop off data) = drop (off + ?n) data" using True by (auto simp: min_def add.commute)
    have ih: "fragment_loop p data (off + ?n) = Some (flagged p False (pieces ?m (drop (off + ?n) data)))"
      using less.hyps [of "off + ?n"] True n assms(1) by simp
    have piece: "pieces ?m (drop off data) = take ?n (drop off data) # pieces ?m (drop (off + ?n) data)"
      using True assms(1) rest by (subst pieces.simps) (simp add: min_def)
    have "pieces ?m (drop (off + ?n) data) = [] \<longleftrightarrow> length data \<le> off + ?n"
      using assms(1) by (simp add: pieces_Nil_iff)
    with True ih piece show ?thesis
      by (subst fragment_loop.simps) (simp add: Let_def)
  qed
qed

lemma fragment_loop_diverges:
  assumes "fragment_loop p data off = Some cs"
  shows "sp_max_payload p = 0 \<longrightarrow> length data \<le> off"
proof (rule fragment_loop.raw_induct [OF _ assms], rule impI)
  fix fl p data off cs
  assume ih: "\<And>p data off cs. fl p data off = Some cs \<Longrightarrow> sp_max_payload p = 0 \<longrightarrow> length data \<le> off"
    and body: "(if off < length data
      then
        let size = min (length data - off) (sp_max_payload p);
            flags = (if off = 0 then sp_flags p OR 2 else sp_flags p);
            flags = (if length data \<le> off + size then flags OR 1 else flags);
            chunk = out_chunk p flags (take size (drop off data)) in
        Option.bind (fl p data (off + size)) (\<lambda>chunks. Some (chunk # chunks))
      else Some []) = Some cs"
    and zero: "sp_max_payload p = 0"
  have "fl p data off = None" if "off < length data"
    using ih [of p data off] that zero by (cases "fl p data off") auto
  with body zero show "length data \<le> off" by (cases "off < length data") (simp_all add: Let_def)
qed

lemma flagged_payloads: "map oc_payload (flagged p b xs) = xs"
  by (induction xs arbitrary: b) (simp_all add: out_chunk_def)

text \<open>
  C37: Fragmentation of a message fails to end exactly when the channel's maximal payload size is zero
  and the message is not empty. Otherwise the fragments together are the message, and none is empty or
  larger than that size.
\<close>

theorem fragmentation_terminates:
  "(fragment_loop p data 0 = None \<longleftrightarrow> sp_max_payload p = 0 \<and> data \<noteq> []) \<and>
   (\<forall>cs. fragment_loop p data 0 = Some cs \<longrightarrow>
      concat (map oc_payload cs) = data
      \<and> (\<forall>c \<in> set cs. oc_payload c \<noteq> [] \<and> length (oc_payload c) \<le> sp_max_payload p))"
proof (cases "sp_max_payload p = 0 \<and> data \<noteq> []")
  case True
  then have "fragment_loop p data 0 \<noteq> Some cs" for cs using fragment_loop_diverges [of p data 0 cs] by auto
  then have "fragment_loop p data 0 = None" by (cases "fragment_loop p data 0") auto
  with True show ?thesis by simp
next
  case False
  show ?thesis
  proof (cases "data = []")
    case True
    then show ?thesis by (simp add: fragment_loop.simps)
  next
    case nonempty: False
    with False have m: "0 < sp_max_payload p" by simp
    let ?cs = "flagged p True (pieces (sp_max_payload p) data)"
    have "fragment_loop p data 0 = Some ?cs" using fragment_loop_pieces [OF m, of 0 data] by simp
    moreover have "oc_payload c \<noteq> [] \<and> length (oc_payload c) \<le> sp_max_payload p" if "c \<in> set ?cs" for c
    proof -
      have "oc_payload c \<in> set (pieces (sp_max_payload p) data)"
        using that flagged_payloads [of p True "pieces (sp_max_payload p) data"] by (metis image_eqI set_map)
      then show ?thesis using pieces_length pieces_nonempty by blast
    qed
    ultimately show ?thesis using m nonempty by (simp add: flagged_payloads concat_pieces)
  qed
qed

theorem fragmentation_terminates_witness:
  "\<exists>p. fragment_loop p [1, 2, 3] 0 \<noteq> None \<and> sp_max_payload p = 2"
proof -
  let ?p = "\<lparr>sp_channel = 1, sp_ppid = 53, sp_ssn = 0, sp_flags = 0, sp_max_payload = 2, sp_max_retransmits = None, sp_expiry = None\<rparr>"
  have "fragment_loop ?p [1, 2, 3] 0 \<noteq> None" using fragmentation_terminates [of ?p "[1, 2, 3]"] by simp
  moreover have "sp_max_payload ?p = 2" by simp
  ultimately show ?thesis by blast
qed

definition frags :: "send_params \<times> bytes \<Rightarrow> outbound_chunk list" where
  "frags m = (case m of (p, data) \<Rightarrow>
     if data = [] then [out_chunk p (sp_flags p OR 3) []] else flagged p True (pieces (sp_max_payload p) data))"

section \<open>Reassembly on a channel\<close>

text \<open>
  What a channel does with a fragment: the reassembly buffer, the next stream sequence number and the
  messages delivered so far.
\<close>

type_synonym chan = "bytes \<times> u16 \<times> bytes list"

definition feed :: "bool \<Rightarrow> outbound_chunk \<Rightarrow> chan \<Rightarrow> chan" where
  "feed ordered f st =
     (case st of (buf, nx, ms) \<Rightarrow>
      let buf = (if oc_flags f AND 2 \<noteq> 0 then [] else buf) @ oc_payload f in
      if oc_flags f AND 1 = 0 then (buf, nx, ms)
      else ([], if oc_flags f AND 4 \<noteq> 0 \<or> \<not> ordered then nx else nx + 1, ms @ [buf]))"

definition sp_ok :: "send_params \<Rightarrow> bool" where
  "sp_ok p \<longleftrightarrow> (sp_flags p = 0 \<or> sp_flags p = 4) \<and> 0 < sp_max_payload p \<and> sp_max_payload p \<le> 1172
     \<and> sp_ppid p \<noteq> DATA_CHANNEL_PPID_DCEP"

lemma flags_bits:
  assumes "sp_ok p"
  shows "((if b then sp_flags p OR 2 else sp_flags p) OR (if e then 1 else 0)) AND 2 \<noteq> 0 \<longleftrightarrow> b"
    and "((if b then sp_flags p OR 2 else sp_flags p) OR (if e then 1 else 0)) AND 1 = 0 \<longleftrightarrow> \<not> e"
    and "((if b then sp_flags p OR 2 else sp_flags p) OR (if e then 1 else 0)) AND 4 \<noteq> 0 \<longleftrightarrow> sp_flags p = 4"
  using assms by (cases b; cases e; auto simp: sp_ok_def)+

lemma flags_unordered:
  "sp_ok p \<Longrightarrow> ((if b then sp_flags p OR 2 else sp_flags p) OR (if e then 1 else 0)) AND 4 = 0 \<longleftrightarrow> sp_flags p \<noteq> 4"
  using flags_bits(3) by blast

lemma feed_flagged:
  assumes "sp_ok p" and "xs \<noteq> []"
  shows "fold (feed ordered) (flagged p b xs) (buf, nx, ms)
    = ([], if sp_flags p = 4 \<or> \<not> ordered then nx else nx + 1, ms @ [(if b then [] else buf) @ concat xs])"
  using assms(2)
proof (induction xs arbitrary: b buf)
  case (Cons x xs)
  show ?case
  proof (cases "xs = []")
    case True
    then show ?thesis using flags_bits [OF assms(1), of b True] by (simp add: feed_def out_chunk_def Let_def)
  next
    case False
    then show ?thesis
      using Cons.IH flags_bits [OF assms(1), of b False] by (simp add: feed_def out_chunk_def Let_def)
  qed
qed simp

lemma feed_flagged_prefix:
  assumes "sp_ok p" and "j < length xs"
  shows "\<exists>buf'. fold (feed ordered) (take j (flagged p b xs)) (buf, nx, ms) = (buf', nx, ms)"
  using assms(2)
proof (induction xs arbitrary: b buf j)
  case (Cons x xs)
  show ?case
  proof (cases j)
    case (Suc j')
    then have "xs \<noteq> []" using Cons.prems by auto
    then show ?thesis
      using Cons.IH [of j'] Cons.prems Suc flags_bits [OF assms(1), of b False]
      by (simp add: feed_def out_chunk_def Let_def)
  qed simp
qed simp

lemma length_flagged [simp]: "length (flagged p b xs) = length xs"
  by (induction xs arbitrary: b) simp_all

lemma feed_message:
  assumes "sp_ok p"
  shows "fold (feed ordered) (frags (p, data)) (buf, nx, ms)
    = ([], if sp_flags p = 4 \<or> \<not> ordered then nx else nx + 1, ms @ [data])"
proof (cases "data = []")
  case True
  have "(sp_flags p OR 3) AND 2 \<noteq> 0" "(sp_flags p OR 3) AND 1 \<noteq> 0" "(sp_flags p OR 3) AND 4 \<noteq> 0 \<longleftrightarrow> sp_flags p = 4"
    using assms by (auto simp: sp_ok_def)
  with True show ?thesis by (simp add: frags_def feed_def out_chunk_def Let_def)
next
  case False
  moreover have m: "0 < sp_max_payload p" using assms by (simp add: sp_ok_def)
  ultimately show ?thesis
    using feed_flagged [OF assms, of "pieces (sp_max_payload p) data"]
    by (simp add: frags_def pieces_Nil_iff concat_pieces)
qed

lemma feed_message_prefix:
  assumes "sp_ok p" and "j < length (frags (p, data))"
  shows "\<exists>buf'. fold (feed ordered) (take j (frags (p, data))) (buf, nx, ms) = (buf', nx, ms)"
proof (cases "data = []")
  case True
  with assms(2) show ?thesis by (simp add: frags_def)
next
  case False
  with feed_flagged_prefix [OF assms(1)] assms(2) show ?thesis by (simp add: frags_def)
qed

lemma frags_fields:
  assumes "sp_ok p" and "f \<in> set (frags (p, data))"
  shows "oc_stream f = sp_channel p \<and> oc_ppid f = sp_ppid p \<and> oc_ssn f = sp_ssn p \<and> length (oc_payload f) \<le> 1172
    \<and> oc_max_retransmits f = sp_max_retransmits p \<and> oc_expiry f = sp_expiry p \<and> (oc_flags f AND 4 \<noteq> 0 \<longleftrightarrow> sp_flags p = 4)"
proof -
  have "oc_stream f = sp_channel p \<and> oc_ppid f = sp_ppid p \<and> oc_ssn f = sp_ssn p
      \<and> oc_max_retransmits f = sp_max_retransmits p \<and> oc_expiry f = sp_expiry p
      \<and> (oc_flags f AND 4 \<noteq> 0 \<longleftrightarrow> sp_flags p = 4)" if "f \<in> set (flagged p b xs)" for b xs
    using that by (induction xs arbitrary: b) (auto simp: out_chunk_def flags_unordered [OF assms(1)] simp del: if_split)
  moreover have "length (oc_payload f) \<le> sp_max_payload p" if "f \<in> set (flagged p True (pieces (sp_max_payload p) data))"
    using that flagged_payloads [of p True "pieces (sp_max_payload p) data"] pieces_length
    by (metis image_eqI set_map)
  moreover have "(sp_flags p OR 3) AND 4 \<noteq> 0 \<longleftrightarrow> sp_flags p = 4" using assms(1) by (auto simp: sp_ok_def)
  ultimately show ?thesis
    using assms by (auto simp: frags_def out_chunk_def sp_ok_def split: if_splits)
qed

section \<open>Chunks of a fragment\<close>

definition fvalue :: "outbound_chunk \<Rightarrow> u32 \<Rightarrow> bytes" where
  "fvalue f tsn = data_value (oc_stream f) (oc_ppid f) (oc_payload f) (oc_ssn f) tsn"

definition fwire :: "outbound_chunk \<Rightarrow> u32 \<Rightarrow> bytes" where
  "fwire f tsn = wire_chunk CT_DATA (oc_flags f) (fvalue f tsn)"

definition rx_step :: "outbound_chunk \<Rightarrow> sctp \<Rightarrow> sctp" where
  "rx_step f s = deliver_data (oc_flags f) (oc_stream f) (oc_ssn f) (oc_payload f) s"

lemma length_fvalue [simp]: "length (fvalue f tsn) = 12 + length (oc_payload f)"
  by (simp add: fvalue_def data_value_def)

lemma process_fragment:
  "oc_ppid f \<noteq> DATA_CHANNEL_PPID_DCEP \<Longrightarrow> process_data_payload (oc_flags f) (fvalue f tsn) = emod (rx_step f)"
  by (rule ext) (simp add: process_data_payload_def fvalue_def data_value_def ebind_def elift_def emod_def rx_step_def read_simps)

lemma get_tsn: "get_u32 (fvalue f tsn) = Ok (tsn, u16_be (oc_stream f) @ u16_be (oc_ssn f) @ u32_be (oc_ppid f) @ oc_payload f)"
  by (simp add: fvalue_def data_value_def read_simps)

text \<open>The state of a channel of the receiver.\<close>

definition chan_at :: "sctp \<Rightarrow> u16 \<Rightarrow> bool \<Rightarrow> chan \<Rightarrow> bool" where
  "chan_at s c ordered st \<longleftrightarrow> (case st of (buf, nx, ms) \<Rightarrow>
     map_option dc_rview (dc_find c (data_channels s)) = Some (ordered, True, buf, ms)
     \<and> bt_ok (inbound_streams (rx s))
     \<and> (case bt_get c (inbound_streams (rx s)) of None \<Rightarrow> nx = 0 | Some i \<Rightarrow> i = \<lparr>next_ssn = nx, pending = []\<rparr>))"

lemma chan_at_rview: "rview s = rview s' \<Longrightarrow> chan_at s c ordered st \<longleftrightarrow> chan_at s' c ordered st"
proof -
  assume eq: "rview s = rview s'"
  then have "inbound_streams (rx s) = inbound_streams (rx s')"
    and "map_option dc_rview (dc_find c (data_channels s)) = map_option dc_rview (dc_find c (data_channels s'))"
    by (auto simp: rview_def dest: fun_cong)
  then show ?thesis by (simp add: chan_at_def)
qed

lemma enqueue_in_order:
  "enqueue ssn msg \<lparr>next_ssn = ssn, pending = []\<rparr> = ([msg], \<lparr>next_ssn = ssn + 1, pending = []\<rparr>)"
proof -
  have e: "drain_ready \<lparr>next_ssn = n, pending = []\<rparr> = ([], \<lparr>next_ssn = n, pending = []\<rparr>)" for n
    by (simp add: drain_ready.simps bt_get_def)
  have "drain_ready \<lparr>next_ssn = ssn, pending = [(ssn, msg)]\<rparr> = ([msg], \<lparr>next_ssn = ssn + 1, pending = []\<rparr>)"
    by (subst drain_ready.simps) (simp add: bt_get_def bt_remove_def e)
  then show ?thesis by (simp add: enqueue_def Let_def sctp_consts)
qed

lemma stream_enqueue_in_order:
  assumes "case bt_get c streams of None \<Rightarrow> ssn = 0 | Some i \<Rightarrow> i = \<lparr>next_ssn = ssn, pending = []\<rparr>"
  shows "stream_enqueue c ssn msg streams = ([msg], bt_insert c \<lparr>next_ssn = ssn + 1, pending = []\<rparr> streams)"
  using assms enqueue_in_order [of ssn msg]
  by (simp add: stream_enqueue_def inbound_stream_new_def split: option.splits)

lemma upd_frame [simp]:
  "rx (upd_dc i f s) = rx s" "data_channels (upd_rx g s) = data_channels s" "rx (upd_rx g s) = g (rx s)"
  by (simp_all add: upd_dc_def upd_rx_def)

lemma bt_get_other: "bt_ok m \<Longrightarrow> k \<noteq> k' \<Longrightarrow> bt_get k (bt_insert k' v m) = bt_get k m"
  by (simp add: bt.get_ins)

lemma deliver_other:
  assumes "oc_stream f \<noteq> c" and "chan_at s c ordered st"
  shows "chan_at (rx_step f s) c ordered st"
proof (cases "dc_find (oc_stream f) (data_channels s)")
  case None
  with assms(2) show ?thesis by (simp add: rx_step_def deliver_data_def)
next
  case (Some dc)
  obtain buf nx ms where st: "st = (buf, nx, ms)" by (cases st)
  have ok: "bt_ok (inbound_streams (rx s))" using assms(2) st by (simp add: chan_at_def)
  have ins: "bt_get c (bt_insert (oc_stream f) v (inbound_streams (rx s))) = bt_get c (inbound_streams (rx s))" for v
    using bt_get_other [OF ok] assms(1) by metis
  show ?thesis
    using assms Some ok ins st
    by (auto simp: rx_step_def deliver_data_def chan_at_def Let_def dc_find_upd_dc stream_enqueue_def bt.ins_ok
        split: prod.splits)
qed

lemma deliver_same:
  assumes at: "chan_at s (oc_stream f) ordered (buf, nx, ms)"
    and ssn: "ordered \<and> oc_flags f AND 4 = 0 \<and> oc_flags f AND 1 \<noteq> 0 \<longrightarrow> oc_ssn f = nx"
  shows "chan_at (rx_step f s) (oc_stream f) ordered (feed ordered f (buf, nx, ms))"
proof -
  let ?c = "oc_stream f" and ?streams = "inbound_streams (rx s)"
  obtain dc where dc: "dc_find ?c (data_channels s) = Some dc"
    and view: "dc_ordered dc = ordered" "dc_tx_open dc" "reassembly_buffer dc = buf" "messages (dc_events dc) = ms"
    using at by (auto simp: chan_at_def dc_rview_def)
  have ok: "bt_ok ?streams" and st: "case bt_get ?c ?streams of None \<Rightarrow> nx = 0 | Some i \<Rightarrow> i = \<lparr>next_ssn = nx, pending = []\<rparr>"
    using at by (auto simp: chan_at_def)
  show ?thesis
  proof (cases "oc_flags f AND 1 = 0")
    case True
    with dc view ok st show ?thesis
      by (simp add: rx_step_def deliver_data_def chan_at_def feed_def Let_def dc_find_upd_dc dc_rview_def)
  next
    case end_bit: False
    show ?thesis
    proof (cases "oc_flags f AND 4 \<noteq> 0 \<or> \<not> ordered")
      case True
      with end_bit dc view ok st show ?thesis
        by (simp add: rx_step_def deliver_data_def chan_at_def feed_def Let_def dc_find_upd_dc dc_rview_def
            send_event_def)
    next
      case False
      with ssn end_bit have "oc_ssn f = nx" by simp
      with False end_bit dc view ok st show ?thesis
        by (simp add: rx_step_def deliver_data_def chan_at_def feed_def Let_def dc_find_upd_dc dc_rview_def
            stream_enqueue_in_order bt.ins_ok bt.get_ins deliver_messages_def send_event_def)
    qed
  qed
qed

section \<open>The receiver's invariant\<close>

text \<open>
  \<open>fs\<close> is the sequence of all fragments of the sender and \<open>n\<close> the number of those it has numbered so far;
  the fragment at position \<open>i\<close> travels under the sequence number \<open>base + i\<close>. The receiver has processed a
  prefix of the sequence, holds some of the later chunks in its queue (not the next one), and its channels
  are where the prefix leads.
\<close>

definition chan_after :: "bool \<Rightarrow> u16 \<Rightarrow> outbound_chunk list \<Rightarrow> chan" where
  "chan_after ordered c fs = fold (feed ordered) (filter (\<lambda>f. oc_stream f = c) fs) ([], 0, [])"

definition frags_ok :: "(u16 \<Rightarrow> bool option) \<Rightarrow> outbound_chunk list \<Rightarrow> bool" where
  "frags_ok chans fs \<longleftrightarrow>
     (\<forall>f \<in> set fs. oc_ppid f \<noteq> DATA_CHANNEL_PPID_DCEP \<and> length (oc_payload f) \<le> 1172) \<and>
     (\<forall>i < length fs. \<forall>ordered. chans (oc_stream (fs ! i)) = Some ordered \<longrightarrow>
        ordered \<and> oc_flags (fs ! i) AND 4 = 0 \<and> oc_flags (fs ! i) AND 1 \<noteq> 0 \<longrightarrow>
        oc_ssn (fs ! i) = fst (snd (chan_after ordered (oc_stream (fs ! i)) (take i fs))))"

definition chans_at :: "(u16 \<Rightarrow> bool option) \<Rightarrow> sctp \<Rightarrow> outbound_chunk list \<Rightarrow> bool" where
  "chans_at chans s fs \<longleftrightarrow> (\<forall>c ordered. chans c = Some ordered \<longrightarrow> chan_at s c ordered (chan_after ordered c fs))"

definition rx_count :: "u32 \<Rightarrow> sctp \<Rightarrow> nat" where
  "rx_count base s = unat (cumulative_tsn_ack (rx s) + 1 - base)"

definition queue_ok :: "u32 \<Rightarrow> outbound_chunk list \<Rightarrow> nat \<Rightarrow> nat \<Rightarrow> (u32, u8 \<times> bytes) btree \<Rightarrow> bool" where
  "queue_ok base fs n k q \<longleftrightarrow> bt_ok q \<and>
     (\<forall>(t, e) \<in> set q. \<exists>i. k \<le> i \<and> i < n \<and> t = base + of_nat i \<and> e = (oc_flags (fs ! i), fvalue (fs ! i) t))"

definition rx_inv :: "(u16 \<Rightarrow> bool option) \<Rightarrow> u32 \<Rightarrow> outbound_chunk list \<Rightarrow> nat \<Rightarrow> sctp \<Rightarrow> bool" where
  "rx_inv chans base fs n s \<longleftrightarrow>
     rx_count base s \<le> n \<and> queue_ok base fs n (rx_count base s) (received_queue (rx s))
     \<and> base + of_nat (rx_count base s) \<notin> set (bt_keys (received_queue (rx s)))
     \<and> chans_at chans s (take (rx_count base s) fs)"

definition rcvd :: "u32 \<Rightarrow> sctp \<Rightarrow> nat \<Rightarrow> bool" where
  "rcvd base s i \<longleftrightarrow> i < rx_count base s \<or> i < 2 ^ 31 \<and> base + of_nat i \<in> set (bt_keys (received_queue (rx s)))"

lemma rx_inv_rview:
  assumes "rview s = rview s'"
  shows "rx_inv chans base fs n s \<longleftrightarrow> rx_inv chans base fs n s'" "rcvd base s = rcvd base s'" "rx_count base s = rx_count base s'"
proof -
  have r: "cumulative_tsn_ack (rx s) = cumulative_tsn_ack (rx s')" "received_queue (rx s) = received_queue (rx s')"
    using assms by (simp_all add: rview_def)
  then show c: "rx_count base s = rx_count base s'" by (simp add: rx_count_def)
  with r show "rcvd base s = rcvd base s'" by (simp add: rcvd_def fun_eq_iff)
  from r c show "rx_inv chans base fs n s \<longleftrightarrow> rx_inv chans base fs n s'"
    by (simp add: rx_inv_def chans_at_def chan_at_rview [OF assms])
qed

lemma rx_inv_mono: "rx_inv chans base fs n s \<Longrightarrow> n \<le> n' \<Longrightarrow> n \<le> length fs \<Longrightarrow> rx_inv chans base (fs @ gs) n' s"
  by (fastforce simp: rx_inv_def queue_ok_def nth_append)

lemma deliver_next:
  assumes "frags_ok chans fs" and "k < length fs" and "chans_at chans s (take k fs)"
  shows "chans_at chans (rx_step (fs ! k) s) (take (Suc k) fs)"
  unfolding chans_at_def
proof (intro allI impI)
  fix c ordered
  assume c: "chans c = Some ordered"
  with assms(3) have at: "chan_at s c ordered (chan_after ordered c (take k fs))" by (simp add: chans_at_def)
  have "chan_after ordered c (take (Suc k) fs)
      = (if oc_stream (fs ! k) = c then feed ordered (fs ! k) (chan_after ordered c (take k fs)) else chan_after ordered c (take k fs))"
    using assms(2) by (simp add: chan_after_def take_Suc_conv_app_nth)
  moreover obtain buf nx ms where st: "chan_after ordered c (take k fs) = (buf, nx, ms)" by (metis prod_cases3)
  moreover have "chan_at (rx_step (fs ! k) s) c ordered (feed ordered (fs ! k) (buf, nx, ms))" if "oc_stream (fs ! k) = c"
    using assms(1,2) at st c that by (auto simp: frags_ok_def intro!: deliver_same)
  ultimately show "chan_at (rx_step (fs ! k) s) c ordered (chan_after ordered c (take (Suc k) fs))"
    using at deliver_other by auto
qed

lemma rx_step_rx [simp]:
  "cumulative_tsn_ack (rx (rx_step f s)) = cumulative_tsn_ack (rx s)" "received_queue (rx (rx_step f s)) = received_queue (rx s)"
  by (simp_all add: rx_step_def deliver_data_def Let_def split: option.split prod.split)

lemma chans_at_upd_rx:
  "(\<And>r. inbound_streams (g r) = inbound_streams r) \<Longrightarrow> chans_at chans (upd_rx g s) fs \<longleftrightarrow> chans_at chans s fs"
  by (simp add: chans_at_def chan_at_def split: prod.split)

lemma process_entry_fragment:
  "oc_ppid f \<noteq> DATA_CHANNEL_PPID_DCEP \<Longrightarrow> process_entry (oc_flags f, fvalue f t) s =
     (Ok (), upd_rx (\<lambda>r. r\<lparr>cumulative_tsn_ack := cumulative_tsn_ack (rx s) + 1, used_rwnd := used_rwnd r - length (fvalue f t)\<rparr>) (rx_step f s))"
  by (simp add: process_entry_def process_fragment eget_def ethen_def ebind_def emod_def Let_def)

lemma process_run:
  assumes "frags_ok chans fs" and "k + j \<le> length fs" and "chans_at chans s (take k fs)"
  shows "\<exists>s'. eiter process_entry (map (\<lambda>i. (oc_flags (fs ! i), fvalue (fs ! i) (base + of_nat i))) [k..<k + j]) s = (Ok (), s')
    \<and> cumulative_tsn_ack (rx s') = cumulative_tsn_ack (rx s) + of_nat j \<and> received_queue (rx s') = received_queue (rx s)
    \<and> chans_at chans s' (take (k + j) fs) \<and> tview s' = tview s"
  using assms(2,3)
proof (induction j arbitrary: k s)
  case (Suc j)
  let ?f = "fs ! k"
  have ppid: "oc_ppid ?f \<noteq> DATA_CHANNEL_PPID_DCEP" using assms(1) Suc.prems(1) by (simp add: frags_ok_def)
  let ?s1 = "upd_rx (\<lambda>r. r\<lparr>cumulative_tsn_ack := cumulative_tsn_ack (rx s) + 1,
    used_rwnd := used_rwnd r - length (fvalue ?f (base + of_nat k))\<rparr>) (rx_step ?f s)"
  have "chans_at chans ?s1 (take (Suc k) fs)"
    using deliver_next [OF assms(1) _ Suc.prems(2)] Suc.prems(1) by (simp add: chans_at_upd_rx)
  then obtain s' where "eiter process_entry (map (\<lambda>i. (oc_flags (fs ! i), fvalue (fs ! i) (base + of_nat i))) [Suc k..<Suc k + j]) ?s1 = (Ok (), s')"
    and "cumulative_tsn_ack (rx s') = cumulative_tsn_ack (rx ?s1) + of_nat j" "received_queue (rx s') = received_queue (rx ?s1)"
    and "chans_at chans s' (take (Suc k + j) fs)" "tview s' = tview ?s1"
    using Suc.IH [of "Suc k" ?s1] Suc.prems(1) by auto
  moreover have "[k..<k + Suc j] = k # [Suc k..<Suc k + j]" by (simp add: upt_conv_Cons)
  moreover have "tview ?s1 = tview s" by (simp add: rx_step_def)
  ultimately show ?case
    by (intro exI [of _ s']) (simp add: process_entry_fragment [OF ppid] ethen_def ebind_def)
qed (simp add: ret_def)

lemma unat_of_nat_u32: "i < 2 ^ 32 \<Longrightarrow> unat (of_nat i :: u32) = i"
  by (simp add: unat_of_nat)

lemma of_nat_u32_inj: "i < 2 ^ 32 \<Longrightarrow> j < 2 ^ 32 \<Longrightarrow> (of_nat i :: u32) = of_nat j \<longleftrightarrow> i = j"
  by (metis unat_of_nat_u32)

lemma queue_ok_get:
  assumes "queue_ok base fs n k q" and "n < 2 ^ 31" and "bt_get (base + of_nat i) q = Some e" and "i < 2 ^ 31"
  shows "k \<le> i \<and> i < n \<and> e = (oc_flags (fs ! i), fvalue (fs ! i) (base + of_nat i))"
proof -
  have "(base + of_nat i, e) \<in> set q" using assms(1,3) by (simp add: queue_ok_def bt_get_in)
  then obtain j where j: "k \<le> j" "j < n" "base + of_nat i = base + of_nat j" "e = (oc_flags (fs ! j), fvalue (fs ! j) (base + of_nat i))"
    using assms(1) by (auto simp: queue_ok_def)
  then have "i = j" using assms(2,4) of_nat_u32_inj [of i j] by simp
  with j show ?thesis by simp
qed

lemma queue_ok_remove:
  assumes "queue_ok base fs n k q" and "n < 2 ^ 31"
  shows "queue_ok base fs n (Suc k) (bt_remove (base + of_nat k) q)"
proof -
  have "bt_ok (bt_remove (base + of_nat k) q)" using assms(1) by (simp add: queue_ok_def bt.del_ok)
  moreover have "\<exists>i. Suc k \<le> i \<and> i < n \<and> t = base + of_nat i \<and> e = (oc_flags (fs ! i), fvalue (fs ! i) t)"
    if in_q: "(t, e) \<in> set (bt_remove (base + of_nat k) q)" for t e
  proof -
    obtain i where i: "k \<le> i" "i < n" "t = base + of_nat i" "e = (oc_flags (fs ! i), fvalue (fs ! i) t)"
      using assms(1) in_q by (auto simp: queue_ok_def bt_remove_def)
    moreover have "i \<noteq> k" using in_q i(3) by (auto simp: bt_remove_def)
    ultimately show ?thesis by (intro exI [of _ i]) auto
  qed
  ultimately show ?thesis by (auto simp: queue_ok_def)
qed

lemma drain_spec:
  assumes "queue_ok base fs n k q" and "n < 2 ^ 31" and "k \<le> n" and "drain_received (base + of_nat k) q = (out, q')"
  shows "\<exists>j. k + j \<le> n \<and> out = map (\<lambda>i. (oc_flags (fs ! i), fvalue (fs ! i) (base + of_nat i))) [k..<k + j]
    \<and> queue_ok base fs n (k + j) q' \<and> base + of_nat (k + j) \<notin> set (bt_keys q')
    \<and> set (bt_keys q) \<subseteq> set (bt_keys q') \<union> (\<lambda>i. base + of_nat i) ` {k..<k + j}"
  using assms
proof (induction "length q" arbitrary: k q out q' rule: less_induct)
  case less
  show ?case
  proof (cases "bt_get (base + of_nat k) q")
    case None
    then have "out = []" "q' = q" using less.prems(4) by (simp_all add: drain_received.simps)
    moreover have "base + of_nat k \<notin> set (bt_keys q)"
      using None by (simp add: bt_get_def bt_keys_def map_of_eq_None_iff)
    ultimately show ?thesis using less.prems by (intro exI [of _ 0]) auto
  next
    case (Some e)
    let ?q = "bt_remove (base + of_nat k) q"
    have e: "k < n" "e = (oc_flags (fs ! k), fvalue (fs ! k) (base + of_nat k))"
      using queue_ok_get [OF less.prems(1,2) Some] less.prems(2,3) by auto
    obtain out1 where rec: "drain_received (base + of_nat (Suc k)) ?q = (out1, q')" and out: "out = e # out1"
    proof -
      have "drain_received (base + of_nat k) q
          = (case drain_received (base + of_nat (Suc k)) ?q of (out1, q1) \<Rightarrow> (e # out1, q1))"
        using Some by (subst drain_received.simps) (simp add: ac_simps)
      with less.prems(4) that show ?thesis by (simp split: prod.splits)
    qed
    obtain j where j: "Suc k + j \<le> n" "out1 = map (\<lambda>i. (oc_flags (fs ! i), fvalue (fs ! i) (base + of_nat i))) [Suc k..<Suc k + j]"
      "queue_ok base fs n (Suc k + j) q'" "base + of_nat (Suc k + j) \<notin> set (bt_keys q')"
      "set (bt_keys ?q) \<subseteq> set (bt_keys q') \<union> (\<lambda>i. base + of_nat i) ` {Suc k..<Suc k + j}"
      using less.hyps [OF bt_remove_length [OF Some] queue_ok_remove [OF less.prems(1,2)] less.prems(2) _ rec] e(1) by auto
    have "[k..<k + Suc j] = k # [Suc k..<Suc k + j]" by (simp add: upt_conv_Cons)
    moreover have "set (bt_keys q) \<subseteq> insert (base + of_nat k) (set (bt_keys ?q))"
      by (auto simp: bt_keys_def bt_remove_def image_iff)
    moreover have "{k..<k + Suc j} = insert k {Suc k..<Suc k + j}" by auto
    ultimately show ?thesis using j e out by (intro exI [of _ "Suc j"]) auto
  qed
qed

section \<open>One DATA chunk\<close>

lemma rx_cum: "cumulative_tsn_ack (rx s) = base + of_nat (rx_count base s) - 1"
  by (simp add: rx_count_def)

lemma tsn_diff_old:
  assumes "i < k" and "k \<le> 2 ^ 31"
  shows "base + of_nat i - (base + of_nat k - 1) = 0 \<or> (0x80000000 :: u32) < base + of_nat i - (base + of_nat k - 1)"
proof -
  have eq: "base + of_nat i - (base + of_nat k - 1) = of_nat (Suc i) - (of_nat k :: u32)" by simp
  show ?thesis
  proof (cases "Suc i = k")
    case True
    then show ?thesis unfolding eq by simp
  next
    case False
    have "unat (of_nat (Suc i) :: u32) = Suc i" "unat (of_nat k :: u32) = k"
      using assms by (simp_all add: unat_of_nat_u32 del: of_nat_Suc)
    moreover from this have "\<not> (of_nat k :: u32) \<le> of_nat (Suc i)"
      using assms False by (simp add: word_le_nat_alt del: of_nat_Suc)
    ultimately have "unat (of_nat (Suc i) - (of_nat k :: u32)) = 2 ^ 32 + Suc i - k"
      by (simp add: unat_diff_cases del: of_nat_Suc)
    then show ?thesis unfolding eq word_less_nat_alt using assms by (intro disjI2) simp
  qed
qed

lemma tsn_diff_new:
  assumes "k \<le> i" and "i < 2 ^ 31"
  shows "unat (base + of_nat i - (base + of_nat k - 1 :: u32)) = Suc i - k"
proof -
  have eq: "base + of_nat i - (base + of_nat k - 1) = (of_nat (Suc i - k) :: u32)" using assms by (simp add: of_nat_diff)
  show ?thesis unfolding eq using assms by (intro unat_of_nat_u32) simp
qed

lemma rx_count_of_cum:
  "cumulative_tsn_ack (rx s) = base + of_nat k - 1 \<Longrightarrow> k < 2 ^ 32 \<Longrightarrow> rx_count base s = k"
  by (simp add: rx_count_def unat_of_nat_u32)

lemma queue_ok_insert:
  assumes "queue_ok base fs n k q" and "k \<le> i" and "i < n"
  shows "queue_ok base fs n k (bt_insert (base + of_nat i) (oc_flags (fs ! i), fvalue (fs ! i) (base + of_nat i)) q)"
proof -
  let ?e = "(oc_flags (fs ! i), fvalue (fs ! i) (base + of_nat i))"
  let ?q = "bt_insert (base + of_nat i) ?e q"
  have ok: "bt_ok q" "bt_ok ?q" using assms(1) by (simp_all add: queue_ok_def bt.ins_ok)
  have "\<exists>j. k \<le> j \<and> j < n \<and> t = base + of_nat j \<and> e = (oc_flags (fs ! j), fvalue (fs ! j) t)" if "(t, e) \<in> set ?q" for t e
  proof (cases "t = base + of_nat i")
    case True
    then have "e = ?e" using that ok by (simp add: bt_get_in [symmetric] bt.get_ins)
    with True assms(2,3) show ?thesis by blast
  next
    case False
    then have "(t, e) \<in> set q" using that ok by (simp add: bt_get_in [symmetric] bt.get_ins)
    with assms(1) show ?thesis by (auto simp: queue_ok_def)
  qed
  with ok(2) show ?thesis by (auto simp: queue_ok_def)
qed

text \<open>The slow path, from the queue with the chunk in it.\<close>

lemma drain_and_process:
  assumes fok: "frags_ok chans fs" and n: "n \<le> length fs" "n < 2 ^ 31"
    and k: "rx_count base s \<le> n" and q: "queue_ok base fs n (rx_count base s) (received_queue (rx s))"
    and at: "chans_at chans s (take (rx_count base s) fs)"
    and drain: "drain_received (cumulative_tsn_ack (rx s) + 1) (received_queue (rx s)) = (out, q')"
  shows "\<exists>s'. eiter process_entry out (upd_rx (\<lambda>r. r\<lparr>received_queue := q'\<rparr>) s) = (Ok (), s')
    \<and> rx_inv chans base fs n s' \<and> (\<forall>j. rcvd base s j \<longrightarrow> rcvd base s' j) \<and> tview s' = tview s"
proof -
  let ?k = "rx_count base s" and ?s = "upd_rx (\<lambda>r. r\<lparr>received_queue := q'\<rparr>) s"
  have "cumulative_tsn_ack (rx s) + 1 = base + of_nat ?k" by (simp add: rx_cum [of s base])
  with drain have d: "drain_received (base + of_nat ?k) (received_queue (rx s)) = (out, q')" by simp
  obtain j where j: "?k + j \<le> n" "out = map (\<lambda>i. (oc_flags (fs ! i), fvalue (fs ! i) (base + of_nat i))) [?k..<?k + j]"
    "queue_ok base fs n (?k + j) q'" "base + of_nat (?k + j) \<notin> set (bt_keys q')"
    "set (bt_keys (received_queue (rx s))) \<subseteq> set (bt_keys q') \<union> (\<lambda>i. base + of_nat i) ` {?k..<?k + j}"
    using drain_spec [OF q n(2) k d] by blast
  have "chans_at chans ?s (take ?k fs)" using at by (simp add: chans_at_upd_rx)
  then obtain s' where run: "eiter process_entry out ?s = (Ok (), s')"
    and cum: "cumulative_tsn_ack (rx s') = cumulative_tsn_ack (rx s) + of_nat j"
    and rq: "received_queue (rx s') = q'" and at': "chans_at chans s' (take (?k + j) fs)" and tv: "tview s' = tview s"
    using process_run [OF fok, of ?k j ?s base] j(1,2) n(1) by auto
  have "rx_count base s' = ?k + j"
    using cum rx_cum [of s base] j(1) n(2) by (intro rx_count_of_cum) simp_all
  moreover have "rcvd base s' i" if "rcvd base s i" for i
  proof (cases "i < ?k + j")
    case False
    then have i: "i < 2 ^ 31" "base + of_nat i \<in> set (bt_keys (received_queue (rx s)))"
      using that by (auto simp: rcvd_def)
    moreover have "base + of_nat i \<notin> (\<lambda>i. base + of_nat i) ` {?k..<?k + j}"
      using False i(1) j(1) n(2) by (auto simp: of_nat_u32_inj)
    ultimately show ?thesis using j(5) rq by (auto simp: rcvd_def)
  qed (use calculation in \<open>simp add: rcvd_def\<close>)
  ultimately show ?thesis using run rq at' tv j(1,3,4) by (auto simp: rx_inv_def)
qed

text \<open>The three paths of \<open>handle_data\<close>.\<close>

lemmas run_simps = eget_def ethen_def ebind_def emod_def elift_def ret_def Let_def

lemma handle_data_old:
  assumes "t - cumulative_tsn_ack (rx s) = 0 \<or> 0x80000000 < t - cumulative_tsn_ack (rx s)"
  shows "\<exists>s'. handle_data flags (fvalue f t) s = (Ok (), s') \<and> rview s' = rview s \<and> tview s' = tview s"
proof -
  let ?s = "if length (dups_buffer (rx s)) < MAX_DUPS_BUFFER_SIZE then upd_rx (\<lambda>r. r\<lparr>dups_buffer := dups_buffer r @ [t]\<rparr>) s else s"
  have "handle_data flags (fvalue f t) s = (Ok (), schedule_sack_immediate ?s)"
    using assms by (auto simp: handle_data_def get_tsn run_simps)
  moreover have "rview (schedule_sack_immediate ?s) = rview s \<and> tview (schedule_sack_immediate ?s) = tview s"
    by (simp add: rview_upd_rx)
  ultimately show ?thesis by blast
qed

lemma handle_data_next:
  assumes "t = cumulative_tsn_ack (rx s) + 1" and "received_queue (rx s) = []" and "oc_ppid f \<noteq> DATA_CHANNEL_PPID_DCEP"
  shows "handle_data (oc_flags f) (fvalue f t) s
    = (Ok (), schedule_sack_delayed (upd_rx (\<lambda>r. r\<lparr>cumulative_tsn_ack := t\<rparr>) (rx_step f s)))"
  using assms by (simp add: handle_data_def get_tsn run_simps process_fragment)

lemma handle_data_slow:
  assumes "t - cumulative_tsn_ack (rx s) \<noteq> 0" and "\<not> 0x80000000 < t - cumulative_tsn_ack (rx s)"
    and "\<not> (t - cumulative_tsn_ack (rx s) = 1 \<and> received_queue (rx s) = [])"
    and "s1 = (if bt_get t (received_queue (rx s)) = None
       then upd_rx (\<lambda>r. r\<lparr>used_rwnd := used_rwnd r + length (fvalue f t),
              received_queue := bt_insert t (flags, fvalue f t) (received_queue r)\<rparr>) s else s)"
    and "drain_received (cumulative_tsn_ack (rx s1) + 1) (received_queue (rx s1)) = (out, q')"
    and "eiter process_entry out (upd_rx (\<lambda>r. r\<lparr>received_queue := q'\<rparr>) s1) = (Ok (), s')"
  shows "handle_data flags (fvalue f t) s = (Ok (), schedule_sack_immediate s')"
  using assms(1-3,5,6) unfolding assms(4)
  by (cases "bt_get t (received_queue (rx s)) = None") (auto simp: handle_data_def get_tsn run_simps)

lemma rx_inv_next:
  assumes fok: "frags_ok chans fs" and n: "n \<le> length fs" "n < 2 ^ 31" and inv: "rx_inv chans base fs n s"
    and k: "rx_count base s < n" and empty: "received_queue (rx s) = []"
  shows "rx_inv chans base fs n (upd_rx (\<lambda>r. r\<lparr>cumulative_tsn_ack := base + of_nat (rx_count base s)\<rparr>) (rx_step (fs ! rx_count base s) s))
    \<and> rx_count base (upd_rx (\<lambda>r. r\<lparr>cumulative_tsn_ack := base + of_nat (rx_count base s)\<rparr>) (rx_step (fs ! rx_count base s) s)) = Suc (rx_count base s)"
    (is "rx_inv _ _ _ _ ?s \<and> _")
proof -
  have count: "rx_count base ?s = Suc (rx_count base s)"
    using k n(2) by (intro rx_count_of_cum) simp_all
  moreover have "chans_at chans ?s (take (Suc (rx_count base s)) fs)"
    using deliver_next [OF fok, of "rx_count base s" s] inv k n(1) by (simp add: chans_at_upd_rx rx_inv_def)
  ultimately show ?thesis using k empty by (simp add: rx_inv_def queue_ok_def bt_ok_def bt_keys_def)
qed

lemma handle_data_step:
  assumes fok: "frags_ok chans fs" and n: "n \<le> length fs" "n < 2 ^ 31" and inv: "rx_inv chans base fs n s" and i: "i < n"
  shows "\<exists>s'. handle_data (oc_flags (fs ! i)) (fvalue (fs ! i) (base + of_nat i)) s = (Ok (), s')
    \<and> rx_inv chans base fs n s' \<and> rcvd base s' i \<and> (\<forall>j. rcvd base s j \<longrightarrow> rcvd base s' j) \<and> tview s' = tview s"
proof -
  let ?k = "rx_count base s" and ?t = "base + of_nat i :: u32" and ?f = "fs ! i"
  let ?d = "?t - cumulative_tsn_ack (rx s)" and ?q = "received_queue (rx s)"
  have parts: "?k \<le> n" "queue_ok base fs n ?k ?q" "chans_at chans s (take ?k fs)" using inv by (simp_all add: rx_inv_def)
  have ppid: "oc_ppid ?f \<noteq> DATA_CHANNEL_PPID_DCEP" using fok i n(1) by (simp add: frags_ok_def)
  consider (old) "i < ?k" | (nxt) "i = ?k" "?q = []" | (slow) "?k \<le> i" "i \<noteq> ?k \<or> ?q \<noteq> []" by fastforce
  then show ?thesis
  proof cases
    case old
    then have "?d = 0 \<or> 0x80000000 < ?d"
      using tsn_diff_old [of i ?k base] parts(1) n(2) by (simp add: rx_cum [of s base])
    from handle_data_old [OF this] obtain s' where run: "handle_data (oc_flags ?f) (fvalue ?f ?t) s = (Ok (), s')"
      and view: "rview s' = rview s" and tv: "tview s' = tview s" by blast
    moreover have "rcvd base s i" using old by (simp add: rcvd_def)
    ultimately show ?thesis using inv tv rx_inv_rview [OF view] by auto
  next
    case nxt
    then have t: "?t = cumulative_tsn_ack (rx s) + 1" by (simp add: rx_cum [of s base])
    let ?s = "upd_rx (\<lambda>r. r\<lparr>cumulative_tsn_ack := ?t\<rparr>) (rx_step ?f s)"
    have ok: "rx_inv chans base fs n ?s" "rx_count base ?s = Suc ?k"
      using rx_inv_next [OF fok n inv] nxt i by auto
    have view: "rview (schedule_sack_delayed ?s) = rview ?s" by simp
    have tv: "tview ?s = tview s" by (simp add: rx_step_def)
    have "rcvd base ?s i \<and> (\<forall>j. rcvd base s j \<longrightarrow> rcvd base ?s j)" using ok(2) nxt by (auto simp: rcvd_def bt_keys_def)
    with ok(1) show ?thesis
      unfolding handle_data_next [OF t nxt(2) ppid] using rx_inv_rview [OF view] tv by auto
  next
    case slow
    have d: "unat ?d = Suc i - ?k"
      using tsn_diff_new [OF slow(1), of base] i n(2) by (simp add: rx_cum [of s base])
    then have d1: "?d \<noteq> 0" "\<not> 0x80000000 < ?d" "\<not> (?d = 1 \<and> ?q = [])"
      using slow i n(2) by (auto simp: word_less_nat_alt)
    let ?s1 = "if bt_get ?t ?q = None
       then upd_rx (\<lambda>r. r\<lparr>used_rwnd := used_rwnd r + length (fvalue ?f ?t),
              received_queue := bt_insert ?t (oc_flags ?f, fvalue ?f ?t) (received_queue r)\<rparr>) s else s"
    have count: "rx_count base ?s1 = ?k" by (simp add: rx_count_def)
    have q1: "queue_ok base fs n ?k (received_queue (rx ?s1))"
      using queue_ok_insert [OF parts(2) slow(1) i] parts(2) by simp
    have keys: "insert ?t (set (bt_keys ?q)) \<subseteq> set (bt_keys (received_queue (rx ?s1)))"
      using parts(2) by (auto simp: queue_ok_def bt.keys_ins bt.get_keys)
    then have r1: "rcvd base ?s1 i" "\<forall>j. rcvd base s j \<longrightarrow> rcvd base ?s1 j"
      using count i n(2) by (auto simp: rcvd_def)
    obtain out q' where drain: "drain_received (cumulative_tsn_ack (rx ?s1) + 1) (received_queue (rx ?s1)) = (out, q')"
      by fastforce
    have "chans_at chans ?s1 (take ?k fs)" using parts(3) by (simp add: chans_at_upd_rx)
    then obtain s' where run: "eiter process_entry out (upd_rx (\<lambda>r. r\<lparr>received_queue := q'\<rparr>) ?s1) = (Ok (), s')"
      and inv': "rx_inv chans base fs n s'" and mono: "\<forall>j. rcvd base ?s1 j \<longrightarrow> rcvd base s' j"
      and tv: "tview s' = tview ?s1"
      using drain_and_process [OF fok n, of base ?s1 out q'] count q1 parts(1) drain by auto
    have "handle_data (oc_flags ?f) (fvalue ?f ?t) s = (Ok (), schedule_sack_immediate s')"
      by (rule handle_data_slow [OF d1 refl drain run])
    moreover have view: "rview (schedule_sack_immediate s') = rview s'" by simp
    moreover have "tview ?s1 = tview s" by simp
    ultimately show ?thesis using inv' mono r1 tv rx_inv_rview [OF view] by auto
  qed
qed

end
