(* ===== verification/Sctp_Sender.thy ===== *)
theory Sctp_Sender
  imports Sctp_Delivery
begin

text \<open>
  One endpoint of an association in the connected state, relative to what is known of its peer: the
  invariant \<open>end_inv\<close> of its sending half (what it keeps until the peer has it, and what the packets it has
  emitted carry) and of its receiving half (\<open>rx_inv\<close>), and that every step of the association task preserves
  it.
\<close>

section \<open>The chunks kept for retransmission\<close>

definition seg :: "u32 \<Rightarrow> outbound_chunk list \<Rightarrow> nat \<Rightarrow> bytes" where
  "seg base fs i = fwire (fs ! i) (base + of_nat i)"

definition core :: "(u32, chunk_record) btree \<Rightarrow> (u32 \<times> bytes \<times> bool) list" where
  "core q = map (\<lambda>(t, r). (t, payload r, acked r)) q"

text \<open>
  Of the \<open>n\<close> fragments that have a sequence number, each is at the peer (\<open>rc\<close>) or in the queue, not
  acknowledged and with its chunk.
\<close>

definition sent_ok :: "u32 \<Rightarrow> outbound_chunk list \<Rightarrow> nat \<Rightarrow> (nat \<Rightarrow> bool) \<Rightarrow> (u32, chunk_record) btree \<Rightarrow> bool" where
  "sent_ok base fs n rc q \<longleftrightarrow> bt_ok q
     \<and> (\<forall>(t, p, a) \<in> set (core q). \<exists>i < n. t = base + of_nat i \<and> (p = [] \<or> p = seg base fs i))
     \<and> (\<forall>i < n. rc i \<or> (base + of_nat i, seg base fs i, False) \<in> set (core q))"

lemma bt_ok_core: "core q = core q' \<Longrightarrow> bt_ok q \<longleftrightarrow> bt_ok q'"
proof -
  assume "core q = core q'"
  then have "map fst (core q) = map fst (core q')" by simp
  then show ?thesis by (simp add: core_def bt_ok_def bt_keys_def comp_def split_def)
qed

lemma sent_ok_core: "core q = core q' \<Longrightarrow> sent_ok base fs n rc q \<longleftrightarrow> sent_ok base fs n rc q'"
  using bt_ok_core [of q q'] by (simp add: sent_ok_def)

lemma sent_ok_mono: "sent_ok base fs n rc q \<Longrightarrow> (\<And>i. rc i \<Longrightarrow> rc' i) \<Longrightarrow> sent_ok base fs n rc' q"
  unfolding sent_ok_def by blast

lemma sent_ok_append:
  assumes "sent_ok base fs n rc q" and "n \<le> length fs"
  shows "sent_ok base (fs @ gs) n rc q"
proof -
  have "seg base (fs @ gs) i = seg base fs i" if "i < n" for i
    using that assms(2) by (simp add: seg_def nth_append)
  with assms(1) show ?thesis unfolding sent_ok_def by fastforce
qed

lemma core_map:
  "(\<And>t r. (t, r) \<in> set q \<Longrightarrow> payload (f t r) = payload r \<and> acked (f t r) = acked r) \<Longrightarrow>
     core (map (\<lambda>(t, r). (t, f t r)) q) = core q"
  by (auto simp: core_def)

lemma core_simps [simp]: "core [] = []" "core ((t, r) # q) = (t, payload r, acked r) # core q"
  by (simp_all add: core_def)

lemma core_retransmit:
  "core (fst (retransmit_phase now q)) = core q
   \<and> set (snd (snd (retransmit_phase now q))) \<subseteq> (\<lambda>(t, p, a). p) ` set (core q)"
  by (induction now q rule: retransmit_phase.induct) (auto simp: Let_def split: prod.splits)

lemma core_t3 [simp]: "core (t3_pass now m n q) = core q"
  by (induction now m n q rule: t3_pass.induct) (auto simp: Let_def)

lemma core_insert:
  assumes "bt_ok q" and "(t, r) \<in> set q" and "payload r' = payload r" and "acked r' = acked r"
  shows "core (bt_insert t r' q) = core q"
proof -
  have get: "bt_get t q = Some r" using assms(1,2) by (simp add: bt_get_in)
  have "r1 = r" if "(t, r1) \<in> set q" for r1
    using that assms(1) get bt_get_in [of q t r1] by simp
  then show ?thesis
    unfolding bt_insert_present [OF assms(1) get] using assms(3,4) by (intro core_map) auto
qed

lemma set_insert_fresh:
  assumes "bt_ok q" and "k \<notin> set (bt_keys q)"
  shows "set (bt_insert k v q) = insert (k, v) (set q)"
proof -
  have "(t, r) \<in> set (bt_insert k v q) \<longleftrightarrow> (t, r) \<in> insert (k, v) (set q)" for t r
  proof -
    have "(t, r) \<in> set (bt_insert k v q) \<longleftrightarrow> bt_get t (bt_insert k v q) = Some r"
      using bt_get_in [OF bt.ins_ok [OF assms(1)]] by simp
    moreover have "(t, r) \<in> set q \<longleftrightarrow> bt_get t q = Some r" using bt_get_in [OF assms(1)] by simp
    moreover have "(k, r) \<notin> set q" using assms(2) by (force simp: bt_keys_def)
    ultimately show ?thesis using assms(1) by (auto simp: bt.get_ins)
  qed
  then show ?thesis by auto
qed

lemma sent_ok_send:
  assumes "sent_ok base fs n rc q" and "n < 2 ^ 31" and "payload r = seg base fs n" and "\<not> acked r"
  shows "sent_ok base fs (Suc n) rc (bt_insert (base + of_nat n) r q)"
proof -
  have ok: "bt_ok q" using assms(1) by (simp add: sent_ok_def)
  have keys: "\<exists>i < n. t = base + of_nat i" if "t \<in> set (bt_keys q)" for t
  proof -
    obtain r where "(t, r) \<in> set q" using \<open>t \<in> set (bt_keys q)\<close> by (auto simp: bt_keys_def)
    then have "(t, payload r, acked r) \<in> set (core q)" by (force simp: core_def)
    with assms(1) show ?thesis unfolding sent_ok_def by fast
  qed
  have fresh: "base + of_nat n \<notin> set (bt_keys q)"
  proof
    assume "base + of_nat n \<in> set (bt_keys q)"
    then obtain i where "i < n" "base + of_nat n = base + of_nat i" using keys by blast
    then show False using of_nat_u32_inj [of n i] assms(2) by simp
  qed
  then have "set (core (bt_insert (base + of_nat n) r q)) = insert (base + of_nat n, seg base fs n, False) (set (core q))"
    using set_insert_fresh [OF ok, of "base + of_nat n" r] assms(3,4) by (simp add: core_def)
  then show ?thesis
    using assms(1) bt.ins_ok [OF ok] unfolding sent_ok_def less_Suc_eq by auto
qed

lemma send_batch_ok:
  assumes "sent_ok base fs n rc (sent_queue t)" and "next_tsn t = base + of_nat n" and "drop n fs = batch @ rest"
    and "length fs < 2 ^ 31" and "n \<le> length fs" and "send_batch now batch t = (cs, t')"
  shows "sent_ok base fs (n + length batch) rc (sent_queue t') \<and> next_tsn t' = base + of_nat (n + length batch)
    \<and> outbound_queue t' = outbound_queue t \<and> has_pr_sctp t' = has_pr_sctp t
    \<and> set cs \<subseteq> seg base fs ` {..<n + length batch} \<and> n + length batch \<le> length fs"
  using assms
proof (induction batch arbitrary: n t cs)
  case (Cons c batch)
  let ?r = "new_record now c (next_tsn t)"
  let ?t = "t\<lparr>next_tsn := next_tsn t + 1, sent_queue := bt_insert (next_tsn t) ?r (sent_queue t),
                flight_size := flight_size t + length (payload ?r)\<rparr>"
  obtain cs1 where step: "send_batch now batch ?t = (cs1, t')" and cs: "cs = payload ?r # cs1"
    using Cons.prems(6) by (auto simp: Let_def split: prod.splits)
  have n: "n < length fs" using Cons.prems(3,5) by (metis append_Cons drop_eq_Nil leI list.distinct(1))
  then have c: "fs ! n = c" and rest: "drop (Suc n) fs = batch @ rest"
    using Cons.prems(3) by (simp_all add: Cons_nth_drop_Suc [symmetric])
  have pay: "payload ?r = seg base fs n"
    using c Cons.prems(2) by (simp add: new_record_def seg_def fwire_def fvalue_def create_data_chunk_def)
  have "sent_ok base fs (Suc n) rc (sent_queue ?t)"
    using sent_ok_send [OF Cons.prems(1) _ pay] n Cons.prems(2,4) by (simp add: new_record_def)
  moreover have "next_tsn ?t = base + of_nat (Suc n)" using Cons.prems(2) by simp
  ultimately have ih: "sent_ok base fs (Suc n + length batch) rc (sent_queue t')"
    "next_tsn t' = base + of_nat (Suc n + length batch)" "outbound_queue t' = outbound_queue t"
    "has_pr_sctp t' = has_pr_sctp t" "set cs1 \<subseteq> seg base fs ` {..<Suc n + length batch}" "Suc n + length batch \<le> length fs"
    using Cons.IH [of "Suc n" ?t cs1] rest Cons.prems(4) n step by simp_all
  with cs pay show ?case by auto
qed auto

section \<open>A SACK of the peer\<close>

definition sack_ok :: "u32 \<Rightarrow> (nat \<Rightarrow> bool) \<Rightarrow> u32 \<Rightarrow> (u16 \<times> u16) list \<Rightarrow> bool" where
  "sack_ok base rc cum blocks \<longleftrightarrow> (\<exists>k. cum = base + of_nat k - 1 \<and> (\<forall>i < k. rc i))
     \<and> blocks_ok cum {base + of_nat i |i. i < 2 ^ 31 \<and> rc i} blocks"

lemma blocks_ok_mono: "blocks_ok cum K blocks \<Longrightarrow> K \<subseteq> K' \<Longrightarrow> blocks_ok cum K' blocks"
  unfolding blocks_ok_def by blast

lemma sack_ok_mono:
  assumes "sack_ok base rc cum blocks" and "\<And>i. rc i \<Longrightarrow> rc' i"
  shows "sack_ok base rc' cum blocks"
proof -
  have "{base + of_nat i |i. i < 2 ^ 31 \<and> rc i} \<subseteq> {base + of_nat i |i. i < 2 ^ 31 \<and> rc' i}" using assms(2) by blast
  with assms blocks_ok_mono show ?thesis unfolding sack_ok_def by blast
qed

lemma not_after_cum:
  assumes "Suc i < 2 ^ 31" and "\<not> tsn_gt (base + of_nat i) (base + of_nat k - 1)"
  shows "i < k"
proof (rule ccontr)
  assume "\<not> i < k"
  then have "ahead (base + of_nat i) (base + of_nat k - 1) = Suc i - k"
    using tsn_diff_new [of k i base] assms(1) by (simp add: ahead_def)
  with assms \<open>\<not> i < k\<close> show False by (simp add: tsn.gt_ahead)
qed

lemma marked_same [simp]: "payload (marked now c m hi t r) = payload r" "acked (marked now c m hi t r) = acked r"
  by (simp_all add: marked_def mark_missing_def Let_def)

lemma in_core_map:
  "(t, p, a) \<in> set (core (map (\<lambda>(t, r). (t, f t r)) q)) \<longleftrightarrow> (\<exists>r. (t, r) \<in> set q \<and> p = payload (f t r) \<and> a = acked (f t r))"
  by (force simp: core_def)

lemma sent_ok_sack:
  assumes ok: "sent_ok base fs n rc q" and n: "n < 2 ^ 31" and sack: "sack_ok base rc cum blocks"
  shows "sent_ok base fs n rc (fst (apply_sack_to_sent_queue q cum blocks now c m))"
proof (cases "late_sack q cum blocks")
  case True
  with ok show ?thesis by (simp add: apply_sack_to_sent_queue_def)
next
  case False
  let ?f = "\<lambda>t r. marked now c m (highest_reported cum blocks) t (if reported cum blocks t then gap_acked r else r)"
  let ?q = "map (\<lambda>(t, r). (t, ?f t r)) (filter (\<lambda>(t, _). tsn_gt t cum) q)"
  have bt: "bt_ok q" using ok by (simp add: sent_ok_def)
  have eq: "fst (apply_sack_to_sent_queue q cum blocks now c m) = ?q" using apply_sack_queue [OF bt] False by simp
  obtain k where k: "cum = base + of_nat k - 1" "\<forall>i < k. rc i" using sack by (auto simp: sack_ok_def)
  have rep: "rc i" if "reported cum blocks (base + of_nat i)" and "i < n" for i
  proof -
    have "base + of_nat i \<in> {base + of_nat i |i. i < 2 ^ 31 \<and> rc i}"
      using blocks_ok_reported that(1) sack unfolding sack_ok_def by blast
    then obtain j where "(of_nat i :: u32) = of_nat j" "j < 2 ^ 31" "rc j" by auto
    with that(2) n show ?thesis using of_nat_u32_inj [of i j] by simp
  qed
  have "bt_ok ?q" using bt by (simp add: bt_ok_map bt_ok_filter)
  moreover have "\<exists>i < n. t = base + of_nat i \<and> (p = [] \<or> p = seg base fs i)" if mem: "(t, p, a) \<in> set (core ?q)" for t p a
  proof -
    obtain r where r: "(t, r) \<in> set q" "p = payload (?f t r)"
      using mem unfolding in_core_map by auto
    then have "(t, payload r, acked r) \<in> set (core q)" by (force simp: core_def)
    then obtain i where "i < n" "t = base + of_nat i" "payload r = [] \<or> payload r = seg base fs i"
      using ok by (fastforce simp: sent_ok_def)
    with r(2) show ?thesis by (auto simp: gap_acked_def)
  qed
  moreover have "rc i \<or> (base + of_nat i, seg base fs i, False) \<in> set (core ?q)" if i: "i < n" for i
  proof (cases "rc i")
    case no: False
    then obtain r where r: "(base + of_nat i, r) \<in> set q" "payload r = seg base fs i" "\<not> acked r"
      using ok i by (fastforce simp: sent_ok_def core_def)
    have "tsn_gt (base + of_nat i) cum" using not_after_cum [of i base k] k no i n by auto
    moreover have "\<not> reported cum blocks (base + of_nat i)" using rep i no by blast
    ultimately have "(base + of_nat i, payload (?f (base + of_nat i) r), acked (?f (base + of_nat i) r)) \<in> set (core ?q)"
      using r(1) by (force simp: core_def)
    then show ?thesis using r \<open>\<not> reported cum blocks (base + of_nat i)\<close> by simp
  qed simp
  ultimately show ?thesis unfolding eq sent_ok_def by blast
qed

section \<open>An endpoint and what it knows of its peer\<close>

text \<open>
  The first sequence number and the fragments of both directions, the fragments of this endpoint that
  the peer has (\<open>peer_has\<close>), the number of fragments that the peer has numbered, and the channels that are
  open for receiving, with their ordering.
\<close>

record side =
  my_base :: u32
  my_frags :: "outbound_chunk list"
  peer_has :: "nat \<Rightarrow> bool"
  my_chans :: "u16 \<Rightarrow> bool option"
  peer_base :: u32
  peer_frags :: "outbound_chunk list"
  peer_sent :: nat

definition side_ok :: "side \<Rightarrow> bool" where
  "side_ok P \<longleftrightarrow> length (my_frags P) < 2 ^ 31 \<and> peer_sent P \<le> length (peer_frags P) \<and> peer_sent P < 2 ^ 31
     \<and> frags_ok (my_chans P) (peer_frags P)"

text \<open>The chunks an endpoint may emit: fragments it has numbered, sound SACKs, heartbeats.\<close>

definition chunk_set :: "u32 \<Rightarrow> outbound_chunk list \<Rightarrow> nat \<Rightarrow> u32 \<Rightarrow> (nat \<Rightarrow> bool) \<Rightarrow> bytes set" where
  "chunk_set base fs n base' has = {[]} \<union> seg base fs ` {..<n}
     \<union> {wire_chunk CT_SACK 0 (sack_value cum w blocks dups) |cum w blocks dups.
          sack_ok base' has cum blocks \<and> length blocks \<le> 16 \<and> length dups \<le> 32}
     \<union> {wire_chunk t 0 v |t v. (t = CT_HEARTBEAT \<or> t = CT_HEARTBEAT_ACK) \<and> length v = 8}"

definition packet_of :: "bytes set \<Rightarrow> bytes \<Rightarrow> bool" where
  "packet_of C p \<longleftrightarrow> (\<exists>sp dp tag cs. p = build_packet sp dp tag cs \<and> set cs \<subseteq> C)"

definition tx_count :: "u32 \<Rightarrow> sctp \<Rightarrow> nat" where
  "tx_count base s = unat (next_tsn (tx s) - base)"

definition emits :: "side \<Rightarrow> sctp \<Rightarrow> bytes set" where
  "emits P s = chunk_set (my_base P) (my_frags P) (tx_count (my_base P) s) (peer_base P) (rcvd (peer_base P) s)"

definition tx_inv :: "side \<Rightarrow> sctp \<Rightarrow> bool" where
  "tx_inv P s \<longleftrightarrow> (let n = tx_count (my_base P) s in
     n \<le> length (my_frags P) \<and> outbound_queue (tx s) = drop n (my_frags P)
     \<and> sent_ok (my_base P) (my_frags P) n (peer_has P) (sent_queue (tx s))
     \<and> \<not> has_pr_sctp (tx s) \<and> t1_sent_time (tm s) = None \<and> (\<forall>p \<in> set (outgoing s). packet_of (emits P s) p))"

definition end_inv :: "side \<Rightarrow> sctp \<Rightarrow> bool" where
  "end_inv P s \<longleftrightarrow> side_ok P \<and> tx_inv P s \<and> rx_inv (my_chans P) (peer_base P) (peer_frags P) (peer_sent P) s"

definition tchans :: "sctp \<Rightarrow> u16 \<Rightarrow> (bool \<times> u16 option \<times> u16 option \<times> nat \<times> u16) option" where
  "tchans s = (\<lambda>c. map_option dc_tview (dc_find c (data_channels s)))"

text \<open>The invariant, and what has only grown since the state \<open>s0\<close>.\<close>

definition progress :: "side \<Rightarrow> sctp \<Rightarrow> sctp \<Rightarrow> bool" where
  "progress P s0 s \<longleftrightarrow> end_inv P s \<and> tx_count (my_base P) s0 \<le> tx_count (my_base P) s
     \<and> (\<forall>i. rcvd (peer_base P) s0 i \<longrightarrow> rcvd (peer_base P) s i) \<and> tchans s = tchans s0"

lemma progress_refl: "end_inv P s \<Longrightarrow> progress P s s"
  by (simp add: progress_def)

lemma progress_trans: "progress P s t \<Longrightarrow> progress P t u \<Longrightarrow> progress P s u"
  unfolding progress_def by auto

section \<open>Steps that leave both halves as they are\<close>

definition tcore where
  "tcore t = (next_tsn t, outbound_queue t, core (sent_queue t), has_pr_sctp t)"

definition sview where
  "sview s = (tcore (tx s), t1_sent_time (tm s), outgoing s, tchans s)"

interpretation calm: state_order "\<lambda>s s'. sview s' = sview s \<and> rview s' = rview s"
  by unfold_locales simp_all

lemma calm_views:
  assumes "sview s' = sview s" and "rview s' = rview s"
  shows "tx_count base s' = tx_count base s" "rcvd base s' = rcvd base s" "emits P s' = emits P s"
    "tx_inv P s' \<longleftrightarrow> tx_inv P s" "end_inv P s' \<longleftrightarrow> end_inv P s" "progress P s0 s' \<longleftrightarrow> progress P s0 s"
proof -
  have v: "next_tsn (tx s') = next_tsn (tx s)" "outbound_queue (tx s') = outbound_queue (tx s)"
    "core (sent_queue (tx s')) = core (sent_queue (tx s))" "has_pr_sctp (tx s') = has_pr_sctp (tx s)"
    "t1_sent_time (tm s') = t1_sent_time (tm s)" "outgoing s' = outgoing s" "tchans s' = tchans s"
    using assms(1) by (simp_all add: sview_def tcore_def)
  show n: "tx_count base s' = tx_count base s" for base by (simp add: tx_count_def v)
  show r: "rcvd base s' = rcvd base s" for base using rx_inv_rview(2) [OF assms(2)] .
  show e: "emits P s' = emits P s" by (simp add: emits_def n r)
  show t: "tx_inv P s' \<longleftrightarrow> tx_inv P s" by (simp add: tx_inv_def n e v sent_ok_core [OF v(3)])
  show i: "end_inv P s' \<longleftrightarrow> end_inv P s" by (simp add: end_inv_def t rx_inv_rview(1) [OF assms(2)])
  show "progress P s0 s' \<longleftrightarrow> progress P s0 s" by (simp add: progress_def i n r v)
qed

lemma wp_calm:
  "calm.keeps m \<Longrightarrow> progress P s0 s \<Longrightarrow> wp m (\<lambda>_. progress P s0) (\<lambda>_. progress P s0) s"
  by (rule calm.wp_keeps) (blast dest: calm_views(6))+

lemma tchans_upd_dc:
  "(\<And>dc. dc_id (f dc) = dc_id dc) \<Longrightarrow> (\<And>dc. dc_tview (f dc) = dc_tview dc) \<Longrightarrow> tchans (upd_dc i f s) = tchans s"
  using tview_upd_dc [of f i s] by (simp add: tview_def tchans_def)

lemma tchans_upd [simp]:
  "tchans (upd_rx f s) = tchans s" "tchans (upd_tx g s) = tchans s" "tchans (upd_cc h s) = tchans s"
  "tchans (upd_tm k s) = tchans s" "tchans (upd_stats l s) = tchans s" "tchans (s\<lparr>outgoing := p\<rparr>) = tchans s"
  "tchans (s\<lparr>rng_pos := q\<rparr>) = tchans s" "tchans (s\<lparr>assoc_state := a\<rparr>) = tchans s"
  "tchans (s\<lparr>close_reason := r\<rparr>) = tchans s" "tchans (s\<lparr>sctp_now := t\<rparr>) = tchans s"
  by (simp_all add: tchans_def upd_defs)

lemma sview_upd [simp]:
  "sview (upd_rx f s) = sview s" "sview (upd_cc h s) = sview s" "sview (upd_stats l s) = sview s"
  "sview (s\<lparr>rng_pos := q\<rparr>) = sview s" "sview (s\<lparr>assoc_state := a\<rparr>) = sview s"
  "sview (s\<lparr>close_reason := r\<rparr>) = sview s" "sview (s\<lparr>sctp_now := t\<rparr>) = sview s"
  by (simp_all add: sview_def) (simp_all add: upd_defs)

lemma sview_upd_tm: "(\<And>t. t1_sent_time (k t) = t1_sent_time t) \<Longrightarrow> sview (upd_tm k s) = sview s"
  by (simp add: sview_def) (simp add: upd_defs)

lemma sview_upd_tx: "tcore (g (tx s)) = tcore (tx s) \<Longrightarrow> sview (upd_tx g s) = sview s"
  by (simp add: sview_def) (simp add: upd_defs)

lemma sview_upd_dc:
  "(\<And>dc. dc_id (f dc) = dc_id dc) \<Longrightarrow> (\<And>dc. dc_tview (f dc) = dc_tview dc) \<Longrightarrow> sview (upd_dc i f s) = sview s"
  by (simp add: sview_def tchans_upd_dc) (simp add: upd_dc_def)

lemma sview_simple [simp]:
  "sview (notify_timer s) = sview s" "sview (note_send_or_ack s) = sview s"
  "sview (set_state st s) = sview s" "sview (close_with reason s) = sview s"
  "sview (schedule_sack_immediate s) = sview s" "sview (schedule_sack_delayed s) = sview s"
  "sview (flush_expired_sack_delay s) = sview s"
  by (simp_all add: notify_timer_def note_send_or_ack_def set_state_def close_with_def schedule_sack_immediate_def
      schedule_sack_delayed_def flush_expired_sack_delay_def sview_upd_tm sview_upd_tx tcore_def split: option.split)

lemma sview_publish [simp]: "sview (publish_stream_buffered i n s) = sview s"
  unfolding publish_stream_buffered_def by (rule sview_upd_dc) (simp_all add: dc_tview_def)

lemma sview_account [simp]: "sview (account_stream_acked i n s) = sview s"
  by (simp add: account_stream_acked_def Let_def sview_upd_tx tcore_def split: option.split)

lemma sview_accounts [simp]: "sview (sack_accounts outcome s) = sview s"
proof -
  have "sview (fold (\<lambda>(sid, len) s. if 0 < len then account_stream_acked sid len s else s) xs s) = sview s" for xs
    by (induction xs arbitrary: s) (auto split: prod.splits)
  then show ?thesis by (simp add: sack_accounts_def)
qed

lemma sview_sack [simp]:
  "sview (sack_activity gap_blocks outcome s) = sview s" "sview (sack_fast_recovery cum outcome s) = sview s"
  "sview (grow_by cwnd n s) = sview s"
  by (simp_all add: sack_activity_def sack_fast_recovery_def grow_by_def Let_def sview_upd_tm sview_upd_tx tcore_def)

lemma sview_congestion [simp]: "sview (sack_congestion cum outcome s) = sview s"
  by (simp add: sack_congestion_def Let_def sview_upd_tx tcore_def)

lemma sview_timers [simp]: "sview (handle_timeout s) = sview s" "sview (snd (heartbeat_failure s)) = sview s"
  by (simp_all add: handle_timeout_def heartbeat_failure_def Let_def sview_upd_tm sview_upd_tx tcore_def)

lemma sview_probe:
  assumes "bt_ok (sent_queue (tx s))"
  shows "sview (maybe_send_tlp_probe s) = sview s"
proof (cases "find (\<lambda>(_, r). \<not> acked r \<and> \<not> abandoned r) (rev (sent_queue (tx s)))")
  case (Some e)
  obtain t r where e: "e = (t, r)" by fastforce
  then have "(t, r) \<in> set (rev (sent_queue (tx s)))" using Some unfolding find_Some_iff by (metis nth_mem)
  then have "(t, r) \<in> set (sent_queue (tx s))" by simp
  then show ?thesis
    using Some e core_insert [OF assms]
    by (simp add: maybe_send_tlp_probe_def Let_def sview_upd_tx tcore_def)
qed (simp add: maybe_send_tlp_probe_def)

named_theorems calm_keeps "operations that leave both halves as they are"

lemma calm_basic [calm_keeps]:
  "calm.keeps random_u32" "calm.keeps (update_rto x)" "calm.keeps (sack_rto_reset outcome)" "calm.keeps transmit_sack"
  unfolding random_u32_def update_rto_def sack_rto_reset_def transmit_sack_def create_sack_chunk_def
  by (intro calm.keeps_intros; simp add: sview_upd_tm rview_upd_rx)+

lemma calm_heartbeat_ack [calm_keeps]: "calm.keeps handle_heartbeat_ack"
  unfolding handle_heartbeat_ack_def by (intro calm.keeps_intros calm_keeps; simp add: sview_upd_tm)

section \<open>Transmission\<close>

lemma take_batch_append: "take_batch budget slots q = (batch, rest) \<Longrightarrow> batch @ rest = q"
  by (induction budget slots q arbitrary: batch rule: take_batch.induct) (auto simp: Let_def split: if_splits prod.splits)

lemma push_block_length: "length blocks < 16 \<Longrightarrow> length (push_block cum a b blocks) \<le> 16"
  by (simp add: push_block_def Let_def)

lemma gap_loop_length: "length blocks < 16 \<Longrightarrow> length (snd (gap_loop cum tsns current blocks)) \<le> 16"
proof (induction cum tsns current blocks rule: gap_loop.induct)
  case (2 cum tsn tsns current blocks)
  obtain c b where step: "(case current of
             Some (start, end_tsn) \<Rightarrow>
               if tsn = end_tsn + 1 then (Some (start, tsn), blocks)
               else (Some (tsn, tsn), push_block cum start end_tsn blocks)
           | None \<Rightarrow> (Some (tsn, tsn), blocks)) = (c, b)" by fastforce
  have "length b \<le> 16"
    using step "2.prems" by (auto split: option.splits if_splits prod.splits intro: push_block_length)
  then show ?case
    using "2.IH" "2.prems" step by (auto simp: Let_def not_le)
qed simp

lemma gap_blocks_length: "length (build_gap_ack_blocks_from_map received cum) \<le> 16"
proof -
  obtain c b where loop: "gap_loop cum (bt_keys received) None [] = (c, b)" by fastforce
  then have "length b \<le> 16" using gap_loop_length [of "[]" cum "bt_keys received" None] by simp
  then show ?thesis
    by (auto simp: build_gap_ack_blocks_from_map_def loop split: option.splits intro: push_block_length)
qed

lemma own_sack_ok:
  assumes "rx_inv chans base gs m s" and "m < 2 ^ 31"
  shows "sack_ok base (rcvd base s) (cumulative_tsn_ack (rx s))
    (build_gap_ack_blocks_from_map (received_queue (rx s)) (cumulative_tsn_ack (rx s)))"
proof -
  have "set (bt_keys (received_queue (rx s))) \<subseteq> {base + of_nat i |i. i < 2 ^ 31 \<and> rcvd base s i}"
  proof
    fix t
    assume key: "t \<in> set (bt_keys (received_queue (rx s)))"
    then obtain e where "(t, e) \<in> set (received_queue (rx s))" by (auto simp: bt_keys_def)
    then obtain i where "i < m" "t = base + of_nat i" using assms(1) by (fastforce simp: rx_inv_def queue_ok_def)
    with key assms(2) show "t \<in> {base + of_nat i |i. i < 2 ^ 31 \<and> rcvd base s i}" by (auto simp: rcvd_def)
  qed
  moreover have "cumulative_tsn_ack (rx s) = base + of_nat (rx_count base s) - 1" by (rule rx_cum)
  moreover have "\<forall>i < rx_count base s. rcvd base s i" by (simp add: rcvd_def)
  ultimately show ?thesis using gap_blocks_sound blocks_ok_mono unfolding sack_ok_def by blast
qed

lemma chunk_set_sack:
  "sack_ok base' has cum blocks \<Longrightarrow> length blocks \<le> 16 \<Longrightarrow> length dups \<le> 32 \<Longrightarrow>
     wire_chunk CT_SACK 0 (sack_value cum w blocks dups) \<in> chunk_set base fs n base' has"
  unfolding chunk_set_def by blast

lemma chunk_set_data: "p = [] \<or> p \<in> seg base fs ` {..<n} \<Longrightarrow> p \<in> chunk_set base fs n base' has"
  unfolding chunk_set_def by blast

lemma wp_transmit_sack:
  assumes "progress P s0 s"
  shows "wp transmit_sack (\<lambda>cs s'. progress P s0 s' \<and> set cs \<subseteq> emits P s') (\<lambda>_. progress P s0) s"
proof -
  have "wp transmit_sack (\<lambda>cs s'. set cs \<subseteq> emits P s) (\<lambda>_ _. True) s"
  proof -
    have "sack_ok (peer_base P) (rcvd (peer_base P) s) (cumulative_tsn_ack (rx s))
      (build_gap_ack_blocks_from_map (received_queue (rx s)) (cumulative_tsn_ack (rx s)))"
      using own_sack_ok assms by (fastforce simp: progress_def end_inv_def side_ok_def)
    then have "wire_chunk CT_SACK 0 (sack_value (cumulative_tsn_ack (rx s)) w
        (build_gap_ack_blocks_from_map (received_queue (rx s)) (cumulative_tsn_ack (rx s))) (take 32 d)) \<in> emits P s" for w d
      unfolding emits_def by (intro chunk_set_sack gap_blocks_length) simp_all
    then show ?thesis by (simp add: transmit_sack_def create_sack_chunk_def wp_simps Let_def)
  qed
  moreover have "wp transmit_sack (\<lambda>_ s'. progress P s0 s' \<and> emits P s' = emits P s) (\<lambda>_ s'. progress P s0 s') s"
    by (rule calm.wp_keeps [OF calm_basic(4)]) (use assms in \<open>blast dest: calm_views(3,6)\<close>)+
  ultimately show ?thesis by (rule wp_mono [OF wp_conj]) auto
qed

lemma wp_retransmissions:
  assumes "progress P s0 s" and "C \<subseteq> emits P s"
  shows "wp transmit_retransmissions (\<lambda>cs s'. progress P s0 s' \<and> C \<union> set cs \<subseteq> emits P s') (\<lambda>_. progress P s0) s"
proof -
  obtain q added cs where ph: "retransmit_phase (sctp_now s) (sent_queue (tx s)) = (q, added, cs)" by (metis prod_cases3)
  let ?s1 = "upd_tx (\<lambda>t. t\<lparr>sent_queue := q, flight_size := flight_size t + added\<rparr>) s"
  let ?s2 = "if cs \<noteq> [] then upd_cc (\<lambda>c. c\<lparr>fast_recovery_transmit := False\<rparr>) ?s1 else ?s1"
  have core: "core q = core (sent_queue (tx s))" "set cs \<subseteq> (\<lambda>(t, p, a). p) ` set (core (sent_queue (tx s)))"
    using core_retransmit [of "sctp_now s" "sent_queue (tx s)"] ph by simp_all
  then have v: "sview ?s2 = sview s" "rview ?s2 = rview s" by (simp_all add: sview_upd_tx tcore_def)
  have "p = [] \<or> p \<in> seg (my_base P) (my_frags P) ` {..<tx_count (my_base P) s}"
    if "(t, p, a) \<in> set (core (sent_queue (tx s)))" for t p a
    using that assms(1) unfolding progress_def end_inv_def tx_inv_def Let_def sent_ok_def by blast
  then have "(\<lambda>(t, p, a). p) ` set (core (sent_queue (tx s))) \<subseteq> emits P s"
    unfolding emits_def using chunk_set_data by fastforce
  then have "set cs \<subseteq> emits P s" using core(2) by blast
  then have "progress P s0 ?s2 \<and> C \<union> set cs \<subseteq> emits P ?s2" using assms calm_views(3,6) [OF v] by simp
  then show ?thesis by (simp add: transmit_retransmissions_def wp_simps ph)
qed

lemma chunk_set_mono:
  assumes "n \<le> n'" and "\<And>i. has i \<Longrightarrow> has' i"
  shows "chunk_set base fs n base' has \<subseteq> chunk_set base fs n' base' has'"
  using assms sack_ok_mono [of base' has _ _ has'] unfolding chunk_set_def by fastforce

lemma packet_of_mono: "packet_of C p \<Longrightarrow> C \<subseteq> C' \<Longrightarrow> packet_of C' p"
  unfolding packet_of_def by blast

lemma wp_new_data:
  assumes inv: "progress P s0 s" and C: "C \<subseteq> emits P s"
  shows "wp (transmit_new_data w) (\<lambda>cs s'. progress P s0 s' \<and> C \<union> set cs \<subseteq> emits P s') (\<lambda>_. progress P s0) s"
proof -
  let ?n = "tx_count (my_base P) s" and ?fs = "my_frags P" and ?base = "my_base P"
  obtain batch rest where b: "take_batch (w - flight_size (tx s)) 1000 (outbound_queue (tx s)) = (batch, rest)" by fastforce
  let ?t = "(tx s)\<lparr>outbound_queue := rest, window_limited := (rest \<noteq> [] \<or> 1000 \<le> length batch),
               queued_bytes := queued_bytes (tx s) - sum_list (map (\<lambda>c. length (oc_payload c)) batch)\<rparr>"
  obtain cs t where sent: "send_batch (sctp_now s) batch ?t = (cs, t)" by fastforce
  have n: "?n \<le> length ?fs" "length ?fs < 2 ^ 31" "outbound_queue (tx s) = drop ?n ?fs"
    "sent_ok ?base ?fs ?n (peer_has P) (sent_queue (tx s))" "\<not> has_pr_sctp (tx s)"
    using inv by (auto simp: progress_def end_inv_def tx_inv_def side_ok_def Let_def)
  have next_n: "next_tsn (tx s) = ?base + of_nat ?n" by (simp add: tx_count_def)
  have split: "drop ?n ?fs = batch @ rest" using take_batch_append [OF b] n(3) by simp
  let ?m = "?n + length batch" and ?s = "upd_tx (\<lambda>_. t) s"
  have t: "sent_ok ?base ?fs ?m (peer_has P) (sent_queue t)" "next_tsn t = ?base + of_nat ?m" "outbound_queue t = rest"
    "\<not> has_pr_sctp t" "set cs \<subseteq> seg ?base ?fs ` {..<?m}" "?m \<le> length ?fs"
    using send_batch_ok [of ?base ?fs ?n "peer_has P" ?t batch rest, OF _ _ split n(2,1) sent] n next_n by simp_all
  have "next_tsn (tx ?s) - ?base = of_nat ?m" unfolding upd_tx_def using t(2) by simp
  moreover have "?m < 2 ^ 32" using t(6) n(2) by simp
  ultimately have m: "tx_count ?base ?s = ?m"
    using unat_of_nat_u32 [of ?m] by (simp add: tx_count_def [of ?base ?s] del: of_nat_add)
  have r: "rcvd (peer_base P) ?s = rcvd (peer_base P) s" by (rule rx_inv_rview(2)) simp
  have grow: "emits P s \<subseteq> emits P ?s" unfolding emits_def m r by (rule chunk_set_mono) simp_all
  have cs: "set cs \<subseteq> emits P ?s" using t(5) unfolding emits_def m chunk_set_def by blast
  have "drop ?m ?fs = rest" using split by (metis append_eq_conv_conj drop_drop add.commute)
  then have "tx_inv P ?s"
    using inv t m packet_of_mono [OF _ grow]
    by (auto simp: tx_inv_def progress_def end_inv_def Let_def) (simp_all add: upd_tx_def)
  moreover have "rx_inv (my_chans P) (peer_base P) (peer_frags P) (peer_sent P) ?s"
    using inv rx_inv_rview(1) [of ?s s] by (simp add: progress_def end_inv_def)
  ultimately have p: "progress P s0 ?s" using inv m r by (auto simp: progress_def end_inv_def)
  have v: "sview (note_send_or_ack ?s) = sview ?s" "rview (note_send_or_ack ?s) = rview ?s" by simp_all
  show ?thesis
    unfolding transmit_new_data_def wp_eget b prod.case sent wp_simps
    using p C grow cs calm_views(3,6) [OF v] by auto
qed

lemma progress_out:
  assumes "progress P s0 s" and "C \<subseteq> emits P s" and "out_of C s s'"
  shows "progress P s0 s'"
proof -
  have same: "tx s' = tx s" "rx s' = rx s" "tm s' = tm s" "data_channels s' = data_channels s"
    using assms(3) by (simp_all add: out_of_def)
  then have v: "rview s' = rview s" "tchans s' = tchans s" "tx_count base s' = tx_count base s" for base
    by (simp_all add: rview_def tchans_def tx_count_def)
  then have r: "rcvd base s' = rcvd base s" "rx_inv chans base fs n s' = rx_inv chans base fs n s" for base chans fs n
    using rx_inv_rview by blast+
  then have e: "emits P s' = emits P s" by (simp add: emits_def v)
  obtain ps where ps: "outgoing s' = outgoing s @ ps" "\<forall>p \<in> set ps. packet_of C p"
    using assms(3) by (auto simp: out_of_def packet_of_def)
  then have "\<forall>p \<in> set (outgoing s'). packet_of (emits P s') p"
    using assms(1,2) packet_of_mono unfolding e by (auto simp: progress_def end_inv_def tx_inv_def Let_def)
  with assms(1) show ?thesis by (simp add: progress_def end_inv_def tx_inv_def Let_def same v r)
qed

lemma wp_out:
  "progress P s0 s \<Longrightarrow> C \<subseteq> emits P s \<Longrightarrow> out.keeps C m \<Longrightarrow> wp m (\<lambda>_. progress P s0) (\<lambda>_. progress P s0) s"
  by (rule out.wp_keeps) (auto intro: progress_out)

lemma wp_transmit:
  assumes "progress P s0 s"
  shows "wp transmit (\<lambda>_. progress P s0) (\<lambda>_. progress P s0) s"
proof -
  let ?ok = "\<lambda>_. progress P s0"
  have out: "wp (if cs \<noteq> [] then transmit_chunks cs else ret ()) ?ok ?ok s'"
    if "progress P s0 s'" and "set cs \<subseteq> emits P s'" for cs s'
    using that wp_out [OF that out_transmit(2)] by (simp add: wp_simps)
  have fwd: "wp transmit_forward_tsn Q ?ok s' \<longleftrightarrow> Q [] s'" if "progress P s0 s'" for Q s'
    using that by (simp add: transmit_forward_tsn_def wp_simps progress_def end_inv_def tx_inv_def Let_def)
  have new: "wp (transmit_new_data w) (\<lambda>fresh. wp transmit_forward_tsn (\<lambda>fwd.
      wp (if sack @ retrans @ fresh @ fwd \<noteq> [] then transmit_chunks (sack @ retrans @ fresh @ fwd) else ret ()) ?ok ?ok) ?ok) ?ok s'"
    if "progress P s0 s'" and "set sack \<union> set retrans \<subseteq> emits P s'" for w sack retrans s'
  proof (rule wp_mono [OF wp_new_data [OF that]])
    fix fresh t
    assume t: "progress P s0 t \<and> set sack \<union> set retrans \<union> set fresh \<subseteq> emits P t"
    then show "wp transmit_forward_tsn (\<lambda>fwd.
      wp (if sack @ retrans @ fresh @ fwd \<noteq> [] then transmit_chunks (sack @ retrans @ fresh @ fwd) else ret ()) ?ok ?ok) ?ok t"
      unfolding fwd [OF conjunct1 [OF t]] by (intro out) auto
  qed
  have old: "wp transmit_retransmissions (\<lambda>retrans. wp (transmit_new_data w) (\<lambda>fresh. wp transmit_forward_tsn (\<lambda>fwd.
      wp (if sack @ retrans @ fresh @ fwd \<noteq> [] then transmit_chunks (sack @ retrans @ fresh @ fwd) else ret ()) ?ok ?ok) ?ok) ?ok) ?ok s'"
    if "progress P s0 s'" and "set sack \<subseteq> emits P s'" for w sack s'
    by (rule wp_mono [OF wp_retransmissions [OF that]]) (use new in simp_all)
  show ?thesis
    unfolding transmit_def wp_ebind wp_eget Let_def
    by (rule wp_mono [OF wp_transmit_sack [OF assms]]) (use old in simp_all)
qed

section \<open>The handlers\<close>

interpretation prog: state_order "\<lambda>s s'. progress P s0 s \<longrightarrow> progress P s0 s'" for P s0
  by unfold_locales auto

named_theorems prog_keeps "operations that preserve the invariant"

lemma prog_wp: "(\<And>s. progress P s0 s \<Longrightarrow> wp m (\<lambda>_. progress P s0) (\<lambda>_. progress P s0) s) \<Longrightarrow> prog.keeps P s0 m"
  by (simp add: prog.keeps_def wp_snd)

lemma prog_calm: "calm.keeps m \<Longrightarrow> prog.keeps P s0 m"
  by (rule prog_wp) (rule wp_calm)

lemma prog_emod: "(\<And>s. sview (f s) = sview s) \<Longrightarrow> (\<And>s. rview (f s) = rview s) \<Longrightarrow> prog.keeps P s0 (emod f)"
  by (intro prog_calm calm.keeps_emod) simp

lemma prog_state: "(\<And>s. progress P s0 s \<Longrightarrow> progress P s0 (snd (k s s))) \<Longrightarrow> prog.keeps P s0 (eget k)"
  by (simp add: prog.keeps_def eget_def)

lemmas prog_intros = prog.keeps_ebind prog.keeps_ethen prog.keeps_eget prog.keeps_option prog.keeps_if prog.keeps_prod
  prog.keeps_Let prog.keeps_ret prog.keeps_elift prog.keeps_efail prog.keeps_eiter prog_emod

lemma prog_transmit [prog_keeps]: "prog.keeps P s0 transmit"
  by (rule prog_wp) (rule wp_transmit)

lemma prog_first: "progress P s0 (f s) \<Longrightarrow> prog.keeps P s0 k \<Longrightarrow> progress P s0 (snd (ethen (emod f) k s))"
  by (simp add: prog.keeps_def ethen_def ebind_def emod_def)

lemma progress_queue:
  assumes "progress P s0 s" and "sent_ok (my_base P) (my_frags P) (tx_count (my_base P) s) (peer_has P) q"
  shows "progress P s0 (upd_tx (\<lambda>t. t\<lparr>last_sack_sig := x, sent_queue := q\<rparr>) s)" (is "progress P s0 ?s")
proof -
  have v: "rview ?s = rview s" "tx_count base ?s = tx_count base s" "tchans ?s = tchans s" for base
    by (simp_all add: tx_count_def) (simp add: upd_tx_def)
  have e: "emits P ?s = emits P s" by (simp add: emits_def v rx_inv_rview(2) [OF v(1)])
  have "outbound_queue (tx ?s) = outbound_queue (tx s)" "has_pr_sctp (tx ?s) = has_pr_sctp (tx s)" "tm ?s = tm s"
    "outgoing ?s = outgoing s" "sent_queue (tx ?s) = q"
    by (simp_all add: upd_tx_def)
  with assms show ?thesis
    by (simp add: progress_def end_inv_def tx_inv_def Let_def v e rx_inv_rview [OF v(1)])
qed

lemma prog_process_sack:
  assumes sack: "sack_ok (my_base P) (peer_has P) cum blocks"
  shows "prog.keeps P s0 (process_sack cum w blocks)"
  unfolding process_sack_def
proof (rule prog.keeps_ethen, rule prog_emod, simp_all add: sview_upd_tx tcore_def, rule prog_state, goal_cases)
  case (1 s)
  let ?c = "last_sack_sig (tx s) \<noteq> sack_signature cum blocks"
  obtain q outcome where app: "apply_sack_to_sent_queue (sent_queue (tx s)) cum blocks (sctp_now s) ?c
      (max_tsn_retransmits (cfg s)) = (q, outcome)" by fastforce
  have "tx_count (my_base P) s < 2 ^ 31" using 1 by (auto simp: progress_def end_inv_def tx_inv_def Let_def side_ok_def)
  moreover have "sent_ok (my_base P) (my_frags P) (tx_count (my_base P) s) (peer_has P) (sent_queue (tx s))"
    using 1 by (simp add: progress_def end_inv_def tx_inv_def Let_def)
  ultimately have "sent_ok (my_base P) (my_frags P) (tx_count (my_base P) s) (peer_has P) q"
    using sent_ok_sack [OF _ _ sack] app by (metis fst_conv)
  then have "progress P s0 (upd_tx (\<lambda>t. t\<lparr>last_sack_sig := sack_signature cum blocks, sent_queue := q\<rparr>) s)"
    by (rule progress_queue [OF 1])
  then show ?case
    unfolding Let_def app prod.case
    by (rule prog_first) (intro prog_intros prog_keeps prog_calm calm_keeps; simp add: sview_upd_tm)
qed

lemma ssn_pairs_blocks:
  "take (length blocks) (ssn_pairs (concat (map (\<lambda>(a, b). u16_be a @ u16_be b) blocks) @ rest)) = blocks"
  by (induction blocks) (auto simp: u16_be_def)

lemma prog_handle_sack:
  assumes "sack_ok (my_base P) (peer_has P) cum blocks" and "length blocks \<le> 16"
  shows "prog.keeps P s0 (handle_sack (sack_value cum w blocks dups))"
proof -
  have "unat (of_nat (length blocks) :: u16) = length blocks" using assms(2) by (intro unat_of_nat_u16) simp
  then have "handle_sack (sack_value cum w blocks dups) s =
    ethen (emod (\<lambda>s. upd_tm (\<lambda>t. t\<lparr>last_sack_time := Some (sctp_now s)\<rparr>) s)) (process_sack cum w blocks) s" for s
    by (simp add: handle_sack_def sack_value_def read_simps ebind_def elift_def ethen_def emod_def ssn_pairs_blocks)
  then have "handle_sack (sack_value cum w blocks dups) =
    ethen (emod (\<lambda>s. upd_tm (\<lambda>t. t\<lparr>last_sack_time := Some (sctp_now s)\<rparr>) s)) (process_sack cum w blocks)"
    by (rule ext)
  then show ?thesis
    by (simp only:) (intro prog.keeps_ethen prog_emod prog_process_sack assms(1), simp_all add: sview_upd_tm)
qed

lemma chunk_set_heartbeat:
  "t = CT_HEARTBEAT \<or> t = CT_HEARTBEAT_ACK \<Longrightarrow> length v = 8 \<Longrightarrow> wire_chunk t 0 v \<in> chunk_set base fs n base' has"
  unfolding chunk_set_def by blast

lemma prog_send_heartbeat_chunk:
  assumes "t = CT_HEARTBEAT \<or> t = CT_HEARTBEAT_ACK" and "length v = 8"
  shows "prog.keeps P s0 (send_chunk t 0 v tag)"
  unfolding send_chunk_def
  by (rule prog_wp, erule wp_out [where C = "{wire_chunk t 0 v}"], insert assms)
     (simp_all add: emits_def chunk_set_heartbeat out_transmit(1))

lemma prog_heartbeats [prog_keeps]: "prog.keeps P s0 send_heartbeat" "length v = 8 \<Longrightarrow> prog.keeps P s0 (handle_heartbeat v)"
proof -
  have "calm.keeps (estate (\<lambda>s. if heartbeat_sent_time (tm s) \<noteq> None then heartbeat_failure s else (False, s)))"
    by (rule calm.keeps_estate) simp
  then show "prog.keeps P s0 send_heartbeat"
    unfolding send_heartbeat_def
    by (intro prog_intros prog_calm [OF calm_basic(1)] prog_calm prog_send_heartbeat_chunk) (simp_all add: sview_upd_tm)
  show "length v = 8 \<Longrightarrow> prog.keeps P s0 (handle_heartbeat v)"
    unfolding handle_heartbeat_def by (intro prog.keeps_eget prog_send_heartbeat_chunk) simp_all
qed

lemma progress_data:
  assumes inv: "progress P s0 s" and "tview s' = tview s"
    and "rx_inv (my_chans P) (peer_base P) (peer_frags P) (peer_sent P) s'"
    and mono: "\<forall>j. rcvd (peer_base P) s j \<longrightarrow> rcvd (peer_base P) s' j"
  shows "progress P s0 s'"
proof -
  have v: "tx s' = tx s" "t1_sent_time (tm s') = t1_sent_time (tm s)" "outgoing s' = outgoing s" "tchans s' = tchans s"
    using assms(2) by (simp_all add: tview_def tchans_def)
  then have n: "tx_count (my_base P) s' = tx_count (my_base P) s" by (simp add: tx_count_def)
  have "emits P s \<subseteq> emits P s'" unfolding emits_def n using mono by (intro chunk_set_mono) auto
  then have "packet_of (emits P s') p" if "packet_of (emits P s) p" for p using packet_of_mono that by blast
  then have "tx_inv P s'" using inv by (simp add: progress_def end_inv_def tx_inv_def Let_def n v)
  with assms(3) inv mono v(4) n show ?thesis by (auto simp: progress_def end_inv_def)
qed

lemma prog_data:
  assumes "i < peer_sent P"
  shows "prog.keeps P s0 (handle_data (oc_flags (peer_frags P ! i)) (fvalue (peer_frags P ! i) (peer_base P + of_nat i)))"
proof (unfold prog.keeps_def, intro allI impI)
  fix s
  assume inv: "progress P s0 s"
  then have "frags_ok (my_chans P) (peer_frags P)" "peer_sent P \<le> length (peer_frags P)" "peer_sent P < 2 ^ 31"
    "rx_inv (my_chans P) (peer_base P) (peer_frags P) (peer_sent P) s"
    by (simp_all add: progress_def end_inv_def side_ok_def)
  from handle_data_step [OF this assms] obtain s' where
    "handle_data (oc_flags (peer_frags P ! i)) (fvalue (peer_frags P ! i) (peer_base P + of_nat i)) s = (Ok (), s')"
    "rx_inv (my_chans P) (peer_base P) (peer_frags P) (peer_sent P) s'"
    "\<forall>j. rcvd (peer_base P) s j \<longrightarrow> rcvd (peer_base P) s' j" "tview s' = tview s" by blast
  then show "progress P s0 (snd (handle_data (oc_flags (peer_frags P ! i)) (fvalue (peer_frags P ! i) (peer_base P + of_nat i)) s))"
    using progress_data [OF inv] by simp
qed

text \<open>The chunks that may come from the peer.\<close>

definition incoming :: "side \<Rightarrow> bytes set" where
  "incoming P = chunk_set (peer_base P) (peer_frags P) (peer_sent P) (my_base P) (peer_has P)"

definition peer_chunks :: "side \<Rightarrow> (u8 \<times> u8 \<times> bytes) set" where
  "peer_chunks P =
     {(CT_DATA, oc_flags (peer_frags P ! i), fvalue (peer_frags P ! i) (peer_base P + of_nat i)) |i. i < peer_sent P}
     \<union> {(CT_SACK, 0, sack_value cum w blocks dups) |cum w blocks dups.
          sack_ok (my_base P) (peer_has P) cum blocks \<and> length blocks \<le> 16 \<and> length dups \<le> 32}
     \<union> {(t, 0, v) |t v. (t = CT_HEARTBEAT \<or> t = CT_HEARTBEAT_ACK) \<and> length v = 8}"

lemma incoming_chunk:
  assumes "c \<in> incoming P" and "c \<noteq> []"
  shows "c \<in> chunk_wire ` peer_chunks P"
proof -
  have wire: "wire_chunk t f v \<in> chunk_wire ` peer_chunks P" if "(t, f, v) \<in> peer_chunks P" for t f v
    using that by (force simp: chunk_wire_def)
  from assms consider i where "i < peer_sent P" "c = seg (peer_base P) (peer_frags P) i"
    | cum w blocks dups where "c = wire_chunk CT_SACK 0 (sack_value cum w blocks dups)"
        "sack_ok (my_base P) (peer_has P) cum blocks" "length blocks \<le> 16" "length dups \<le> 32"
    | t v where "c = wire_chunk t 0 v" "t = CT_HEARTBEAT \<or> t = CT_HEARTBEAT_ACK" "length v = 8"
    unfolding incoming_def chunk_set_def by blast
  then show ?thesis
  proof cases
    case 1
    then show ?thesis unfolding 1(2) seg_def fwire_def by (intro wire) (auto simp: peer_chunks_def)
  next
    case 2
    then show ?thesis unfolding 2(1) by (intro wire) (auto simp: peer_chunks_def)
  next
    case 3
    then show ?thesis unfolding 3(1) by (intro wire) (auto simp: peer_chunks_def)
  qed
qed

lemma length_sack_value: "length (sack_value cum w blocks dups) = 12 + 4 * length blocks + 4 * length dups"
proof -
  have "length (concat (map (\<lambda>(a, b). u16_be a @ u16_be b) blocks)) = 4 * length blocks" by (induction blocks) auto
  moreover have "length (concat (map u32_be dups)) = 4 * length dups" by (induction dups) auto
  ultimately show ?thesis by (simp add: sack_value_def)
qed

lemma peer_chunk_fits:
  assumes "side_ok P" and "c \<in> peer_chunks P"
  shows "chunk_fits c"
proof -
  have "length (oc_payload (peer_frags P ! i)) \<le> 1172" if "i < peer_sent P" for i
    using that assms(1) by (auto simp: side_ok_def frags_ok_def)
  then show ?thesis using assms(2) by (fastforce simp: peer_chunks_def chunk_fits_def length_sack_value)
qed

lemma incoming_chunks:
  assumes "side_ok P" and "set cs \<subseteq> incoming P"
  shows "set (chunks (concat cs)) \<subseteq> peer_chunks P"
proof -
  have "\<exists>ts. concat cs = concat (map chunk_wire ts) \<and> set ts \<subseteq> peer_chunks P"
    using assms(2)
  proof (induction cs)
    case (Cons c cs)
    then obtain ts where ts: "concat cs = concat (map chunk_wire ts)" "set ts \<subseteq> peer_chunks P" by auto
    show ?case
    proof (cases "c = []")
      case False
      then obtain t where "c = chunk_wire t" "t \<in> peer_chunks P" using incoming_chunk Cons.prems by fastforce
      with ts show ?thesis by (intro exI [of _ "t # ts"]) simp
    qed (use ts in auto)
  qed (intro exI [of _ "[]"], simp)
  then show ?thesis using chunks_wire peer_chunk_fits [OF assms(1)] by (metis subsetD)
qed

lemma prog_dispatch:
  assumes "c \<in> peer_chunks P"
  shows "prog.keeps P s0 (dispatch_chunk tag c)"
  using assms prog_data prog_handle_sack prog_heartbeats(2) prog_calm [OF calm_heartbeat_ack]
  unfolding peer_chunks_def by (auto simp: dispatch_chunk_def ct_consts)

lemma prog_packet:
  assumes "packet_of (incoming P) p" and "side_ok P"
  shows "prog.keeps P s0 (handle_packet p)"
proof -
  obtain sp dp tag cs where p: "p = build_packet sp dp tag cs" "set cs \<subseteq> incoming P" using assms(1) by (auto simp: packet_of_def)
  have "set (chunks (concat cs)) \<subseteq> peer_chunks P" by (rule incoming_chunks [OF assms(2) p(2)])
  then show ?thesis
    unfolding p(1) handle_packet_built by (intro prog_intros prog_dispatch) auto
qed

section \<open>The task\<close>

lemma snd_eignore [simp]: "snd (eignore m s) = snd (m s)"
  by (auto simp: eignore_def split: prod.splits sum.splits fault.splits)

lemma prog_eignore: "prog.keeps P s0 m \<Longrightarrow> prog.keeps P s0 (eignore m)"
  by (simp add: prog.keeps_def)

lemma progress_bt: "progress P s0 s \<Longrightarrow> bt_ok (sent_queue (tx s))"
  by (simp add: progress_def end_inv_def tx_inv_def Let_def sent_ok_def)

lemma prog_probe [prog_keeps]: "prog.keeps P s0 (emod maybe_send_tlp_probe)"
  using calm_views(6) [OF sview_probe rview_timers(2), OF progress_bt] by (simp add: prog.keeps_def emod_def)

lemma prog_t1 [prog_keeps]: "prog.keeps P s0 handle_t1_timeout"
  unfolding handle_t1_timeout_def
  by (rule prog_state) (auto simp: progress_def end_inv_def tx_inv_def Let_def ret_def)

lemma loop_sleep_state:
  "rto_timeout s = (t, s1) \<Longrightarrow> snd (loop_sleep hb s) =
     (if tlp_timeout (flush_expired_sack_delay s1) \<le> millis 1 then maybe_send_tlp_probe (flush_expired_sack_delay s1)
      else flush_expired_sack_delay s1)"
  by (simp only: loop_sleep_def prod.case Let_def snd_conv)

lemma rto_timeout_state:
  assumes "rto_timeout s = (t, s1)"
  shows "\<exists>c. s1 = upd_tm (\<lambda>m. m\<lparr>cached_rto_timeout := c\<rparr>) s"
proof (cases "s1 = s")
  case True
  then have "s1 = upd_tm (\<lambda>m. m\<lparr>cached_rto_timeout := cached_rto_timeout (tm s)\<rparr>) s" by (simp add: upd_tm_def)
  then show ?thesis by blast
next
  case False
  then show ?thesis using assms by (auto simp: rto_timeout_def Let_def split: option.splits if_splits prod.splits)
qed

lemma loop_sleep_views:
  assumes "bt_ok (sent_queue (tx s))"
  shows "sview (snd (loop_sleep hb s)) = sview s" "rview (snd (loop_sleep hb s)) = rview s"
proof -
  obtain t s1 where r: "rto_timeout s = (t, s1)" by fastforce
  have s1: "sview s1 = sview s" "rview s1 = rview s" "tx s1 = tx s"
    using rto_timeout_state [OF r] by (auto simp: sview_upd_tm) (simp add: upd_tm_def)
  then have "tx (flush_expired_sack_delay s1) = tx s" by (simp add: flush_expired_sack_delay_def upd_rx_def split: option.split)
  then have "sview (maybe_send_tlp_probe (flush_expired_sack_delay s1)) = sview s"
    using assms s1(1) sview_probe [of "flush_expired_sack_delay s1"] by simp
  then show "sview (snd (loop_sleep hb s)) = sview s" using loop_sleep_state [OF r, of hb] s1(1) by simp
  show "rview (snd (loop_sleep hb s)) = rview s" using loop_sleep_state [OF r, of hb] s1(2) by simp
qed

lemma prog_loop_sleep: "prog.keeps P s0 (emod (\<lambda>s. snd (loop_sleep hb s)))"
  using calm_views(6) [OF loop_sleep_views, OF progress_bt progress_bt] by (simp add: prog.keeps_def emod_def)

definition event_from :: "(bytes \<Rightarrow> bool) \<Rightarrow> loop_event \<Rightarrow> bool" where
  "event_from net ev \<longleftrightarrow> (case ev of Loop_packet (Some p) \<Rightarrow> net p | _ \<Rightarrow> True)"

lemma prog_event:
  assumes "event_from (packet_of (incoming P)) ev" and "side_ok P"
  shows "prog.keeps P s0 (loop_event_step ev hb)"
proof -
  have p: "prog.keeps P s0 (handle_packet p)" if "ev = Loop_packet (Some p)" for p
    using assms that by (intro prog_packet) (simp_all add: event_from_def)
  have "prog.keeps P s0 (ethen (emod (\<lambda>s. s\<lparr>close_reason := r\<rparr>)) (ret x))" for r and x :: "nat option"
    by (intro prog_intros) simp_all
  moreover have "prog.keeps P s0 (ethen (emod (upd_tm (\<lambda>t. t\<lparr>timer_notify := False\<rparr>))) (ethen (eignore transmit) (ret x)))"
    for x :: "nat option"
    by (intro prog_intros prog_eignore prog_transmit) (simp_all add: sview_upd_tm)
  moreover have "prog.keeps P s0 (ethen (eignore handle_t1_timeout) (ethen (emod maybe_send_tlp_probe) (ethen (emod handle_timeout)
      (eget (\<lambda>s. if hb + heartbeat_interval (cfg s) \<le> sctp_now s
             then ethen (eignore send_heartbeat) (ret (Some (sctp_now s))) else ret (Some hb))))))"
    by (intro prog.keeps_ethen prog_eignore prog_t1 prog_probe prog_intros prog_heartbeats(1)) simp_all
  moreover have "prog.keeps P s0 (ethen (eignore (handle_packet q)) (ret x))" if "ev = Loop_packet (Some q)" for q and x :: "nat option"
    using p [OF that] by (intro prog_intros prog_eignore)
  ultimately show ?thesis
    by (cases ev) (auto simp: loop_event_step_def split: option.split dtls_view.split)
qed

lemma prog_iteration:
  assumes "event_from (packet_of (incoming P)) ev" and "side_ok P" and "\<forall>p \<in> set queued. packet_of (incoming P) p"
  shows "prog.keeps P s0 (loop_iteration ev queued hb)"
  unfolding loop_iteration_def
  by (intro prog.keeps_eget prog.keeps_if prog.keeps_ret prog.keeps_ethen prog.keeps_ebind prog.keeps_option prog_loop_sleep
      prog_event prog.keeps_eiter prog_eignore prog_packet prog_transmit) (use assms in auto)

end
