(* ===== verification/Sctp_Link.thy ===== *)
theory Sctp_Link
  imports Sctp_Sender "HOL-Library.Sublist"
begin

text \<open>
  Two connected endpoints and a network that loses, repeats and reorders packets. An application that
  sends takes its place on a channel (\<open>send_begin\<close>), waits and is admitted (\<open>send_admit\<close>); the task of an
  endpoint runs iterations of its loop on packets that the other endpoint has emitted at any time
  before. The theorems are about every run of this system: what a channel delivers is a prefix of what
  was sent on it, and a sender that has nothing left to send or to have acknowledged has had
  everything delivered. The runs are those of the transfer phase: they start with both associations
  connected and idle and with the same reliable channels at both ends, no packet of the handshake is
  left in the network, and on the way no channel is opened, closed or reset, no channel is partially
  reliable, and no waiting send is cancelled. Without these restrictions the program does not keep the
  two properties: a late INIT resets the receiver, and a cancelled send leaves a stream sequence
  number that is never used, behind which an ordered channel stays blocked.
\<close>

section \<open>Messages and fragments\<close>

definition all_frags :: "(send_params \<times> bytes) list \<Rightarrow> outbound_chunk list" where
  "all_frags sent = concat (map frags sent)"

definition on_channel :: "u16 \<Rightarrow> (send_params \<times> bytes) list \<Rightarrow> (send_params \<times> bytes) list" where
  "on_channel c sent = filter (\<lambda>m. sp_channel (fst m) = c) sent"

lemma all_frags_simps [simp]: "all_frags [] = []" "all_frags (xs @ ys) = all_frags xs @ all_frags ys" "all_frags [m] = frags m"
  by (simp_all add: all_frags_def)

lemma on_channel_simps [simp]:
  "on_channel c [] = []" "on_channel c (xs @ ys) = on_channel c xs @ on_channel c ys"
  "on_channel c [m] = (if sp_channel (fst m) = c then [m] else [])"
  by (simp_all add: on_channel_def)

lemma filter_frags:
  assumes "sp_ok p"
  shows "filter (\<lambda>f. oc_stream f = c) (take j (frags (p, data))) = (if sp_channel p = c then take j (frags (p, data)) else [])"
proof -
  have "\<forall>f \<in> set (take j (frags (p, data))). oc_stream f = sp_channel p"
    using frags_fields [OF assms] in_set_takeD by fast
  then show ?thesis by (auto simp: filter_empty_conv intro!: filter_True)
qed

lemma chan_after_append: "chan_after o1 c (fs @ gs) = fold (feed o1) (filter (\<lambda>f. oc_stream f = c) gs) (chan_after o1 c fs)"
  by (simp add: chan_after_def)

lemma chan_after_message:
  assumes "sp_ok p" and "chan_after o1 c fs = (buf, nx, ms)"
  shows "chan_after o1 c (fs @ frags (p, data)) =
    (if sp_channel p = c then ([], if sp_flags p = 4 \<or> \<not> o1 then nx else nx + 1, ms @ [data]) else (buf, nx, ms))"
  using filter_frags [OF assms(1), of c "length (frags (p, data))" data] feed_message [OF assms(1)] assms(2)
  by (simp add: chan_after_append)

definition ssn_after :: "bool \<Rightarrow> nat \<Rightarrow> u16" where
  "ssn_after ordered n = (if ordered then of_nat n else 0)"

text \<open>Every message is well formed, and the ordered ones of a channel are numbered from zero.\<close>

definition msg_ok :: "(u16 \<Rightarrow> bool option) \<Rightarrow> send_params \<Rightarrow> bool" where
  "msg_ok chans p \<longleftrightarrow> sp_ok p \<and> (\<exists>o1. chans (sp_channel p) = Some o1 \<and> sp_flags p = (if o1 then 0 else 4))"

definition sent_in_order :: "(u16 \<Rightarrow> bool option) \<Rightarrow> (send_params \<times> bytes) list \<Rightarrow> bool" where
  "sent_in_order chans sent \<longleftrightarrow> (\<forall>j < length sent. let p = fst (sent ! j) in msg_ok chans p
     \<and> (chans (sp_channel p) = Some True \<longrightarrow> sp_ssn p = of_nat (length (on_channel (sp_channel p) (take j sent)))))"

lemma sent_in_order_snoc:
  "sent_in_order chans (sent @ [(p, data)]) \<longleftrightarrow> sent_in_order chans sent \<and> msg_ok chans p
     \<and> (chans (sp_channel p) = Some True \<longrightarrow> sp_ssn p = of_nat (length (on_channel (sp_channel p) sent)))"
  unfolding sent_in_order_def Let_def by (auto simp: nth_append less_Suc_eq)

lemma sent_in_order_Nil [simp]: "sent_in_order chans []"
  by (simp add: sent_in_order_def)

lemma chan_after_sent:
  assumes "sent_in_order chans sent" and "chans c = Some o1"
  shows "chan_after o1 c (all_frags sent) = ([], ssn_after o1 (length (on_channel c sent)), map snd (on_channel c sent))"
  using assms(1)
proof (induction sent rule: rev_induct)
  case (snoc m sent)
  obtain p data where m: "m = (p, data)" by fastforce
  then have p: "msg_ok chans p" and sent: "sent_in_order chans sent" using snoc.prems sent_in_order_snoc by blast+
  have ok: "sp_ok p" and "sp_channel p = c \<Longrightarrow> sp_flags p = (if o1 then 0 else 4)"
    using p assms(2) by (auto simp: msg_ok_def)
  then show ?case
    using chan_after_message [OF ok snoc.IH [OF sent]] by (auto simp: m ssn_after_def)
qed (simp add: chan_after_def ssn_after_def)

lemma frags_ok_snoc:
  assumes fs: "frags_ok chans fs" and p: "sp_ok p"
    and ssn: "chans (sp_channel p) = Some True \<Longrightarrow> sp_flags p = 0 \<Longrightarrow> sp_ssn p = fst (snd (chan_after True (sp_channel p) fs))"
  shows "frags_ok chans (fs @ frags (p, data))"
  unfolding frags_ok_def
proof (intro conjI allI impI)
  have "sp_ppid p \<noteq> DATA_CHANNEL_PPID_DCEP" using p by (simp add: sp_ok_def)
  then show "\<forall>f \<in> set (fs @ frags (p, data)). oc_ppid f \<noteq> DATA_CHANNEL_PPID_DCEP \<and> length (oc_payload f) \<le> 1172"
    using fs frags_fields [OF p] by (auto simp: frags_ok_def)
next
  fix i o1
  let ?gs = "fs @ frags (p, data)"
  assume i: "i < length ?gs" and c: "chans (oc_stream (?gs ! i)) = Some o1"
    and last: "o1 \<and> oc_flags (?gs ! i) AND 4 = 0 \<and> oc_flags (?gs ! i) AND 1 \<noteq> 0"
  show "oc_ssn (?gs ! i) = fst (snd (chan_after o1 (oc_stream (?gs ! i)) (take i ?gs)))"
  proof (cases "i < length fs")
    case True
    then show ?thesis using fs c last by (simp add: frags_ok_def nth_append)
  next
    case False
    define j where "j = i - length fs"
    then have j: "?gs ! i = frags (p, data) ! j" "j < length (frags (p, data))" "take i ?gs = fs @ take j (frags (p, data))"
      using False i by (simp_all add: nth_append)
    have f: "oc_stream (?gs ! i) = sp_channel p" "oc_ssn (?gs ! i) = sp_ssn p" "oc_flags (?gs ! i) AND 4 \<noteq> 0 \<longleftrightarrow> sp_flags p = 4"
      using frags_fields [OF p nth_mem [OF j(2)]] unfolding j(1) by simp_all
    then have flags: "sp_flags p = 0" using last p by (auto simp: sp_ok_def)
    obtain buf nx ms where st: "chan_after True (sp_channel p) fs = (buf, nx, ms)" by (metis prod_cases3)
    have "\<exists>buf'. chan_after True (sp_channel p) (take i ?gs) = (buf', nx, ms)"
      using feed_message_prefix [OF p j(2)] filter_frags [OF p, of "sp_channel p" j data]
      unfolding j(3) chan_after_append st by simp
    then show ?thesis using ssn [OF _ flags] c last st unfolding f by auto
  qed
qed

lemma frags_ok_sent: "sent_in_order chans sent \<Longrightarrow> frags_ok chans (all_frags sent)"
proof (induction sent rule: rev_induct)
  case (snoc m sent)
  obtain p data where m: "m = (p, data)" by fastforce
  then have p: "msg_ok chans p" and sent: "sent_in_order chans sent"
    and ssn: "chans (sp_channel p) = Some True \<longrightarrow> sp_ssn p = of_nat (length (on_channel (sp_channel p) sent))"
    using snoc.prems sent_in_order_snoc by blast+
  have "frags_ok chans (all_frags sent @ frags (p, data))"
    using p snoc.IH [OF sent] ssn chan_after_sent [OF sent, of "sp_channel p" True]
    by (intro frags_ok_snoc) (auto simp: msg_ok_def ssn_after_def)
  then show ?case by (simp add: m)
qed (simp add: frags_ok_def)

lemma feed_delivers: "\<exists>ns. snd (snd (fold (feed o1) fs st)) = snd (snd st) @ ns"
proof (induction fs arbitrary: st)
  case (Cons f fs)
  obtain buf nx ms where st: "st = (buf, nx, ms)" by (metis prod_cases3)
  have "\<exists>ns. snd (snd (feed o1 f st)) = snd (snd st) @ ns" by (simp add: st feed_def Let_def)
  with Cons.IH [of "feed o1 f st"] show ?case by auto
qed simp

lemma chan_after_prefix: "prefix (snd (snd (chan_after o1 c (take k fs)))) (snd (snd (chan_after o1 c fs)))"
proof -
  have "chan_after o1 c fs = fold (feed o1) (filter (\<lambda>f. oc_stream f = c) (drop k fs)) (chan_after o1 c (take k fs))"
    using chan_after_append [of o1 c "take k fs" "drop k fs"] by simp
  then show ?thesis using feed_delivers unfolding prefix_def by metis
qed

section \<open>The system\<close>

text \<open>
  An endpoint with two histories that the program does not keep: the messages admitted so far and, for
  each channel, the message whose sender holds the channel's send lock.
\<close>

record endpoint =
  ep_state :: sctp
  ep_sent :: "(send_params \<times> bytes) list"
  ep_waiting :: "u16 \<Rightarrow> (send_params \<times> bytes) option"

type_synonym link = "bool \<Rightarrow> endpoint"

definition network :: "link \<Rightarrow> bool \<Rightarrow> bytes set" where
  "network lk x = set (outgoing (ep_state (lk (\<not> x))))"

inductive link_step :: "link \<Rightarrow> link \<Rightarrow> bool" where
  queue: "ep_waiting (lk x) c = None \<Longrightarrow> dc_find c (data_channels (ep_state (lk x))) \<noteq> None \<Longrightarrow>
     ppid \<noteq> DATA_CHANNEL_PPID_DCEP \<Longrightarrow> send_begin c ppid (ep_state (lk x)) = (Ok p, s') \<Longrightarrow>
     link_step lk (lk(x := (lk x)\<lparr>ep_state := s', ep_waiting := (ep_waiting (lk x))(c := Some (p, data))\<rparr>))"
| admit: "ep_waiting (lk x) c = Some (p, data) \<Longrightarrow> length (all_frags (ep_sent (lk x) @ [(p, data)])) < 2 ^ 31 \<Longrightarrow>
     send_admit p data (ep_state (lk x)) = (Ok (), s') \<Longrightarrow>
     link_step lk (lk(x := (lk x)\<lparr>ep_state := s', ep_sent := ep_sent (lk x) @ [(p, data)],
       ep_waiting := (ep_waiting (lk x))(c := None)\<rparr>))"
| iterate: "event_from (\<lambda>p. p \<in> network lk x) ev \<Longrightarrow> set queued \<subseteq> network lk x \<Longrightarrow>
     loop_iteration ev queued hb (ep_state (lk x)) = (r, s') \<Longrightarrow>
     link_step lk (lk(x := (lk x)\<lparr>ep_state := s'\<rparr>))"
| tick: "link_step lk (lk(x := (lk x)\<lparr>ep_state := (ep_state (lk x))\<lparr>sctp_now := now\<rparr>\<rparr>))"

text \<open>
  The start: both endpoints are connected and idle, agree on the reliable channels \<open>chans\<close> (with their
  ordering) and on the first sequence numbers, and no packet of the handshake is left in the network.
\<close>

definition chan_start :: "bool \<Rightarrow> data_channel \<Rightarrow> bool" where
  "chan_start o1 dc \<longleftrightarrow> dc_ordered dc = o1 \<and> dc_max_retransmits dc = None \<and> dc_max_packet_life_time dc = None
     \<and> 0 < dc_max_payload_size dc \<and> dc_next_ssn dc = 0 \<and> dc_tx_open dc \<and> reassembly_buffer dc = []
     \<and> messages (dc_events dc) = []"

definition end_start :: "(u16 \<Rightarrow> bool option) \<Rightarrow> u32 \<Rightarrow> u32 \<Rightarrow> endpoint \<Rightarrow> bool" where
  "end_start chans base base' e \<longleftrightarrow> (let s = ep_state e in
     next_tsn (tx s) = base \<and> sent_queue (tx s) = [] \<and> outbound_queue (tx s) = [] \<and> \<not> has_pr_sctp (tx s)
     \<and> t1_sent_time (tm s) = None \<and> outgoing s = []
     \<and> cumulative_tsn_ack (rx s) = base' - 1 \<and> received_queue (rx s) = [] \<and> inbound_streams (rx s) = []
     \<and> (\<forall>c. case (chans c, dc_find c (data_channels s)) of
            (None, None) \<Rightarrow> True | (Some o1, Some dc) \<Rightarrow> chan_start o1 dc | _ \<Rightarrow> False)
     \<and> ep_sent e = [] \<and> (\<forall>c. ep_waiting e c = None))"

definition link_start :: "(u16 \<Rightarrow> bool option) \<Rightarrow> (bool \<Rightarrow> u32) \<Rightarrow> link \<Rightarrow> bool" where
  "link_start chans base lk \<longleftrightarrow> (\<forall>x. end_start chans (base x) (base (\<not> x)) (lk x))"

definition delivered :: "link \<Rightarrow> bool \<Rightarrow> u16 \<Rightarrow> bytes list" where
  "delivered lk x c =
     (case dc_find c (data_channels (ep_state (lk x))) of None \<Rightarrow> [] | Some dc \<Rightarrow> messages (dc_events dc))"

definition sent_on :: "link \<Rightarrow> bool \<Rightarrow> u16 \<Rightarrow> bytes list" where
  "sent_on lk x c = map snd (on_channel c (ep_sent (lk x)))"

definition drained :: "link \<Rightarrow> bool \<Rightarrow> bool" where
  "drained lk x \<longleftrightarrow> outbound_queue (tx (ep_state (lk x))) = [] \<and> (\<forall>(t, r) \<in> set (sent_queue (tx (ep_state (lk x)))). acked r)"

section \<open>The invariant\<close>

definition side_of :: "(u16 \<Rightarrow> bool option) \<Rightarrow> (bool \<Rightarrow> u32) \<Rightarrow> link \<Rightarrow> bool \<Rightarrow> side" where
  "side_of chans base lk x =
     \<lparr>my_base = base x, my_frags = all_frags (ep_sent (lk x)), peer_has = rcvd (base x) (ep_state (lk (\<not> x))), my_chans = chans,
      peer_base = base (\<not> x), peer_frags = all_frags (ep_sent (lk (\<not> x))),
      peer_sent = tx_count (base (\<not> x)) (ep_state (lk (\<not> x)))\<rparr>"

text \<open>The sequence number of a channel counts the messages sent and the one that waits.\<close>

definition chan_tx_ok :: "(u16 \<Rightarrow> bool option) \<Rightarrow> endpoint \<Rightarrow> u16 \<Rightarrow> bool" where
  "chan_tx_ok chans e c \<longleftrightarrow> (case chans c of
     None \<Rightarrow> tchans (ep_state e) c = None \<and> ep_waiting e c = None
   | Some o1 \<Rightarrow>
       (\<exists>mp nx. tchans (ep_state e) c = Some (o1, None, None, mp, nx) \<and> 0 < mp
          \<and> (o1 \<longrightarrow> nx = of_nat (length (on_channel c (ep_sent e)) + (if ep_waiting e c = None then 0 else 1))))
       \<and> (\<forall>p data. ep_waiting e c = Some (p, data) \<longrightarrow> sp_channel p = c \<and> msg_ok chans p
            \<and> (o1 \<longrightarrow> sp_ssn p = of_nat (length (on_channel c (ep_sent e))))))"

definition send_inv :: "(u16 \<Rightarrow> bool option) \<Rightarrow> endpoint \<Rightarrow> bool" where
  "send_inv chans e \<longleftrightarrow> sent_in_order chans (ep_sent e) \<and> (\<forall>c. chan_tx_ok chans e c)"

definition link_inv :: "(u16 \<Rightarrow> bool option) \<Rightarrow> (bool \<Rightarrow> u32) \<Rightarrow> link \<Rightarrow> bool" where
  "link_inv chans base lk \<longleftrightarrow> (\<forall>x. send_inv chans (lk x) \<and> end_inv (side_of chans base lk x) (ep_state (lk x)))"

lemma end_inv_peer:
  assumes "end_inv P s" and "\<And>i. peer_has P i \<Longrightarrow> has i" and "peer_sent P \<le> m" and "m \<le> length (peer_frags P @ gs)"
    and "m < 2 ^ 31" and "frags_ok (my_chans P) (peer_frags P @ gs)"
  shows "end_inv (P\<lparr>peer_has := has, peer_frags := peer_frags P @ gs, peer_sent := m\<rparr>) s"
proof -
  have "tx_inv (P\<lparr>peer_has := has, peer_frags := peer_frags P @ gs, peer_sent := m\<rparr>) s"
    using assms(1) sent_ok_mono [of _ _ _ "peer_has P" _ has] assms(2)
    by (auto simp: end_inv_def tx_inv_def emits_def Let_def)
  moreover have "rx_inv (my_chans P) (peer_base P) (peer_frags P @ gs) m s"
    using assms(1,3) by (intro rx_inv_mono [where n = "peer_sent P"]) (simp_all add: end_inv_def side_ok_def)
  ultimately show ?thesis using assms by (simp add: end_inv_def side_ok_def)
qed

lemma end_inv_send:
  assumes inv: "end_inv P s" and r: "rview s' = rview s" and len: "length (my_frags P @ gs) < 2 ^ 31"
    and t: "next_tsn (tx s') = next_tsn (tx s)" "sent_queue (tx s') = sent_queue (tx s)" "has_pr_sctp (tx s') = has_pr_sctp (tx s)"
      "outbound_queue (tx s') = outbound_queue (tx s) @ gs" "t1_sent_time (tm s') = t1_sent_time (tm s)" "outgoing s' = outgoing s"
  shows "end_inv (P\<lparr>my_frags := my_frags P @ gs\<rparr>) s'" and "tx_count base s' = tx_count base s" and "rcvd base s' = rcvd base s"
proof -
  let ?P = "P\<lparr>my_frags := my_frags P @ gs\<rparr>" and ?n = "tx_count (my_base P) s"
  show n: "tx_count base s' = tx_count base s" for base by (simp add: tx_count_def t)
  show rc: "rcvd base s' = rcvd base s" for base by (rule rx_inv_rview(2) [OF r])
  have le: "?n \<le> length (my_frags P)" using inv by (simp add: end_inv_def tx_inv_def Let_def)
  then have "seg (my_base P) (my_frags P @ gs) ` {..<?n} = seg (my_base P) (my_frags P) ` {..<?n}"
    by (intro image_cong) (auto simp: seg_def nth_append)
  then have "emits ?P s' = emits P s" by (simp add: emits_def n rc chunk_set_def)
  then have "tx_inv ?P s'" using inv le sent_ok_append [OF _ le] by (simp add: end_inv_def tx_inv_def Let_def n t)
  then show "end_inv ?P s'" using inv len rx_inv_rview(1) [OF r] by (simp add: end_inv_def side_ok_def)
qed

lemma link_update:
  assumes inv: "link_inv chans base lk" and e: "send_inv chans e"
    and own: "end_inv ((side_of chans base lk x)\<lparr>my_frags := all_frags (ep_sent e)\<rparr>) (ep_state e)"
    and sent: "ep_sent e = ep_sent (lk x) @ ms"
    and grow: "tx_count (base x) (ep_state (lk x)) \<le> tx_count (base x) (ep_state e)"
      "\<And>i. rcvd (base (\<not> x)) (ep_state (lk x)) i \<Longrightarrow> rcvd (base (\<not> x)) (ep_state e) i"
  shows "link_inv chans base (lk(x := e))"
  unfolding link_inv_def
proof
  fix y
  let ?lk = "lk(x := e)" and ?P = "side_of chans base lk (\<not> x)" and ?m = "tx_count (base x) (ep_state e)"
  show "send_inv chans (?lk y) \<and> end_inv (side_of chans base ?lk y) (ep_state (?lk y))"
  proof (cases "y = x")
    case True
    have "side_of chans base ?lk x = (side_of chans base lk x)\<lparr>my_frags := all_frags (ep_sent e)\<rparr>" by (simp add: side_of_def)
    with True e own show ?thesis by simp
  next
    case False
    then have y: "y = (\<not> x)" by blast
    have m: "?m \<le> length (all_frags (ep_sent e))" "length (all_frags (ep_sent e)) < 2 ^ 31"
      using own by (simp_all add: end_inv_def tx_inv_def side_ok_def Let_def side_of_def)
    have P: "end_inv ?P (ep_state (lk (\<not> x)))" using inv by (simp add: link_inv_def)
    have "frags_ok chans (all_frags (ep_sent e))" using e by (intro frags_ok_sent) (simp add: send_inv_def)
    with m have "end_inv (?P\<lparr>peer_has := rcvd (base (\<not> x)) (ep_state e), peer_frags := peer_frags ?P @ all_frags ms, peer_sent := ?m\<rparr>)
        (ep_state (lk (\<not> x)))"
      using grow sent by (intro end_inv_peer [OF P]) (simp_all add: side_of_def)
    moreover have "side_of chans base ?lk (\<not> x) =
      ?P\<lparr>peer_has := rcvd (base (\<not> x)) (ep_state e), peer_frags := peer_frags ?P @ all_frags ms, peer_sent := ?m\<rparr>"
      by (simp add: side_of_def sent)
    ultimately show ?thesis using y inv by (simp add: link_inv_def)
  qed
qed

lemma chan_tx_cong:
  "tchans (ep_state e') c = tchans (ep_state e) c \<Longrightarrow> on_channel c (ep_sent e') = on_channel c (ep_sent e) \<Longrightarrow>
     ep_waiting e' c = ep_waiting e c \<Longrightarrow> chan_tx_ok chans e' c = chan_tx_ok chans e c"
  unfolding chan_tx_ok_def by (simp only:)

lemma step_progress:
  assumes inv: "link_inv chans base lk" and "progress (side_of chans base lk x) (ep_state (lk x)) s'"
  shows "link_inv chans base (lk(x := (lk x)\<lparr>ep_state := s'\<rparr>))"
proof (rule link_update [OF inv, where ms = "[]"])
  have "tchans s' = tchans (ep_state (lk x))" using assms(2) by (simp add: progress_def)
  then have "chan_tx_ok chans ((lk x)\<lparr>ep_state := s'\<rparr>) c = chan_tx_ok chans (lk x) c" for c by (intro chan_tx_cong) simp_all
  then show "send_inv chans ((lk x)\<lparr>ep_state := s'\<rparr>)" using inv by (simp add: link_inv_def send_inv_def)
  have "(side_of chans base lk x)\<lparr>my_frags := all_frags (ep_sent (lk x))\<rparr> = side_of chans base lk x" by (simp add: side_of_def)
  then show "end_inv ((side_of chans base lk x)\<lparr>my_frags := all_frags (ep_sent ((lk x)\<lparr>ep_state := s'\<rparr>))\<rparr>)
      (ep_state ((lk x)\<lparr>ep_state := s'\<rparr>))"
    using assms(2) by (simp add: progress_def)
qed (use assms(2) in \<open>simp_all add: progress_def side_of_def\<close>)

lemma network_incoming:
  assumes "link_inv chans base lk" and "p \<in> network lk x"
  shows "packet_of (incoming (side_of chans base lk x)) p"
proof -
  have "tx_inv (side_of chans base lk (\<not> x)) (ep_state (lk (\<not> x)))" using assms(1) by (simp add: link_inv_def end_inv_def)
  then have "packet_of (emits (side_of chans base lk (\<not> x)) (ep_state (lk (\<not> x)))) p"
    using assms(2) by (simp add: tx_inv_def Let_def network_def)
  then show ?thesis by (simp add: emits_def incoming_def side_of_def)
qed

lemma step_iterate:
  assumes inv: "link_inv chans base lk" and "event_from (\<lambda>p. p \<in> network lk x) ev" and "set queued \<subseteq> network lk x"
    and run: "loop_iteration ev queued hb (ep_state (lk x)) = (r, s')"
  shows "link_inv chans base (lk(x := (lk x)\<lparr>ep_state := s'\<rparr>))"
proof (rule step_progress [OF inv])
  let ?P = "side_of chans base lk x"
  have e: "end_inv ?P (ep_state (lk x))" using inv by (simp add: link_inv_def)
  have "event_from (packet_of (incoming ?P)) ev"
    using assms(2) network_incoming [OF inv] by (simp add: event_from_def split: loop_event.splits option.splits)
  moreover have "\<forall>p \<in> set queued. packet_of (incoming ?P) p" using assms(3) network_incoming [OF inv] by blast
  ultimately have "prog.keeps ?P (ep_state (lk x)) (loop_iteration ev queued hb)"
    using e by (intro prog_iteration) (simp_all add: end_inv_def)
  then show "progress ?P (ep_state (lk x)) s'"
    using run progress_refl [OF e] unfolding prog.keeps_def by (metis snd_conv)
qed

lemma step_tick:
  assumes inv: "link_inv chans base lk"
  shows "link_inv chans base (lk(x := (lk x)\<lparr>ep_state := (ep_state (lk x))\<lparr>sctp_now := now\<rparr>\<rparr>))"
proof (rule step_progress [OF inv])
  have "end_inv (side_of chans base lk x) (ep_state (lk x))" using inv by (simp add: link_inv_def)
  then show "progress (side_of chans base lk x) (ep_state (lk x)) ((ep_state (lk x))\<lparr>sctp_now := now\<rparr>)"
    using progress_refl calm_views(6) [OF sview_upd(7) rview_upd(9)] by blast
qed

lemma begin_state:
  assumes "send_begin c ppid s = (Ok p, s')" and "tchans s c = Some (o1, None, None, mp, nx)" and "ppid \<noteq> DATA_CHANNEL_PPID_DCEP"
  shows "p = \<lparr>sp_channel = c, sp_ppid = ppid, sp_ssn = (if o1 then nx else 0), sp_flags = (if o1 then 0 else 4),
      sp_max_payload = min mp 1172, sp_max_retransmits = None, sp_expiry = None\<rparr>"
    and "tchans s' = (tchans s)(c := Some (o1, None, None, mp, if o1 then nx + 1 else nx))"
    and "tx s' = tx s" and "tm s' = tm s" and "outgoing s' = outgoing s" and "rview s' = rview s"
proof -
  obtain dc where dc: "dc_find c (data_channels s) = Some dc" "dc_ordered dc = o1" "dc_max_retransmits dc = None"
    "dc_max_packet_life_time dc = None" "dc_max_payload_size dc = mp" "dc_next_ssn dc = nx"
    using assms(2) by (auto simp: tchans_def dc_tview_def)
  have run: "send_begin c ppid s = (Ok \<lparr>sp_channel = c, sp_ppid = ppid, sp_ssn = (if o1 then nx else 0),
      sp_flags = (if o1 then 0 else 4), sp_max_payload = min mp 1172, sp_max_retransmits = None, sp_expiry = None\<rparr>,
      if o1 then upd_dc c (\<lambda>dc. dc\<lparr>dc_next_ssn := dc_next_ssn dc + 1\<rparr>) s else s)"
    using dc assms(3) by (simp add: send_begin_def eget_def ethen_def ebind_def emod_def ret_def Let_def sctp_consts)
  then show "p = \<lparr>sp_channel = c, sp_ppid = ppid, sp_ssn = (if o1 then nx else 0), sp_flags = (if o1 then 0 else 4),
      sp_max_payload = min mp 1172, sp_max_retransmits = None, sp_expiry = None\<rparr>"
    and "tx s' = tx s" "tm s' = tm s" "outgoing s' = outgoing s"
    using assms(1) by (auto simp: upd_dc_def)
  have s': "s' = (if o1 then upd_dc c (\<lambda>dc. dc\<lparr>dc_next_ssn := dc_next_ssn dc + 1\<rparr>) s else s)" using run assms(1) by auto
  show "rview s' = rview s" using rv.keepsD [OF rv_send(1) assms(1)] .
  show "tchans s' = (tchans s)(c := Some (o1, None, None, mp, if o1 then nx + 1 else nx))"
  proof
    fix d
    show "tchans s' d = ((tchans s)(c := Some (o1, None, None, mp, if o1 then nx + 1 else nx))) d"
      using dc assms(2) by (auto simp: s' tchans_def dc_find_upd_dc dc_tview_def)
  qed
qed

lemma send_invI:
  "sent_in_order chans (ep_sent e) \<Longrightarrow> chan_tx_ok chans e c \<Longrightarrow> (\<And>d. d \<noteq> c \<Longrightarrow> chan_tx_ok chans e d) \<Longrightarrow> send_inv chans e"
  unfolding send_inv_def by metis

lemma step_queue:
  assumes inv: "link_inv chans base lk" and wait: "ep_waiting (lk x) c = None"
    and dc: "dc_find c (data_channels (ep_state (lk x))) \<noteq> None" and ppid: "ppid \<noteq> DATA_CHANNEL_PPID_DCEP"
    and run: "send_begin c ppid (ep_state (lk x)) = (Ok p, s')"
  shows "link_inv chans base (lk(x := (lk x)\<lparr>ep_state := s', ep_waiting := (ep_waiting (lk x))(c := Some (p, data))\<rparr>))"
    (is "link_inv chans base (lk(x := ?e))")
proof (rule link_update [OF inv, where ms = "[]"])
  have tx: "chan_tx_ok chans (lk x) c" and send: "sent_in_order chans (ep_sent (lk x))"
    using inv by (auto simp: link_inv_def send_inv_def)
  moreover have "tchans (ep_state (lk x)) c \<noteq> None" using dc by (simp add: tchans_def)
  ultimately obtain o1 mp nx where c: "chans c = Some o1" "tchans (ep_state (lk x)) c = Some (o1, None, None, mp, nx)" "0 < mp"
    "o1 \<longrightarrow> nx = of_nat (length (on_channel c (ep_sent (lk x))))"
    using wait by (auto simp: chan_tx_ok_def split: option.splits)
  note b = begin_state [OF run c(2) ppid]
  have "msg_ok chans p" using c ppid by (simp add: b(1) msg_ok_def sp_ok_def)
  then have "chan_tx_ok chans ?e c" using c by (auto simp: chan_tx_ok_def b)
  moreover have "chan_tx_ok chans ?e d" if "d \<noteq> c" for d
  proof -
    have "chan_tx_ok chans ?e d = chan_tx_ok chans (lk x) d" using that by (intro chan_tx_cong) (simp_all add: b(2))
    then show ?thesis using inv by (simp add: link_inv_def send_inv_def)
  qed
  ultimately show "send_inv chans ?e" using send by (intro send_invI [where c = c]) simp_all
  have "end_inv (side_of chans base lk x) (ep_state (lk x))" using inv by (simp add: link_inv_def)
  then show "end_inv ((side_of chans base lk x)\<lparr>my_frags := all_frags (ep_sent ?e)\<rparr>) (ep_state ?e)"
    using end_inv_send(1) [of "side_of chans base lk x" "ep_state (lk x)" s' "[]"] b
    by (simp add: end_inv_def side_ok_def) (simp add: side_of_def)
  show "tx_count (base x) (ep_state (lk x)) \<le> tx_count (base x) (ep_state ?e)" by (simp add: tx_count_def b(3))
  show "rcvd (base (\<not> x)) (ep_state ?e) i" if "rcvd (base (\<not> x)) (ep_state (lk x)) i" for i
    using that rx_inv_rview(2) [OF b(6)] by simp
qed simp

lemma tchans_account [simp]: "tchans (account_stream_queued i n s) = tchans s"
proof -
  have "tchans (upd_dc i (on_buffered_amount k) s) = tchans s" for k s
    by (rule tchans_upd_dc) (simp_all add: dc_tview_def)
  then show ?thesis by (simp add: account_stream_queued_def publish_stream_buffered_def Let_def)
qed

lemma account_frame [simp]:
  "next_tsn (tx (account_stream_queued i n s)) = next_tsn (tx s)" "sent_queue (tx (account_stream_queued i n s)) = sent_queue (tx s)"
  "has_pr_sctp (tx (account_stream_queued i n s)) = has_pr_sctp (tx s)" "tm (account_stream_queued i n s) = tm s"
  "outbound_queue (tx (account_stream_queued i n s)) = outbound_queue (tx s)" "outgoing (account_stream_queued i n s) = outgoing s"
  by (simp_all add: account_stream_queued_def publish_stream_buffered_def Let_def upd_dc_def upd_tx_def)

lemma fragments_of: "sp_ok p \<Longrightarrow> data \<noteq> [] \<Longrightarrow> fragment_loop p data 0 = Some (frags (p, data))"
  using fragment_loop_pieces [of p 0 data] by (simp add: frags_def sp_ok_def)

lemma admit_state:
  assumes "send_admit p data s = (Ok (), s')" and "sp_ok p"
  shows "next_tsn (tx s') = next_tsn (tx s)" "sent_queue (tx s') = sent_queue (tx s)" "has_pr_sctp (tx s') = has_pr_sctp (tx s)"
    "outbound_queue (tx s') = outbound_queue (tx s) @ frags (p, data)" "t1_sent_time (tm s') = t1_sent_time (tm s)"
    "outgoing s' = outgoing s" "tchans s' = tchans s"
proof -
  let ?s = "account_stream_queued (sp_channel p) (length data) (upd_tx (\<lambda>t. t\<lparr>queued_bytes := queued_bytes t + length data\<rparr>) s)"
  have "s' = notify_timer (upd_tx (\<lambda>t. t\<lparr>outbound_queue := outbound_queue t @ frags (p, data)\<rparr>) ?s)"
  proof (cases "data = []")
    case True
    then show ?thesis
      using assms(1) by (auto simp: send_admit_def eget_def ethen_def ebind_def emod_def efail_def frags_def split: if_splits)
  next
    case False
    then show ?thesis
      using assms(1) fragments_of [OF assms(2) False]
      by (auto simp: send_admit_def eget_def ethen_def ebind_def emod_def efail_def split: if_splits)
  qed
  then show "next_tsn (tx s') = next_tsn (tx s)" "sent_queue (tx s') = sent_queue (tx s)" "has_pr_sctp (tx s') = has_pr_sctp (tx s)"
    "outbound_queue (tx s') = outbound_queue (tx s) @ frags (p, data)" "t1_sent_time (tm s') = t1_sent_time (tm s)"
    "outgoing s' = outgoing s" "tchans s' = tchans s"
    by (simp_all add: notify_timer_def) (simp_all add: upd_tx_def upd_tm_def)
qed

lemma step_admit:
  assumes inv: "link_inv chans base lk" and wait: "ep_waiting (lk x) c = Some (p, data)"
    and len: "length (all_frags (ep_sent (lk x) @ [(p, data)])) < 2 ^ 31"
    and run: "send_admit p data (ep_state (lk x)) = (Ok (), s')"
  shows "link_inv chans base (lk(x := (lk x)\<lparr>ep_state := s', ep_sent := ep_sent (lk x) @ [(p, data)],
       ep_waiting := (ep_waiting (lk x))(c := None)\<rparr>))" (is "link_inv chans base (lk(x := ?e))")
proof (rule link_update [OF inv, where ms = "[(p, data)]"])
  have tx: "chan_tx_ok chans (lk x) c" and send: "sent_in_order chans (ep_sent (lk x))"
    using inv by (auto simp: link_inv_def send_inv_def)
  then obtain o1 mp where c: "chans c = Some o1" "0 < mp" "sp_channel p = c" "msg_ok chans p"
    "o1 \<longrightarrow> sp_ssn p = of_nat (length (on_channel c (ep_sent (lk x))))"
    "\<exists>nx. tchans (ep_state (lk x)) c = Some (o1, None, None, mp, nx) \<and> (o1 \<longrightarrow> nx = of_nat (length (on_channel c (ep_sent (lk x))) + 1))"
    using wait by (auto simp: chan_tx_ok_def split: option.splits)
  have p: "sp_ok p" using c(4) by (simp add: msg_ok_def)
  note a = admit_state [OF run p]
  have "chan_tx_ok chans ?e c" using c by (auto simp: chan_tx_ok_def a(7))
  moreover have "chan_tx_ok chans ?e d" if "d \<noteq> c" for d
  proof -
    have "chan_tx_ok chans ?e d = chan_tx_ok chans (lk x) d" using that c(3) by (intro chan_tx_cong) (simp_all add: a(7))
    then show ?thesis using inv by (simp add: link_inv_def send_inv_def)
  qed
  moreover have "sent_in_order chans (ep_sent ?e)" using send c by (simp add: sent_in_order_snoc)
  ultimately show "send_inv chans ?e" by (intro send_invI [where c = c])
  have e: "end_inv (side_of chans base lk x) (ep_state (lk x))" using inv by (simp add: link_inv_def)
  have r: "rview s' = rview (ep_state (lk x))" using rv.keepsD [OF rv_send(2) run] .
  have "length (my_frags (side_of chans base lk x) @ frags (p, data)) < 2 ^ 31" using len by (simp add: side_of_def)
  then show "end_inv ((side_of chans base lk x)\<lparr>my_frags := all_frags (ep_sent ?e)\<rparr>) (ep_state ?e)"
    using end_inv_send(1) [OF e r _ a(1,2,3,4,5,6)] by (simp add: side_of_def)
  show "tx_count (base x) (ep_state (lk x)) \<le> tx_count (base x) (ep_state ?e)" by (simp add: tx_count_def a(1))
  show "rcvd (base (\<not> x)) (ep_state ?e) i" if "rcvd (base (\<not> x)) (ep_state (lk x)) i" for i
    using that rx_inv_rview(2) [OF r] by simp
qed simp

lemma link_inv_start:
  assumes "link_start chans base lk"
  shows "link_inv chans base lk"
  unfolding link_inv_def
proof
  fix x
  let ?s = "ep_state (lk x)"
  have start: "end_start chans (base y) (base (\<not> y)) (lk y)" for y using assms by (simp add: link_start_def)
  then have n: "tx_count (base y) (ep_state (lk y)) = 0" and sent: "ep_sent (lk y) = []"
    and k: "rx_count (base (\<not> y)) (ep_state (lk y)) = 0" for y
    by (simp_all add: end_start_def Let_def tx_count_def rx_count_def)
  have chan: "chan_tx_ok chans (lk x) c" "\<forall>o1. chans c = Some o1 \<longrightarrow> chan_at ?s c o1 ([], 0, [])" for c
    using start [of x]
    by (auto simp: end_start_def Let_def chan_tx_ok_def chan_start_def tchans_def dc_tview_def chan_at_def dc_rview_def
        bt_ok_def bt_keys_def bt_get_def sent split: option.splits dest!: spec [where x = c])
  then have "send_inv chans (lk x)" by (simp add: send_inv_def sent)
  moreover have "chans_at chans ?s []" using chan(2) by (simp add: chans_at_def chan_after_def)
  then have "rx_inv chans (base (\<not> x)) [] 0 ?s"
    using start [of x] by (simp add: rx_inv_def k queue_ok_def end_start_def Let_def bt_ok_def bt_keys_def)
  moreover have "tx_inv (side_of chans base lk x) ?s"
    using start [of x] n [of x] by (simp add: tx_inv_def side_of_def sent sent_ok_def end_start_def Let_def bt_ok_def bt_keys_def)
  ultimately show "send_inv chans (lk x) \<and> end_inv (side_of chans base lk x) ?s"
    using n [of "\<not> x"] by (simp add: end_inv_def side_ok_def side_of_def sent frags_ok_def)
qed

lemma link_inv_step: "link_step lk lk' \<Longrightarrow> link_inv chans base lk \<Longrightarrow> link_inv chans base lk'"
  by (induction rule: link_step.induct) (auto intro: step_queue step_admit step_iterate step_tick)

lemma link_inv_run:
  assumes "link_start chans base lk0" and "link_step\<^sup>*\<^sup>* lk0 lk"
  shows "link_inv chans base lk"
  using assms(2) by (induction rule: rtranclp_induct) (auto intro: link_inv_step link_inv_start [OF assms(1)])

section \<open>Delivery\<close>

lemma delivered_after:
  assumes inv: "link_inv chans base lk" and c: "chans c = Some o1"
  shows "delivered lk (\<not> x) c = snd (snd (chan_after o1 c (take (rx_count (base x) (ep_state (lk (\<not> x)))) (all_frags (ep_sent (lk x))))))"
proof -
  let ?s = "ep_state (lk (\<not> x))" and ?st = "chan_after o1 c (take (rx_count (base x) (ep_state (lk (\<not> x)))) (all_frags (ep_sent (lk x))))"
  have "end_inv (side_of chans base lk (\<not> x)) ?s" using inv by (simp add: link_inv_def)
  then have "chan_at ?s c o1 ?st" using c by (simp add: end_inv_def rx_inv_def chans_at_def side_of_def)
  then show ?thesis
    by (auto simp: chan_at_def delivered_def dc_rview_def split: prod.splits option.splits)
qed

lemma sent_after:
  assumes "link_inv chans base lk" and "chans c = Some o1"
  shows "sent_on lk x c = snd (snd (chan_after o1 c (all_frags (ep_sent (lk x)))))"
proof -
  have "sent_in_order chans (ep_sent (lk x))" using assms(1) by (simp add: link_inv_def send_inv_def)
  then show ?thesis using chan_after_sent assms(2) by (simp add: sent_on_def)
qed

lemma drained_received:
  assumes inv: "link_inv chans base lk" and "drained lk x"
  shows "rx_count (base x) (ep_state (lk (\<not> x))) = length (all_frags (ep_sent (lk x)))"
proof -
  let ?fs = "all_frags (ep_sent (lk x))" and ?s = "ep_state (lk x)" and ?s' = "ep_state (lk (\<not> x))"
  let ?n = "tx_count (base x) ?s" and ?k = "rx_count (base x) ?s'"
  have tx: "tx_inv (side_of chans base lk x) ?s" and rx: "rx_inv chans (base x) ?fs ?n ?s'"
    using inv unfolding link_inv_def end_inv_def by (auto simp: side_of_def dest: spec [where x = x] spec [where x = "\<not> x"])
  have n: "?n = length ?fs" using tx assms(2) by (simp add: tx_inv_def Let_def side_of_def drained_def)
  have "\<forall>e \<in> set (core (sent_queue (tx ?s))). snd (snd e)" using assms(2) by (auto simp: drained_def core_def)
  then have has: "rcvd (base x) ?s' i" if "i < ?n" for i
    using tx that by (fastforce simp: tx_inv_def Let_def side_of_def sent_ok_def)
  have "\<not> rcvd (base x) ?s' ?k" using rx by (simp add: rx_inv_def rcvd_def)
  then have "\<not> ?k < ?n" using has by blast
  moreover have "?k \<le> ?n" using rx by (simp add: rx_inv_def)
  ultimately show ?thesis using n by simp
qed

section \<open>A run\<close>

definition demo_cfg :: sctp_cfg where
  "demo_cfg = \<lparr>local_port = 5000, remote_port = 5000, is_client = True, local_rwnd = 131072, max_association_retransmits = 10,
     heartbeat_interval = secs 15, max_heartbeat_failures = 4, max_tsn_retransmits = 8, max_burst_packets = 0,
     max_cwnd = 262144, max_buffered_amount = 262144, has_listener = False, cookie_hmac_key = [], hmac_sha1 = (\<lambda>_ _. [])\<rparr>"

definition demo_channel :: data_channel where
  "demo_channel = data_channel_new 1 \<lparr>cfg_label = [], cfg_protocol = [], cfg_ordered = True, cfg_max_retransmits = None,
     cfg_max_packet_life_time = None, cfg_max_payload_size = None, cfg_negotiated = Some 1, cfg_low_threshold = 0\<rparr>"

definition demo_chans :: "u16 \<Rightarrow> bool option" where
  "demo_chans c = (if c = 1 then Some True else None)"

definition demo_base :: "bool \<Rightarrow> u32" where
  "demo_base x = (if x then 0xFFFFFFFF else 20)"

definition demo_sctp :: "bool \<Rightarrow> sctp" where
  "demo_sctp x = upd_rx (\<lambda>r. r\<lparr>cumulative_tsn_ack := demo_base (\<not> x) - 1\<rparr>) (upd_tx (\<lambda>t. t\<lparr>next_tsn := demo_base x\<rparr>)
     ((sctp_new demo_cfg (rto_calc_new 1 1 60) [Some demo_channel] (\<lambda>_. 0) 0 0)
        \<lparr>assoc_state := Sctp_Connected, remote_verification_tag := 7\<rparr>))"

definition demo_start :: link where
  "demo_start x = \<lparr>ep_state = demo_sctp x, ep_sent = [], ep_waiting = (\<lambda>_. None)\<rparr>"

definition demo_params :: send_params where
  "demo_params = \<lparr>sp_channel = 1, sp_ppid = 53, sp_ssn = 0, sp_flags = 0, sp_max_payload = 1172, sp_max_retransmits = None, sp_expiry = None\<rparr>"

definition demo_chunk :: bytes where
  "demo_chunk = wire_chunk CT_DATA 3 (data_value 1 53 [1, 2, 3] 0 0xFFFFFFFF)"

lemmas demo_simps = demo_sctp_def sctp_new_def upd_defs demo_cfg_def demo_channel_def data_channel_new_def rto_calc_new_def demo_base_def

lemma demo_begin: "send_begin 1 53 (demo_sctp True) = (Ok demo_params, upd_dc 1 (\<lambda>dc. dc\<lparr>dc_next_ssn := 1\<rparr>) (demo_sctp True))"
  by (simp add: send_begin_def run_simps demo_simps demo_params_def sctp_consts upd_dc_def DATA_CHANNEL_PPID_DCEP_def)

definition demo_a1 :: sctp where
  "demo_a1 = upd_dc 1 (\<lambda>dc. dc\<lparr>dc_next_ssn := 1\<rparr>) (demo_sctp True)"

definition demo_a2 :: sctp where
  "demo_a2 = snd (send_admit demo_params [1, 2, 3] demo_a1)"

lemma demo_frag: "fragment_loop demo_params [1, 2, 3] 0 = Some [out_chunk demo_params 3 [1, 2, 3]]"
  by (simp add: fragment_loop.simps demo_params_def Let_def)

lemma demo_admit: "send_admit demo_params [1, 2, 3] demo_a1 = (Ok (), demo_a2)"
  by (simp add: demo_a2_def send_admit_def run_simps demo_simps demo_frag demo_a1_def upd_dc_def)

lemmas demo_a2_simps = demo_a2_def send_admit_def run_simps demo_simps demo_frag [unfolded demo_params_def] demo_a1_def upd_dc_def account_stream_queued_def
   publish_stream_buffered_def buffered_amount_for_def bt_get_def demo_params_def notify_timer_def out_chunk_def on_buffered_amount_def

lemma loop_sleep_quiet:
  assumes "sent_queue (tx s) = []"
  shows "\<exists>t. snd (loop_sleep hb s) = flush_expired_sack_delay (upd_tm (\<lambda>m. m\<lparr>cached_rto_timeout := t\<rparr>) s)"
proof -
  obtain t s1 where r: "rto_timeout s = (t, s1)" by fastforce
  note s1 = rto_timeout_state [OF r]
  have "tlp_timeout (flush_expired_sack_delay s1) = secs 3600"
    using s1 assms by (auto simp: tlp_timeout_def Let_def flush_expired_sack_delay_def upd_defs split: option.split)
  then have "snd (loop_sleep hb s) = flush_expired_sack_delay s1"
    using loop_sleep_state [OF r, of hb] by (simp add: millis_def secs_def)
  with s1 show ?thesis by blast
qed

lemmas demo_transmit_simps = transmit_def transmit_sack_def create_sack_chunk_def effective_window_def
   transmit_retransmissions_def transmit_new_data_def transmit_forward_tsn_def transmit_chunks_def transmit_chunks_with_tag_def
   send_packet_with_tag_def note_send_or_ack_def new_record_def create_data_chunk_def sctp_consts advertised_rwnd_def
   build_gap_ack_blocks_from_map_def Let_def

lemma retransmit_none: "\<forall>(t, r) \<in> set q. \<not> needs_retransmit r \<Longrightarrow> retransmit_phase now q = (q, 0, [])"
  by (induction now q rule: retransmit_phase.induct) auto

lemma transmit_quiet:
  assumes "\<not> sack_needed (rx s)" and "\<forall>(t, r) \<in> set (sent_queue (tx s)). \<not> needs_retransmit r" and "outbound_queue (tx s) = []"
    and "\<not> has_pr_sctp (tx s)"
  shows "transmit s = (Ok (), upd_tx (\<lambda>t. t\<lparr>window_limited := False\<rparr>) s)"
  using assms retransmit_none [OF assms(2)]
  by (simp add: transmit_def transmit_sack_def transmit_retransmissions_def transmit_new_data_def transmit_forward_tsn_def
      eff_app Let_def upd_tx_def)

lemma demo_transmitted:
  "\<exists>s r. transmit (upd_tm f demo_a2) = (Ok (), s) \<and> outgoing s = [build_packet 5000 5000 7 [demo_chunk]]
     \<and> sent_queue (tx s) = [(0xFFFFFFFF, r)] \<and> payload r = demo_chunk \<and> \<not> acked r \<and> \<not> needs_retransmit r
     \<and> outbound_queue (tx s) = [] \<and> \<not> has_pr_sctp (tx s) \<and> \<not> sack_needed (rx s) \<and> assoc_state s = Sctp_Connected"
  by (simp add: demo_chunk_def demo_transmit_simps demo_a2_simps)

definition demo_a3 :: sctp where
  "demo_a3 = snd (loop_iteration Loop_timer [] 0 demo_a2)"

lemma demo_a3: "outgoing demo_a3 = [build_packet 5000 5000 7 [demo_chunk]]
  \<and> core (sent_queue (tx demo_a3)) = [(0xFFFFFFFF, demo_chunk, False)] \<and> outbound_queue (tx demo_a3) = []
  \<and> \<not> has_pr_sctp (tx demo_a3) \<and> assoc_state demo_a3 = Sctp_Connected"
proof -
  have a: "sent_queue (tx demo_a2) = []" "assoc_state demo_a2 = Sctp_Connected" "sack_delayed_until (rx demo_a2) = None"
    by (simp_all add: demo_a2_simps)
  obtain t where t: "snd (loop_sleep 0 demo_a2) = flush_expired_sack_delay (upd_tm (\<lambda>m. m\<lparr>cached_rto_timeout := t\<rparr>) demo_a2)"
    using loop_sleep_quiet a by blast
  let ?s = "upd_tm (\<lambda>m. m\<lparr>timer_notify := False, cached_rto_timeout := t\<rparr>) demo_a2"
  obtain s r where s: "transmit ?s = (Ok (), s)" "outgoing s = [build_packet 5000 5000 7 [demo_chunk]]" "sent_queue (tx s) = [(0xFFFFFFFF, r)]"
     "payload r = demo_chunk" "\<not> acked r" "\<not> needs_retransmit r" "outbound_queue (tx s) = []" "\<not> has_pr_sctp (tx s)" "\<not> sack_needed (rx s)"
     "assoc_state s = Sctp_Connected"
    using demo_transmitted by blast
  have q: "transmit s = (Ok (), upd_tx (\<lambda>t. t\<lparr>window_limited := False\<rparr>) s)" by (rule transmit_quiet) (simp_all add: s)
  have "upd_tm (\<lambda>t. t\<lparr>timer_notify := False\<rparr>) (snd (loop_sleep 0 demo_a2)) = ?s"
    using t a(3) by (simp add: flush_expired_sack_delay_def upd_tm_def)
  then have "demo_a3 = upd_tx (\<lambda>t. t\<lparr>window_limited := False\<rparr>) s"
    using a(2) s(1) q by (simp add: demo_a3_def loop_iteration_def loop_event_step_def eignore_def eff_app)
  then show ?thesis unfolding \<open>demo_a3 = _\<close> using s(2-10) by (simp add: upd_tx_def)
qed

lemma demo_chunks: "chunks demo_chunk = [(CT_DATA, 3, data_value 1 53 [1, 2, 3] 0 0xFFFFFFFF)]"
  using chunks_wire [of "[(CT_DATA, 3, data_value 1 53 [1, 2, 3] 0 0xFFFFFFFF)]"]
  by (simp add: demo_chunk_def chunk_wire_def chunk_fits_def data_value_def)

lemma demo_data:
  assumes "cumulative_tsn_ack (rx s) = 0xFFFFFFFE" and "received_queue (rx s) = []"
  shows "handle_data 3 (data_value 1 53 [1, 2, 3] 0 0xFFFFFFFF) s =
    (Ok (), schedule_sack_delayed (upd_rx (\<lambda>r. r\<lparr>cumulative_tsn_ack := 0xFFFFFFFF\<rparr>) (deliver_data 3 1 0 [1, 2, 3] s)))"
  using assms handle_data_next [of "0xFFFFFFFF" s "out_chunk demo_params 3 [1, 2, 3]"]
  by (simp add: fvalue_def out_chunk_def demo_params_def rx_step_def DATA_CHANNEL_PPID_DCEP_def)

lemma demo_again:
  assumes "cumulative_tsn_ack (rx s) = 0xFFFFFFFF" and "dups_buffer (rx s) = []"
  shows "handle_data 3 (data_value 1 53 [1, 2, 3] 0 0xFFFFFFFF) s =
    (Ok (), schedule_sack_immediate (upd_rx (\<lambda>r. r\<lparr>dups_buffer := [0xFFFFFFFF]\<rparr>) s))"
  using assms by (simp add: handle_data_def data_value_def read_simps run_simps MAX_DUPS_BUFFER_SIZE_def upd_rx_def)

definition demo_b1 :: sctp where
  "demo_b1 = snd (loop_iteration (Loop_packet (Some (build_packet 5000 5000 7 [demo_chunk]))) [build_packet 5000 5000 7 [demo_chunk]] 0
     (demo_sctp False))"

definition out_view where
  "out_view s = (cfg s, assoc_state s, remote_verification_tag s, tx s, outgoing s, outgoing_open s)"

lemma out_view_upd [simp]:
  "out_view (upd_rx f s) = out_view s" "out_view (upd_dc i g s) = out_view s" "out_view (upd_tm h s) = out_view s"
  "out_view (upd_stats k s) = out_view s"
  by (simp_all add: out_view_def upd_defs upd_dc_def)

lemma out_view_deliver [simp]: "out_view (deliver_data flags c ssn data s) = out_view s"
  by (simp add: deliver_data_def Let_def split: option.split prod.split)

lemma deliver_data_rx [simp]:
  "cumulative_tsn_ack (rx (deliver_data flags c ssn data s)) = cumulative_tsn_ack (rx s)"
  "received_queue (rx (deliver_data flags c ssn data s)) = received_queue (rx s)"
  "dups_buffer (rx (deliver_data flags c ssn data s)) = dups_buffer (rx s)"
  by (simp_all add: deliver_data_def Let_def split: option.split prod.split)

lemma rx_frame [simp]: "rx (upd_tm f s) = rx s" "rx (upd_stats g s) = rx s" "rx (notify_timer s) = rx s"
  by (simp_all add: upd_defs notify_timer_def)

lemma demo_packet:
  "handle_packet (build_packet 5000 5000 7 [demo_chunk]) s =
     (case handle_data 3 (data_value 1 53 [1, 2, 3] 0 0xFFFFFFFF)
        (upd_stats (\<lambda>t. t\<lparr>stats_bytes_received := stats_bytes_received t + (12 + length demo_chunk),
           stats_packets_received := stats_packets_received t + 1\<rparr>) s) of
      (Inl f, s') \<Rightarrow> (Inl f, s') | (Inr _, s') \<Rightarrow> (Ok (), s'))"
  unfolding handle_packet_built
  by (simp add: demo_chunks dispatch_chunk_def ct_consts eff_app split: prod.split sum.split)

lemma transmit_sack_only:
  assumes "sack_needed (rx s)" and "sent_queue (tx s) = []" and "outbound_queue (tx s) = []" and "\<not> has_pr_sctp (tx s)" and "outgoing_open s"
  shows "outgoing (snd (transmit s)) = outgoing s @ [build_packet (local_port (cfg s)) (remote_port (cfg s)) (remote_verification_tag s)
    [wire_chunk CT_SACK 0 (sack_value (cumulative_tsn_ack (rx s)) (advertised_rwnd s)
       (build_gap_ack_blocks_from_map (received_queue (rx s)) (cumulative_tsn_ack (rx s))) (take 32 (dups_buffer (rx s))))]]"
  using assms
  by (simp add: transmit_def transmit_sack_def create_sack_chunk_def transmit_retransmissions_def transmit_new_data_def
      transmit_forward_tsn_def transmit_chunks_def transmit_chunks_with_tag_def send_packet_with_tag_def eff_app Let_def upd_defs
      advertised_rwnd_def)

lemma demo_b1: "\<exists>w. outgoing demo_b1 = [build_packet 5000 5000 7 [wire_chunk CT_SACK 0 (sack_value 0xFFFFFFFF w [] [0xFFFFFFFF])]]"
proof -
  let ?s = "demo_sctp False" and ?p = "build_packet 5000 5000 7 [demo_chunk]"
  let ?stat = "\<lambda>s. upd_stats (\<lambda>t. t\<lparr>stats_bytes_received := stats_bytes_received t + (12 + length demo_chunk),
              stats_packets_received := stats_packets_received t + 1\<rparr>) s"
  have a: "sent_queue (tx ?s) = []" "assoc_state ?s = Sctp_Connected" "sack_delayed_until (rx ?s) = None"
    "cumulative_tsn_ack (rx ?s) = 0xFFFFFFFE" "received_queue (rx ?s) = []" "dups_buffer (rx ?s) = []"
    by (simp_all add: demo_simps)
  obtain t where "snd (loop_sleep 0 ?s) = flush_expired_sack_delay (upd_tm (\<lambda>m. m\<lparr>cached_rto_timeout := t\<rparr>) ?s)"
    using loop_sleep_quiet a by blast
  then have t: "snd (loop_sleep 0 ?s) = upd_tm (\<lambda>m. m\<lparr>cached_rto_timeout := t\<rparr>) ?s" (is "_ = ?s0")
    using a(3) by (simp add: flush_expired_sack_delay_def upd_tm_def)
  define s1 where "s1 = schedule_sack_delayed (upd_rx (\<lambda>r. r\<lparr>cumulative_tsn_ack := 0xFFFFFFFF\<rparr>) (deliver_data 3 1 0 [1, 2, 3] (?stat ?s0)))"
  define s2 where "s2 = schedule_sack_immediate (upd_rx (\<lambda>r. r\<lparr>dups_buffer := [0xFFFFFFFF]\<rparr>) (?stat s1))"
  have one: "handle_packet ?p ?s0 = (Ok (), s1)" unfolding demo_packet by (subst demo_data) (simp_all add: a s1_def)
  have two: "handle_packet ?p s1 = (Ok (), s2)"
    unfolding demo_packet by (subst demo_again) (simp_all add: a s1_def s2_def schedule_sack_delayed_def)
  have "out_view s2 = out_view ?s" by (simp add: s2_def s1_def schedule_sack_delayed_def schedule_sack_immediate_def notify_timer_def)
  then have v: "local_port (cfg s2) = 5000" "remote_port (cfg s2) = 5000" "remote_verification_tag s2 = 7" "sent_queue (tx s2) = []" "outbound_queue (tx s2) = []"
     "\<not> has_pr_sctp (tx s2)" "outgoing_open s2" "outgoing s2 = []"
     by (simp_all add: out_view_def demo_simps)
  have r: "cumulative_tsn_ack (rx s2) = 0xFFFFFFFF" "received_queue (rx s2) = []" "dups_buffer (rx s2) = [0xFFFFFFFF]" "sack_needed (rx s2)"
    by (simp_all add: s2_def s1_def schedule_sack_delayed_def schedule_sack_immediate_def a)
  have "outgoing demo_b1 = outgoing (snd (transmit s2))"
    using a(2)
    by (auto simp: demo_b1_def loop_iteration_def loop_event_step_def eignore_def eff_app t one two
        split: prod.split sum.split fault.split)
  then have "outgoing demo_b1 = [build_packet 5000 5000 7 [wire_chunk CT_SACK 0 (sack_value 0xFFFFFFFF (advertised_rwnd s2) [] [0xFFFFFFFF])]]"
    using transmit_sack_only [of s2] v r by (simp add: build_gap_ack_blocks_from_map_def bt_keys_def)
  then show ?thesis by blast
qed

text \<open>An endpoint with nothing to send stays so.\<close>

definition idle :: "sctp \<Rightarrow> bool" where
  "idle s \<longleftrightarrow> core (sent_queue (tx s)) = [] \<and> outbound_queue (tx s) = [] \<and> \<not> has_pr_sctp (tx s)"

interpretation idle: state_order "\<lambda>s s'. idle s \<longrightarrow> idle s'"
  by unfold_locales auto

lemma idle_calm: "calm.keeps m \<Longrightarrow> idle.keeps m"
  unfolding calm.keeps_def idle.keeps_def by (simp add: sview_def tcore_def idle_def)

lemma idle_emod: "(\<And>s. sview (f s) = sview s) \<Longrightarrow> idle.keeps (emod f)"
  by (intro idle.keeps_emod) (simp add: sview_def tcore_def idle_def)

lemmas idle_intros = idle.keeps_ebind idle.keeps_ethen idle.keeps_eget idle.keeps_if idle.keeps_Let idle.keeps_ret idle.keeps_eiter idle_emod

lemma idle_transmit: "idle.keeps transmit"
proof -
  have "idle.keeps transmit_retransmissions"
  proof (unfold idle.keeps_def, intro allI impI)
    fix s :: sctp
    obtain q added cs where ph: "retransmit_phase (sctp_now s) (sent_queue (tx s)) = (q, added, cs)" by (metis prod_cases3)
    assume "idle s"
    moreover have "core q = core (sent_queue (tx s))" using core_retransmit [of "sctp_now s" "sent_queue (tx s)"] ph by simp
    ultimately show "idle (snd (transmit_retransmissions s))"
      by (simp add: transmit_retransmissions_def ph eff_app idle_def upd_defs)
  qed
  moreover have "idle.keeps (transmit_new_data w)" for w
    unfolding idle.keeps_def by (simp add: transmit_new_data_def eff_app idle_def upd_defs note_send_or_ack_def)
  moreover have "idle.keeps transmit_forward_tsn"
    unfolding idle.keeps_def by (simp add: transmit_forward_tsn_def eff_app idle_def)
  moreover have "idle.keeps (transmit_chunks cs)" for cs
    using out_transmit(2) [of cs UNIV] unfolding idle.keeps_def out.keeps_def by (simp add: out_of_def idle_def)
  ultimately show ?thesis unfolding transmit_def by (intro idle_intros idle_calm [OF calm_basic(4)])
qed

definition demo_a4 :: "u32 \<Rightarrow> sctp" where
  "demo_a4 w = snd (loop_iteration (Loop_packet (Some (build_packet 5000 5000 7
     [wire_chunk CT_SACK 0 (sack_value 0xFFFFFFFF w [] [0xFFFFFFFF])]))) [] 0 demo_a3)"

lemma idle_first: "idle (f s) \<Longrightarrow> idle.keeps k \<Longrightarrow> idle (snd (ethen (emod f) k s))"
  by (simp add: idle.keeps_def eff_app)

lemma idle_then_get: "idle (snd (k (f s) (f s))) \<Longrightarrow> idle (snd (ethen (emod f) (eget k) s))"
  by (simp add: eff_app)

lemma idle_ebind: "idle (snd (m s)) \<Longrightarrow> (\<And>x. idle.keeps (k x)) \<Longrightarrow> idle (snd (ebind m k s))"
  by (auto simp: idle.keeps_def eff_app split: prod.split sum.split)

lemma idle_eignore: "idle.keeps m \<Longrightarrow> idle.keeps (eignore m)"
  unfolding idle.keeps_def by simp

lemma idle_process_sack:
  assumes "core (sent_queue (tx s)) = [(t, p, a)]" and "outbound_queue (tx s) = []" and "\<not> has_pr_sctp (tx s)"
  shows "idle (snd (process_sack t w [] s))"
proof -
  let ?s = "upd_tx (\<lambda>t. t\<lparr>peer_rwnd := w\<rparr>) s"
  obtain r where q: "sent_queue (tx ?s) = [(t, r)]" using assms(1) by (auto simp: core_def upd_tx_def)
  obtain q' outcome where app: "apply_sack_to_sent_queue (sent_queue (tx ?s)) t [] (sctp_now ?s)
      (last_sack_sig (tx ?s) \<noteq> sack_signature t []) (max_tsn_retransmits (cfg ?s)) = (q', outcome)" by fastforce
  have "\<not> late_sack [(t, r)] t []" by (simp add: late_sack_def bt_first_def)
  then have "q' = []"
    using apply_sack_queue [of "[(t, r)]" t "[]"] app by (simp add: q bt_ok_def bt_keys_def tsn.gt_irrefl) (metis fst_conv)
  then have "idle (upd_tx (\<lambda>t1. t1\<lparr>last_sack_sig := sack_signature t [], sent_queue := q'\<rparr>) ?s)"
    using assms by (simp add: idle_def upd_tx_def)
  then show ?thesis
    unfolding process_sack_def
    by (intro idle_then_get, unfold Let_def app prod.case, rule idle_first)
       (intro idle_intros idle_transmit idle_calm [OF calm_basic(2)] idle_calm [OF calm_basic(3)]; simp add: sview_upd_tm)+
qed

lemma demo_a4: "idle (demo_a4 w)"
proof -
  let ?c = "wire_chunk CT_SACK 0 (sack_value 0xFFFFFFFF w [] [0xFFFFFFFF])"
  let ?stat = "\<lambda>s. upd_stats (\<lambda>t. t\<lparr>stats_bytes_received := stats_bytes_received t + (12 + length ?c),
              stats_packets_received := stats_packets_received t + 1\<rparr>) s"
  have bt: "bt_ok (sent_queue (tx demo_a3))" using demo_a3 by (auto simp: core_def bt_ok_def bt_keys_def)
  define s1 where "s1 = snd (loop_sleep 0 demo_a3)"
  have "sview s1 = sview demo_a3" unfolding s1_def by (rule loop_sleep_views(1) [OF bt])
  then have s1: "core (sent_queue (tx s1)) = [(0xFFFFFFFF, demo_chunk, False)]" "outbound_queue (tx s1) = []" "\<not> has_pr_sctp (tx s1)"
    using demo_a3 by (simp_all add: sview_def tcore_def)
  have chunks: "chunks ?c = [(CT_SACK, 0, sack_value 0xFFFFFFFF w [] [0xFFFFFFFF])]"
    using chunks_wire [of "[(CT_SACK, 0, sack_value 0xFFFFFFFF w [] [0xFFFFFFFF])]"]
    by (simp add: chunk_wire_def chunk_fits_def length_sack_value)
  have sack: "handle_sack (sack_value 0xFFFFFFFF w [] [0xFFFFFFFF]) s =
    process_sack 0xFFFFFFFF w [] (upd_tm (\<lambda>t. t\<lparr>last_sack_time := Some (sctp_now s)\<rparr>) s)" for s
    by (simp add: handle_sack_def sack_value_def read_simps eff_app)
  have d: "dispatch_chunk tag (CT_SACK, f, v) = handle_sack v" for tag f v by (simp add: dispatch_chunk_def ct_consts)
  have "snd (handle_packet (build_packet 5000 5000 7 [?c]) s1) = snd (handle_sack (sack_value 0xFFFFFFFF w [] [0xFFFFFFFF]) (?stat s1))"
    unfolding handle_packet_built by (auto simp: chunks d eff_app split: prod.split sum.split)
  then have "idle (snd (handle_packet (build_packet 5000 5000 7 [?c]) s1))"
    unfolding sack using s1 by (simp add: idle_process_sack upd_defs)
  then have "idle (snd (loop_event_step (Loop_packet (Some (build_packet 5000 5000 7 [?c]))) 0 s1))"
    by (simp add: loop_event_step_def ethen_def idle_ebind)
  moreover have "idle.keeps (case x of None \<Rightarrow> ret None | Some hb \<Rightarrow>
      ethen (ret ()) (ethen (eignore transmit) (ret (Some hb))))" for x :: "nat option"
    using idle_transmit by (cases x) (auto intro!: idle_intros simp: idle_eignore)
  ultimately show ?thesis
    using demo_a3 unfolding demo_a4_def loop_iteration_def eff_app(1)
    by (simp add: eff_app(3,6) s1_def [symmetric] idle_ebind)
qed

lemma demo_link_start: "link_start demo_chans demo_base demo_start"
  by (auto simp: link_start_def end_start_def demo_start_def demo_simps demo_chans_def chan_start_def)

definition demo_link :: "sctp \<Rightarrow> sctp \<Rightarrow> link" where
  "demo_link a b x = (if x then \<lparr>ep_state = a, ep_sent = [(demo_params, [1, 2, 3])], ep_waiting = (\<lambda>_. None)\<rparr>
     else \<lparr>ep_state = b, ep_sent = [], ep_waiting = (\<lambda>_. None)\<rparr>)"

lemma demo_link_upd: "(demo_link a b)(True := (demo_link a b True)\<lparr>ep_state := a'\<rparr>) = demo_link a' b"
  "(demo_link a b)(False := (demo_link a b False)\<lparr>ep_state := b'\<rparr>) = demo_link a b'"
  by (auto simp: demo_link_def fun_eq_iff)

lemma demo_sent: "link_step\<^sup>*\<^sup>* demo_start (demo_link demo_a2 (demo_sctp False))"
proof -
  let ?e = "demo_start True"
  let ?lk = "demo_start(True := ?e\<lparr>ep_state := demo_a1, ep_waiting := (ep_waiting ?e)(1 := Some (demo_params, [1, 2, 3]))\<rparr>)"
  have "link_step demo_start ?lk"
    by (rule link_step.queue [where ppid = 53])
       (simp_all add: demo_start_def demo_begin demo_a1_def DATA_CHANNEL_PPID_DCEP_def, simp add: demo_simps)
  moreover have "link_step ?lk (?lk(True := (?lk True)\<lparr>ep_state := demo_a2, ep_sent := ep_sent (?lk True) @ [(demo_params, [1, 2, 3])],
      ep_waiting := (ep_waiting (?lk True))(1 := None)\<rparr>))"
    by (rule link_step.admit) (simp_all add: demo_start_def demo_admit, simp add: demo_params_def frags_def pieces.simps)
  moreover have "?lk(True := (?lk True)\<lparr>ep_state := demo_a2, ep_sent := ep_sent (?lk True) @ [(demo_params, [1, 2, 3])],
      ep_waiting := (ep_waiting (?lk True))(1 := None)\<rparr>) = demo_link demo_a2 (demo_sctp False)"
    by (auto simp: demo_link_def demo_start_def fun_eq_iff)
  ultimately show ?thesis by auto
qed

lemma demo_iterate:
  assumes "event_from (\<lambda>p. p \<in> network lk x) ev" and "set queued \<subseteq> network lk x"
    and "lk' = lk(x := (lk x)\<lparr>ep_state := snd (loop_iteration ev queued 0 (ep_state (lk x)))\<rparr>)"
  shows "link_step lk lk'"
  unfolding assms(3) by (rule link_step.iterate [OF assms(1,2) prod.collapse [symmetric]])

lemma demo_run: "\<exists>w. link_step\<^sup>*\<^sup>* demo_start (demo_link (demo_a4 w) demo_b1)"
proof -
  obtain w where w: "outgoing demo_b1 = [build_packet 5000 5000 7 [wire_chunk CT_SACK 0 (sack_value 0xFFFFFFFF w [] [0xFFFFFFFF])]]"
    using demo_b1 by blast
  have net: "network (demo_link a b) True = set (outgoing b)" "network (demo_link a b) False = set (outgoing a)" for a b
    by (simp_all add: network_def demo_link_def)
  have st: "ep_state (demo_link a b True) = a" "ep_state (demo_link a b False) = b" for a b by (simp_all add: demo_link_def)
  have "link_step (demo_link demo_a2 (demo_sctp False)) (demo_link demo_a3 (demo_sctp False))"
    by (rule demo_iterate [where x = True and ev = Loop_timer and queued = "[]"])
       (simp_all add: event_from_def demo_link_upd st demo_a3_def)
  moreover have "link_step (demo_link demo_a3 (demo_sctp False)) (demo_link demo_a3 demo_b1)"
    by (rule demo_iterate [where x = False and ev = "Loop_packet (Some (build_packet 5000 5000 7 [demo_chunk]))"
          and queued = "[build_packet 5000 5000 7 [demo_chunk]]"])
       (simp_all add: event_from_def demo_link_upd st net demo_a3 demo_b1_def)
  moreover have "link_step (demo_link demo_a3 demo_b1) (demo_link (demo_a4 w) demo_b1)"
    by (rule demo_iterate [where x = True and queued = "[]"
          and ev = "Loop_packet (Some (build_packet 5000 5000 7 [wire_chunk CT_SACK 0 (sack_value 0xFFFFFFFF w [] [0xFFFFFFFF])]))"])
       (simp_all add: event_from_def demo_link_upd st net w demo_a4_def)
  ultimately show ?thesis using demo_sent by (meson rtranclp.rtrancl_into_rtrancl)
qed

lemma demo_sent_on: "sent_on (demo_link a b) True 1 = [[1, 2, 3]]"
  by (simp add: sent_on_def demo_link_def on_channel_def demo_params_def)

lemma demo_delivered:
  assumes "link_step\<^sup>*\<^sup>* demo_start (demo_link (demo_a4 w) demo_b1)"
  shows "delivered (demo_link (demo_a4 w) demo_b1) False 1 = [[1, 2, 3]]"
proof -
  have inv: "link_inv demo_chans demo_base (demo_link (demo_a4 w) demo_b1)" by (rule link_inv_run [OF demo_link_start assms])
  have d: "drained (demo_link (demo_a4 w) demo_b1) True"
    using demo_a4 [of w] by (simp add: drained_def demo_link_def idle_def core_def)
  have c: "demo_chans 1 = Some True" by (simp add: demo_chans_def)
  from delivered_after [OF inv c, of True] sent_after [OF inv c, of True] drained_received [OF inv d] show ?thesis
    by (simp add: demo_sent_on)
qed

section \<open>The properties\<close>

text \<open>
  C1: Reliable channels in the transfer phase. Two associations start connected and idle, with the same reliable
  channels (each ordered or unordered) at both ends and no handshake packet in the network; the network
  loses, repeats and reorders packets; channels are neither opened, closed nor reset, no waiting send is
  cancelled, and fewer than 2 to the power 31 fragments are sent in each direction. Then the messages that a
  channel has delivered are, at every moment and for both directions at once, a prefix of the messages
  admitted on the channel: none is lost in between, repeated, corrupted or out of order.
\<close>

theorem sctp_reliable_delivery:
  assumes "link_start chans base lk0" and "link_step\<^sup>*\<^sup>* lk0 lk" and "chans c = Some ordered"
  shows "prefix (delivered lk (\<not> x) c) (sent_on lk x c)"
proof -
  have inv: "link_inv chans base lk" by (rule link_inv_run [OF assms(1,2)])
  show ?thesis
    unfolding delivered_after [OF inv assms(3)] sent_after [OF inv assms(3)] by (rule chan_after_prefix)
qed

theorem sctp_reliable_delivery_witness:
  "\<exists>lk. link_start demo_chans demo_base demo_start \<and> link_step\<^sup>*\<^sup>* demo_start lk \<and> delivered lk False 1 = [[1, 2, 3]]
     \<and> prefix (delivered lk False 1) (sent_on lk True 1)"
proof -
  obtain w where run: "link_step\<^sup>*\<^sup>* demo_start (demo_link (demo_a4 w) demo_b1)"
      and d: "delivered (demo_link (demo_a4 w) demo_b1) False 1 = [[1, 2, 3]]"
    using demo_run demo_delivered by blast
  from sctp_reliable_delivery [OF demo_link_start run, of 1 True True] run d demo_link_start show ?thesis
    by (auto simp: demo_chans_def)
qed

text \<open>
  C3: In the transfer phase (the runs of C1: connected at the start, the same reliable channels at both ends, no
  handshake packet left, no channel opened, closed or reset, no waiting send cancelled, fewer than 2 to the
  power 31 fragments), when a sender has nothing queued and no chunk waits for its acknowledgement, every
  message admitted on a channel has been delivered: a sender never takes a chunk as acknowledged that the
  receiver does not have.
\<close>

theorem sctp_no_silent_loss:
  assumes "link_start chans base lk0" and "link_step\<^sup>*\<^sup>* lk0 lk" and "chans c = Some ordered" and "drained lk x"
  shows "delivered lk (\<not> x) c = sent_on lk x c"
proof -
  have inv: "link_inv chans base lk" by (rule link_inv_run [OF assms(1,2)])
  show ?thesis
    unfolding delivered_after [OF inv assms(3)] sent_after [OF inv assms(3)] drained_received [OF inv assms(4)] by simp
qed

theorem sctp_no_silent_loss_witness:
  "\<exists>lk. link_step\<^sup>*\<^sup>* demo_start lk \<and> drained lk True \<and> delivered lk False 1 = [[1, 2, 3]]"
proof -
  obtain w where run: "link_step\<^sup>*\<^sup>* demo_start (demo_link (demo_a4 w) demo_b1)" using demo_run by blast
  have "drained (demo_link (demo_a4 w) demo_b1) True"
    using demo_a4 [of w] by (simp add: drained_def demo_link_def idle_def core_def)
  with sctp_no_silent_loss [OF demo_link_start run, of 1 True True] run show ?thesis
    by (auto simp: demo_chans_def demo_sent_on)
qed

end
