(* ===== verification/Srtp.thy ===== *)
theory Srtp
  imports Rtp Rust_Str Btree_Map Effect
begin

text \<open>
  SRTP and SRTCP (\<open>srtp.rs\<close>): session keys, protection and unprotection of packets for the four profiles, the
  estimation of the rollover counter, the master key identifier (MKI) with its adaptive detection, and
  the per-SSRC contexts of a session with their eviction. AES in counter mode, HMAC-SHA1 and AES-GCM come
  from other crates and are the fields of the record \<open>srtp_crypto\<close>. The expanded keys that the code caches are
  the keys themselves here. The clock is an argument of the session's operations.
\<close>

unbundle bit_operations_syntax

section \<open>Data\<close>

datatype srtp_error = UnsupportedProfile | Srtp_PacketTooShort | AuthenticationFailed | Srtp_Internal string

text \<open>\<open>From<RtpError>\<close> keeps the text of the error.\<close>

definition rtp_error_text :: "rtp_error \<Rightarrow> string" where
  "rtp_error_text e = (case e of
     PacketTooShort \<Rightarrow> ''RTP packet too short''
   | UnsupportedVersion v \<Rightarrow> ''unsupported RTP version '' @ show_nat (unat v)
   | InvalidHeader s \<Rightarrow> ''invalid RTP header: '' @ s
   | InvalidRtcp s \<Rightarrow> ''invalid RTCP packet: '' @ s
   | LengthMismatch \<Rightarrow> ''buffer length mismatch'')"

definition of_rtp :: "rtp_error fault + 'a \<Rightarrow> srtp_error fault + 'a" where
  "of_rtp r = (case r of Inr x \<Rightarrow> Ok x | Inl (Err e) \<Rightarrow> Fail (Srtp_Internal (rtp_error_text e)) | Inl Panic \<Rightarrow> Panicked)"

record srtp_crypto =
  aes_ctr :: "bytes \<Rightarrow> bytes \<Rightarrow> bytes \<Rightarrow> bytes"
  hmac_sha1 :: "bytes \<Rightarrow> bytes \<Rightarrow> bytes"
  gcm_seal :: "bytes \<Rightarrow> bytes \<Rightarrow> bytes \<Rightarrow> bytes \<Rightarrow> (bytes \<times> bytes) option"
  gcm_open :: "bytes \<Rightarrow> bytes \<Rightarrow> bytes \<Rightarrow> bytes \<Rightarrow> bytes \<Rightarrow> bytes option"

record srtp_packet =
  pk_header :: rtp_header
  pk_body :: bytes
  pk_padding :: bool

datatype srtp_profile = Aes128Sha1_80 | Aes128Sha1_32 | AeadAes128Gcm | NullCipherHmac

record srtp_keying_material =
  master_key :: bytes
  master_salt :: bytes

datatype srtp_direction = Sender | Receiver

record mki_params =
  mki_tx :: "(bytes \<times> nat) option"
  mki_rx_len :: "nat option"

record srtp_session_keys =
  cipher_key :: bytes
  auth_key :: bytes
  salt :: bytes

record srtp_context =
  cx_ssrc :: u32
  cx_profile :: srtp_profile
  rtp_keys :: srtp_session_keys
  rtcp_keys :: srtp_session_keys
  rtp_aes_key :: bytes
  rtcp_aes_key :: bytes
  rtp_gcm_cipher :: "bytes option"
  rtcp_gcm_cipher :: "bytes option"
  rtp_auth_prototype :: "bytes option"
  rtcp_auth_prototype :: "bytes option"
  cx_direction :: srtp_direction
  rollover_counter :: u32
  last_sequence :: "u16 option"
  rtcp_index :: u32
  last_used :: nat
  cx_mki :: mki_params
  rx_mki_active :: "bool option"

record srtp_session =
  ss_profile :: srtp_profile
  tx_keying :: srtp_keying_material
  rx_keying :: srtp_keying_material
  tx_contexts :: "(u32, srtp_context) btree"
  rx_contexts :: "(u32, srtp_context) btree"
  ss_mki :: mki_params
  rtcp_rx_mki_active :: "bool option"

definition MKI_MAX_LEN :: nat where "MKI_MAX_LEN = 128"
definition SSRC_CONTEXT_HIGH_WATERMARK :: nat where "SSRC_CONTEXT_HIGH_WATERMARK = 32"
definition SSRC_INACTIVITY_EVICT :: nat where "SSRC_INACTIVITY_EVICT = 60000000000"

definition tag_len :: "srtp_profile \<Rightarrow> nat" where
  "tag_len p = (case p of Aes128Sha1_80 \<Rightarrow> 10 | NullCipherHmac \<Rightarrow> 10 | Aes128Sha1_32 \<Rightarrow> 4 | AeadAes128Gcm \<Rightarrow> 16)"

definition salt_len :: "srtp_profile \<Rightarrow> nat" where
  "salt_len p = (case p of AeadAes128Gcm \<Rightarrow> 12 | _ \<Rightarrow> 14)"

definition key_len :: "srtp_profile \<Rightarrow> nat" where
  "key_len p = 16"

definition auth_key_len :: "srtp_profile \<Rightarrow> nat" where
  "auth_key_len p = (case p of Aes128Sha1_80 \<Rightarrow> 20 | NullCipherHmac \<Rightarrow> 20 | Aes128Sha1_32 \<Rightarrow> 20 | AeadAes128Gcm \<Rightarrow> 0)"

definition mki_default :: mki_params where
  "mki_default = \<lparr>mki_tx = None, mki_rx_len = None\<rparr>"

definition mki_tx_length :: "mki_params \<Rightarrow> nat" where
  "mki_tx_length m = (case mki_tx m of None \<Rightarrow> 0 | Some (_, len) \<Rightarrow> len)"

definition mki_rx_length :: "mki_params \<Rightarrow> nat" where
  "mki_rx_length m = (case mki_rx_len m of None \<Rightarrow> 0 | Some len \<Rightarrow> len)"

definition srtp_packet_parse :: "bytes \<Rightarrow> rtp_error fault + srtp_packet" where
  "srtp_packet_parse raw =
     rbind (rtp_header_parse raw) (\<lambda>((h, has_padding), body). Ok \<lparr>pk_header = h, pk_body = body, pk_padding = has_padding\<rparr>)"

definition marshal_header_into :: "srtp_packet \<Rightarrow> srtp_error fault + bytes" where
  "marshal_header_into p =
     of_rtp (rtp_header_write_to (pk_header p) (pk_padding p) (replicate (rtp_header_encoded_len (pk_header p)) 0))"

definition constant_time_eq :: "bytes \<Rightarrow> bytes \<Rightarrow> bool" where
  "constant_time_eq a b =
     (if length a \<noteq> length b then False else foldl (\<lambda>diff (x, y). diff OR (x XOR y)) 0 (zip a b) = 0)"

section \<open>Keys\<close>

definition kdf :: "srtp_crypto \<Rightarrow> nat \<Rightarrow> u8 \<Rightarrow> bytes \<Rightarrow> bytes \<Rightarrow> srtp_error fault + bytes" where
  "kdf cr len label mkey msalt =
     (let head = take 14 msalt;
          iv = head @ replicate (16 - length head) 0;
          iv = iv[7 := iv ! 7 XOR label] in
      rbind (slice mkey 0 16) (\<lambda>key. Ok (aes_ctr cr key iv (replicate len 0))))"

definition srtp_derive_keys :: "srtp_crypto \<Rightarrow> srtp_profile \<Rightarrow> srtp_keying_material \<Rightarrow> srtp_error fault + srtp_session_keys \<times> srtp_session_keys" where
  "srtp_derive_keys cr prof keying =
     (let k = (\<lambda>len label. kdf cr len label (master_key keying) (master_salt keying));
          auth_len = auth_key_len prof in
      rbind (k (key_len prof) 0x00) (\<lambda>rtp_cipher.
      rbind (if 0 < auth_len then k auth_len 0x01 else Ok []) (\<lambda>rtp_auth.
      rbind (k (salt_len prof) 0x02) (\<lambda>rtp_salt.
      rbind (k (key_len prof) 0x03) (\<lambda>rtcp_cipher.
      rbind (if 0 < auth_len then k auth_len 0x04 else Ok []) (\<lambda>rtcp_auth.
      rbind (k (salt_len prof) 0x05) (\<lambda>rtcp_salt.
      Ok (\<lparr>cipher_key = rtp_cipher, auth_key = rtp_auth, salt = rtp_salt\<rparr>,
          \<lparr>cipher_key = rtcp_cipher, auth_key = rtcp_auth, salt = rtcp_salt\<rparr>))))))))"

text \<open>\<open>new_from_slice\<close>: AES-GCM takes a key of 16 bytes, HMAC any key.\<close>

definition gcm_new :: "bytes \<Rightarrow> srtp_error fault + bytes" where
  "gcm_new key = (if length key = 16 then Ok key else Fail UnsupportedProfile)"

definition context_new ::
    "srtp_crypto \<Rightarrow> u32 \<Rightarrow> srtp_profile \<Rightarrow> srtp_keying_material \<Rightarrow> srtp_direction \<Rightarrow> nat \<Rightarrow> srtp_error fault + srtp_context" where
  "context_new cr ss prof keying direction now =
     (if length (master_key keying) < key_len prof \<or> length (master_salt keying) < salt_len prof
      then Fail UnsupportedProfile
      else
        rbind (srtp_derive_keys cr prof keying) (\<lambda>(rtp, rtcp).
        rbind (slice (cipher_key rtp) 0 16) (\<lambda>rtp_aes.
        rbind (slice (cipher_key rtcp) 0 16) (\<lambda>rtcp_aes.
        rbind (if prof = AeadAes128Gcm then rbind (gcm_new (cipher_key rtp)) (\<lambda>k. Ok (Some k)) else Ok None) (\<lambda>rtp_gcm.
        rbind (if prof = AeadAes128Gcm then rbind (gcm_new (cipher_key rtcp)) (\<lambda>k. Ok (Some k)) else Ok None) (\<lambda>rtcp_gcm.
        Ok \<lparr>cx_ssrc = ss, cx_profile = prof, rtp_keys = rtp, rtcp_keys = rtcp, rtp_aes_key = rtp_aes, rtcp_aes_key = rtcp_aes,
            rtp_gcm_cipher = rtp_gcm, rtcp_gcm_cipher = rtcp_gcm,
            rtp_auth_prototype = (if auth_key rtp \<noteq> [] then Some (auth_key rtp) else None),
            rtcp_auth_prototype = (if auth_key rtcp \<noteq> [] then Some (auth_key rtcp) else None),
            cx_direction = direction, rollover_counter = 0, last_sequence = None, rtcp_index = 0, last_used = now,
            cx_mki = mki_default, rx_mki_active = None\<rparr>))))))"

section \<open>Initialisation vectors and the packet index\<close>

definition xor_block :: "bytes \<Rightarrow> bytes \<Rightarrow> bytes" where
  "xor_block a b = map2 (XOR) a b"

definition build_gcm_rtcp_nonce :: "srtp_context \<Rightarrow> u32 \<Rightarrow> srtp_error fault + bytes" where
  "build_gcm_rtcp_nonce c index =
     rbind (slice (salt (rtcp_keys c)) 0 12) (\<lambda>iv.
       Ok (xor_block iv ([0, 0] @ u32_be (cx_ssrc c) @ [0, 0] @ u32_be index)))"

definition build_gcm_nonce :: "srtp_context \<Rightarrow> u16 \<Rightarrow> u32 \<Rightarrow> srtp_error fault + bytes" where
  "build_gcm_nonce c sequence roc =
     rbind (slice (salt (rtp_keys c)) 0 12) (\<lambda>iv.
       Ok (xor_block iv ([0, 0] @ u32_be (cx_ssrc c) @ u32_be roc @ u16_be sequence)))"

definition packet_index :: "u32 \<Rightarrow> u16 \<Rightarrow> u64" where
  "packet_index roc sequence = push_bit 16 (ucast roc) OR ucast sequence"

definition build_iv :: "srtp_context \<Rightarrow> u16 \<Rightarrow> u32 \<Rightarrow> srtp_error fault + bytes" where
  "build_iv c sequence roc =
     rbind (slice (salt (rtp_keys c)) 0 14) (\<lambda>iv.
       Ok (xor_block (iv @ [0, 0])
             ([0, 0, 0, 0] @ u32_be (cx_ssrc c) @ u64_be (push_bit 16 (packet_index roc sequence)))))"

definition estimate_roc :: "srtp_context \<Rightarrow> u16 \<Rightarrow> u32" where
  "estimate_roc c sequence =
     (case last_sequence c of
        None \<Rightarrow> rollover_counter c
      | Some last_seq \<Rightarrow>
          let roc = rollover_counter c; diff = int (unat sequence) - int (unat last_seq) in
          if diff < -32768 then roc + 1 else if 32768 < diff then roc - 1 else roc)"

definition ctx_update :: "u16 \<Rightarrow> u32 \<Rightarrow> srtp_context \<Rightarrow> srtp_context" where
  "ctx_update sequence roc c =
     (case last_sequence c of
        None \<Rightarrow> c\<lparr>last_sequence := Some sequence, rollover_counter := roc\<rparr>
      | Some last_seq \<Rightarrow>
          if packet_index (rollover_counter c) last_seq < packet_index roc sequence
          then c\<lparr>rollover_counter := roc, last_sequence := Some sequence\<rparr> else c)"

section \<open>RTP packets\<close>

type_synonym 'a ctx_eff = "(srtp_context, srtp_error, 'a) eff"

definition mki_bytes :: "srtp_context \<Rightarrow> srtp_error fault + bytes" where
  "mki_bytes c = (case mki_tx (cx_mki c) of None \<Rightarrow> Ok [] | Some (value, len) \<Rightarrow> slice value 0 len)"

definition protected_rtp_len :: "srtp_context \<Rightarrow> rtp_packet \<Rightarrow> nat" where
  "protected_rtp_len c p =
     rtp_header_encoded_len (header p) + length (payload p) + unat (padding_len p) + tag_len (cx_profile c) + mki_tx_length (cx_mki c)"

definition protect_gcm :: "srtp_crypto \<Rightarrow> srtp_context \<Rightarrow> u16 \<Rightarrow> u32 \<Rightarrow> bytes \<Rightarrow> bytes \<Rightarrow> srtp_error fault + bytes" where
  "protect_gcm cr c sequence roc head body =
     rbind (build_gcm_nonce c sequence roc) (\<lambda>nonce.
       case rtp_gcm_cipher c of
         None \<Rightarrow> Fail UnsupportedProfile
       | Some key \<Rightarrow>
           (case gcm_seal cr key nonce head body of
              None \<Rightarrow> Fail AuthenticationFailed
            | Some (ct, tag) \<Rightarrow> rbind (mki_bytes c) (\<lambda>mki. Ok (head @ ct @ tag @ mki))))"

text \<open>The authentication tag covers the header, the body and the rollover counter, not the MKI.\<close>

definition protect_cm :: "srtp_crypto \<Rightarrow> srtp_context \<Rightarrow> u16 \<Rightarrow> u32 \<Rightarrow> bytes \<Rightarrow> bytes \<Rightarrow> srtp_error fault + bytes" where
  "protect_cm cr c sequence roc head body =
     rbind (if body \<noteq> [] \<and> cx_profile c \<noteq> NullCipherHmac
            then rbind (build_iv c sequence roc) (\<lambda>iv. Ok (aes_ctr cr (rtp_aes_key c) iv body))
            else Ok body) (\<lambda>ct.
       case rtp_auth_prototype c of
         None \<Rightarrow> Fail UnsupportedProfile
       | Some key \<Rightarrow>
           rbind (mki_bytes c) (\<lambda>mki.
           rbind (slice (hmac_sha1 cr key (head @ ct @ u32_be roc)) 0 (tag_len (cx_profile c))) (\<lambda>tag.
           Ok (head @ ct @ mki @ tag))))"

text \<open>The buffer has the length of the result; what a failed call leaves in it is not modelled.\<close>

definition protect :: "srtp_crypto \<Rightarrow> rtp_packet \<Rightarrow> bytes \<Rightarrow> bytes ctx_eff" where
  "protect cr packet output =
     ebind (elift (of_rtp (rtp_header_validate (header packet)))) (\<lambda>_.
     eget (\<lambda>c.
       let sequence = sequence_number (header packet);
           roc = estimate_roc c sequence;
           header_len = rtp_header_encoded_len (header packet);
           protected_len = header_len + (length (payload packet) + unat (padding_len packet))
             + mki_tx_length (cx_mki c) + tag_len (cx_profile c) in
       if length output \<noteq> protected_len
       then efail (Srtp_Internal (''protected RTP output length mismatch: expected '' @ show_nat protected_len
              @ '', got '' @ show_nat (length output)))
       else
         ebind (elift (of_rtp (rtp_header_write_to (header packet) (padding_len packet \<noteq> 0) (take header_len output)))) (\<lambda>head.
         let body = payload packet @ replicate (unat (padding_len packet)) (padding_len packet) in
         ebind (elift (if cx_profile c = AeadAes128Gcm then protect_gcm cr c sequence roc head body
                       else protect_cm cr c sequence roc head body)) (\<lambda>protected_bytes.
         ethen (emod (ctx_update sequence roc)) (ret protected_bytes)))))"

definition open_gcm :: "srtp_crypto \<Rightarrow> srtp_context \<Rightarrow> u16 \<Rightarrow> u32 \<Rightarrow> bytes \<Rightarrow> bytes \<Rightarrow> nat \<Rightarrow> srtp_error fault + bytes" where
  "open_gcm cr c sequence roc head body mki_len =
     rbind (build_gcm_nonce c sequence roc) (\<lambda>nonce.
       case rtp_gcm_cipher c of
         None \<Rightarrow> Fail UnsupportedProfile
       | Some key \<Rightarrow>
           let split = length body - tag_len (cx_profile c) - mki_len in
           rbind (slice body split (split + tag_len (cx_profile c))) (\<lambda>tag.
           case gcm_open cr key nonce head (take split body) tag of
             None \<Rightarrow> Fail AuthenticationFailed
           | Some plain \<Rightarrow> Ok plain))"

definition open_cm :: "srtp_crypto \<Rightarrow> srtp_context \<Rightarrow> u16 \<Rightarrow> u32 \<Rightarrow> bytes \<Rightarrow> bytes \<Rightarrow> nat \<Rightarrow> srtp_error fault + bytes" where
  "open_cm cr c sequence roc head body mki_len =
     (let split = length body - tag_len (cx_profile c) - mki_len; ct = take split body in
      rbind (case rtp_auth_prototype c of
               None \<Rightarrow> Ok ()
             | Some key \<Rightarrow>
                 rbind (slice (hmac_sha1 cr key (head @ ct @ u32_be roc)) 0 (tag_len (cx_profile c))) (\<lambda>tag.
                 if constant_time_eq (drop (split + mki_len) body) tag then Ok () else Fail AuthenticationFailed)) (\<lambda>_.
      if ct \<noteq> [] \<and> cx_profile c \<noteq> NullCipherHmac
      then rbind (build_iv c sequence roc) (\<lambda>iv. Ok (aes_ctr cr (rtp_aes_key c) iv ct))
      else Ok ct))"

definition strip_padding :: "bool \<Rightarrow> bytes \<Rightarrow> srtp_error fault + bytes \<times> u8" where
  "strip_padding has_padding body =
     (if has_padding
      then if body = [] then Fail Srtp_PacketTooShort
        else
          let pad = last body in
          if pad = 0 \<or> length body < unat pad then Fail (Srtp_Internal ''invalid decrypted RTP padding length'')
          else Ok (take (length body - unat pad) body, pad)
      else Ok (body, 0))"

definition unprotect_with_mki :: "srtp_crypto \<Rightarrow> srtp_packet \<Rightarrow> nat \<Rightarrow> rtp_packet ctx_eff" where
  "unprotect_with_mki cr packet mki_len = eget (\<lambda>c.
     if length (pk_body packet) < tag_len (cx_profile c) + mki_len then efail Srtp_PacketTooShort
     else
       let sequence = sequence_number (pk_header packet); roc = estimate_roc c sequence in
       ebind (elift (marshal_header_into packet)) (\<lambda>head.
       ebind (elift (if cx_profile c = AeadAes128Gcm then open_gcm cr c sequence roc head (pk_body packet) mki_len
                     else open_cm cr c sequence roc head (pk_body packet) mki_len)) (\<lambda>body.
       ebind (elift (strip_padding (pk_padding packet) body)) (\<lambda>(data, pad).
       ethen (emod (ctx_update sequence roc)) (ret \<lparr>header = pk_header packet, payload = data, padding_len = pad\<rparr>)))))"

text \<open>The lengths of an inbound MKI to try: the advertised one, then none, until a packet has settled it.\<close>

definition mki_candidates :: "bool option \<Rightarrow> nat \<Rightarrow> nat list" where
  "mki_candidates active advertised =
     (case active of
        Some True \<Rightarrow> [advertised]
      | Some False \<Rightarrow> [0]
      | None \<Rightarrow> (if 0 < advertised then [advertised] else []) @ [0])"

fun try_mki :: "(nat \<Rightarrow> 'a ctx_eff) \<Rightarrow> nat list \<Rightarrow> srtp_error \<Rightarrow> (nat \<times> 'a) ctx_eff" where
  "try_mki f [] last_err = efail last_err"
| "try_mki f (m # ms) last_err = (\<lambda>c. case f m c of
     (Inr x, c') \<Rightarrow> (Ok (m, x), c')
   | (Inl (Err e), c') \<Rightarrow> try_mki f ms e c'
   | (Inl Panic, c') \<Rightarrow> (Panicked, c'))"

definition unprotect :: "srtp_crypto \<Rightarrow> srtp_packet \<Rightarrow> rtp_packet ctx_eff" where
  "unprotect cr packet = eget (\<lambda>c.
     ebind (try_mki (unprotect_with_mki cr packet) (mki_candidates (rx_mki_active c) (mki_rx_length (cx_mki c))) AuthenticationFailed)
       (\<lambda>(m, p). ethen (emod (\<lambda>c. c\<lparr>rx_mki_active := Some (0 < m)\<rparr>)) (ret p)))"

section \<open>RTCP packets\<close>

definition cipher_rtcp :: "srtp_crypto \<Rightarrow> srtp_context \<Rightarrow> bytes \<Rightarrow> u32 \<Rightarrow> srtp_error fault + bytes" where
  "cipher_rtcp cr c packet index =
     rbind (slice (salt (rtcp_keys c)) 0 14) (\<lambda>iv.
       Ok (take 8 packet @ aes_ctr cr (rtcp_aes_key c)
             (xor_block (iv @ [0, 0]) ([0, 0, 0, 0] @ u32_be (cx_ssrc c) @ [0, 0] @ u32_be index @ [0, 0])) (drop 8 packet)))"

definition auth_tag_rtcp_into :: "srtp_crypto \<Rightarrow> srtp_context \<Rightarrow> bytes \<Rightarrow> srtp_error fault + bytes" where
  "auth_tag_rtcp_into cr c data =
     (case rtcp_auth_prototype c of None \<Rightarrow> Fail UnsupportedProfile | Some key \<Rightarrow> Ok (hmac_sha1 cr key data))"

text \<open>\<open>Aead::encrypt\<close> appends the tag to the ciphertext and \<open>Aead::decrypt\<close> takes it from the end.\<close>

definition aead_encrypt :: "srtp_crypto \<Rightarrow> bytes \<Rightarrow> bytes \<Rightarrow> bytes \<Rightarrow> bytes \<Rightarrow> bytes option" where
  "aead_encrypt cr key nonce aad msg = map_option (\<lambda>(ct, tag). ct @ tag) (gcm_seal cr key nonce aad msg)"

definition aead_decrypt :: "srtp_crypto \<Rightarrow> bytes \<Rightarrow> bytes \<Rightarrow> bytes \<Rightarrow> bytes \<Rightarrow> bytes option" where
  "aead_decrypt cr key nonce aad msg =
     (if length msg < 16 then None else gcm_open cr key nonce aad (take (length msg - 16) msg) (drop (length msg - 16) msg))"

definition protect_rtcp_body :: "srtp_crypto \<Rightarrow> srtp_context \<Rightarrow> bytes \<Rightarrow> u32 \<Rightarrow> srtp_error fault + bytes" where
  "protect_rtcp_body cr c packet index =
     (let index_with_e = index OR 0x80000000 in
      if cx_profile c = AeadAes128Gcm
      then
        rbind (build_gcm_rtcp_nonce c index) (\<lambda>nonce.
        case rtcp_gcm_cipher c of
          None \<Rightarrow> Fail UnsupportedProfile
        | Some key \<Rightarrow>
            rbind (slice packet 0 8) (\<lambda>head.
            case aead_encrypt cr key nonce (head @ u32_be index_with_e) (drop 8 packet) of
              None \<Rightarrow> Fail AuthenticationFailed
            | Some ct \<Rightarrow> rbind (mki_bytes c) (\<lambda>mki. Ok (head @ ct @ u32_be index_with_e @ mki))))
      else
        rbind (if 8 < length packet then cipher_rtcp cr c packet index else Ok packet) (\<lambda>packet.
        let packet = packet @ u32_be index_with_e in
        rbind (auth_tag_rtcp_into cr c packet) (\<lambda>tag.
        rbind (mki_bytes c) (\<lambda>mki.
        rbind (slice tag 0 (tag_len (cx_profile c))) (\<lambda>tag.
        Ok (packet @ mki @ tag))))))"

definition protect_rtcp :: "srtp_crypto \<Rightarrow> bytes \<Rightarrow> bytes ctx_eff" where
  "protect_rtcp cr packet = eget (\<lambda>c.
     if rtcp_index c = 0xFFFFFFFF then elift Panicked
     else
       ethen (emod (\<lambda>c. c\<lparr>rtcp_index := rtcp_index c + 1\<rparr>))
         (elift (protect_rtcp_body cr c packet (rtcp_index c + 1))))"

definition note_index :: "u32 \<Rightarrow> srtp_context \<Rightarrow> srtp_context" where
  "note_index index c = (if rtcp_index c < index then c\<lparr>rtcp_index := index\<rparr> else c)"

definition unprotect_rtcp_with_mki :: "srtp_crypto \<Rightarrow> bytes \<Rightarrow> nat \<Rightarrow> bytes ctx_eff" where
  "unprotect_rtcp_with_mki cr packet mki_len = eget (\<lambda>c.
     let tl = tag_len (cx_profile c) in
     if length packet < tl + mki_len + 4 then efail Srtp_PacketTooShort
     else if cx_profile c = AeadAes128Gcm
     then
       let index_start = length packet - mki_len - 4 in
       ebind (elift (at32 packet index_start)) (\<lambda>index_with_e.
       let index = index_with_e AND 0x7FFFFFFF in
       ebind (elift (build_gcm_rtcp_nonce c index)) (\<lambda>nonce.
       case rtcp_gcm_cipher c of
         None \<Rightarrow> efail UnsupportedProfile
       | Some key \<Rightarrow>
           ebind (elift (slice packet 0 8)) (\<lambda>head.
           ebind (elift (slice packet 8 index_start)) (\<lambda>ct.
           case aead_decrypt cr key nonce (head @ u32_be index_with_e) ct of
             None \<Rightarrow> efail AuthenticationFailed
           | Some plain \<Rightarrow> ethen (emod (note_index index)) (ret (head @ plain))))))
     else
       let tag_start = length packet - tl;
           tag = drop tag_start packet;
           packet = take (tag_start - mki_len) packet in
       ebind (elift (auth_tag_rtcp_into cr c packet)) (\<lambda>expected.
       ebind (elift (slice expected 0 tl)) (\<lambda>expected.
       if \<not> constant_time_eq tag expected then efail AuthenticationFailed
       else
         ebind (elift (at32 packet (length packet - 4))) (\<lambda>index_with_e.
         let packet = take (length packet - 4) packet; index = index_with_e AND 0x7FFFFFFF in
         ethen (emod (note_index index))
           (if index_with_e AND 0x80000000 \<noteq> 0 \<and> 8 < length packet
            then elift (cipher_rtcp cr c packet index) else ret packet)))))"

section \<open>Sessions\<close>

type_synonym 'a session_eff = "(srtp_session, srtp_error, 'a) eff"

definition session_new :: "srtp_profile \<Rightarrow> srtp_keying_material \<Rightarrow> srtp_keying_material \<Rightarrow> srtp_session" where
  "session_new prof tx rx =
     \<lparr>ss_profile = prof, tx_keying = tx, rx_keying = rx, tx_contexts = [], rx_contexts = [], ss_mki = mki_default,
      rtcp_rx_mki_active = None\<rparr>"

definition mki_range_error :: "nat \<Rightarrow> srtp_error" where
  "mki_range_error len = Srtp_Internal (''MKI length '' @ show_nat len @ '' out of range 1..='' @ show_nat MKI_MAX_LEN)"

definition set_tx_mki :: "bytes \<Rightarrow> nat \<Rightarrow> unit session_eff" where
  "set_tx_mki value len =
     (if len = 0 \<or> MKI_MAX_LEN < len then efail (mki_range_error len)
      else if length value \<noteq> len
      then efail (Srtp_Internal (''MKI value is '' @ show_nat (length value) @ '' bytes but negotiated length is '' @ show_nat len))
      else emod (\<lambda>s. s\<lparr>ss_mki := (ss_mki s)\<lparr>mki_tx := Some (value, len)\<rparr>\<rparr>))"

definition set_rx_mki_len :: "nat \<Rightarrow> unit session_eff" where
  "set_rx_mki_len len =
     (if len = 0 \<or> MKI_MAX_LEN < len then efail (mki_range_error len)
      else emod (\<lambda>s. s\<lparr>ss_mki := (ss_mki s)\<lparr>mki_rx_len := Some len\<rparr>\<rparr>))"

definition session_protected_rtp_len :: "srtp_session \<Rightarrow> rtp_packet \<Rightarrow> nat" where
  "session_protected_rtp_len s p =
     rtp_header_encoded_len (header p) + length (payload p) + unat (padding_len p) + tag_len (ss_profile s) + mki_tx_length (ss_mki s)"

definition evict_stale :: "nat \<Rightarrow> u32 \<Rightarrow> (u32, srtp_context) btree \<Rightarrow> (u32, srtp_context) btree" where
  "evict_stale now keep_ssrc contexts =
     (if length contexts \<le> SSRC_CONTEXT_HIGH_WATERMARK then contexts
      else filter (\<lambda>(s, c). s = keep_ssrc \<or> now - last_used c < SSRC_INACTIVITY_EVICT) contexts)"

text \<open>
  The four operations of a session look up the context of the packet's SSRC, create it when there is
  none, and run the context's operation on it.
\<close>

definition session_context ::
    "srtp_crypto \<Rightarrow> nat \<Rightarrow> u32 \<Rightarrow> (u32, srtp_context) btree \<Rightarrow> srtp_keying_material \<Rightarrow> srtp_direction \<Rightarrow> srtp_session
     \<Rightarrow> srtp_error fault + srtp_context" where
  "session_context cr now ss contexts keying direction s =
     (case bt_get ss contexts of
        Some c \<Rightarrow> Ok c
      | None \<Rightarrow> rbind (context_new cr ss (ss_profile s) keying direction now) (\<lambda>c. Ok (c\<lparr>cx_mki := ss_mki s\<rparr>)))"

definition on_tx :: "srtp_crypto \<Rightarrow> nat \<Rightarrow> u32 \<Rightarrow> 'a ctx_eff \<Rightarrow> 'a session_eff" where
  "on_tx cr now ss f =
     ethen (emod (\<lambda>s. s\<lparr>tx_contexts := evict_stale now ss (tx_contexts s)\<rparr>))
     (eget (\<lambda>s.
       ebind (elift (session_context cr now ss (tx_contexts s) (tx_keying s) Sender s)) (\<lambda>c.
       case f (c\<lparr>last_used := now\<rparr>) of (r, c') \<Rightarrow>
         ethen (emod (\<lambda>s. s\<lparr>tx_contexts := bt_insert ss c' (tx_contexts s)\<rparr>)) (elift r))))"

definition on_rx :: "srtp_crypto \<Rightarrow> nat \<Rightarrow> u32 \<Rightarrow> 'a ctx_eff \<Rightarrow> 'a session_eff" where
  "on_rx cr now ss f =
     ethen (emod (\<lambda>s. s\<lparr>rx_contexts := evict_stale now ss (rx_contexts s)\<rparr>))
     (eget (\<lambda>s.
       ebind (elift (session_context cr now ss (rx_contexts s) (rx_keying s) Receiver s)) (\<lambda>c.
       case f (c\<lparr>last_used := now\<rparr>) of (r, c') \<Rightarrow>
         ethen (emod (\<lambda>s. s\<lparr>rx_contexts := bt_insert ss c' (rx_contexts s)\<rparr>)) (elift r))))"

definition session_protect_rtp :: "srtp_crypto \<Rightarrow> nat \<Rightarrow> rtp_packet \<Rightarrow> bytes \<Rightarrow> bytes session_eff" where
  "session_protect_rtp cr now packet output = on_tx cr now (ssrc (header packet)) (protect cr packet output)"

definition session_unprotect_rtp :: "srtp_crypto \<Rightarrow> nat \<Rightarrow> srtp_packet \<Rightarrow> rtp_packet session_eff" where
  "session_unprotect_rtp cr now packet = on_rx cr now (ssrc (pk_header packet)) (unprotect cr packet)"

definition session_protect_rtcp :: "srtp_crypto \<Rightarrow> nat \<Rightarrow> bytes \<Rightarrow> bytes session_eff" where
  "session_protect_rtcp cr now packet =
     (if length packet < 8 then efail Srtp_PacketTooShort
      else ebind (elift (at32 packet 4)) (\<lambda>ss. on_tx cr now ss (protect_rtcp cr packet)))"

definition session_unprotect_rtcp :: "srtp_crypto \<Rightarrow> nat \<Rightarrow> bytes \<Rightarrow> bytes session_eff" where
  "session_unprotect_rtcp cr now packet =
     (if length packet < 14 then efail Srtp_PacketTooShort
      else ebind (elift (at32 packet 4)) (\<lambda>ss.
        eget (\<lambda>s.
          ebind (on_rx cr now ss (try_mki (unprotect_rtcp_with_mki cr packet)
                   (mki_candidates (rtcp_rx_mki_active s) (mki_rx_length (ss_mki s))) AuthenticationFailed)) (\<lambda>(m, plain).
          ethen (emod (\<lambda>s. s\<lparr>rtcp_rx_mki_active := Some (0 < m)\<rparr>)) (ret plain)))))"

end
