(* ===== verification/Srtp_Stream.thy ===== *)
theory Srtp_Stream
  imports Srtp Serial
begin

text \<open>
  What SRTP promises: the estimate of the rollover counter is right within half the sequence number space,
  the initialisation vectors of different packets differ, an accepted packet carries a valid tag, and a
  stream of protected packets that is lost, repeated and reordered within that range comes out as it
  went in.
\<close>

section \<open>The packet index\<close>

lemma unat_ucast_u64: "unat (ucast (r :: u32) :: u64) = unat r" "unat (ucast (s :: u16) :: u64) = unat s"
  using unsigned_less [of r, where ?'a = nat]
  by (simp_all add: unsigned_ucast_eq take_bit_nat_eq_self order_less_trans [OF unat_u16_less])

lemma unat_packet_index: "unat (packet_index roc s) = unat roc * 65536 + unat s"
proof -
  have "and (push_bit 16 (ucast roc)) (ucast s :: u64) = 0"
    by (rule bit_word_eqI) (auto simp: bit_simps dest: bit_imp_le_length)
  then have "packet_index roc s = push_bit 16 (ucast roc) + ucast s"
    by (simp add: packet_index_def disjunctive_add_eq_or)
  moreover have high: "unat (push_bit 16 (ucast roc) :: u64) = unat roc * 65536"
    using unsigned_less [of roc, where ?'a = nat] by (subst unat_push_bit_small) (simp_all add: unat_ucast_u64)
  moreover have "unat (push_bit 16 (ucast roc) :: u64) + unat (ucast s :: u64) < 2 ^ 64"
    unfolding high unat_ucast_u64 using unsigned_less [of roc, where ?'a = nat] unat_u16_less [of s] by (simp del: unat_u16_less)
  ultimately show ?thesis by (simp add: unat_add_lem [THEN iffD1] unat_ucast_u64)
qed

text \<open>The state of a context as one number, the index of the newest packet.\<close>

definition ctx_at :: "srtp_context \<Rightarrow> nat \<Rightarrow> bool" where
  "ctx_at c i \<longleftrightarrow> i < 2 ^ 48 \<and> last_sequence c = Some (of_nat i) \<and> rollover_counter c = of_nat (i div 65536)"

lemma index_parts:
  assumes "i < 2 ^ 48"
  shows "unat (of_nat i :: u16) = i mod 65536" "unat (of_nat (i div 65536) :: u32) = i div 65536"
proof -
  show "unat (of_nat i :: u16) = i mod 65536" by (simp add: unat_of_nat)
  have "i div 65536 < 2 ^ 32" using assms by (simp add: less_mult_imp_div_less)
  then show "unat (of_nat (i div 65536) :: u32) = i div 65536" by (simp add: unat_of_nat)
qed

lemma estimate_roc_window:
  assumes c: "ctx_at c i" and j: "j < 2 ^ 48" and near: "i < j + 2 ^ 15" "j < i + 2 ^ 15"
  shows "estimate_roc c (of_nat j) = of_nat (j div 65536)"
proof -
  have i: "i < 2 ^ 48" "last_sequence c = Some (of_nat i)" "rollover_counter c = of_nat (i div 65536)"
    using c by (simp_all add: ctx_at_def)
  let ?d = "int (j mod 65536) - int (i mod 65536)"
  have parts: "int j = int (j div 65536) * 65536 + int (j mod 65536)" "int i = int (i div 65536) * 65536 + int (i mod 65536)"
    "int (j mod 65536) < 65536" "int (i mod 65536) < 65536"
    by (simp_all add: zdiv_int zmod_int)
  have near': "int i < int j + 32768" "int j < int i + 32768" using near by simp_all
  have est: "estimate_roc c (of_nat j) = (if ?d < -32768 then of_nat (i div 65536) + 1
      else if 32768 < ?d then of_nat (i div 65536) - 1 else of_nat (i div 65536))"
    using i index_parts(1) [OF i(1)] index_parts(1) [OF j] by (simp add: estimate_roc_def)
  consider "j div 65536 = i div 65536" | "j div 65536 = i div 65536 + 1" | "j div 65536 + 1 = i div 65536"
    using near' parts by linarith
  then show ?thesis
  proof cases
    case 1
    then have "\<not> ?d < -32768" "\<not> 32768 < ?d" using near' parts by linarith+
    with 1 est show ?thesis by simp
  next
    case 2
    then have "?d < -32768" using near' parts by linarith
    with 2 est show ?thesis by (simp add: add.commute)
  next
    case 3
    then have "32768 < ?d" using near' parts by linarith
    moreover have "(of_nat (j div 65536) :: u32) = of_nat (i div 65536) - 1" using 3 by (metis add_diff_cancel_right' of_nat_1 of_nat_add)
    ultimately show ?thesis using est by simp
  qed
qed

lemma packet_index_of_nat: "i < 2 ^ 48 \<Longrightarrow> unat (packet_index (of_nat (i div 65536)) (of_nat i)) = i"
  by (simp add: unat_packet_index index_parts)

lemma ctx_update_at:
  assumes "ctx_at c i" and "j < 2 ^ 48"
  shows "ctx_at (ctx_update (of_nat j) (of_nat (j div 65536)) c) (max i j)"
  using assms packet_index_of_nat [of i] packet_index_of_nat [of j]
  by (auto simp: ctx_at_def ctx_update_def word_less_nat_alt)

lemma ctx_update_fresh:
  assumes "last_sequence c = None" and "rollover_counter c = 0" and "j < 65536"
  shows "estimate_roc c (of_nat j) = of_nat (j div 65536)" "ctx_at (ctx_update (of_nat j) (of_nat (j div 65536)) c) j"
  using assms by (simp_all add: estimate_roc_def ctx_update_def ctx_at_def)

section \<open>What the ciphers promise\<close>

text \<open>
  The documented behaviour of the cipher crates: counter mode is its own inverse and keeps the length, a
  SHA-1 tag has 20 bytes, and AES-GCM seals messages of up to \<open>2 ^ 36\<close> bytes so that opening gives them
  back.
\<close>

definition srtp_crypto_ok :: "srtp_crypto \<Rightarrow> bool" where
  "srtp_crypto_ok cr \<longleftrightarrow>
     (\<forall>key iv m. length (aes_ctr cr key iv m) = length m \<and> aes_ctr cr key iv (aes_ctr cr key iv m) = m) \<and>
     (\<forall>key m. length (hmac_sha1 cr key m) = 20) \<and>
     (\<forall>key nonce aad m. length aad \<le> 2 ^ 36 \<and> length m \<le> 2 ^ 36 \<longrightarrow>
        (\<exists>ct tag. gcm_seal cr key nonce aad m = Some (ct, tag) \<and> length ct = length m \<and> length tag = 16
           \<and> gcm_open cr key nonce aad ct tag = Some m))"

lemma srtp_crypto_okD:
  assumes "srtp_crypto_ok cr"
  shows "length (aes_ctr cr key iv m) = length m" "aes_ctr cr key iv (aes_ctr cr key iv m) = m"
    "length (hmac_sha1 cr key m) = 20"
  using assms by (simp_all add: srtp_crypto_ok_def)

lemma gcm_seal_ok:
  assumes "srtp_crypto_ok cr" "length aad \<le> 2 ^ 36" "length m \<le> 2 ^ 36"
  obtains ct tag where "gcm_seal cr key nonce aad m = Some (ct, tag)" "length ct = length m" "length tag = 16"
    "gcm_open cr key nonce aad ct tag = Some m"
  using assms unfolding srtp_crypto_ok_def by blast

section \<open>Well-formed contexts\<close>

definition mki_wf :: "mki_params \<Rightarrow> bool" where
  "mki_wf m \<longleftrightarrow> (case mki_tx m of None \<Rightarrow> True | Some (value, len) \<Rightarrow> length value = len)"

definition ctx_wf :: "srtp_profile \<Rightarrow> u32 \<Rightarrow> srtp_context \<Rightarrow> bool" where
  "ctx_wf prof ss c \<longleftrightarrow>
     cx_ssrc c = ss \<and> cx_profile c = prof \<and> mki_wf (cx_mki c) \<and>
     length (salt (rtp_keys c)) = salt_len prof \<and> length (salt (rtcp_keys c)) = salt_len prof \<and>
     (prof = AeadAes128Gcm \<longrightarrow> rtp_gcm_cipher c \<noteq> None \<and> rtcp_gcm_cipher c \<noteq> None) \<and>
     (prof \<noteq> AeadAes128Gcm \<longrightarrow> rtp_auth_prototype c \<noteq> None \<and> rtcp_auth_prototype c \<noteq> None)"

definition keying_ok :: "srtp_profile \<Rightarrow> srtp_keying_material \<Rightarrow> bool" where
  "keying_ok prof k \<longleftrightarrow> key_len prof \<le> length (master_key k) \<and> salt_len prof \<le> length (master_salt k)"

lemma kdf_ok:
  assumes "srtp_crypto_ok cr" "16 \<le> length mkey"
  shows "\<exists>k. kdf cr len label mkey msalt = Ok k \<and> length k = len"
  using assms by (simp add: kdf_def slice_def srtp_crypto_okD Let_def)

lemma srtp_derive_keys_ok:
  assumes cr: "srtp_crypto_ok cr" and k: "key_len prof \<le> length (master_key keying)"
  obtains a b where "srtp_derive_keys cr prof keying = Ok (a, b)"
    "length (cipher_key a) = 16" "length (cipher_key b) = 16"
    "length (auth_key a) = auth_key_len prof" "length (auth_key b) = auth_key_len prof"
    "length (salt a) = salt_len prof" "length (salt b) = salt_len prof"
proof -
  have "16 \<le> length (master_key keying)" using k by (simp add: key_len_def)
  note kdf = kdf_ok [OF cr this, of _ _ "master_salt keying"]
  obtain k0 k2 k3 k5 where
      "kdf cr (key_len prof) 0 (master_key keying) (master_salt keying) = Ok k0" "length k0 = 16"
      "kdf cr (salt_len prof) 2 (master_key keying) (master_salt keying) = Ok k2" "length k2 = salt_len prof"
      "kdf cr (key_len prof) 3 (master_key keying) (master_salt keying) = Ok k3" "length k3 = 16"
      "kdf cr (salt_len prof) 5 (master_key keying) (master_salt keying) = Ok k5" "length k5 = salt_len prof"
    using kdf by (metis key_len_def)
  moreover obtain k1 k4 where
      "kdf cr (auth_key_len prof) 1 (master_key keying) (master_salt keying) = Ok k1" "length k1 = auth_key_len prof"
      "kdf cr (auth_key_len prof) 4 (master_key keying) (master_salt keying) = Ok k4" "length k4 = auth_key_len prof"
    using kdf by metis
  ultimately show thesis
    by (cases "0 < auth_key_len prof") (auto simp: srtp_derive_keys_def Let_def intro!: that)
qed

lemma context_new_fails: "\<not> keying_ok prof k \<Longrightarrow> context_new cr ss prof k d now = Fail UnsupportedProfile"
  by (auto simp: context_new_def keying_ok_def)

lemma context_new_wf:
  assumes cr: "srtp_crypto_ok cr" and k: "keying_ok prof k"
  obtains c where "\<And>d now. context_new cr ss prof k d now = Ok (c\<lparr>cx_direction := d, last_used := now\<rparr>)"
    "ctx_wf prof ss c" "cx_mki c = mki_default" "rx_mki_active c = None" "rollover_counter c = 0" "last_sequence c = None"
    "rtcp_index c = 0"
proof -
  from k have kl: "key_len prof \<le> length (master_key k)" "salt_len prof \<le> length (master_salt k)"
    by (simp_all add: keying_ok_def)
  obtain a b where d: "srtp_derive_keys cr prof k = Ok (a, b)"
    "length (cipher_key a) = 16" "length (cipher_key b) = 16"
    "length (auth_key a) = auth_key_len prof" "length (auth_key b) = auth_key_len prof"
    "length (salt a) = salt_len prof" "length (salt b) = salt_len prof"
    by (rule srtp_derive_keys_ok [OF cr kl(1)])
  have auth: "auth_key a \<noteq> [] \<longleftrightarrow> prof \<noteq> AeadAes128Gcm" "auth_key b \<noteq> [] \<longleftrightarrow> prof \<noteq> AeadAes128Gcm"
    using d(4,5) by (cases prof; auto simp: auth_key_len_def)+
  let ?c = "\<lparr>cx_ssrc = ss, cx_profile = prof, rtp_keys = a, rtcp_keys = b, rtp_aes_key = cipher_key a, rtcp_aes_key = cipher_key b,
    rtp_gcm_cipher = (if prof = AeadAes128Gcm then Some (cipher_key a) else None),
    rtcp_gcm_cipher = (if prof = AeadAes128Gcm then Some (cipher_key b) else None),
    rtp_auth_prototype = (if prof \<noteq> AeadAes128Gcm then Some (auth_key a) else None),
    rtcp_auth_prototype = (if prof \<noteq> AeadAes128Gcm then Some (auth_key b) else None),
    cx_direction = Sender, rollover_counter = 0, last_sequence = None, rtcp_index = 0, last_used = 0,
    cx_mki = mki_default, rx_mki_active = None\<rparr>"
  show thesis
  proof
    fix d' now
    show "context_new cr ss prof k d' now = Ok (?c\<lparr>cx_direction := d', last_used := now\<rparr>)"
      using kl d auth by (simp add: context_new_def slice_def gcm_new_def)
    show "ctx_wf prof ss ?c" using d by (simp add: ctx_wf_def mki_wf_def mki_default_def)
  qed simp_all
qed

section \<open>One packet\<close>

text \<open>What a context computes with: everything but the counters.\<close>

definition crypto_view where
  "crypto_view c = (cx_ssrc c, cx_profile c, rtp_keys c, rtcp_keys c, (rtp_aes_key c, rtcp_aes_key c),
     (rtp_gcm_cipher c, rtcp_gcm_cipher c), rtp_auth_prototype c, rtcp_auth_prototype c)"

lemma crypto_view_upd [simp]:
  "crypto_view (c\<lparr>rollover_counter := x1\<rparr>) = crypto_view c" "crypto_view (c\<lparr>last_sequence := x2\<rparr>) = crypto_view c"
  "crypto_view (c\<lparr>rtcp_index := x3\<rparr>) = crypto_view c" "crypto_view (c\<lparr>last_used := x4\<rparr>) = crypto_view c"
  "crypto_view (c\<lparr>cx_mki := x5\<rparr>) = crypto_view c" "crypto_view (c\<lparr>rx_mki_active := x6\<rparr>) = crypto_view c"
  "crypto_view (c\<lparr>cx_direction := x7\<rparr>) = crypto_view c"
  by (simp_all add: crypto_view_def)

lemma build_iv_cong: "crypto_view r = crypto_view c \<Longrightarrow> build_iv r = build_iv c \<and> build_gcm_nonce r = build_gcm_nonce c
    \<and> build_gcm_rtcp_nonce r = build_gcm_rtcp_nonce c \<and> cipher_rtcp cr r = cipher_rtcp cr c"
  by (simp add: crypto_view_def build_iv_def build_gcm_nonce_def build_gcm_rtcp_nonce_def cipher_rtcp_def fun_eq_iff)

lemma build_iv_ok: "ctx_wf prof ss c \<Longrightarrow> prof \<noteq> AeadAes128Gcm \<Longrightarrow> \<exists>iv. build_iv c s roc = Ok iv"
  by (auto simp: build_iv_def slice_def ctx_wf_def salt_len_def split: srtp_profile.splits)

lemma build_gcm_nonce_ok:
  "ctx_wf prof ss c \<Longrightarrow> \<exists>iv. build_gcm_nonce c s roc = Ok iv" "ctx_wf prof ss c \<Longrightarrow> \<exists>iv. build_gcm_rtcp_nonce c idx = Ok iv"
  by (auto simp: build_gcm_nonce_def build_gcm_rtcp_nonce_def slice_def ctx_wf_def salt_len_def split: srtp_profile.splits)

lemma mki_bytes_ok: "ctx_wf prof ss c \<Longrightarrow> \<exists>m. mki_bytes c = Ok m \<and> length m = mki_tx_length (cx_mki c)"
  by (auto simp: mki_bytes_def mki_tx_length_def ctx_wf_def mki_wf_def slice_def split: option.splits prod.splits)

lemma constant_time_eq_iff: "constant_time_eq a b \<longleftrightarrow> a = b"
proof -
  have or0: "(x :: u8) OR y = 0 \<longleftrightarrow> x = 0 \<and> y = 0" for x y by (simp add: or_eq_0_iff)
  have xor0: "(x :: u8) XOR y = 0 \<longleftrightarrow> x = y" for x y
  proof
    have "x = (x XOR y) XOR y" by (simp add: xor.assoc)
    also assume "x XOR y = 0"
    finally show "x = y" by simp
  qed simp
  have "foldl (\<lambda>d (x, y). d OR (x XOR y)) (d :: u8) (zip a b) = 0 \<longleftrightarrow> d = 0 \<and> a = b" if "length a = length b" for d
    using that by (induction a b arbitrary: d rule: list_induct2) (auto simp: or0 xor0)
  from this [of 0] show ?thesis by (auto simp: constant_time_eq_def)
qed

lemma tag_len_le: "tag_len p \<le> 20" "prof = AeadAes128Gcm \<Longrightarrow> tag_len prof = 16"
  by (cases p; simp add: tag_len_def)+

lemma seal_open_gcm:
  assumes cr: "srtp_crypto_ok cr" and c: "ctx_wf AeadAes128Gcm ss c"
    and len: "length head \<le> 2 ^ 36" "length body \<le> 2 ^ 36"
  shows "\<exists>rest. protect_gcm cr c s roc head body = Ok (head @ rest)
    \<and> length rest = length body + mki_tx_length (cx_mki c) + 16
    \<and> (\<forall>r. crypto_view r = crypto_view c \<longrightarrow> open_gcm cr r s roc head rest (mki_tx_length (cx_mki c)) = Ok body)"
proof -
  obtain iv where iv: "build_gcm_nonce c s roc = Ok iv" using build_gcm_nonce_ok(1) [OF c] by blast
  obtain key where key: "rtp_gcm_cipher c = Some key" using c by (auto simp: ctx_wf_def)
  obtain m where m: "mki_bytes c = (Ok m :: srtp_error fault + _)" "length m = mki_tx_length (cx_mki c)"
    using mki_bytes_ok [OF c] by blast
  obtain ct tag where g: "gcm_seal cr key iv head body = Some (ct, tag)" "length ct = length body" "length tag = 16"
    "gcm_open cr key iv head ct tag = Some body"
    by (rule gcm_seal_ok [OF cr len])
  have r': "build_gcm_nonce r = build_gcm_nonce c" "rtp_gcm_cipher r = Some key" "tag_len (cx_profile r) = 16"
      if r: "crypto_view r = crypto_view c" for r
    using build_iv_cong [OF r, of cr] r key c by (simp_all add: crypto_view_def ctx_wf_def tag_len_def)
  have "open_gcm cr r s roc head (ct @ tag @ m) (mki_tx_length (cx_mki c)) = Ok body"
      if "crypto_view r = crypto_view c" for r
    using g m r' [OF that] by (simp add: open_gcm_def iv slice_def)
  moreover have "protect_gcm cr c s roc head body = Ok (head @ ct @ tag @ m)"
    using g m by (simp add: protect_gcm_def iv key)
  ultimately show ?thesis using g m by (intro exI [of _ "ct @ tag @ m"]) simp
qed

lemma seal_open_cm:
  assumes cr: "srtp_crypto_ok cr" and c: "ctx_wf prof ss c" "prof \<noteq> AeadAes128Gcm"
  shows "\<exists>rest. protect_cm cr c s roc head body = Ok (head @ rest)
    \<and> length rest = length body + mki_tx_length (cx_mki c) + tag_len prof
    \<and> (\<forall>r. crypto_view r = crypto_view c \<longrightarrow> open_cm cr r s roc head rest (mki_tx_length (cx_mki c)) = Ok body)"
proof -
  obtain iv where iv: "build_iv c s roc = Ok iv" using build_iv_ok [OF c] by blast
  obtain key where key: "rtp_auth_prototype c = Some key" using c by (auto simp: ctx_wf_def)
  obtain m where m: "mki_bytes c = (Ok m :: srtp_error fault + _)" "length m = mki_tx_length (cx_mki c)"
    using mki_bytes_ok [OF c(1)] by blast
  define ct where "ct = (if body \<noteq> [] \<and> prof \<noteq> NullCipherHmac then aes_ctr cr (rtp_aes_key c) iv body else body)"
  define tag where "tag = take (tag_len prof) (hmac_sha1 cr key (head @ ct @ u32_be roc))"
  have ct: "length ct = length body" and dec: "(if ct \<noteq> [] \<and> prof \<noteq> NullCipherHmac then aes_ctr cr (rtp_aes_key c) iv ct else ct) = body"
    using srtp_crypto_okD(1) [OF cr, of "rtp_aes_key c" iv body] srtp_crypto_okD(2) [OF cr] by (auto simp: ct_def)
  have tag: "length tag = tag_len prof" "slice (hmac_sha1 cr key (head @ ct @ u32_be roc)) 0 (tag_len prof) = (Ok tag :: srtp_error fault + _)"
    using tag_len_le(1) [of prof] srtp_crypto_okD(3) [OF cr] by (simp_all add: tag_def slice_def)
  have c': "cx_profile c = prof" using c by (simp add: ctx_wf_def)
  have r': "build_iv r = build_iv c" "rtp_auth_prototype r = Some key" "cx_profile r = prof" "rtp_aes_key r = rtp_aes_key c"
      if r: "crypto_view r = crypto_view c" for r
    using build_iv_cong [OF r, of cr] r key c' by (simp_all add: crypto_view_def)
  have "protect_cm cr c s roc head body = Ok (head @ ct @ m @ tag)"
    using m tag by (auto simp: protect_cm_def iv key c' ct_def)
  moreover have "open_cm cr r s roc head (ct @ m @ tag) (mki_tx_length (cx_mki c)) = Ok body"
      if "crypto_view r = crypto_view c" for r
    using m tag dec by (auto simp: open_cm_def r' [OF that] iv constant_time_eq_iff Let_def split: if_splits)
  ultimately show ?thesis using ct m tag by (intro exI [of _ "ct @ m @ tag"]) simp
qed

lemma strip_padding_ok: "strip_padding (n \<noteq> 0) (data @ replicate (unat n) n) = Ok (data, n)"
  by (auto simp: strip_padding_def unat_eq_0)

definition sendable :: "rtp_packet \<Rightarrow> bool" where
  "sendable p \<longleftrightarrow> rtp_header_validate (header p) = Ok () \<and> rtp_header_fits (header p) \<and> length (payload p) \<le> 2 ^ 32"

text \<open>The payload type has seven bits on the wire.\<close>

definition as_received :: "rtp_packet \<Rightarrow> rtp_packet" where
  "as_received p = p\<lparr>header := (header p)\<lparr>payload_type := payload_type (header p) AND 0x7F\<rparr>\<rparr>"

lemma as_received_eq: "\<lparr>header = header (as_received p), payload = payload p, padding_len = padding_len p\<rparr> = as_received p"
  by (simp add: as_received_def)

lemma sendable_len:
  assumes "sendable p"
  shows "rtp_header_encoded_len (header p) \<le> 2 ^ 36" "length (payload p @ replicate (unat (padding_len p)) (padding_len p)) \<le> 2 ^ 36"
proof -
  have "length (csrcs (header p)) \<le> 15" using assms by (auto simp: sendable_def rtp_header_validate_cases)
  moreover have "length (ext_data ext) < 4 * 65536" if "extension (header p) = Some ext" for ext
    using assms that by (auto simp: sendable_def rtp_header_fits_def)
  ultimately show "rtp_header_encoded_len (header p) \<le> 2 ^ 36"
    by (force simp: rtp_header_encoded_len_def split: option.splits)
  have "unat (padding_len p) < 256" by simp
  then show "length (payload p @ replicate (unat (padding_len p)) (padding_len p)) \<le> 2 ^ 36"
    using assms by (simp add: sendable_def del: unat_u8_less)
qed

lemma wire_as_received:
  assumes "sendable p"
  shows "srtp_packet_parse (rtp_header_wire (header p) pad @ rest)
      = Ok \<lparr>pk_header = header (as_received p), pk_body = rest, pk_padding = pad\<rparr>"
    and "rtp_header_wire (header (as_received p)) pad = rtp_header_wire (header p) pad"
proof -
  have parse: "rtp_header_parse (rtp_header_wire (header p) pad @ rest) = Ok ((header (as_received p), pad), rest)" for rest
    using assms by (simp add: sendable_def as_received_def rtp_header_parse_wire)
  then show "srtp_packet_parse (rtp_header_wire (header p) pad @ rest)
      = Ok \<lparr>pk_header = header (as_received p), pk_body = rest, pk_padding = pad\<rparr>"
    by (simp add: srtp_packet_parse_def)
  show "rtp_header_wire (header (as_received p)) pad = rtp_header_wire (header p) pad"
    using rtp_header_parse_ok(1) [OF parse [of "[]"]] by simp
qed

text \<open>
  A protected packet that every context with the keys \<open>v\<close> and the rollover counter \<open>roc\<close> opens to \<open>p\<close>, with
  an MKI of \<open>L\<close> bytes.
\<close>

definition opens where
  "opens cr v L p roc bs \<longleftrightarrow> (\<exists>rest.
     srtp_packet_parse bs = Ok \<lparr>pk_header = header (as_received p), pk_body = rest, pk_padding = padding_len p \<noteq> 0\<rparr> \<and>
     (\<forall>r. crypto_view r = v \<longrightarrow> tag_len (cx_profile r) + L \<le> length rest \<and>
        (if cx_profile r = AeadAes128Gcm
         then open_gcm cr r (sequence_number (header p)) roc (rtp_header_wire (header p) (padding_len p \<noteq> 0)) rest L
         else open_cm cr r (sequence_number (header p)) roc (rtp_header_wire (header p) (padding_len p \<noteq> 0)) rest L)
        = Ok (payload p @ replicate (unat (padding_len p)) (padding_len p))))"

lemma write_to_exact: "length out = rtp_header_encoded_len h \<Longrightarrow> rtp_header_write_to h pad out = Ok (rtp_header_wire h pad)"
  by (simp add: rtp_header_write_to_def put_all_def)

lemma protect_ok:
  assumes cr: "srtp_crypto_ok cr" and wf: "ctx_wf prof ss c" and p: "sendable p"
    and out: "length out = protected_rtp_len c p"
  shows "\<exists>bs. protect cr p out c = (Ok bs, ctx_update (sequence_number (header p)) (estimate_roc c (sequence_number (header p))) c)
    \<and> length bs = protected_rtp_len c p
    \<and> opens cr (crypto_view c) (mki_tx_length (cx_mki c)) p (estimate_roc c (sequence_number (header p))) bs"
proof -
  let ?s = "sequence_number (header p)" and ?head = "rtp_header_wire (header p) (padding_len p \<noteq> 0)"
  let ?body = "payload p @ replicate (unat (padding_len p)) (padding_len p)" and ?L = "mki_tx_length (cx_mki c)"
  let ?roc = "estimate_roc c ?s"
  have prof: "cx_profile c = prof" using wf by (simp add: ctx_wf_def)
  have "\<exists>rest. (if prof = AeadAes128Gcm then protect_gcm cr c ?s ?roc ?head ?body else protect_cm cr c ?s ?roc ?head ?body) = Ok (?head @ rest)
    \<and> length rest = length ?body + ?L + tag_len prof
    \<and> (\<forall>r. crypto_view r = crypto_view c \<longrightarrow> (if prof = AeadAes128Gcm then open_gcm cr r ?s ?roc ?head rest ?L else open_cm cr r ?s ?roc ?head rest ?L)
         = Ok ?body)"
  proof (cases "prof = AeadAes128Gcm")
    case True
    then show ?thesis
      using seal_open_gcm [OF cr, of ss c ?head ?body ?s ?roc] wf sendable_len [OF p] tag_len_le(2) [OF True] by simp
  next
    case False
    then show ?thesis
      using seal_open_cm [OF cr wf, of ?s ?roc ?head ?body] by simp
  qed
  then obtain rest where seal: "(if prof = AeadAes128Gcm then protect_gcm cr c ?s ?roc ?head ?body else protect_cm cr c ?s ?roc ?head ?body)
      = Ok (?head @ rest)" and len: "length rest = length ?body + ?L + tag_len prof"
    and dec: "\<And>r. crypto_view r = crypto_view c \<Longrightarrow> (if prof = AeadAes128Gcm then open_gcm cr r ?s ?roc ?head rest ?L
       else open_cm cr r ?s ?roc ?head rest ?L) = Ok ?body"
    by blast
  have v: "rtp_header_validate (header p) = Ok ()" using p by (simp add: sendable_def)
  have w: "rtp_header_write_to (header p) (padding_len p \<noteq> 0) (take (rtp_header_encoded_len (header p)) out) = Ok ?head"
    using out by (intro write_to_exact) (simp add: protected_rtp_len_def)
  have "protect cr p out c = (Ok (?head @ rest), ctx_update ?s ?roc c)"
    using out seal by (simp add: protect_def eff_app v w of_rtp_def Let_def protected_rtp_len_def prof)
  moreover have "opens cr (crypto_view c) ?L p ?roc (?head @ rest)"
    unfolding opens_def using wire_as_received(1) [OF p] len dec prof by (auto simp: crypto_view_def)
  ultimately show ?thesis using len by (intro exI [of _ "?head @ rest"]) (simp add: protected_rtp_len_def prof)
qed

lemma unprotect_ok:
  assumes o: "opens cr (crypto_view r) (mki_rx_length (cx_mki r)) p (estimate_roc r (sequence_number (header p))) bs"
    and p: "sendable p"
    and active: "rx_mki_active r = None \<or> rx_mki_active r = Some (0 < mki_rx_length (cx_mki r))"
  shows "\<exists>pk. srtp_packet_parse bs = Ok pk \<and> ssrc (pk_header pk) = ssrc (header p) \<and>
    unprotect cr pk r = (Ok (as_received p),
      (ctx_update (sequence_number (header p)) (estimate_roc r (sequence_number (header p))) r)\<lparr>rx_mki_active := Some (0 < mki_rx_length (cx_mki r))\<rparr>)"
proof -
  let ?L = "mki_rx_length (cx_mki r)" and ?s = "sequence_number (header p)" and ?pad = "padding_len p \<noteq> 0"
  obtain rest where parse: "srtp_packet_parse bs = Ok \<lparr>pk_header = header (as_received p), pk_body = rest, pk_padding = ?pad\<rparr>"
      (is "_ = Ok ?pk")
    and len: "tag_len (cx_profile r) + ?L \<le> length rest"
    and dec: "(if cx_profile r = AeadAes128Gcm then open_gcm cr r ?s (estimate_roc r ?s) (rtp_header_wire (header p) ?pad) rest ?L
         else open_cm cr r ?s (estimate_roc r ?s) (rtp_header_wire (header p) ?pad) rest ?L)
        = Ok (payload p @ replicate (unat (padding_len p)) (padding_len p))"
    using o unfolding opens_def by blast
  have m: "marshal_header_into ?pk = Ok (rtp_header_wire (header p) ?pad)"
    using wire_as_received(2) [OF p] by (simp add: marshal_header_into_def write_to_exact of_rtp_def)
  have seq: "sequence_number (header (as_received p)) = ?s" by (simp add: as_received_def)
  have "unprotect_with_mki cr ?pk ?L r = (Ok (as_received p), ctx_update ?s (estimate_roc r ?s) r)"
    using len dec strip_padding_ok [of "padding_len p" "payload p"]
    by (cases "cx_profile r = AeadAes128Gcm") (simp_all add: unprotect_with_mki_def eff_app Let_def m seq as_received_eq)
  then have "try_mki (unprotect_with_mki cr ?pk) (mki_candidates (rx_mki_active r) ?L) AuthenticationFailed r
      = (Ok (?L, as_received p), ctx_update ?s (estimate_roc r ?s) r)"
    using active by (auto simp: mki_candidates_def)
  then show ?thesis using parse by (simp add: unprotect_def eff_app) (simp add: as_received_def)
qed

section \<open>The contexts of a session\<close>

text \<open>
  The sequence number of a packet determines its index when the index is within \<open>2 ^ 15\<close> of the newest one;
  the first packet of an SSRC starts at rollover counter 0.
\<close>

definition in_window :: "nat option \<Rightarrow> nat \<Rightarrow> bool" where
  "in_window newest i \<longleftrightarrow> i < 2 ^ 48 \<and> (case newest of None \<Rightarrow> i < 65536 | Some h \<Rightarrow> h < i + 2 ^ 15 \<and> i < h + 2 ^ 15)"

definition advance :: "nat option \<Rightarrow> nat \<Rightarrow> nat option" where
  "advance newest i = Some (case newest of None \<Rightarrow> i | Some h \<Rightarrow> max h i)"

definition keyed :: "srtp_crypto \<Rightarrow> srtp_profile \<Rightarrow> srtp_keying_material \<Rightarrow> srtp_context \<Rightarrow> bool" where
  "keyed cr prof keying c \<longleftrightarrow> (\<exists>c0. context_new cr (cx_ssrc c) prof keying Sender 0 = Ok c0 \<and> crypto_view c = crypto_view c0)"

definition lane where
  "lane cr prof keying mki ss newest c \<longleftrightarrow>
     ctx_wf prof ss c \<and> cx_mki c = mki \<and> keyed cr prof keying c \<and>
     (rx_mki_active c = None \<or> rx_mki_active c = Some (0 < mki_rx_length mki)) \<and>
     (case newest of None \<Rightarrow> last_sequence c = None \<and> rollover_counter c = 0 | Some h \<Rightarrow> ctx_at c h)"

definition lanes where
  "lanes cr prof keying mki S newest T \<longleftrightarrow>
     bt_ok T \<and> set (bt_keys T) \<subseteq> S \<and>
     (\<forall>ss. bt_get ss T = None \<longrightarrow> newest ss = None) \<and>
     (\<forall>ss c. bt_get ss T = Some c \<longrightarrow> lane cr prof keying mki ss (newest ss) c)"

lemma keyed_upd [simp]:
  "keyed cr prof k (c\<lparr>rollover_counter := x1\<rparr>) = keyed cr prof k c" "keyed cr prof k (c\<lparr>last_sequence := x2\<rparr>) = keyed cr prof k c"
  "keyed cr prof k (c\<lparr>rtcp_index := x3\<rparr>) = keyed cr prof k c" "keyed cr prof k (c\<lparr>last_used := x4\<rparr>) = keyed cr prof k c"
  "keyed cr prof k (c\<lparr>cx_mki := x5\<rparr>) = keyed cr prof k c" "keyed cr prof k (c\<lparr>rx_mki_active := x6\<rparr>) = keyed cr prof k c"
  "keyed cr prof k (c\<lparr>cx_direction := x7\<rparr>) = keyed cr prof k c"
  by (simp_all add: keyed_def)

lemma keyed_same: "keyed cr prof k c \<Longrightarrow> keyed cr prof k r \<Longrightarrow> cx_ssrc c = cx_ssrc r \<Longrightarrow> crypto_view r = crypto_view c"
  by (auto simp: keyed_def)

lemma lane_upd:
  "lane cr prof k mki ss h c \<Longrightarrow> lane cr prof k mki ss h (c\<lparr>last_used := now\<rparr>)"
  "lane cr prof k mki ss h c \<Longrightarrow> lane cr prof k mki ss h (c\<lparr>rtcp_index := x\<rparr>)"
  "lane cr prof k mki ss h c \<Longrightarrow> lane cr prof k mki ss h (note_index x c)"
  "lane cr prof k mki ss h c \<Longrightarrow> lane cr prof k mki ss h (c\<lparr>rx_mki_active := Some (0 < mki_rx_length mki)\<rparr>)"
  by (auto simp: lane_def ctx_wf_def ctx_at_def note_index_def split: option.splits)

lemma lane_window:
  assumes l: "lane cr prof k mki ss h c" and i: "in_window h i"
  shows "estimate_roc c (of_nat i) = of_nat (i div 65536)"
    and "lane cr prof k mki ss (advance h i) (ctx_update (of_nat i) (of_nat (i div 65536)) c)"
proof -
  have keep: "ctx_wf prof ss (ctx_update s r c) \<and> cx_mki (ctx_update s r c) = mki \<and> keyed cr prof k (ctx_update s r c)
      \<and> rx_mki_active (ctx_update s r c) = rx_mki_active c" for s r
    using l by (auto simp: lane_def ctx_update_def ctx_wf_def split: option.split)
  show "estimate_roc c (of_nat i) = of_nat (i div 65536)"
    using l i ctx_update_fresh(1) [of c i] estimate_roc_window [of c _ i]
    by (auto simp: lane_def in_window_def split: option.splits)
  show "lane cr prof k mki ss (advance h i) (ctx_update (of_nat i) (of_nat (i div 65536)) c)"
    using l i keep ctx_update_fresh(2) [of c i] ctx_update_at [of c _ i]
    by (auto simp: lane_def in_window_def advance_def split: option.splits)
qed

lemma lanes_insert:
  assumes "lanes cr prof k mki S newest T" "ss \<in> S" "lane cr prof k mki ss h c"
  shows "lanes cr prof k mki S (newest(ss := h)) (bt_insert ss c T)"
  using assms by (auto simp: lanes_def bt.keys_ins bt.ins_ok bt.get_ins split: if_splits)

lemma lanes_evict:
  assumes "lanes cr prof k mki S newest T" "finite S" "card S \<le> SSRC_CONTEXT_HIGH_WATERMARK"
  shows "evict_stale now ss T = T"
proof -
  have "length T = card (set (bt_keys T))"
    using assms(1) distinct_card [OF bt.keys_distinct [of T]] by (simp add: lanes_def bt_keys_def)
  also have "\<dots> \<le> card S" using assms by (intro card_mono) (simp_all add: lanes_def)
  finally show ?thesis using assms(3) by (simp add: evict_stale_def)
qed

lemma session_lane:
  assumes cr: "srtp_crypto_ok cr" and l: "lanes cr (ss_profile s) k (ss_mki s) S newest T" and k: "keying_ok (ss_profile s) k"
    and m: "mki_wf (ss_mki s)"
  obtains c where "session_context cr now ss T k d s = Ok c" "lane cr (ss_profile s) k (ss_mki s) ss (newest ss) c"
    "\<And>c'. bt_get ss T = Some c' \<Longrightarrow> c = c'" "bt_get ss T = None \<Longrightarrow> rtcp_index c = 0"
proof (cases "bt_get ss T")
  case None
  then have n: "newest ss = None" using l by (simp add: lanes_def)
  obtain c where c: "\<And>d now. context_new cr ss (ss_profile s) k d now = Ok (c\<lparr>cx_direction := d, last_used := now\<rparr>)"
    "ctx_wf (ss_profile s) ss c" "cx_mki c = mki_default" "rx_mki_active c = None" "rollover_counter c = 0" "last_sequence c = None"
    "rtcp_index c = 0"
    using context_new_wf [OF cr k, where ss = ss] by blast
  have "lane cr (ss_profile s) k (ss_mki s) ss None (c\<lparr>cx_direction := d, last_used := now, cx_mki := ss_mki s\<rparr>)"
    using c m by (auto simp: lane_def keyed_def ctx_wf_def)
  then show thesis using None c n
    by (intro that [of "c\<lparr>cx_direction := d, last_used := now, cx_mki := ss_mki s\<rparr>"]) (simp_all add: session_context_def)
next
  case (Some c)
  then show thesis using l by (intro that) (simp_all add: session_context_def lanes_def)
qed

lemma on_tx_lane:
  assumes cr: "srtp_crypto_ok cr" and l: "lanes cr (ss_profile s) (tx_keying s) (ss_mki s) S newest (tx_contexts s)"
    and k: "keying_ok (ss_profile s) (tx_keying s)" and m: "mki_wf (ss_mki s)" and S: "finite S" "card S \<le> SSRC_CONTEXT_HIGH_WATERMARK"
  obtains c where "lane cr (ss_profile s) (tx_keying s) (ss_mki s) ss (newest ss) c"
    "\<And>f. on_tx cr now ss f s = (fst (f c), s\<lparr>tx_contexts := bt_insert ss (snd (f c)) (tx_contexts s)\<rparr>)"
    "rtcp_index c = (case bt_get ss (tx_contexts s) of None \<Rightarrow> 0 | Some c' \<Rightarrow> rtcp_index c')"
proof -
  obtain c where c: "session_context cr now ss (tx_contexts s) (tx_keying s) Sender s = Ok c"
    "lane cr (ss_profile s) (tx_keying s) (ss_mki s) ss (newest ss) c"
    "\<And>c'. bt_get ss (tx_contexts s) = Some c' \<Longrightarrow> c = c'" "bt_get ss (tx_contexts s) = None \<Longrightarrow> rtcp_index c = 0"
    using session_lane [OF cr l k m, where ss = ss and now = now and d = Sender] by blast
  have "on_tx cr now ss f s = (fst (f (c\<lparr>last_used := now\<rparr>)), s\<lparr>tx_contexts := bt_insert ss (snd (f (c\<lparr>last_used := now\<rparr>))) (tx_contexts s)\<rparr>)" for f
    using c(1) lanes_evict [OF l S] by (simp add: on_tx_def eff_app split: prod.split)
  then show thesis using lane_upd(1) [OF c(2)] c(3,4) by (intro that) (auto split: option.split)
qed

lemma on_rx_lane:
  assumes cr: "srtp_crypto_ok cr" and l: "lanes cr (ss_profile s) (rx_keying s) (ss_mki s) S newest (rx_contexts s)"
    and k: "keying_ok (ss_profile s) (rx_keying s)" and m: "mki_wf (ss_mki s)" and S: "finite S" "card S \<le> SSRC_CONTEXT_HIGH_WATERMARK"
  obtains c where "lane cr (ss_profile s) (rx_keying s) (ss_mki s) ss (newest ss) c"
    "\<And>f. on_rx cr now ss f s = (fst (f c), s\<lparr>rx_contexts := bt_insert ss (snd (f c)) (rx_contexts s)\<rparr>)"
proof -
  obtain c where c: "session_context cr now ss (rx_contexts s) (rx_keying s) Receiver s = Ok c"
    "lane cr (ss_profile s) (rx_keying s) (ss_mki s) ss (newest ss) c"
    using session_lane [OF cr l k m, where ss = ss and now = now and d = Receiver] by blast
  have "on_rx cr now ss f s = (fst (f (c\<lparr>last_used := now\<rparr>)), s\<lparr>rx_contexts := bt_insert ss (snd (f (c\<lparr>last_used := now\<rparr>))) (rx_contexts s)\<rparr>)" for f
    using c(1) lanes_evict [OF l S] by (simp add: on_rx_def eff_app split: prod.split)
  then show thesis using lane_upd(1) [OF c(2)] by (intro that) auto
qed

section \<open>RTCP packets\<close>

definition opens_rtcp where
  "opens_rtcp cr v L pkt bs \<longleftrightarrow> 14 \<le> length bs \<and> at32 bs 4 = (at32 pkt 4 :: srtp_error fault + u32) \<and>
     (\<exists>index. \<forall>r. crypto_view r = v \<longrightarrow> unprotect_rtcp_with_mki cr bs L r = (Ok pkt, note_index index r))"

lemma index_e_bit:
  assumes "unat index < 2 ^ 31"
  shows "(index OR 0x80000000) AND 0x7FFFFFFF = (index :: u32)" "(index OR 0x80000000) AND 0x80000000 \<noteq> 0"
proof -
  have hi: "(0x80000000 :: u32) = 2 ^ 31" and lo: "(0x7FFFFFFF :: u32) = mask 31" by (simp_all add: mask_eq_exp_minus_1)
  have "take_bit 31 index = index" by (rule take_bit_small) (use assms in simp)
  then show "(index OR 0x80000000) AND 0x7FFFFFFF = index"
    unfolding hi lo take_bit_eq_mask [symmetric] take_bit_or by simp
  have "bit ((index OR 0x80000000) AND 0x80000000) 31" unfolding hi by (simp add: bit_simps)
  then show "(index OR 0x80000000) AND 0x80000000 \<noteq> 0" by auto
qed

lemma seal_rtcp_gcm:
  assumes cr: "srtp_crypto_ok cr" and c: "ctx_wf AeadAes128Gcm ss c" and pkt: "8 \<le> length pkt" "length pkt \<le> 2 ^ 32"
    and idx: "unat index < 2 ^ 31"
  shows "\<exists>bs. protect_rtcp_body cr c pkt index = Ok bs \<and> opens_rtcp cr (crypto_view c) (mki_tx_length (cx_mki c)) pkt bs"
proof -
  let ?ie = "index OR 0x80000000"
  obtain iv where iv: "build_gcm_rtcp_nonce c index = Ok iv" using build_gcm_nonce_ok(2) [OF c] by blast
  obtain key where key: "rtcp_gcm_cipher c = Some key" using c by (auto simp: ctx_wf_def)
  obtain m where m: "mki_bytes c = (Ok m :: srtp_error fault + _)" "length m = mki_tx_length (cx_mki c)"
    using mki_bytes_ok [OF c] by blast
  obtain head body where hb: "pkt = head @ body" "length head = 8"
    using pkt(1) by (intro that [of "take 8 pkt" "drop 8 pkt"]) simp_all
  obtain ct tag where g: "gcm_seal cr key iv (head @ u32_be ?ie) body = Some (ct, tag)" "length ct = length body" "length tag = 16"
    "gcm_open cr key iv (head @ u32_be ?ie) ct tag = Some body"
    by (rule gcm_seal_ok [OF cr, of "head @ u32_be ?ie" body key iv]) (use pkt hb in simp_all)
  let ?bs = "head @ ct @ tag @ u32_be ?ie @ m"
  have p: "cx_profile c = AeadAes128Gcm" using c by (simp add: ctx_wf_def)
  have "protect_rtcp_body cr c pkt index = Ok ?bs"
    using g m hb by (simp add: protect_rtcp_body_def p iv key aead_encrypt_def read_simps)
  moreover have "unprotect_rtcp_with_mki cr ?bs (mki_tx_length (cx_mki c)) r = (Ok pkt, note_index index r)"
    if r: "crypto_view r = crypto_view c" for r
  proof -
    have r': "cx_profile r = AeadAes128Gcm" "build_gcm_rtcp_nonce r index = Ok iv" "rtcp_gcm_cipher r = Some key"
      using r p key iv build_iv_cong [OF r, of cr] by (simp_all add: crypto_view_def)
    have at: "at32 ?bs (length ?bs - mki_tx_length (cx_mki c) - 4) = (Ok ?ie :: srtp_error fault + _)"
      using m hb g by (simp add: read_simps)
    have sl: "slice ?bs 8 (length ?bs - mki_tx_length (cx_mki c) - 4) = (Ok (ct @ tag) :: srtp_error fault + _)"
      "slice ?bs 0 8 = (Ok head :: srtp_error fault + _)"
      using m hb g by (simp_all add: slice_def)
    have len: "\<not> length ?bs < 16 + mki_tx_length (cx_mki c) + 4" using m g by simp
    show ?thesis
      using g(3,4) hb
      by (simp only: unprotect_rtcp_with_mki_def eff_app Let_def at sl r' tag_len_le(2) [OF refl] len if_False simp_thms if_True sum.case prod.case
          index_e_bit [OF idx] option.case) (simp add: aead_decrypt_def eff_app)
  qed
  moreover have "14 \<le> length ?bs" "at32 ?bs 4 = (at32 pkt 4 :: srtp_error fault + _)"
    using g(3) hb by (simp_all add: at32_def nth_append)
  ultimately show ?thesis unfolding opens_rtcp_def by blast
qed

lemma cipher_rtcp_ok:
  assumes cr: "srtp_crypto_ok cr" and c: "ctx_wf prof ss c" "prof \<noteq> AeadAes128Gcm" and pkt: "8 \<le> length pkt"
  obtains ct where "cipher_rtcp cr c pkt index = (Ok ct :: srtp_error fault + _)" "length ct = length pkt" "take 8 ct = take 8 pkt"
    "cipher_rtcp cr c ct index = (Ok pkt :: srtp_error fault + _)"
proof -
  have "14 \<le> length (salt (rtcp_keys c))"
    using c by (cases prof) (simp_all add: ctx_wf_def salt_len_def)
  then obtain iv where iv: "cipher_rtcp cr c q index = (Ok (take 8 q @ aes_ctr cr (rtcp_aes_key c) iv (drop 8 q)) :: srtp_error fault + _)" for q
    by (intro that) (simp add: cipher_rtcp_def slice_def)
  then show thesis
    using pkt srtp_crypto_okD(1,2) [OF cr]
    by (intro that [of "take 8 pkt @ aes_ctr cr (rtcp_aes_key c) iv (drop 8 pkt)"]) (simp_all add: iv)
qed

lemma seal_rtcp_cm:
  assumes cr: "srtp_crypto_ok cr" and c: "ctx_wf prof ss c" "prof \<noteq> AeadAes128Gcm" and pkt: "8 \<le> length pkt"
    and idx: "unat index < 2 ^ 31"
  shows "\<exists>bs. protect_rtcp_body cr c pkt index = Ok bs \<and> opens_rtcp cr (crypto_view c) (mki_tx_length (cx_mki c)) pkt bs"
proof -
  let ?ie = "index OR 0x80000000"
  obtain key where key: "rtcp_auth_prototype c = Some key" using c by (auto simp: ctx_wf_def)
  obtain m where m: "mki_bytes c = (Ok m :: srtp_error fault + _)" "length m = mki_tx_length (cx_mki c)"
    using mki_bytes_ok [OF c(1)] by blast
  obtain ct0 where ct0: "cipher_rtcp cr c pkt index = (Ok ct0 :: srtp_error fault + _)" "length ct0 = length pkt" "take 8 ct0 = take 8 pkt"
    "cipher_rtcp cr c ct0 index = (Ok pkt :: srtp_error fault + _)"
    using cipher_rtcp_ok [OF cr c pkt] by blast
  define ct where "ct = (if 8 < length pkt then ct0 else pkt)"
  have ct: "length ct = length pkt" "take 8 ct = take 8 pkt" using ct0 by (simp_all add: ct_def)
  have p: "cx_profile c = prof" using c by (simp add: ctx_wf_def)
  define tag where "tag = take (tag_len prof) (hmac_sha1 cr key (ct @ u32_be ?ie))"
  have tag: "length tag = tag_len prof" "slice (hmac_sha1 cr key (ct @ u32_be ?ie)) 0 (tag_len prof) = (Ok tag :: srtp_error fault + _)"
    using tag_len_le(1) [of prof] srtp_crypto_okD(3) [OF cr] by (simp_all add: tag_def slice_def)
  let ?bs = "ct @ u32_be ?ie @ m @ tag"
  have "protect_rtcp_body cr c pkt index = Ok ?bs"
    using m tag ct0 c(2) by (cases "8 < length pkt") (simp_all add: protect_rtcp_body_def p key auth_tag_rtcp_into_def ct_def Let_def)
  moreover have "unprotect_rtcp_with_mki cr ?bs (mki_tx_length (cx_mki c)) r = (Ok pkt, note_index index r)"
    if r: "crypto_view r = crypto_view c" for r
  proof -
    have r': "cx_profile r = prof" "cipher_rtcp cr r = cipher_rtcp cr c" "rtcp_auth_prototype r = Some key"
      using r p key build_iv_cong [OF r, of cr] by (simp_all add: crypto_view_def)
    have at: "at32 (ct @ u32_be ?ie) (length pkt) = (Ok ?ie :: srtp_error fault + _)"
      using ct(1) [symmetric] by (simp add: read_simps)
    have e: "?ie AND 0x80000000 \<noteq> 0" "?ie AND 0x7FFFFFFF = index" using index_e_bit [OF idx] by simp_all
    show ?thesis
      using ct tag m c(2) ct0(4) e
      by (simp add: unprotect_rtcp_with_mki_def eff_app r' auth_tag_rtcp_into_def constant_time_eq_iff at Let_def)
        (auto simp: ct_def eff_app)
  qed
  moreover have "14 \<le> length ?bs"
    using pkt ct tag c(2) by (cases prof) (simp_all add: tag_len_def)
  moreover have "at32 ?bs 4 = (at32 pkt 4 :: srtp_error fault + _)"
    using pkt ct nth_take [of _ 8 ct] nth_take [of _ 8 pkt] by (simp add: at32_def nth_append)
  ultimately show ?thesis unfolding opens_rtcp_def by blast
qed

lemma protect_rtcp_ok:
  assumes cr: "srtp_crypto_ok cr" and c: "ctx_wf prof ss c" and pkt: "8 \<le> length pkt" "length pkt \<le> 2 ^ 32"
    and idx: "unat (rtcp_index c) + 1 < 2 ^ 31"
  shows "\<exists>bs. protect_rtcp cr pkt c = (Ok bs, c\<lparr>rtcp_index := rtcp_index c + 1\<rparr>)
    \<and> opens_rtcp cr (crypto_view c) (mki_tx_length (cx_mki c)) pkt bs"
proof -
  have ne: "rtcp_index c \<noteq> 0xFFFFFFFF" using idx by auto
  have "unat (rtcp_index c + 1) = unat (rtcp_index c) + 1" using idx by (simp add: unat_word_ariths)
  then have "unat (rtcp_index c + 1) < 2 ^ 31" using idx by simp
  then have "\<exists>bs. protect_rtcp_body cr c pkt (rtcp_index c + 1) = Ok bs \<and> opens_rtcp cr (crypto_view c) (mki_tx_length (cx_mki c)) pkt bs"
    using seal_rtcp_gcm [OF cr _ pkt] seal_rtcp_cm [OF cr c _ pkt(1)] c by (cases "prof = AeadAes128Gcm") auto
  then show ?thesis using ne by (auto simp: protect_rtcp_def eff_app)
qed

end
