(* ===== verification/Srtp_Link.thy ===== *)
theory Srtp_Link
  imports Srtp_Stream
begin

text \<open>
  The theorems on SRTP sessions: their operations keep every context well formed and never panic, a packet
  is accepted only with a valid tag and a rejected one changes nothing, the counter blocks of two packets
  differ, and what one session protects the other opens, in any order, when the network loses, repeats
  and reorders packets within half the sequence number space.
\<close>

section \<open>Rejected and accepted packets\<close>

text \<open>The check that a packet passed: its tag under the keys of the context and the estimated counter.\<close>

definition authentic :: "srtp_crypto \<Rightarrow> srtp_context \<Rightarrow> srtp_packet \<Rightarrow> nat \<Rightarrow> bool" where
  "authentic cr c pk L \<longleftrightarrow>
     (let s = sequence_number (pk_header pk); roc = estimate_roc c s; tl = tag_len (cx_profile c);
          head = rtp_header_wire (pk_header pk) (pk_padding pk); n = length (pk_body pk) - tl - L in
      tl + L \<le> length (pk_body pk) \<and>
      (if cx_profile c = AeadAes128Gcm
       then \<exists>nonce key plain. build_gcm_nonce c s roc = Ok nonce \<and> rtp_gcm_cipher c = Some key
          \<and> gcm_open cr key nonce head (take n (pk_body pk)) (take tl (drop n (pk_body pk))) = Some plain
       else \<exists>key. rtp_auth_prototype c = Some key
          \<and> drop (n + L) (pk_body pk) = take tl (hmac_sha1 cr key (head @ take n (pk_body pk) @ u32_be roc))))"

lemma marshal_header_wire: "marshal_header_into pk = Ok (rtp_header_wire (pk_header pk) (pk_padding pk))"
  by (simp add: marshal_header_into_def write_to_exact of_rtp_def)

lemma strip_padding_no_panic: "strip_padding b body \<noteq> Panicked"
  by (simp add: strip_padding_def Let_def)

lemma ctx_update_wf: "ctx_wf prof ss c \<Longrightarrow> ctx_wf prof ss (ctx_update s r c)"
  by (auto simp: ctx_wf_def ctx_update_def split: option.split)

lemma open_no_panic:
  assumes cr: "srtp_crypto_ok cr" and c: "ctx_wf prof ss c" and len: "tag_len prof + L \<le> length body"
  shows "prof = AeadAes128Gcm \<Longrightarrow> open_gcm cr c s roc head body L \<noteq> Panicked"
    "prof \<noteq> AeadAes128Gcm \<Longrightarrow> open_cm cr c s roc head body L \<noteq> Panicked"
proof -
  have p: "cx_profile c = prof" using c by (simp add: ctx_wf_def)
  obtain iv where iv: "build_gcm_nonce c s roc = Ok iv" using build_gcm_nonce_ok(1) [OF c] by blast
  show "open_gcm cr c s roc head body L \<noteq> Panicked" if "prof = AeadAes128Gcm"
    using len by (auto simp: open_gcm_def iv p slice_def Let_def split: option.splits)
  show "open_cm cr c s roc head body L \<noteq> Panicked" if prof: "prof \<noteq> AeadAes128Gcm"
  proof -
    obtain iv where iv: "build_iv c s roc = Ok iv" using build_iv_ok [OF c prof] by blast
    have "slice (hmac_sha1 cr key m) 0 (tag_len prof) = (Ok (take (tag_len prof) (hmac_sha1 cr key m)) :: srtp_error fault + _)" for key m
      using tag_len_le(1) [of prof] srtp_crypto_okD(3) [OF cr] by (simp add: slice_def)
    then show ?thesis by (auto simp: open_cm_def iv p Let_def split: option.splits)
  qed
qed

lemma open_authentic:
  assumes c: "ctx_wf prof ss c" and cr: "srtp_crypto_ok cr" and len: "tag_len prof + L \<le> length (pk_body pk)"
    and "(if prof = AeadAes128Gcm
        then open_gcm cr c (sequence_number (pk_header pk)) (estimate_roc c (sequence_number (pk_header pk)))
               (rtp_header_wire (pk_header pk) (pk_padding pk)) (pk_body pk) L
        else open_cm cr c (sequence_number (pk_header pk)) (estimate_roc c (sequence_number (pk_header pk)))
               (rtp_header_wire (pk_header pk) (pk_padding pk)) (pk_body pk) L) = Ok body"
  shows "authentic cr c pk L"
proof -
  have p: "cx_profile c = prof" using c by (simp add: ctx_wf_def)
  show ?thesis
  proof (cases "prof = AeadAes128Gcm")
    case True
    then show ?thesis using assms(4) len
      by (auto simp: authentic_def open_gcm_def p Let_def slice_def rbind_Inr_iff split: option.splits if_splits)
  next
    case False
    then obtain key where key: "rtp_auth_prototype c = Some key" using c by (auto simp: ctx_wf_def)
    then show ?thesis using assms(4) len False
      by (auto simp: authentic_def open_cm_def p Let_def slice_def rbind_Inr_iff constant_time_eq_iff split: if_splits)
  qed
qed

lemma wp_unprotect_with_mki:
  assumes cr: "srtp_crypto_ok cr" and c: "ctx_wf prof ss c"
  shows "wp (unprotect_with_mki cr pk L) (\<lambda>p c'. ctx_wf prof ss c' \<and> header p = pk_header pk \<and> authentic cr c pk L) (\<lambda>f c'. f \<noteq> Panic \<and> c' = c) c"
proof -
  let ?s = "sequence_number (pk_header pk)" and ?h = "rtp_header_wire (pk_header pk) (pk_padding pk)"
  let ?r = "if prof = AeadAes128Gcm then open_gcm cr c ?s (estimate_roc c ?s) ?h (pk_body pk) L
     else open_cm cr c ?s (estimate_roc c ?s) ?h (pk_body pk) L"
  have p: "cx_profile c = prof" using c by (simp add: ctx_wf_def)
  have "?r \<noteq> Panicked \<and> (\<forall>body. ?r = Ok body \<longrightarrow> authentic cr c pk L)" if "tag_len prof + L \<le> length (pk_body pk)"
    using open_no_panic [OF cr c that] open_authentic [OF c cr that] by simp
  then show ?thesis
    using ctx_update_wf [OF c] strip_padding_no_panic
    by (simp add: unprotect_with_mki_def wp_simps Let_def p marshal_header_wire) (auto simp: wp_simps)
qed

lemma wp_try_mki:
  assumes "\<And>m. m \<in> set ms \<Longrightarrow> wp (f m) (Q m) (\<lambda>g c'. g \<noteq> Panic \<and> c' = c) c"
  shows "wp (try_mki f ms e) (\<lambda>(m, x) c'. m \<in> set ms \<and> Q m x c') (\<lambda>g c'. g \<noteq> Panic \<and> c' = c) c"
  using assms
proof (induction ms arbitrary: e)
  case (Cons m ms)
  have "wp (f m) (Q m) (\<lambda>g c'. g \<noteq> Panic \<and> c' = c) c" using Cons.prems by simp
  then consider x c' where "f m c = (Ok x, c')" "Q m x c'" | d where "f m c = (Fail d, c)"
    by (cases "f m c"; cases "fst (f m c)") (auto simp: wp_def split: sum.splits, metis fault.exhaust)
  then show ?case
  proof cases
    case (2 d)
    have "wp (try_mki f ms d) (\<lambda>(m, x) c'. m \<in> set ms \<and> Q m x c') (\<lambda>g c'. g \<noteq> Panic \<and> c' = c) c"
      using Cons by simp
    then have "wp (try_mki f ms d) (\<lambda>(m', x) c'. m' \<in> set (m # ms) \<and> Q m' x c') (\<lambda>g c'. g \<noteq> Panic \<and> c' = c) c"
      by (rule wp_mono) auto
    then show ?thesis using 2 by (simp add: wp_def)
  qed (simp add: wp_def)
qed (simp add: wp_simps)

lemma wp_unprotect:
  assumes cr: "srtp_crypto_ok cr" and c: "ctx_wf prof ss c"
  shows "wp (unprotect cr pk) (\<lambda>p c'. ctx_wf prof ss c' \<and> header p = pk_header pk \<and>
      (\<exists>L \<in> set (mki_candidates (rx_mki_active c) (mki_rx_length (cx_mki c))). authentic cr c pk L))
    (\<lambda>f c'. f \<noteq> Panic \<and> c' = c) c"
proof -
  have upd: "ctx_wf prof ss (d\<lparr>rx_mki_active := x\<rparr>) = ctx_wf prof ss d" for d x by (simp add: ctx_wf_def)
  have "wp (try_mki (unprotect_with_mki cr pk) ms e)
      (\<lambda>(m, x) c'. m \<in> set ms \<and> ctx_wf prof ss c' \<and> header x = pk_header pk \<and> authentic cr c pk m) (\<lambda>g c'. g \<noteq> Panic \<and> c' = c) c" for ms e
    by (rule wp_try_mki) (rule wp_unprotect_with_mki [OF cr c])
  then show ?thesis
    unfolding unprotect_def wp_eget wp_ebind by (rule wp_mono) (auto simp: wp_simps upd)
qed

lemma slice_hmac:
  "srtp_crypto_ok cr \<Longrightarrow> slice (hmac_sha1 cr key m) 0 (tag_len prof) = (Ok (take (tag_len prof) (hmac_sha1 cr key m)) :: srtp_error fault + _)"
  using tag_len_le(1) [of prof] by (simp add: slice_def srtp_crypto_okD(3))

lemma nonce_total:
  assumes "ctx_wf prof ss c"
  shows "build_gcm_nonce c s roc \<noteq> Inl e" "build_gcm_rtcp_nonce c idx \<noteq> Inl e"
    "prof \<noteq> AeadAes128Gcm \<Longrightarrow> build_iv c s roc \<noteq> Inl e" "prof \<noteq> AeadAes128Gcm \<Longrightarrow> cipher_rtcp cr c q idx \<noteq> Inl e"
    "mki_bytes c \<noteq> Inl e"
  using assms
  by (auto simp: build_gcm_nonce_def build_gcm_rtcp_nonce_def build_iv_def cipher_rtcp_def mki_bytes_def slice_def ctx_wf_def
      mki_wf_def salt_len_def split: srtp_profile.splits option.splits)

lemma ctx_wf_counters:
  "ctx_wf prof ss c \<Longrightarrow> ctx_wf prof ss (c\<lparr>rtcp_index := x\<rparr>)" "ctx_wf prof ss c \<Longrightarrow> ctx_wf prof ss (c\<lparr>last_used := n\<rparr>)"
  "ctx_wf prof ss c \<Longrightarrow> ctx_wf prof ss (note_index x c)"
  by (auto simp: ctx_wf_def note_index_def)

lemma wp_unprotect_rtcp:
  assumes cr: "srtp_crypto_ok cr" and c: "ctx_wf prof ss c"
  shows "wp (unprotect_rtcp_with_mki cr pkt L) (\<lambda>_. ctx_wf prof ss) (\<lambda>f c'. f \<noteq> Panic \<and> c' = c) c"
proof -
  have p: "cx_profile c = prof" using c by (simp add: ctx_wf_def)
  show ?thesis
  proof (cases "prof = AeadAes128Gcm")
    case True
    have "at32 pkt i \<noteq> Inl e" "slice pkt 0 8 \<noteq> Inl e" "slice pkt 8 i \<noteq> Inl e"
      if "16 + L + 4 \<le> length pkt" "i = length pkt - L - 4" for i and e :: "srtp_error fault"
      using that by (auto simp: at32_def slice_def)
    then show ?thesis
      using True c ctx_wf_counters(3) [OF c] nonce_total [OF c]
      by (auto simp: unprotect_rtcp_with_mki_def wp_simps p tag_len_le(2) Let_def not_less)
  next
    case False
    obtain key where key: "rtcp_auth_prototype c = Some key" using c False by (auto simp: ctx_wf_def)
    have "at32 (take (length pkt - tag_len prof - L) pkt) (length pkt - tag_len prof - L - 4) \<noteq> Inl e"
      if "tag_len prof + L + 4 \<le> length pkt" for e :: "srtp_error fault"
      using that by (auto simp: at32_def)
    then show ?thesis
      using False key nonce_total(4) [OF c] ctx_wf_counters(3) [OF c] slice_hmac [OF cr]
      by (auto simp: unprotect_rtcp_with_mki_def auth_tag_rtcp_into_def wp_simps p Let_def not_less min_def)
  qed
qed

lemma of_rtp_no_panic: "of_rtp r = Panicked \<longleftrightarrow> r = Panicked"
  by (simp add: of_rtp_def split: sum.split fault.split)

lemma protect_no_panic:
  assumes cr: "srtp_crypto_ok cr" and c: "ctx_wf prof ss c"
  shows "protect_gcm cr c s roc head body \<noteq> Panicked"
    "prof \<noteq> AeadAes128Gcm \<Longrightarrow> protect_cm cr c s roc head body \<noteq> Panicked"
    "8 \<le> length pkt \<Longrightarrow> protect_rtcp_body cr c pkt idx \<noteq> Panicked"
proof -
  have p: "cx_profile c = prof" using c by (simp add: ctx_wf_def)
  show "protect_gcm cr c s roc head body \<noteq> Panicked"
    using nonce_total [OF c] by (auto simp: protect_gcm_def rbind_Inl_iff split: option.splits)
  show "protect_cm cr c s roc head body \<noteq> Panicked" if "prof \<noteq> AeadAes128Gcm"
    using nonce_total [OF c] that slice_hmac [OF cr] by (auto simp: protect_cm_def p rbind_Inl_iff split: option.splits)
  show "protect_rtcp_body cr c pkt idx \<noteq> Panicked" if "8 \<le> length pkt"
    using nonce_total [OF c] that srtp_crypto_okD(3) [OF cr] tag_len_le(1) [of prof]
    by (auto simp: protect_rtcp_body_def p rbind_Inl_iff Let_def auth_tag_rtcp_into_def split: option.splits)
qed

lemma wp_protect:
  assumes cr: "srtp_crypto_ok cr" and c: "ctx_wf prof ss c"
  shows "wp (protect cr p out) (\<lambda>_. ctx_wf prof ss) (\<lambda>f c'. f \<noteq> Panic \<and> c' = c) c"
proof -
  have prof: "cx_profile c = prof" using c by (simp add: ctx_wf_def)
  have v: "rtp_header_validate (header p) \<noteq> Panicked" by (auto simp: rtp_header_validate_def split: option.splits)
  have w: "rtp_header_write_to (header p) b (take (rtp_header_encoded_len (header p)) out) \<noteq> Panicked"
    if "rtp_header_encoded_len (header p) \<le> length out" for b
    using that by (simp add: write_to_exact)
  show ?thesis
    using v w protect_no_panic [OF cr c] ctx_update_wf [OF c]
    by (simp add: protect_def wp_simps Let_def prof of_rtp_no_panic) (auto simp: of_rtp_no_panic)
qed

lemma wp_protect_rtcp:
  assumes cr: "srtp_crypto_ok cr" and c: "ctx_wf prof ss c" and "8 \<le> length pkt" "rtcp_index c \<noteq> 0xFFFFFFFF"
  shows "wp (protect_rtcp cr pkt) (\<lambda>_. ctx_wf prof ss) (\<lambda>f c'. f \<noteq> Panic \<and> ctx_wf prof ss c') c"
  using assms protect_no_panic(3) [OF cr c] ctx_wf_counters(1) [OF c] by (auto simp: protect_rtcp_def wp_simps)

section \<open>Well-formed sessions\<close>

definition contexts_wf :: "srtp_profile \<Rightarrow> (u32, srtp_context) btree \<Rightarrow> bool" where
  "contexts_wf prof T \<longleftrightarrow> bt_ok T \<and> (\<forall>ss c. bt_get ss T = Some c \<longrightarrow> ctx_wf prof ss c)"

definition session_wf :: "srtp_session \<Rightarrow> bool" where
  "session_wf s \<longleftrightarrow> mki_wf (ss_mki s) \<and> contexts_wf (ss_profile s) (tx_contexts s) \<and> contexts_wf (ss_profile s) (rx_contexts s)"

lemma evict_get:
  assumes "bt_ok T" "bt_get k (evict_stale now ss T) = Some c"
  shows "bt_get k T = Some c"
proof -
  have "(k, c) \<in> set T"
    using assms(2) by (auto simp: bt_get_def evict_stale_def dest: map_of_SomeD split: if_splits)
  then show ?thesis using bt.keys_distinct [OF assms(1)] by (simp add: bt_get_def bt_keys_def)
qed

lemma evict_ok: "bt_ok T \<Longrightarrow> bt_ok (evict_stale now ss T)"
  by (simp add: evict_stale_def bt_filter_ok)

lemma contexts_wf_evict: "contexts_wf prof T \<Longrightarrow> contexts_wf prof (evict_stale now ss T)"
  by (auto simp: contexts_wf_def evict_ok dest: evict_get)

lemma contexts_wf_insert: "contexts_wf prof T \<Longrightarrow> ctx_wf prof ss c \<Longrightarrow> contexts_wf prof (bt_insert ss c T)"
  by (auto simp: contexts_wf_def bt.ins_ok bt.get_ins split: if_splits)

lemma session_context_wf:
  assumes cr: "srtp_crypto_ok cr" and T: "contexts_wf (ss_profile s) T" and m: "mki_wf (ss_mki s)"
  shows "session_context cr now ss T k d s = Fail UnsupportedProfile \<or>
    (\<exists>c. session_context cr now ss T k d s = Ok c \<and> ctx_wf (ss_profile s) ss c \<and>
       (bt_get ss T = Some c \<or> bt_get ss T = None \<and> rtcp_index c = 0))"
proof (cases "bt_get ss T")
  case (Some c)
  then show ?thesis using T by (auto simp: session_context_def contexts_wf_def)
next
  case None
  show ?thesis
  proof (cases "keying_ok (ss_profile s) k")
    case True
    obtain c where "\<And>d now. context_new cr ss (ss_profile s) k d now = Ok (c\<lparr>cx_direction := d, last_used := now\<rparr>)"
      "ctx_wf (ss_profile s) ss c" "cx_mki c = mki_default" "rx_mki_active c = None" "rollover_counter c = 0" "last_sequence c = None"
      "rtcp_index c = 0"
      using context_new_wf [OF cr True, where ss = ss] by blast
    then show ?thesis using None m by (simp add: session_context_def ctx_wf_def)
  qed (simp add: None session_context_def context_new_fails)
qed

text \<open>What running a context's operation on a session gives, for both directions.\<close>

lemma wp_on_rx:
  assumes cr: "srtp_crypto_ok cr" and s: "session_wf s"
    and f: "\<And>c. ctx_wf (ss_profile s) ss c \<Longrightarrow> wp f (\<lambda>_. ctx_wf (ss_profile s) ss) (\<lambda>f c'. f \<noteq> Panic \<and> ctx_wf (ss_profile s) ss c') c"
  shows "wp (on_rx cr now ss f) (\<lambda>_. session_wf) (\<lambda>f s'. f \<noteq> Panic \<and> session_wf s') s"
proof -
  let ?T = "evict_stale now ss (rx_contexts s)"
  have T: "contexts_wf (ss_profile s) ?T" and m: "mki_wf (ss_mki s)" using s by (simp_all add: session_wf_def contexts_wf_evict)
  have res: "r \<noteq> Panicked \<and> contexts_wf (ss_profile s) (bt_insert ss c' ?T)"
    if "f (c\<lparr>last_used := now\<rparr>) = (r, c')" "ctx_wf (ss_profile s) ss c" for r c c'
    using f [OF ctx_wf_counters(2) [OF that(2)], of now] that(1) contexts_wf_insert [OF T]
    by (cases r) (auto simp: wp_def)
  show ?thesis
    using session_context_wf [OF cr, of "s\<lparr>rx_contexts := ?T\<rparr>" ?T now ss "rx_keying s" Receiver] T m s res
    by (fastforce simp: on_rx_def wp_simps session_wf_def split: prod.split)
qed

lemma wp_on_tx:
  assumes cr: "srtp_crypto_ok cr" and s: "session_wf s"
    and f: "\<And>c. ctx_wf (ss_profile s) ss c \<Longrightarrow> rtcp_index c = 0 \<or> (\<exists>c'. bt_get ss (tx_contexts s) = Some c' \<and> rtcp_index c = rtcp_index c')
       \<Longrightarrow> wp f (\<lambda>_. ctx_wf (ss_profile s) ss) (\<lambda>f c'. f \<noteq> Panic \<and> ctx_wf (ss_profile s) ss c') c"
  shows "wp (on_tx cr now ss f) (\<lambda>_. session_wf) (\<lambda>f s'. f \<noteq> Panic \<and> session_wf s') s"
proof -
  let ?T = "evict_stale now ss (tx_contexts s)"
  have T: "contexts_wf (ss_profile s) ?T" and m: "mki_wf (ss_mki s)" and ok: "bt_ok (tx_contexts s)"
    using s by (simp_all add: session_wf_def contexts_wf_evict) (simp add: contexts_wf_def)
  have res: "r \<noteq> Panicked \<and> contexts_wf (ss_profile s) (bt_insert ss c' ?T)"
    if run: "f (c\<lparr>last_used := now\<rparr>) = (r, c')" and c: "ctx_wf (ss_profile s) ss c" "bt_get ss ?T = Some c \<or> bt_get ss ?T = None \<and> rtcp_index c = 0"
    for r c c'
  proof -
    have "wp f (\<lambda>_. ctx_wf (ss_profile s) ss) (\<lambda>f c'. f \<noteq> Panic \<and> ctx_wf (ss_profile s) ss c') (c\<lparr>last_used := now\<rparr>)"
      using ctx_wf_counters(2) [OF c(1)] c(2) evict_get [OF ok] by (intro f) auto
    then show ?thesis using run contexts_wf_insert [OF T] by (cases r) (auto simp: wp_def)
  qed
  show ?thesis
    using session_context_wf [OF cr, of "s\<lparr>tx_contexts := ?T\<rparr>" ?T now ss "tx_keying s" Sender] T m s res
    by (fastforce simp: on_tx_def wp_simps session_wf_def split: prod.split)
qed

definition sound_at :: "'a session_eff \<Rightarrow> srtp_session \<Rightarrow> bool" where
  "sound_at m s \<longleftrightarrow> fst (m s) \<noteq> Panicked \<and> session_wf (snd (m s))"

lemma wp_sound: "sound_at m s \<longleftrightarrow> wp m (\<lambda>_. session_wf) (\<lambda>f s'. f \<noteq> Panic \<and> session_wf s') s"
  by (auto simp: sound_at_def wp_def split: prod.splits sum.splits)

lemma wp_weaken: "wp m (\<lambda>x. Q x) (\<lambda>f c'. f \<noteq> Panic \<and> c' = c) c \<Longrightarrow> (\<And>x c'. Q x c' \<Longrightarrow> I c') \<Longrightarrow> I c \<Longrightarrow> wp m (\<lambda>_. I) (\<lambda>f c'. f \<noteq> Panic \<and> I c') c"
  by (erule wp_mono) auto

section \<open>An instance\<close>

text \<open>Ciphers with the promised laws, two keyed sessions and a packet, for the instances of the theorems.\<close>

definition demo_ciphers :: srtp_crypto where
  "demo_ciphers = \<lparr>aes_ctr = (\<lambda>key iv m. map (\<lambda>b. b XOR 0x5A) m), hmac_sha1 = (\<lambda>key m. replicate 20 (of_nat (length m))),
     gcm_seal = (\<lambda>key nonce aad m. Some (m, replicate 16 1)),
     gcm_open = (\<lambda>key nonce aad ct tag. if tag = replicate 16 1 then Some ct else None)\<rparr>"

definition demo_keying :: srtp_keying_material where
  "demo_keying = \<lparr>master_key = replicate 16 1, master_salt = replicate 14 2\<rparr>"

definition demo_session :: srtp_session where
  "demo_session = session_new Aes128Sha1_80 demo_keying demo_keying"

definition demo_packet :: rtp_packet where
  "demo_packet = \<lparr>header = rtp_header_new 96 65535 160 7, payload = [1, 2, 3], padding_len = 0\<rparr>"

definition demo_context :: srtp_context where
  "demo_context = \<lparr>cx_ssrc = 7, cx_profile = Aes128Sha1_80, rtp_keys = \<lparr>cipher_key = replicate 16 1, auth_key = replicate 20 2, salt = replicate 14 3\<rparr>,
     rtcp_keys = \<lparr>cipher_key = replicate 16 4, auth_key = replicate 20 5, salt = replicate 14 6\<rparr>,
     rtp_aes_key = replicate 16 1, rtcp_aes_key = replicate 16 4, rtp_gcm_cipher = None, rtcp_gcm_cipher = None,
     rtp_auth_prototype = Some (replicate 20 2), rtcp_auth_prototype = Some (replicate 20 5),
     cx_direction = Receiver, rollover_counter = 3, last_sequence = Some 65530, rtcp_index = 9, last_used = 0,
     cx_mki = mki_default, rx_mki_active = None\<rparr>"

definition demo_forged :: srtp_packet where
  "demo_forged = \<lparr>pk_header = rtp_header_new 96 2 160 7, pk_body = replicate 13 0, pk_padding = False\<rparr>"

lemma demo_ciphers_ok: "srtp_crypto_ok demo_ciphers"
  by (simp add: srtp_crypto_ok_def demo_ciphers_def xor.assoc comp_def)

lemma demo_session_wf: "session_wf demo_session" "session_wf (demo_session\<lparr>rx_contexts := [(7, demo_context)]\<rparr>)"
  by (simp_all add: demo_session_def session_new_def session_wf_def contexts_wf_def mki_wf_def mki_default_def bt_ok_def bt_get_def
      ctx_wf_def demo_context_def salt_len_def)

text \<open>
  C40: The operations of an SRTP session are type safe: from a well-formed session (every context has the keys,
  the ciphers and the salt lengths of its profile, the MKI its announced length) each of the six
  operations gives a well-formed session and an ordinary result or error, never a panic, for every
  packet and for every buffer; the one panic there is, the overflow of the SRTCP index after
  \<open>2 ^ 32 - 1\<close> packets, is excluded by the hypothesis on the index.
\<close>

theorem srtp_session_sound:
  assumes cr: "srtp_crypto_ok cr" and s: "session_wf s"
    and index: "\<And>ss c. bt_get ss (tx_contexts s) = Some c \<Longrightarrow> rtcp_index c \<noteq> 0xFFFFFFFF"
  shows "sound_at (session_protect_rtp cr now p out) s \<and> sound_at (session_unprotect_rtp cr now pk) s
    \<and> sound_at (session_protect_rtcp cr now bs) s \<and> sound_at (session_unprotect_rtcp cr now bs) s
    \<and> sound_at (set_tx_mki value len) s \<and> sound_at (set_rx_mki_len len) s"
proof (intro conjI)
  show "sound_at (session_protect_rtp cr now p out) s"
    unfolding wp_sound session_protect_rtp_def
    by (rule wp_on_tx [OF cr s], rule wp_weaken [OF wp_protect [OF cr]]) auto
  show "sound_at (session_unprotect_rtp cr now pk) s"
    unfolding wp_sound session_unprotect_rtp_def
    by (rule wp_on_rx [OF cr s], rule wp_weaken [OF wp_unprotect [OF cr]]) auto
  have "wp (on_tx cr now ss (protect_rtcp cr bs)) (\<lambda>_. session_wf) (\<lambda>f s'. f \<noteq> Panic \<and> session_wf s') s" if "8 \<le> length bs" for ss
    using index that by (intro wp_on_tx [OF cr s] wp_protect_rtcp [OF cr]) auto
  then show "sound_at (session_protect_rtcp cr now bs) s"
    using s by (auto simp: wp_sound session_protect_rtcp_def wp_simps at32_def split: if_splits)
  have upd: "session_wf (t\<lparr>rtcp_rx_mki_active := x\<rparr>) = session_wf t" for t x by (simp add: session_wf_def)
  have "wp (on_rx cr now ss (try_mki (unprotect_rtcp_with_mki cr bs) ms e)) (\<lambda>_. session_wf) (\<lambda>f s'. f \<noteq> Panic \<and> session_wf s') s" for ss ms e
    by (rule wp_on_rx [OF cr s], rule wp_weaken [OF wp_try_mki [OF wp_unprotect_rtcp [OF cr]]]) auto
  then have "wp (on_rx cr now ss (try_mki (unprotect_rtcp_with_mki cr bs) ms e)) (\<lambda>x t. wp ((\<lambda>(m, plain).
          ethen (emod (\<lambda>s. s\<lparr>rtcp_rx_mki_active := Some (0 < m)\<rparr>)) (ret plain)) x) (\<lambda>_. session_wf) (\<lambda>f s'. f \<noteq> Panic \<and> session_wf s') t)
      (\<lambda>f s'. f \<noteq> Panic \<and> session_wf s') s" for ss ms e
    by (rule wp_mono) (auto simp: wp_simps upd)
  then show "sound_at (session_unprotect_rtcp cr now bs) s"
    using s by (auto simp: wp_sound session_unprotect_rtcp_def wp_simps at32_def split: if_splits)
  show "sound_at (set_tx_mki value len) s" "sound_at (set_rx_mki_len len) s"
    using s by (auto simp: wp_sound set_tx_mki_def set_rx_mki_len_def wp_simps session_wf_def mki_wf_def)
qed

theorem srtp_session_sound_witness:
  "sound_at (session_unprotect_rtp demo_ciphers 0 \<lparr>pk_header = rtp_header_new 96 5 160 7, pk_body = [], pk_padding = True\<rparr>) demo_session
   \<and> sound_at (session_unprotect_rtcp demo_ciphers 0 (replicate 14 0)) demo_session"
  using srtp_session_sound [OF demo_ciphers_ok demo_session_wf(1)] by (simp add: demo_session_def session_new_def bt_get_def)

lemma evict_keep: "bt_ok T \<Longrightarrow> bt_get ss (evict_stale now ss T) = bt_get ss T"
proof (cases "bt_get ss T")
  case (Some c)
  assume ok: "bt_ok T"
  have "(ss, c) \<in> set (evict_stale now ss T)"
    using Some by (auto simp: evict_stale_def bt_get_def dest: map_of_SomeD)
  then show ?thesis
    using Some bt.keys_distinct [OF evict_ok [OF ok]] by (simp add: bt_get_def bt_keys_def)
qed (metis evict_get not_Some_eq)

lemma authentic_last_used: "authentic cr (c\<lparr>last_used := n\<rparr>) = authentic cr c"
proof -
  have "estimate_roc (c\<lparr>last_used := n\<rparr>) = estimate_roc c"
    by (rule ext) (simp add: estimate_roc_def split: option.split)
  moreover have "build_gcm_nonce (c\<lparr>last_used := n\<rparr>) = build_gcm_nonce c"
    using build_iv_cong [of "c\<lparr>last_used := n\<rparr>" c] by simp
  ultimately show ?thesis by (simp add: authentic_def fun_eq_iff)
qed

text \<open>
  C38: A packet of a stream in progress comes out of a session only when its tag is valid under the keys of the
  stream and the estimated rollover counter, for an MKI of the advertised length or of none; a rejected
  packet leaves the context of the stream as it was but for the time of its last use, so forged
  packets cannot move the rollover counter or the MKI mode.
\<close>

theorem srtp_accepts_only_authentic:
  assumes cr: "srtp_crypto_ok cr" and s: "session_wf s" and c: "bt_get (ssrc (pk_header pk)) (rx_contexts s) = Some c"
  shows "case session_unprotect_rtp cr now pk s of
      (Inr p, s') \<Rightarrow> header p = pk_header pk \<and> (\<exists>L \<in> {0, mki_rx_length (cx_mki c)}. authentic cr c pk L)
    | (Inl f, s') \<Rightarrow> f \<noteq> Panic \<and> bt_get (ssrc (pk_header pk)) (rx_contexts s') = Some (c\<lparr>last_used := now\<rparr>)"
proof -
  let ?ss = "ssrc (pk_header pk)" and ?c = "c\<lparr>last_used := now\<rparr>"
  have wf: "ctx_wf (ss_profile s) ?ss ?c" and ok: "bt_ok (rx_contexts s)"
    using s c ctx_wf_counters(2) by (auto simp: session_wf_def contexts_wf_def)
  have run: "session_unprotect_rtp cr now pk s =
      (fst (unprotect cr pk ?c), s\<lparr>rx_contexts := bt_insert ?ss (snd (unprotect cr pk ?c)) (evict_stale now ?ss (rx_contexts s))\<rparr>)"
    using c ok by (simp add: session_unprotect_rtp_def on_rx_def eff_app session_context_def evict_keep split: prod.split)
  have cand: "set (mki_candidates a n) \<subseteq> {0, n}" for a n by (auto simp: mki_candidates_def split: option.splits bool.splits)
  show ?thesis
    using wp_unprotect [OF cr wf, of pk] cand [of "rx_mki_active ?c" "mki_rx_length (cx_mki ?c)"] ok
    by (auto simp: run wp_def authentic_last_used bt.get_ins evict_ok split: prod.splits sum.splits)
qed

theorem srtp_accepts_only_authentic_witness:
  "case session_unprotect_rtp demo_ciphers 5 demo_forged (demo_session\<lparr>rx_contexts := [(7, demo_context)]\<rparr>) of
      (Inr p, s') \<Rightarrow> header p = pk_header demo_forged \<and>
        (\<exists>L \<in> {0, mki_rx_length (cx_mki demo_context)}. authentic demo_ciphers demo_context demo_forged L)
    | (Inl f, s') \<Rightarrow> f \<noteq> Panic \<and> bt_get 7 (rx_contexts s') = Some (demo_context\<lparr>last_used := 5\<rparr>)"
proof -
  have ss: "ssrc (pk_header demo_forged) = 7" by (simp add: demo_forged_def rtp_header_new_def)
  from srtp_accepts_only_authentic [OF demo_ciphers_ok demo_session_wf(2), of demo_forged demo_context 5, unfolded ss]
  show ?thesis by (simp add: bt_get_def)
qed

section \<open>Counter blocks\<close>

text \<open>The number that the bytes of a counter block stand for; counter mode adds the block's position to it.\<close>

definition be_value :: "bytes \<Rightarrow> nat" where
  "be_value bs = foldl (\<lambda>n b. 256 * n + unat b) 0 bs"

lemma be_value_snoc: "be_value (bs @ [b]) = 256 * be_value bs + unat b"
  by (simp add: be_value_def)

lemma digit_split:
  fixes n :: nat
  assumes "r < n" "r' < n" "n * a + r = n * a' + r'"
  shows "a = a' \<and> r = r'"
  using arg_cong [OF assms(3), of "\<lambda>x. x div n"] arg_cong [OF assms(3), of "\<lambda>x. x mod n"] assms(1,2) by simp

lemma be_value_inj: "length xs = length ys \<Longrightarrow> be_value xs = be_value ys \<Longrightarrow> xs = ys"
proof (induction xs arbitrary: ys rule: rev_induct)
  case (snoc x xs)
  then obtain ys' y where ys: "ys = ys' @ [y]" by (cases ys rule: rev_cases) auto
  have "256 * be_value xs + unat x = 256 * be_value ys' + unat y" using snoc.prems ys by (simp add: be_value_snoc)
  then have "be_value xs = be_value ys'" "unat x = unat y"
    using digit_split [OF unat_u8_less unat_u8_less] by blast+
  then have "xs = ys'" "x = y" using snoc ys by (simp_all add: word_unat_eq_iff)
  then show ?case using ys by simp
qed simp

lemma be_value_less: "be_value bs < 256 ^ length bs"
proof (induction bs rule: rev_induct)
  case (snoc b bs)
  then have "256 * (be_value bs + 1) \<le> 256 * 256 ^ length bs" by (intro mult_le_mono2) simp
  then show ?case using unat_u8_less [of b] by (simp add: be_value_snoc del: unat_u8_less)
qed (simp add: be_value_def)

lemma xor_block_inj:
  assumes "xor_block a b = xor_block a b'" "length b = length a" "length b' = length a"
  shows "b = b'"
proof (rule nth_equalityI)
  fix i assume i: "i < length b"
  have "a ! i XOR b ! i = a ! i XOR b' ! i" using arg_cong [OF assms(1), of "\<lambda>l. l ! i"] assms i by (simp add: xor_block_def)
  then have "a ! i XOR (a ! i XOR b ! i) = a ! i XOR (a ! i XOR b' ! i)" by simp
  then show "b ! i = b' ! i" by (simp add: xor.assoc [symmetric])
qed (use assms in simp)

lemma u64_be_shifted: "drop 6 (u64_be (push_bit 16 w)) = [0, 0]"
  unfolding u64_be_def by (auto intro!: bit_word_eqI simp: bit_simps)

lemma index_part_inj:
  assumes "push_bit 16 (packet_index roc s) = push_bit 16 (packet_index roc' s')"
  shows "roc = roc' \<and> s = s'"
proof -
  have fits: "unat (packet_index r t) * 2 ^ 16 < 2 ^ 64" for r t
    using unsigned_less [of r, where ?'a = nat] unat_u16_less [of t] by (simp add: unat_packet_index del: unat_u16_less)
  have "unat (packet_index roc s) = unat (packet_index roc' s')"
    using arg_cong [OF assms, of unat] fits by (simp add: unat_push_bit_small)
  then have "unat roc = unat roc'" "unat s = unat s'"
    using digit_split [OF unat_u16_less unat_u16_less, of "unat roc" s "unat roc'" s'] by (simp_all add: unat_packet_index mult.commute)
  then show ?thesis by (simp add: word_unat_eq_iff)
qed

lemma build_iv_blocks:
  assumes "build_iv c s roc = Ok iv"
  shows "14 \<le> length (salt (rtp_keys c))" "length iv = 16" "drop 14 iv = [0, 0]"
    "iv = xor_block (take 14 (salt (rtp_keys c)) @ [0, 0]) ([0, 0, 0, 0] @ u32_be (cx_ssrc c) @ u64_be (push_bit 16 (packet_index roc s)))"
proof -
  show l: "14 \<le> length (salt (rtp_keys c))" and iv: "iv = xor_block (take 14 (salt (rtp_keys c)) @ [0, 0])
      ([0, 0, 0, 0] @ u32_be (cx_ssrc c) @ u64_be (push_bit 16 (packet_index roc s)))"
    using assms by (auto simp: build_iv_def slice_def split: if_splits)
  show "length iv = 16" using l by (simp add: iv xor_block_def)
  show "drop 14 iv = [0, 0]"
    using l u64_be_shifted [of "packet_index roc s"] by (simp add: iv xor_block_def drop_map drop_zip)
qed

text \<open>
  C39: No counter block is used for two packets of a session. Two packets protected under the same salt that
  differ in their SSRC, their rollover counter or their sequence number have initialisation vectors
  whose first 65536 counter blocks (one mebibyte each) do not meet, and, for AES-GCM, different
  nonces.
\<close>

theorem srtp_counter_blocks_distinct:
  assumes "salt (rtp_keys c) = salt (rtp_keys c')" and "(cx_ssrc c, roc, s) \<noteq> (cx_ssrc c', roc', s')"
  shows "(build_iv c s roc = Ok iv \<and> build_iv c' s' roc' = Ok iv' \<and> k < 65536 \<and> k' < 65536
      \<longrightarrow> be_value iv + k \<noteq> be_value iv' + k' \<and> be_value iv + k < 2 ^ 128)
    \<and> (build_gcm_nonce c s roc = Ok nonce \<and> build_gcm_nonce c' s' roc' = Ok nonce' \<longrightarrow> nonce \<noteq> nonce')"
proof (intro conjI impI)
  assume "build_iv c s roc = Ok iv \<and> build_iv c' s' roc' = Ok iv' \<and> k < 65536 \<and> k' < 65536"
  then have iv: "build_iv c s roc = Ok iv" "build_iv c' s' roc' = Ok iv'" and k: "k < 65536" "k' < 65536" by simp_all
  have val: "be_value v = 65536 * be_value (take 14 v)" if "drop 14 v = [0, 0]" for v
    using append_take_drop_id [of 14 v] that be_value_snoc [of "take 14 v" 0] be_value_snoc [of "take 14 v @ [0]" 0] by simp
  note b = build_iv_blocks [OF iv(1)] and b' = build_iv_blocks [OF iv(2)]
  have "be_value iv < 256 ^ length iv" by (rule be_value_less)
  then have "65536 * be_value (take 14 iv) < 65536 * 2 ^ 112" unfolding val [OF b(3)] using b(2) by simp
  then have "be_value (take 14 iv) + 1 \<le> 2 ^ 112" by simp
  then have "65536 * (be_value (take 14 iv) + 1) \<le> 65536 * 2 ^ 112" by (rule mult_le_mono2)
  then show "be_value iv + k < 2 ^ 128" unfolding val [OF b(3)] using k by simp
  have "iv \<noteq> iv'"
  proof
    assume eq: "iv = iv'"
    have "[0, 0, 0, 0] @ u32_be (cx_ssrc c) @ u64_be (push_bit 16 (packet_index roc s))
        = [0, 0, 0, 0] @ u32_be (cx_ssrc c') @ u64_be (push_bit 16 (packet_index roc' s'))"
      by (rule xor_block_inj [of "take 14 (salt (rtp_keys c)) @ [0, 0]"]) (use eq b(1,4) b'(4) assms(1) in simp_all)
    then show False using assms(2) index_part_inj [of roc s roc' s'] by (auto simp: append_eq_append_conv)
  qed
  then have "take 14 iv \<noteq> take 14 iv'" using b(3) b'(3) by (metis append_take_drop_id)
  then have "be_value (take 14 iv) \<noteq> be_value (take 14 iv')" using b(2) b'(2) be_value_inj [of "take 14 iv" "take 14 iv'"] by auto
  then show "be_value iv + k \<noteq> be_value iv' + k'" unfolding val [OF b(3)] val [OF b'(3)] using digit_split [OF k] by blast
next
  assume "build_gcm_nonce c s roc = Ok nonce \<and> build_gcm_nonce c' s' roc' = Ok nonce'"
  then have n: "12 \<le> length (salt (rtp_keys c))"
      "nonce = xor_block (take 12 (salt (rtp_keys c))) ([0, 0] @ u32_be (cx_ssrc c) @ u32_be roc @ u16_be s)"
      "nonce' = xor_block (take 12 (salt (rtp_keys c))) ([0, 0] @ u32_be (cx_ssrc c') @ u32_be roc' @ u16_be s')"
    using assms(1) by (auto simp: build_gcm_nonce_def slice_def split: if_splits)
  show "nonce \<noteq> nonce'"
  proof
    assume eq: "nonce = nonce'"
    have "[0, 0] @ u32_be (cx_ssrc c) @ u32_be roc @ u16_be s = [0, 0] @ u32_be (cx_ssrc c') @ u32_be roc' @ u16_be s'"
      by (rule xor_block_inj [of "take 12 (salt (rtp_keys c))"]) (use eq n in simp_all)
    then show False using assms(2) by (auto simp: append_eq_append_conv)
  qed
qed

theorem srtp_counter_blocks_distinct_witness:
  "\<exists>iv iv'. build_iv demo_context 5 3 = Ok iv \<and> build_iv (demo_context\<lparr>cx_ssrc := 8\<rparr>) 5 3 = Ok iv' \<and> be_value iv + 100 \<noteq> be_value iv' + 7"
proof -
  obtain iv where iv: "build_iv demo_context 5 3 = Ok iv"
    by (rule that) (simp add: build_iv_def demo_context_def slice_def)
  obtain iv' where iv': "build_iv (demo_context\<lparr>cx_ssrc := 8\<rparr>) 5 3 = Ok iv'"
    by (rule that) (simp add: build_iv_def demo_context_def slice_def)
  have "(cx_ssrc demo_context, 3, 5) \<noteq> (cx_ssrc (demo_context\<lparr>cx_ssrc := 8\<rparr>), 3, 5)" by (simp add: demo_context_def)
  from srtp_counter_blocks_distinct [OF _ this, of iv iv' 100 7] iv iv' show ?thesis by simp
qed

section \<open>Two sessions and the network\<close>

text \<open>
  The sending session, the receiving one and what is on the network. The network may deliver anything that was
  sent, any number of times or never, and inject packets that fail authentication. All packets, the
  injected ones too, have an SSRC of a fixed set: with more than 32 of them a session evicts contexts that
  were not used for a minute, and with a context it forgets the rollover counter. The fields \<open>tx_newest\<close> and
  \<open>rx_newest\<close> hold the index of the newest packet of each SSRC, which is not on the wire.
\<close>

record srtp_link =
  near :: srtp_session
  far :: srtp_session
  rtp_wire :: "(rtp_packet \<times> nat \<times> bytes) set"
  rtcp_wire :: "(bytes \<times> bytes) set"
  tx_newest :: "u32 \<Rightarrow> nat option"
  rx_newest :: "u32 \<Rightarrow> nat option"

definition next_rtcp :: "srtp_session \<Rightarrow> u32 \<Rightarrow> nat" where
  "next_rtcp s ss = (case bt_get ss (tx_contexts s) of None \<Rightarrow> 1 | Some c \<Rightarrow> unat (rtcp_index c) + 1)"

inductive srtp_step :: "srtp_crypto \<Rightarrow> u32 set \<Rightarrow> srtp_link \<Rightarrow> srtp_link \<Rightarrow> bool" for cr S where
  send_rtp: "\<lbrakk>sendable p; ssrc (header p) \<in> S; sequence_number (header p) = of_nat i; in_window (tx_newest l (ssrc (header p))) i;
     length out = session_protected_rtp_len (near l) p; session_protect_rtp cr now p out (near l) = (Ok bs, s')\<rbrakk> \<Longrightarrow>
     srtp_step cr S l (l\<lparr>near := s', rtp_wire := insert (p, i, bs) (rtp_wire l),
       tx_newest := (tx_newest l)(ssrc (header p) := advance (tx_newest l (ssrc (header p))) i)\<rparr>)"
| send_rtcp: "\<lbrakk>length pkt \<le> 2 ^ 32; at32 pkt 4 = (Ok ss :: srtp_error fault + u32); ss \<in> S; next_rtcp (near l) ss < 2 ^ 31;
     session_protect_rtcp cr now pkt (near l) = (Ok bs, s')\<rbrakk> \<Longrightarrow>
     srtp_step cr S l (l\<lparr>near := s', rtcp_wire := insert (pkt, bs) (rtcp_wire l)\<rparr>)"
| deliver_rtp: "\<lbrakk>(p, i, bs) \<in> rtp_wire l; in_window (rx_newest l (ssrc (header p))) i; srtp_packet_parse bs = Ok pk;
     session_unprotect_rtp cr now pk (far l) = (r, s')\<rbrakk> \<Longrightarrow>
     srtp_step cr S l (l\<lparr>far := s', rx_newest := (rx_newest l)(ssrc (header p) := advance (rx_newest l (ssrc (header p))) i)\<rparr>)"
| deliver_rtcp: "\<lbrakk>(pkt, bs) \<in> rtcp_wire l; session_unprotect_rtcp cr now bs (far l) = (r, s')\<rbrakk> \<Longrightarrow>
     srtp_step cr S l (l\<lparr>far := s'\<rparr>)"
| forge: "\<lbrakk>ssrc (pk_header pk) \<in> S; session_unprotect_rtp cr now pk (far l) = (Inl (Err e), s')\<rbrakk> \<Longrightarrow>
     srtp_step cr S l (l\<lparr>far := s'\<rparr>)"
| forge_rtcp: "\<lbrakk>length bs < 14 \<or> at32 bs 4 = (Ok ss :: srtp_error fault + u32) \<and> ss \<in> S;
     session_unprotect_rtcp cr now bs (far l) = (Inl (Err e), s')\<rbrakk> \<Longrightarrow>
     srtp_step cr S l (l\<lparr>far := s'\<rparr>)"

inductive_cases srtp_stepE: "srtp_step cr S l l'"

text \<open>Two fresh sessions with the same profile and the receiver keyed as the sender, whose MKI lengths agree.\<close>

definition srtp_start :: "srtp_link \<Rightarrow> bool" where
  "srtp_start l \<longleftrightarrow>
     tx_contexts (near l) = [] \<and> rx_contexts (far l) = [] \<and> rtp_wire l = {} \<and> rtcp_wire l = {} \<and>
     tx_newest l = (\<lambda>_. None) \<and> rx_newest l = (\<lambda>_. None) \<and> rtcp_rx_mki_active (far l) = None \<and>
     ss_profile (far l) = ss_profile (near l) \<and> rx_keying (far l) = tx_keying (near l) \<and>
     keying_ok (ss_profile (near l)) (tx_keying (near l)) \<and> mki_wf (ss_mki (near l)) \<and> mki_wf (ss_mki (far l)) \<and>
     mki_rx_length (ss_mki (far l)) = mki_tx_length (ss_mki (near l))"

text \<open>The keys a context of this SSRC has at either end.\<close>

definition opens_with where
  "opens_with cr prof k ss P \<longleftrightarrow> (\<forall>c. keyed cr prof k c \<and> cx_ssrc c = ss \<longrightarrow> P (crypto_view c))"

definition srtp_link_inv :: "srtp_crypto \<Rightarrow> u32 set \<Rightarrow> srtp_link \<Rightarrow> bool" where
  "srtp_link_inv cr S l \<longleftrightarrow>
     (let prof = ss_profile (near l); k = tx_keying (near l); L = mki_tx_length (ss_mki (near l)) in
      ss_profile (far l) = prof \<and> rx_keying (far l) = k \<and> keying_ok prof k \<and>
      mki_wf (ss_mki (near l)) \<and> mki_wf (ss_mki (far l)) \<and> mki_rx_length (ss_mki (far l)) = L \<and>
      (rtcp_rx_mki_active (far l) = None \<or> rtcp_rx_mki_active (far l) = Some (0 < L)) \<and>
      lanes cr prof k (ss_mki (near l)) S (tx_newest l) (tx_contexts (near l)) \<and>
      lanes cr prof k (ss_mki (far l)) S (rx_newest l) (rx_contexts (far l)) \<and>
      (\<forall>(p, i, bs) \<in> rtp_wire l. sendable p \<and> ssrc (header p) \<in> S \<and> sequence_number (header p) = of_nat i \<and> i < 2 ^ 48 \<and>
         opens_with cr prof k (ssrc (header p)) (\<lambda>v. opens cr v L p (of_nat (i div 65536)) bs)) \<and>
      (\<forall>(pkt, bs) \<in> rtcp_wire l. \<exists>ss \<in> S. at32 pkt 4 = (Ok ss :: srtp_error fault + u32) \<and>
         opens_with cr prof k ss (\<lambda>v. opens_rtcp cr v L pkt bs)))"

lemma opens_with_lane:
  "lane cr prof k mki ss h c \<Longrightarrow> P (crypto_view c) \<Longrightarrow> opens_with cr prof k ss P"
  "lane cr prof k mki ss h c \<Longrightarrow> opens_with cr prof k ss P \<Longrightarrow> P (crypto_view c)"
  by (auto simp: lane_def ctx_wf_def opens_with_def dest: keyed_same)

lemma ctx_update_view [simp]: "crypto_view (ctx_update s r c) = crypto_view c"
  by (simp add: ctx_update_def split: option.split)

lemma protect_session:
  assumes cr: "srtp_crypto_ok cr" and S: "finite S" "card S \<le> SSRC_CONTEXT_HIGH_WATERMARK"
    and inv: "srtp_link_inv cr S l"
    and p: "sendable p" "ssrc (header p) \<in> S" "sequence_number (header p) = of_nat i" "in_window (tx_newest l (ssrc (header p))) i"
    and out: "length out = session_protected_rtp_len (near l) p"
  obtains bs s' where "session_protect_rtp cr now p out (near l) = (Ok bs, s')"
    "srtp_link_inv cr S (l\<lparr>near := s', rtp_wire := insert (p, i, bs) (rtp_wire l),
       tx_newest := (tx_newest l)(ssrc (header p) := advance (tx_newest l (ssrc (header p))) i)\<rparr>)"
proof -
  let ?s = "near l" and ?ss = "ssrc (header p)" and ?q = "sequence_number (header p)"
  have l: "lanes cr (ss_profile ?s) (tx_keying ?s) (ss_mki ?s) S (tx_newest l) (tx_contexts ?s)"
    and k: "keying_ok (ss_profile ?s) (tx_keying ?s)" and m: "mki_wf (ss_mki ?s)"
    using inv by (simp_all add: srtp_link_inv_def Let_def)
  obtain c where c: "lane cr (ss_profile ?s) (tx_keying ?s) (ss_mki ?s) ?ss (tx_newest l ?ss) c"
    and run: "\<And>f :: bytes ctx_eff. on_tx cr now ?ss f ?s = (fst (f c), ?s\<lparr>tx_contexts := bt_insert ?ss (snd (f c)) (tx_contexts ?s)\<rparr>)"
    using on_tx_lane [OF cr l k m S, where ss = ?ss and now = now] by metis
  note w = lane_window [OF c p(4)]
  have wf: "ctx_wf (ss_profile ?s) ?ss c" "cx_mki c = ss_mki ?s" using c by (simp_all add: lane_def)
  have "length out = protected_rtp_len c p"
    using out wf by (simp add: session_protected_rtp_len_def protected_rtp_len_def ctx_wf_def)
  from protect_ok [OF cr wf(1) p(1) this] obtain bs where
      bs: "protect cr p out c = (Ok bs, ctx_update ?q (estimate_roc c ?q) c)"
      "opens cr (crypto_view c) (mki_tx_length (cx_mki c)) p (estimate_roc c ?q) bs" by blast
  let ?s' = "?s\<lparr>tx_contexts := bt_insert ?ss (ctx_update ?q (estimate_roc c ?q) c) (tx_contexts ?s)\<rparr>"
  have "session_protect_rtp cr now p out ?s = (Ok bs, ?s')"
    using bs by (simp add: session_protect_rtp_def run)
  moreover have "opens_with cr (ss_profile ?s) (tx_keying ?s) ?ss (\<lambda>v. opens cr v (mki_tx_length (ss_mki ?s)) p (of_nat (i div 65536)) bs)"
    using opens_with_lane(1) [OF c] bs(2) w(1) wf(2) p(3) by simp
  moreover have "lanes cr (ss_profile ?s) (tx_keying ?s) (ss_mki ?s) S ((tx_newest l)(?ss := advance (tx_newest l ?ss) i)) (tx_contexts ?s')"
    using lanes_insert [OF l p(2) w(2)] w(1) p(3) by simp
  ultimately show thesis
    using inv p by (intro that [of bs ?s']) (auto simp: srtp_link_inv_def Let_def in_window_def)
qed

lemma protect_rtcp_session:
  assumes cr: "srtp_crypto_ok cr" and S: "finite S" "card S \<le> SSRC_CONTEXT_HIGH_WATERMARK"
    and inv: "srtp_link_inv cr S l"
    and p: "length pkt \<le> 2 ^ 32" "at32 pkt 4 = (Ok ss :: srtp_error fault + u32)" "ss \<in> S" "next_rtcp (near l) ss < 2 ^ 31"
  obtains bs s' where "session_protect_rtcp cr now pkt (near l) = (Ok bs, s')"
    "srtp_link_inv cr S (l\<lparr>near := s', rtcp_wire := insert (pkt, bs) (rtcp_wire l)\<rparr>)"
proof -
  let ?s = "near l"
  have l: "lanes cr (ss_profile ?s) (tx_keying ?s) (ss_mki ?s) S (tx_newest l) (tx_contexts ?s)"
    and k: "keying_ok (ss_profile ?s) (tx_keying ?s)" and m: "mki_wf (ss_mki ?s)"
    using inv by (simp_all add: srtp_link_inv_def Let_def)
  obtain c where c: "lane cr (ss_profile ?s) (tx_keying ?s) (ss_mki ?s) ss (tx_newest l ss) c"
    and run: "\<And>f :: bytes ctx_eff. on_tx cr now ss f ?s = (fst (f c), ?s\<lparr>tx_contexts := bt_insert ss (snd (f c)) (tx_contexts ?s)\<rparr>)"
    and idx: "rtcp_index c = (case bt_get ss (tx_contexts ?s) of None \<Rightarrow> 0 | Some c' \<Rightarrow> rtcp_index c')"
    using on_tx_lane [OF cr l k m S, where ss = ss and now = now] by metis
  have wf: "ctx_wf (ss_profile ?s) ss c" "cx_mki c = ss_mki ?s" using c by (simp_all add: lane_def)
  have len: "8 \<le> length pkt" using p(2) by (simp add: at32_def split: if_splits)
  have "unat (rtcp_index c) + 1 < 2 ^ 31" using p(4) idx by (simp add: next_rtcp_def split: option.splits)
  from protect_rtcp_ok [OF cr wf(1) len p(1) this] obtain bs where
      bs: "protect_rtcp cr pkt c = (Ok bs, c\<lparr>rtcp_index := rtcp_index c + 1\<rparr>)"
      "opens_rtcp cr (crypto_view c) (mki_tx_length (cx_mki c)) pkt bs" by blast
  let ?s' = "?s\<lparr>tx_contexts := bt_insert ss (c\<lparr>rtcp_index := rtcp_index c + 1\<rparr>) (tx_contexts ?s)\<rparr>"
  have "session_protect_rtcp cr now pkt ?s = (Ok bs, ?s')"
    using bs p(2) len by (simp add: session_protect_rtcp_def run eff_app)
  moreover have "opens_with cr (ss_profile ?s) (tx_keying ?s) ss (\<lambda>v. opens_rtcp cr v (mki_tx_length (ss_mki ?s)) pkt bs)"
    using opens_with_lane(1) [OF c] bs(2) wf(2) by simp
  moreover have "lanes cr (ss_profile ?s) (tx_keying ?s) (ss_mki ?s) S (tx_newest l) (tx_contexts ?s')"
    using lanes_insert [OF l p(3) lane_upd(2) [OF c]] by simp
  ultimately show thesis
    using inv p by (intro that [of bs ?s']) (auto simp: srtp_link_inv_def Let_def)
qed

lemma receiver:
  assumes cr: "srtp_crypto_ok cr" and S: "finite S" "card S \<le> SSRC_CONTEXT_HIGH_WATERMARK"
    and inv: "srtp_link_inv cr S l"
  obtains c where "lane cr (ss_profile (near l)) (tx_keying (near l)) (ss_mki (far l)) ss (rx_newest l ss) c"
    "\<And>f :: 'a ctx_eff. on_rx cr now ss f (far l) = (fst (f c), (far l)\<lparr>rx_contexts := bt_insert ss (snd (f c)) (rx_contexts (far l))\<rparr>)"
proof -
  have e: "ss_profile (far l) = ss_profile (near l)" "rx_keying (far l) = tx_keying (near l)"
    using inv by (simp_all add: srtp_link_inv_def Let_def)
  have "lanes cr (ss_profile (far l)) (rx_keying (far l)) (ss_mki (far l)) S (rx_newest l) (rx_contexts (far l))"
    "keying_ok (ss_profile (far l)) (rx_keying (far l))" "mki_wf (ss_mki (far l))"
    using inv by (simp_all add: srtp_link_inv_def Let_def)
  from on_rx_lane [OF cr this S, where ss = ss and now = now] that show thesis unfolding e by metis
qed

lemma far_update:
  assumes inv: "srtp_link_inv cr S l" and ss: "ss \<in> S"
    and c: "lane cr (ss_profile (near l)) (tx_keying (near l)) (ss_mki (far l)) ss h c"
  shows "srtp_link_inv cr S (l\<lparr>far := (far l)\<lparr>rx_contexts := bt_insert ss c (rx_contexts (far l))\<rparr>, rx_newest := (rx_newest l)(ss := h)\<rparr>)"
  using inv lanes_insert [OF _ ss c, of "rx_newest l" "rx_contexts (far l)"] by (simp add: srtp_link_inv_def Let_def)

lemma unprotect_session:
  assumes cr: "srtp_crypto_ok cr" and S: "finite S" "card S \<le> SSRC_CONTEXT_HIGH_WATERMARK"
    and inv: "srtp_link_inv cr S l" and w: "(p, i, bs) \<in> rtp_wire l" "in_window (rx_newest l (ssrc (header p))) i"
  obtains pk s' where "srtp_packet_parse bs = Ok pk" "session_unprotect_rtp cr now pk (far l) = (Ok (as_received p), s')"
    "srtp_link_inv cr S (l\<lparr>far := s', rx_newest := (rx_newest l)(ssrc (header p) := advance (rx_newest l (ssrc (header p))) i)\<rparr>)"
proof -
  let ?s = "far l" and ?ss = "ssrc (header p)" and ?L = "mki_tx_length (ss_mki (near l))"
  have p: "sendable p" "?ss \<in> S" "sequence_number (header p) = of_nat i"
      "opens_with cr (ss_profile (near l)) (tx_keying (near l)) ?ss (\<lambda>v. opens cr v ?L p (of_nat (i div 65536)) bs)"
    and L: "mki_rx_length (ss_mki ?s) = ?L"
    using inv w(1) by (auto simp: srtp_link_inv_def Let_def)
  obtain c where c: "lane cr (ss_profile (near l)) (tx_keying (near l)) (ss_mki ?s) ?ss (rx_newest l ?ss) c"
    and run: "\<And>f :: rtp_packet ctx_eff. on_rx cr now ?ss f ?s = (fst (f c), ?s\<lparr>rx_contexts := bt_insert ?ss (snd (f c)) (rx_contexts ?s)\<rparr>)"
    using receiver [OF cr S inv, where ss = ?ss and now = now] by metis
  note est = lane_window [OF c w(2)]
  have m: "cx_mki c = ss_mki ?s" "rx_mki_active c = None \<or> rx_mki_active c = Some (0 < mki_rx_length (cx_mki c))"
    using c by (auto simp: lane_def)
  have "opens cr (crypto_view c) (mki_rx_length (cx_mki c)) p (estimate_roc c (sequence_number (header p))) bs"
    using opens_with_lane(2) [OF c p(4)] est(1) p(3) m(1) L by simp
  from unprotect_ok [OF this p(1) m(2)] obtain pk where pk: "srtp_packet_parse bs = Ok pk" "ssrc (pk_header pk) = ?ss"
      "unprotect cr pk c = (Ok (as_received p),
        (ctx_update (of_nat i) (of_nat (i div 65536)) c)\<lparr>rx_mki_active := Some (0 < mki_rx_length (ss_mki ?s))\<rparr>)"
    using est(1) p(3) m(1) by auto
  show thesis
    by (rule that [OF pk(1) _ far_update [OF inv p(2) lane_upd(4) [OF est(2)]]]) (simp add: session_unprotect_rtp_def pk run)
qed

lemma unprotect_rtcp_session:
  assumes cr: "srtp_crypto_ok cr" and S: "finite S" "card S \<le> SSRC_CONTEXT_HIGH_WATERMARK"
    and inv: "srtp_link_inv cr S l" and w: "(pkt, bs) \<in> rtcp_wire l"
  obtains s' where "session_unprotect_rtcp cr now bs (far l) = (Ok pkt, s')" "srtp_link_inv cr S (l\<lparr>far := s'\<rparr>)"
proof -
  let ?s = "far l" and ?L = "mki_tx_length (ss_mki (near l))"
  obtain ss where p: "ss \<in> S" "at32 pkt 4 = (Ok ss :: srtp_error fault + u32)"
      "opens_with cr (ss_profile (near l)) (tx_keying (near l)) ss (\<lambda>v. opens_rtcp cr v ?L pkt bs)"
    and L: "mki_rx_length (ss_mki ?s) = ?L" and active: "rtcp_rx_mki_active ?s = None \<or> rtcp_rx_mki_active ?s = Some (0 < ?L)"
    using inv w by (fastforce simp: srtp_link_inv_def Let_def)
  obtain c where c: "lane cr (ss_profile (near l)) (tx_keying (near l)) (ss_mki ?s) ss (rx_newest l ss) c"
    and run: "\<And>f :: (nat \<times> bytes) ctx_eff. on_rx cr now ss f ?s = (fst (f c), ?s\<lparr>rx_contexts := bt_insert ss (snd (f c)) (rx_contexts ?s)\<rparr>)"
    using receiver [OF cr S inv, where ss = ss and now = now] by metis
  obtain index where o: "14 \<le> length bs" "at32 bs 4 = (Ok ss :: srtp_error fault + u32)"
      "unprotect_rtcp_with_mki cr bs ?L c = (Ok pkt, note_index index c)"
    using opens_with_lane(2) [OF c p(3)] p(2) by (auto simp: opens_rtcp_def)
  have "try_mki (unprotect_rtcp_with_mki cr bs) (mki_candidates (rtcp_rx_mki_active ?s) (mki_rx_length (ss_mki ?s))) AuthenticationFailed c
      = (Ok (?L, pkt), note_index index c)"
    using active o(3) L by (auto simp: mki_candidates_def)
  then have "session_unprotect_rtcp cr now bs ?s =
      (Ok pkt, ?s\<lparr>rx_contexts := bt_insert ss (note_index index c) (rx_contexts ?s), rtcp_rx_mki_active := Some (0 < ?L)\<rparr>)"
    using o by (simp add: session_unprotect_rtcp_def eff_app run)
  moreover have "srtp_link_inv cr S (l\<lparr>far := ?s\<lparr>rx_contexts := bt_insert ss (note_index index c) (rx_contexts ?s),
      rtcp_rx_mki_active := Some (0 < ?L)\<rparr>\<rparr>)"
    using far_update [OF inv p(1) lane_upd(3) [OF c, of index]] by (simp add: srtp_link_inv_def Let_def)
  ultimately show thesis by (rule that)
qed

lemma forge_session:
  assumes cr: "srtp_crypto_ok cr" and S: "finite S" "card S \<le> SSRC_CONTEXT_HIGH_WATERMARK"
    and inv: "srtp_link_inv cr S l" and pk: "ssrc (pk_header pk) \<in> S" "session_unprotect_rtp cr now pk (far l) = (Inl (Err e), s')"
  shows "srtp_link_inv cr S (l\<lparr>far := s'\<rparr>)"
proof -
  let ?s = "far l" and ?ss = "ssrc (pk_header pk)"
  obtain c where c: "lane cr (ss_profile (near l)) (tx_keying (near l)) (ss_mki ?s) ?ss (rx_newest l ?ss) c"
    and run: "\<And>f :: rtp_packet ctx_eff. on_rx cr now ?ss f ?s = (fst (f c), ?s\<lparr>rx_contexts := bt_insert ?ss (snd (f c)) (rx_contexts ?s)\<rparr>)"
    using receiver [OF cr S inv, where ss = ?ss and now = now] by metis
  have "ctx_wf (ss_profile (near l)) ?ss c" using c by (simp add: lane_def)
  from wp_unprotect [OF cr this, of pk] have "s' = ?s\<lparr>rx_contexts := bt_insert ?ss c (rx_contexts ?s)\<rparr>"
    using pk(2) by (auto simp: session_unprotect_rtp_def run wp_def split: prod.splits sum.splits)
  then show ?thesis using far_update [OF inv pk(1) c] by simp
qed

lemma forge_rtcp_session:
  assumes cr: "srtp_crypto_ok cr" and S: "finite S" "card S \<le> SSRC_CONTEXT_HIGH_WATERMARK"
    and inv: "srtp_link_inv cr S l" and bs: "length bs < 14 \<or> at32 bs 4 = (Ok ss :: srtp_error fault + u32) \<and> ss \<in> S"
      "session_unprotect_rtcp cr now bs (far l) = (Inl (Err e), s')"
  shows "srtp_link_inv cr S (l\<lparr>far := s'\<rparr>)"
proof (cases "length bs < 14")
  case True
  then have "s' = far l" using bs(2) by (simp add: session_unprotect_rtcp_def efail_def)
  then show ?thesis using inv by simp
next
  case False
  let ?s = "far l"
  have ss: "at32 bs 4 = (Ok ss :: srtp_error fault + u32)" "ss \<in> S" using bs(1) False by simp_all
  obtain c where c: "lane cr (ss_profile (near l)) (tx_keying (near l)) (ss_mki ?s) ss (rx_newest l ss) c"
    and run: "\<And>f :: (nat \<times> bytes) ctx_eff. on_rx cr now ss f ?s = (fst (f c), ?s\<lparr>rx_contexts := bt_insert ss (snd (f c)) (rx_contexts ?s)\<rparr>)"
    using receiver [OF cr S inv, where ss = ss and now = now] by metis
  have wf: "ctx_wf (ss_profile (near l)) ss c" using c by (simp add: lane_def)
  let ?f = "try_mki (unprotect_rtcp_with_mki cr bs) (mki_candidates (rtcp_rx_mki_active ?s) (mki_rx_length (ss_mki ?s))) AuthenticationFailed"
  have "wp ?f (\<lambda>_ _. True) (\<lambda>f c'. f \<noteq> Panic \<and> c' = c) c"
    using wp_try_mki [where f = "unprotect_rtcp_with_mki cr bs" and e = AuthenticationFailed, OF wp_unprotect_rtcp [OF cr wf]]
    by (rule wp_mono) auto
  then have "s' = ?s\<lparr>rx_contexts := bt_insert ss c (rx_contexts ?s)\<rparr>"
    using bs(2) False ss(1)
    by (cases "?f c") (auto simp: session_unprotect_rtcp_def eff_app run wp_def split: sum.splits)
  then show ?thesis using far_update [OF inv ss(2) c] by simp
qed

lemma srtp_link_inv_step:
  assumes cr: "srtp_crypto_ok cr" and S: "finite S" "card S \<le> SSRC_CONTEXT_HIGH_WATERMARK"
    and step: "srtp_step cr S l l'" and inv: "srtp_link_inv cr S l"
  shows "srtp_link_inv cr S l'"
  using step inv
proof cases
  case (send_rtp p i out now bs s')
  show ?thesis unfolding send_rtp(1) by (rule protect_session [OF cr S inv send_rtp(2-6), of now]) (use send_rtp in simp)
next
  case (send_rtcp pkt ss now bs s')
  show ?thesis unfolding send_rtcp(1) by (rule protect_rtcp_session [OF cr S inv send_rtcp(2-5), of now]) (use send_rtcp in simp)
next
  case (deliver_rtp p i bs pk now r s')
  show ?thesis unfolding deliver_rtp(1) by (rule unprotect_session [OF cr S inv deliver_rtp(2,3), of now]) (use deliver_rtp in simp)
next
  case (deliver_rtcp pkt bs now r s')
  show ?thesis unfolding deliver_rtcp(1) by (rule unprotect_rtcp_session [OF cr S inv deliver_rtcp(2), of now]) (use deliver_rtcp in simp)
next
  case (forge pk now e s')
  then show ?thesis using forge_session [OF cr S inv] by simp
next
  case (forge_rtcp bs ss now e s')
  then show ?thesis using forge_rtcp_session [OF cr S inv] by simp
qed

lemma srtp_link_inv_start: "srtp_start l \<Longrightarrow> srtp_link_inv cr S l"
  by (simp add: srtp_start_def srtp_link_inv_def Let_def lanes_def bt_ok_def bt_keys_def bt_get_def)

lemma srtp_link_inv_reach:
  assumes cr: "srtp_crypto_ok cr" and S: "finite S" "card S \<le> SSRC_CONTEXT_HIGH_WATERMARK"
    and run: "(srtp_step cr S)\<^sup>*\<^sup>* l0 l" and start: "srtp_start l0"
  shows "srtp_link_inv cr S l"
  using run by (induction rule: rtranclp_induct) (auto intro: srtp_link_inv_start [OF start] srtp_link_inv_step [OF cr S])

text \<open>
  C2: SRTP and SRTCP are transparent over a network that loses, repeats, delays, reorders and injects packets.
  Two fresh sessions with the same profile, the receiver keyed as the sender and agreeing on the MKI
  length, send and receive packets of a set of at most 32 SSRCs; the injected RTP and SRTCP packets fail
  authentication and carry SSRCs of that set, so the receiver never holds more than 32 contexts and
  evicts none; a sender counts its SRTCP packets below 2 to the power 31, and the first packet of an SSRC,
  at the sender and at the receiver, has an index below 2 to the power 16 (rollover counter 0). Then in every state of every such run each RTP packet on the
  network whose index is within \<open>2 ^ 15\<close> of the newest one received of its SSRC is opened to the packet that was
  sent, each SRTCP packet is opened to the packet that was sent whatever its age, and every well-formed
  packet within the same distance of the newest one sent can be protected.
\<close>

theorem srtp_delivery:
  assumes cr: "srtp_crypto_ok cr" and S: "finite S" "card S \<le> SSRC_CONTEXT_HIGH_WATERMARK"
    and start: "srtp_start l0" and run: "(srtp_step cr S)\<^sup>*\<^sup>* l0 l"
  shows "(\<forall>(p, i, bs) \<in> rtp_wire l. in_window (rx_newest l (ssrc (header p))) i \<longrightarrow>
       (\<exists>pk. srtp_packet_parse bs = Ok pk \<and> fst (session_unprotect_rtp cr now pk (far l)) = Ok (as_received p)))
    \<and> (\<forall>(pkt, bs) \<in> rtcp_wire l. fst (session_unprotect_rtcp cr now bs (far l)) = Ok pkt)
    \<and> (sendable q \<and> ssrc (header q) \<in> S \<and> sequence_number (header q) = of_nat j \<and> in_window (tx_newest l (ssrc (header q))) j
        \<and> length out = session_protected_rtp_len (near l) q \<longrightarrow> (\<exists>bs. fst (session_protect_rtp cr now q out (near l)) = Ok bs))"
proof -
  note inv = srtp_link_inv_reach [OF cr S run start]
  have "\<exists>pk. srtp_packet_parse bs = Ok pk \<and> fst (session_unprotect_rtp cr now pk (far l)) = Ok (as_received p)"
    if "(p, i, bs) \<in> rtp_wire l" "in_window (rx_newest l (ssrc (header p))) i" for p i bs
    by (rule unprotect_session [OF cr S inv that, of now]) auto
  moreover have "fst (session_unprotect_rtcp cr now bs (far l)) = Ok pkt" if "(pkt, bs) \<in> rtcp_wire l" for pkt bs
    by (rule unprotect_rtcp_session [OF cr S inv that, of now]) simp
  moreover have "\<exists>bs. fst (session_protect_rtp cr now q out (near l)) = Ok bs"
    if "sendable q" "ssrc (header q) \<in> S" "sequence_number (header q) = of_nat j" "in_window (tx_newest l (ssrc (header q))) j"
      "length out = session_protected_rtp_len (near l) q"
    by (rule protect_session [OF cr S inv that, of now]) simp
  ultimately show ?thesis by blast
qed

definition demo_srtp_link :: srtp_link where
  "demo_srtp_link = \<lparr>near = demo_session, far = demo_session, rtp_wire = {}, rtcp_wire = {}, tx_newest = (\<lambda>_. None), rx_newest = (\<lambda>_. None)\<rparr>"

lemma demo_srtp_start: "srtp_start demo_srtp_link" "sendable demo_packet"
  by (simp_all add: srtp_start_def demo_srtp_link_def demo_session_def session_new_def keying_ok_def key_len_def salt_len_def
      demo_keying_def mki_wf_def mki_default_def mki_rx_length_def mki_tx_length_def sendable_def demo_packet_def rtp_header_new_def
      rtp_header_validate_def rtp_header_fits_def)

theorem srtp_delivery_witness:
  "\<exists>l bs pk. (srtp_step demo_ciphers {7})\<^sup>*\<^sup>* demo_srtp_link l \<and> (demo_packet, 65535, bs) \<in> rtp_wire l \<and>
     srtp_packet_parse bs = Ok pk \<and> fst (session_unprotect_rtp demo_ciphers 3 pk (far l)) = Ok demo_packet"
proof -
  have S: "finite {7 :: u32}" "card {7 :: u32} \<le> SSRC_CONTEXT_HIGH_WATERMARK" by (simp_all add: SSRC_CONTEXT_HIGH_WATERMARK_def)
  note inv = srtp_link_inv_start [OF demo_srtp_start(1), of demo_ciphers "{7}"]
  let ?out = "replicate (session_protected_rtp_len (near demo_srtp_link) demo_packet) 0"
  have p: "ssrc (header demo_packet) \<in> {7}" "sequence_number (header demo_packet) = of_nat 65535"
    "in_window (tx_newest demo_srtp_link (ssrc (header demo_packet))) 65535"
    "length ?out = session_protected_rtp_len (near demo_srtp_link) demo_packet"
    by (simp_all add: demo_packet_def rtp_header_new_def in_window_def demo_srtp_link_def)
  obtain bs s' where "session_protect_rtp demo_ciphers 2 demo_packet ?out (near demo_srtp_link) = (Ok bs, s')"
    using protect_session [OF demo_ciphers_ok S inv demo_srtp_start(2) p] by metis
  note step = srtp_step.send_rtp [OF demo_srtp_start(2) p this]
  let ?l = "demo_srtp_link\<lparr>near := s', rtp_wire := insert (demo_packet, 65535, bs) (rtp_wire demo_srtp_link),
    tx_newest := (tx_newest demo_srtp_link)(ssrc (header demo_packet) := advance (tx_newest demo_srtp_link (ssrc (header demo_packet))) 65535)\<rparr>"
  have run: "(srtp_step demo_ciphers {7})\<^sup>*\<^sup>* demo_srtp_link ?l" using step by (rule r_into_rtranclp)
  have "in_window (rx_newest ?l (ssrc (header demo_packet))) 65535" "(demo_packet, 65535, bs) \<in> rtp_wire ?l"
    by (simp_all add: demo_srtp_link_def in_window_def)
  moreover have "as_received demo_packet = demo_packet" by (simp add: as_received_def demo_packet_def rtp_header_new_def)
  ultimately obtain pk where "srtp_packet_parse bs = Ok pk" "fst (session_unprotect_rtp demo_ciphers 3 pk (far ?l)) = Ok demo_packet"
    using srtp_delivery [OF demo_ciphers_ok S demo_srtp_start(1) run, of 3 demo_packet 65535 "[]"] by fastforce
  then show ?thesis using run by (intro exI [of _ ?l] exI [of _ bs] exI [of _ pk]) simp
qed

end
