(* ===== verification/T38_Per.thy ===== *)
theory T38_Per
  imports Net_Addr Rust_Str Effect
begin

text \<open>
  The packed encoding rules of T.38 (\<open>t38/per.rs\<close>): the bit writer and the bit reader, and the codecs of
  \<open>PerCodec\<close> for integers, lengths, choices and octet strings. A codec is correct when reading, at the place where
  a value was written, gives the value and ends where the writer ended; the locale \<open>codec\<close> states this once
  and its lemma composes codecs.
\<close>

unbundle bit_operations_syntax

section \<open>Writing and reading bits\<close>

record bit_writer =
  bw_data :: bytes
  bw_pos :: nat

record bit_reader =
  br_data :: bytes
  br_pos :: nat

definition bit_writer_new :: bit_writer where
  "bit_writer_new = \<lparr>bw_data = [], bw_pos = 0\<rparr>"

definition write_bit :: "bool \<Rightarrow> bit_writer \<Rightarrow> bit_writer" where
  "write_bit b w =
     (let byte_idx = bw_pos w div 8;
          bit_idx = 7 - bw_pos w mod 8;
          bs = (if length (bw_data w) \<le> byte_idx then bw_data w @ [0] else bw_data w);
          bs = (if b then bs[byte_idx := bs ! byte_idx OR push_bit bit_idx 1] else bs) in
      \<lparr>bw_data = bs, bw_pos = bw_pos w + 1\<rparr>)"

fun write_bits :: "u64 \<Rightarrow> nat \<Rightarrow> bit_writer \<Rightarrow> bit_writer" where
  "write_bits val 0 w = w"
| "write_bits val (Suc i) w = write_bits val i (write_bit (bit val i) w)"

definition writer_align :: "bit_writer \<Rightarrow> bit_writer" where
  "writer_align w =
     (let remainder = bw_pos w mod 8 in
      if remainder \<noteq> 0 then (write_bit False ^^ (8 - remainder)) w else w)"

definition into_bytes :: "bit_writer \<Rightarrow> bytes" where
  "into_bytes w =
     (let needed = (bw_pos w + 7) div 8 in take needed (bw_data w) @ replicate (needed - length (bw_data w)) 0)"

type_synonym 'a reading = "(bit_reader, rtc_error, 'a) eff"

definition bit_reader_new :: "bytes \<Rightarrow> bit_reader" where
  "bit_reader_new bs = \<lparr>br_data = bs, br_pos = 0\<rparr>"

definition read_bit :: "bool reading" where
  "read_bit = eget (\<lambda>r.
     let byte_idx = br_pos r div 8; bit_idx = 7 - br_pos r mod 8 in
     if length (br_data r) \<le> byte_idx then efail (Protocol ''PER: unexpected end of data'')
     else ethen (emod (\<lambda>r. r\<lparr>br_pos := br_pos r + 1\<rparr>)) (ret (bit (br_data r ! byte_idx) bit_idx)))"

fun read_loop :: "nat \<Rightarrow> u64 \<Rightarrow> u64 reading" where
  "read_loop 0 val = ret val"
| "read_loop (Suc n) val = ebind read_bit (\<lambda>b. read_loop n (push_bit 1 val OR of_bool b))"

definition read_bits :: "nat \<Rightarrow> u64 reading" where
  "read_bits count = read_loop count 0"

definition reader_align :: "unit reading" where
  "reader_align = emod (\<lambda>r. if br_pos r mod 8 \<noteq> 0 then r\<lparr>br_pos := br_pos r + (8 - br_pos r mod 8)\<rparr> else r)"

definition remaining_bits :: "bit_reader \<Rightarrow> int" where
  "remaining_bits r = int (length (br_data r) * 8) - int (br_pos r)"

section \<open>Codecs\<close>

fun bit_count :: "nat \<Rightarrow> nat" where
  "bit_count r = (if r = 0 then 0 else 1 + bit_count (r div 2))"

declare bit_count.simps [simp del]

definition bits_needed :: "u64 \<Rightarrow> nat" where
  "bits_needed rng = (if rng \<le> 1 then 0 else bit_count (unat (rng - 1)))"

type_synonym writing = "bit_writer \<Rightarrow> rtc_error fault + bit_writer"

definition put_bits :: "u64 \<Rightarrow> nat \<Rightarrow> writing" where
  "put_bits val bits w = Ok (if 0 < bits then write_bits val bits w else w)"

definition get_bits :: "nat \<Rightarrow> u64 reading" where
  "get_bits bits = (if 0 < bits then read_bits bits else ret 0)"

definition encode_bool :: "bool \<Rightarrow> writing" where
  "encode_bool val w = Ok (write_bit val w)"

definition decode_bool :: "bool reading" where
  "decode_bool = read_bit"

definition show_int :: "int \<Rightarrow> string" where
  "show_int i = (if i < 0 then ''-'' @ show_nat (nat (- i)) else show_nat (nat i))"

definition encode_int :: "u64 \<Rightarrow> int \<Rightarrow> int \<Rightarrow> writing" where
  "encode_int val lo hi w =
     (if val < of_int lo \<or> of_int hi < val
      then Fail (Protocol (''PER integer '' @ show_nat (unat val) @ '' out of range ['' @ show_int lo @ '', '' @ show_int hi @ '']''))
      else put_bits (val - of_int lo) (bits_needed (of_int (hi - lo + 1))) w)"

definition decode_int :: "int \<Rightarrow> int \<Rightarrow> u64 reading" where
  "decode_int lo hi = ebind (get_bits (bits_needed (of_int (hi - lo + 1)))) (\<lambda>offset.
     if 2 ^ 64 \<le> unat offset + unat (of_int lo :: u64) then elift Panicked else ret (offset + of_int lo))"

definition encode_octet_string :: "bytes \<Rightarrow> u16 \<Rightarrow> writing" where
  "encode_octet_string bs max_len w =
     (let len = of_nat (length bs) in
      if max_len < len
      then Fail (Protocol (''PER octet string length '' @ show_nat (unat len) @ '' exceeds max '' @ show_nat (unat max_len)))
      else rbind (put_bits (ucast len) (bits_needed (ucast max_len + 1)) w) (\<lambda>w.
        Ok (fold (\<lambda>byte. write_bits (ucast byte) 8) bs (writer_align w))))"

fun read_octets :: "nat \<Rightarrow> bytes \<Rightarrow> bytes reading" where
  "read_octets 0 bs = ret bs"
| "read_octets (Suc n) bs = ebind (read_bits 8) (\<lambda>v. read_octets n (bs @ [ucast v]))"

definition decode_octet_string :: "u16 \<Rightarrow> bytes reading" where
  "decode_octet_string max_len =
     ebind (get_bits (bits_needed (ucast max_len + 1))) (\<lambda>len.
     ethen reader_align (read_octets (unat len) []))"

definition encode_choice_index :: "nat \<Rightarrow> nat \<Rightarrow> writing" where
  "encode_choice_index idx num_choices w =
     (if num_choices \<le> idx
      then Fail (Protocol (''PER choice index '' @ show_nat idx @ '' out of range [0, '' @ show_nat num_choices @ '')''))
      else put_bits (of_nat idx) (bits_needed (of_nat num_choices)) w)"

definition decode_choice_index :: "nat \<Rightarrow> nat reading" where
  "decode_choice_index num_choices = ebind (get_bits (bits_needed (of_nat num_choices))) (\<lambda>v. ret (unat v))"

definition encode_length :: "nat \<Rightarrow> nat option \<Rightarrow> writing" where
  "encode_length len bound w =
     (let limit = (case bound of None \<Rightarrow> 65535 | Some m \<Rightarrow> m) in
      if limit < len then Fail (Protocol (''PER length '' @ show_nat len @ '' exceeds limit '' @ show_nat limit))
      else put_bits (of_nat len) (bits_needed (of_nat (limit + 1))) w)"

definition decode_length :: "nat option \<Rightarrow> nat reading" where
  "decode_length bound =
     (let limit = (case bound of None \<Rightarrow> 65535 | Some m \<Rightarrow> m) in
      ebind (get_bits (bits_needed (of_nat (limit + 1)))) (\<lambda>v. ret (unat v)))"

text \<open>The range is computed on bytes: a range of 256 values overflows.\<close>

definition encode_small_int :: "u8 \<Rightarrow> u8 \<Rightarrow> u8 \<Rightarrow> writing" where
  "encode_small_int val lo hi w =
     (if hi < lo \<or> hi - lo = 255 then Panicked
      else
        let bits = bits_needed (ucast (hi - lo + 1)) in
        if 0 < bits then if val < lo then Panicked else Ok (write_bits (ucast (val - lo)) bits w) else Ok w)"

definition decode_small_int :: "u8 \<Rightarrow> u8 \<Rightarrow> u8 reading" where
  "decode_small_int lo hi =
     (if hi < lo \<or> hi - lo = 255 then elift Panicked
      else
        let bits = bits_needed (ucast (hi - lo + 1)) in
        if 0 < bits
        then (\<lambda>r. case read_bits bits r of
                (Inl Panic, r') \<Rightarrow> (Panicked, r')
              | (res, r') \<Rightarrow>
                  let v = ucast (case res of Inr v \<Rightarrow> v | Inl _ \<Rightarrow> 0) in
                  if 256 \<le> unat v + unat lo then (Panicked, r') else (Ok (v + lo), r'))
        else ret lo)"

text \<open>The loops over a \<open>SEQUENCE OF\<close>.\<close>

fun put_all :: "('a \<Rightarrow> writing) \<Rightarrow> 'a list \<Rightarrow> writing" where
  "put_all put [] w = Ok w"
| "put_all put (x # xs) w = rbind (put x w) (put_all put xs)"

fun get_all :: "'a reading \<Rightarrow> nat \<Rightarrow> 'a list \<Rightarrow> 'a list reading" where
  "get_all get 0 acc = ret acc"
| "get_all get (Suc n) acc = ebind get (\<lambda>x. get_all get n (acc @ [x]))"

section \<open>What the writer holds\<close>

definition bit_at :: "bytes \<Rightarrow> nat \<Rightarrow> bool" where
  "bit_at bs i = bit (bs ! (i div 8)) (7 - i mod 8)"

definition bw_ok :: "bit_writer \<Rightarrow> bool" where
  "bw_ok w \<longleftrightarrow> length (bw_data w) = (bw_pos w + 7) div 8 \<and>
     (\<forall>i. bw_pos w \<le> i \<and> i < 8 * length (bw_data w) \<longrightarrow> \<not> bit_at (bw_data w) i)"

text \<open>A buffer agrees with everything a writer has written.\<close>

definition holds :: "bytes \<Rightarrow> bit_writer \<Rightarrow> bool" where
  "holds D w \<longleftrightarrow> bw_pos w \<le> 8 * length D \<and> (\<forall>i < bw_pos w. bit_at D i = bit_at (bw_data w) i)"

definition grows :: "bit_writer \<Rightarrow> bit_writer \<Rightarrow> bool" where
  "grows w w' \<longleftrightarrow> bw_pos w \<le> bw_pos w' \<and> (\<forall>i < bw_pos w. bit_at (bw_data w') i = bit_at (bw_data w) i)"

lemma holds_grows: "holds D w' \<Longrightarrow> grows w w' \<Longrightarrow> holds D w"
  by (auto simp: holds_def grows_def)

lemma grows_refl [simp]: "grows w w"
  by (simp add: grows_def)

lemma grows_trans: "grows w w' \<Longrightarrow> grows w' w'' \<Longrightarrow> grows w w''"
  by (auto simp: grows_def)

lemma bw_ok_new: "bw_ok bit_writer_new"
  by (simp add: bw_ok_def bit_writer_new_def)

lemma write_bit_ok:
  assumes w: "bw_ok w"
  shows "bw_pos w div 8 < length (bw_data (write_bit b w))" "bw_ok (write_bit b w)" "grows w (write_bit b w)"
    "bit_at (bw_data (write_bit b w)) (bw_pos w) = b" "bw_pos (write_bit b w) = bw_pos w + 1"
proof -
  define p where "p = bw_pos w"
  define ds where "ds = (if length (bw_data w) \<le> p div 8 then bw_data w @ [0] else bw_data w)"
  have len: "length (bw_data w) = (p + 7) div 8" using w by (simp add: bw_ok_def p_def)
  have ds_len: "length ds = (p + 8) div 8" unfolding ds_def using len by auto
  then have idx: "p div 8 < length ds" by simp
  have ds_bit: "bit_at ds i = bit_at (bw_data w) i" if "i < 8 * length (bw_data w)" for i
  proof -
    have "i div 8 < length (bw_data w)" using that by (simp add: less_mult_imp_div_less mult.commute)
    then show ?thesis by (simp add: bit_at_def ds_def nth_append)
  qed
  have ds_zero: "\<not> bit_at ds i" if "p \<le> i" "i < 8 * length ds" for i
  proof (cases "i < 8 * length (bw_data w)")
    case True
    then show ?thesis using ds_bit [OF True] w that by (simp add: bw_ok_def p_def)
  next
    case False
    then have "i div 8 = length (bw_data w)" "ds = bw_data w @ [0]"
      using that(2) by (auto simp: ds_def split: if_splits)
    then show ?thesis by (simp add: bit_at_def)
  qed
  let ?w = "write_bit b w"
  have data: "bw_data ?w = (if b then ds[p div 8 := ds ! (p div 8) OR push_bit (7 - p mod 8) 1] else ds)" and pos: "bw_pos ?w = p + 1"
    by (simp_all add: write_bit_def Let_def p_def ds_def)
  have bit: "bit_at (bw_data ?w) i = (if i = p then b else bit_at ds i)" if i: "i < 8 * length ds" for i
  proof (cases "b \<and> i div 8 = p div 8")
    case True
    have "i = p \<longleftrightarrow> i mod 8 = p mod 8" using True by (metis div_mult_mod_eq)
    moreover have "7 - i mod 8 = 7 - p mod 8 \<longleftrightarrow> i mod 8 = p mod 8" by (auto simp: Suc_leI dest!: diff_diff_cancel [symmetric])
    moreover have "7 - p mod 8 < 8" by simp
    ultimately show ?thesis using True idx data by (simp add: bit_at_def bit_simps)
  next
    case False
    then show ?thesis using data ds_zero [of p] idx by (auto simp: bit_at_def)
  qed
  show "bw_pos w div 8 < length (bw_data ?w)" using idx data by (simp add: p_def)
  show "bw_pos ?w = bw_pos w + 1" using pos by (simp add: p_def)
  show "bit_at (bw_data ?w) (bw_pos w) = b" using bit [of p] idx by (simp add: p_def [symmetric]) 
  show "grows w ?w"
    unfolding grows_def using pos bit ds_bit len ds_len by (auto simp: p_def)
  show "bw_ok ?w"
    unfolding bw_ok_def using pos data ds_len bit ds_zero by auto
qed

lemma write_bits_ok:
  assumes "bw_ok w"
  shows "bw_ok (write_bits val n w)" "grows w (write_bits val n w)" "bw_pos (write_bits val n w) = bw_pos w + n"
proof -
  have "bw_ok w \<Longrightarrow> bw_ok (write_bits val n w) \<and> grows w (write_bits val n w) \<and> bw_pos (write_bits val n w) = bw_pos w + n" for w
  proof (induction n arbitrary: w)
    case (Suc n)
    note ok = write_bit_ok [OF Suc.prems, of "bit val n"]
    show ?case using Suc.IH [OF ok(2)] grows_trans [OF ok(3)] ok(5) by simp
  qed simp
  with assms show "bw_ok (write_bits val n w)" "grows w (write_bits val n w)" "bw_pos (write_bits val n w) = bw_pos w + n"
    by simp_all
qed

lemma round_up: "(p + 7) div 8 * 8 = (if p mod 8 = 0 then p else p + (8 - p mod 8))" for p :: nat
proof -
  define q r where "q = p div 8" and "r = p mod 8"
  have p: "p = 8 * q + r" and r: "r < 8" by (simp_all add: q_def r_def)
  have "(r + 7) div 8 = (if r = 0 then 0 else 1)" using r by (simp add: div_nat_eqI)
  then have "(8 * q + (r + 7)) div 8 = q + (if r = 0 then 0 else 1)" by (subst div_mult_self4) simp_all
  then have "(p + 7) div 8 = q + (if r = 0 then 0 else 1)" by (simp add: p add.assoc)
  then show ?thesis using p r by (simp add: r_def [symmetric])
qed

lemma writer_align_ok:
  assumes "bw_ok w"
  shows "bw_ok (writer_align w)" "grows w (writer_align w)" "bw_pos (writer_align w) = (bw_pos w + 7) div 8 * 8"
proof -
  have pad: "bw_ok ((write_bit False ^^ n) w) \<and> grows w ((write_bit False ^^ n) w) \<and> bw_pos ((write_bit False ^^ n) w) = bw_pos w + n" for n
    using assms by (induction n) (auto simp: write_bit_ok intro: grows_trans [OF _ write_bit_ok(3)])
  then show "bw_ok (writer_align w)" "grows w (writer_align w)" using assms by (simp_all add: writer_align_def Let_def)
  show "bw_pos (writer_align w) = (bw_pos w + 7) div 8 * 8"
    unfolding round_up using pad [of "8 - bw_pos w mod 8"] by (simp add: writer_align_def Let_def)
qed

lemma into_bytes_holds: "bw_ok w \<Longrightarrow> holds (into_bytes w) w"
  by (simp add: into_bytes_def holds_def bw_ok_def)

section \<open>Reading back\<close>

lemma read_bit_at:
  "i < 8 * length D \<Longrightarrow> read_bit \<lparr>br_data = D, br_pos = i\<rparr> = (Ok (bit_at D i), \<lparr>br_data = D, br_pos = i + 1\<rparr>)"
  by (simp add: read_bit_def eff_app bit_at_def not_le less_mult_imp_div_less mult.commute Let_def)

lemma take_bit_Suc_top: "take_bit (Suc n) (v :: u64) = push_bit n (of_bool (bit v n)) OR take_bit n v"
  by (rule bit_word_eqI) (auto simp: bit_simps less_Suc_eq)

lemma read_loop_written:
  assumes "bw_ok w" "holds D (write_bits val n w)"
  shows "read_loop n v \<lparr>br_data = D, br_pos = bw_pos w\<rparr>
    = (Ok (push_bit n v OR take_bit n val), \<lparr>br_data = D, br_pos = bw_pos w + n\<rparr>)"
  using assms
proof (induction n arbitrary: v w)
  case (Suc n)
  let ?w = "write_bit (bit val n) w"
  note ok = write_bit_ok [OF Suc.prems(1), of "bit val n"]
  have h: "holds D ?w" using Suc.prems(2) write_bits_ok(2) [OF ok(2)] by (auto intro: holds_grows)
  then have "read_bit \<lparr>br_data = D, br_pos = bw_pos w\<rparr> = (Ok (bit val n), \<lparr>br_data = D, br_pos = bw_pos ?w\<rparr>)"
    using read_bit_at [of "bw_pos w" D] ok(4,5) by (simp add: holds_def)
  moreover have "push_bit n (push_bit 1 v OR of_bool (bit val n)) OR take_bit n val = push_bit (Suc n) v OR take_bit (Suc n) val"
    unfolding take_bit_Suc_top push_bit_or by (simp add: or.assoc push_bit_push_bit)
  ultimately show ?case using Suc.IH [OF ok(2)] Suc.prems(2) ok(5) by (simp add: eff_app)
qed (simp add: eff_app)

section \<open>Correct codecs\<close>

definition coded :: "writing \<Rightarrow> 'a reading \<Rightarrow> 'a \<Rightarrow> bool" where
  "coded m g v \<longleftrightarrow> (\<forall>w. bw_ok w \<longrightarrow> (\<exists>w'. m w = Ok w' \<and> bw_ok w' \<and> grows w w' \<and>
     (\<forall>D. holds D w' \<longrightarrow> g \<lparr>br_data = D, br_pos = bw_pos w\<rparr> = (Ok v, \<lparr>br_data = D, br_pos = bw_pos w'\<rparr>))))"

lemma codedI:
  "(\<And>w. bw_ok w \<Longrightarrow> m w = Ok (f w) \<and> bw_ok (f w) \<and> grows w (f w)) \<Longrightarrow>
   (\<And>w D. bw_ok w \<Longrightarrow> holds D (f w) \<Longrightarrow> g \<lparr>br_data = D, br_pos = bw_pos w\<rparr> = (Ok v, \<lparr>br_data = D, br_pos = bw_pos (f w)\<rparr>)) \<Longrightarrow>
   coded m g v"
  unfolding coded_def by blast

lemma coded_bind:
  assumes "coded m g v" and "coded m' (k v) u"
  shows "coded (\<lambda>w. rbind (m w) m') (ebind g k) u"
  unfolding coded_def
proof (intro allI impI)
  fix w assume "bw_ok w"
  then obtain w1 where w1: "m w = Ok w1" "bw_ok w1" "grows w w1"
      "\<And>D. holds D w1 \<Longrightarrow> g \<lparr>br_data = D, br_pos = bw_pos w\<rparr> = (Ok v, \<lparr>br_data = D, br_pos = bw_pos w1\<rparr>)"
    using assms(1) unfolding coded_def by blast
  then obtain w2 where w2: "m' w1 = Ok w2" "bw_ok w2" "grows w1 w2"
      "\<And>D. holds D w2 \<Longrightarrow> k v \<lparr>br_data = D, br_pos = bw_pos w1\<rparr> = (Ok u, \<lparr>br_data = D, br_pos = bw_pos w2\<rparr>)"
    using assms(2) unfolding coded_def by blast
  show "\<exists>w'. rbind (m w) m' = Ok w' \<and> bw_ok w' \<and> grows w w' \<and>
     (\<forall>D. holds D w' \<longrightarrow> ebind g k \<lparr>br_data = D, br_pos = bw_pos w\<rparr> = (Ok u, \<lparr>br_data = D, br_pos = bw_pos w'\<rparr>))"
    using w1 w2 holds_grows [OF _ w2(3)] grows_trans [OF w1(3) w2(3)] by (intro exI [of _ w2]) (simp add: eff_app)
qed

lemma coded_ret: "coded Ok (ret v) v"
  by (rule codedI [where f = "\<lambda>w. w"]) (simp_all add: eff_app)

lemma coded_map: "coded m g v \<Longrightarrow> f v = u \<Longrightarrow> coded m (ebind g (\<lambda>x. ret (f x))) u"
  unfolding coded_def by (fastforce simp: eff_app)

lemma coded_put_bits:
  assumes "unat val < 2 ^ n" "n \<le> 64"
  shows "coded (put_bits val n) (get_bits n) val"
proof -
  have "take_bit n val = val" by (rule take_bit_small) (use assms in simp)
  then show ?thesis
    by (intro codedI [where f = "write_bits val n"])
      (auto simp: put_bits_def get_bits_def read_bits_def write_bits_ok read_loop_written eff_app)
qed

lemma bit_count_bound: "r < 2 ^ bit_count r"
proof (induction r rule: bit_count.induct)
  case (1 r)
  show ?case
  proof (cases "r = 0")
    case False
    then have "r div 2 < 2 ^ bit_count (r div 2)" using 1 by simp
    then have "r < 2 * 2 ^ bit_count (r div 2)" by linarith
    then show ?thesis using False by (simp add: bit_count.simps [of r])
  qed simp
qed

lemma bit_count_le: "r < 2 ^ n \<Longrightarrow> bit_count r \<le> n"
proof (induction r arbitrary: n rule: bit_count.induct)
  case (1 r)
  show ?case
  proof (cases "r = 0")
    case False
    then obtain m where m: "n = Suc m" using 1(2) by (cases n) auto
    then have "r div 2 < 2 ^ m" using 1(2) by auto
    then show ?thesis using 1(1) [OF False, of m] False m by (simp add: bit_count.simps [of r])
  qed (simp add: bit_count.simps)
qed

lemma bits_needed_fits:
  assumes "v < rng"
  shows "unat v < 2 ^ bits_needed rng" "bits_needed rng \<le> 64"
proof -
  have "rng \<noteq> 0" using assms by auto
  then have r: "unat (rng - 1) = unat rng - 1" by (rule unat_minus_one)
  have "unat v < unat rng" using assms by (simp add: word_less_nat_alt)
  then show "unat v < 2 ^ bits_needed rng"
    using bit_count_bound [of "unat (rng - 1)"] r by (auto simp: bits_needed_def word_le_nat_alt)
  show "bits_needed rng \<le> 64"
    using bit_count_le [of "unat (rng - 1)" 64] unsigned_less [of "rng - 1", where ?'a = nat] by (simp add: bits_needed_def)
qed

lemma coded_range: "v < rng \<Longrightarrow> coded (put_bits v (bits_needed rng)) (get_bits (bits_needed rng)) v"
  by (simp add: coded_put_bits bits_needed_fits)

text \<open>The interface of a codec, and the loops over lists of coded values.\<close>

locale codec =
  fixes put :: "'a \<Rightarrow> writing" and get :: "'a reading" and ok :: "'a \<Rightarrow> bool"
  assumes one: "ok v \<Longrightarrow> coded (put v) get v"
begin

lemma list: "list_all ok xs \<Longrightarrow> coded (put_all put xs) (get_all get (length xs) acc) (acc @ xs)"
proof (induction xs arbitrary: acc)
  case Nil
  then show ?case using coded_ret [of acc] by (simp add: coded_def)
next
  case (Cons x xs)
  have "coded (\<lambda>w. rbind (put x w) (put_all put xs)) (ebind get (\<lambda>x. get_all get (length xs) (acc @ [x]))) ((acc @ [x]) @ xs)"
    using Cons.prems Cons.IH [of "acc @ [x]"] by (intro coded_bind [OF one]) simp_all
  then show ?case by (simp add: coded_def)
qed

end

lemma coded_align: "coded (\<lambda>w. Ok (writer_align w)) reader_align ()"
proof (rule codedI [where f = writer_align])
  fix w D assume w: "bw_ok w"
  show "reader_align \<lparr>br_data = D, br_pos = bw_pos w\<rparr> = (Ok (), \<lparr>br_data = D, br_pos = bw_pos (writer_align w)\<rparr>)"
    using writer_align_ok(3) [OF w] round_up [of "bw_pos w"] by (simp add: reader_align_def eff_app)
qed (simp add: writer_align_ok)

definition put_octet :: "u8 \<Rightarrow> writing" where
  "put_octet b = put_bits (ucast b) 8"

definition get_octet :: "u8 reading" where
  "get_octet = ebind (read_bits 8) (\<lambda>v. ret (ucast v))"

interpretation octet: codec put_octet get_octet "\<lambda>_. True"
proof
  fix b :: u8
  have "unat (ucast b :: u64) = unat b" by (simp add: unsigned_ucast_eq take_bit_nat_eq_self order_less_trans [OF unat_u8_less])
  then have "coded (put_bits (ucast b) 8) (get_bits 8) (ucast b)" by (intro coded_put_bits) simp_all
  moreover have "ucast (ucast b :: u64) = b" by (rule bit_word_eqI) (auto simp: bit_simps)
  ultimately show "coded (put_octet b) get_octet b"
    unfolding put_octet_def get_octet_def by (intro coded_map) (simp_all add: get_bits_def)
qed

lemma fold_octets: "Ok (fold (\<lambda>b. write_bits (ucast b) 8) bs w) = put_all put_octet bs w"
  by (induction bs arbitrary: w) (simp_all add: put_octet_def put_bits_def)

lemma read_octets_all: "read_octets n acc = get_all get_octet n acc"
  by (induction n arbitrary: acc) (simp_all add: get_octet_def ebind_def ret_def fun_eq_iff split: prod.split sum.split)

lemma coded_octet_string:
  assumes "length bs \<le> unat max_len"
  shows "coded (encode_octet_string bs max_len) (decode_octet_string max_len) bs"
proof -
  let ?len = "of_nat (length bs) :: u16"
  have len: "unat ?len = length bs" using assms unat_u16_less [of max_len] by (intro unat_of_nat_u16) (simp del: unat_u16_less)
  have "unat (ucast max_len + 1 :: u64) = unat max_len + 1" "unat (ucast ?len :: u64) = length bs"
    using len unat_u16_less [of max_len] unat_u16_less [of ?len]
    by (simp_all add: unat_word_ariths unsigned_ucast_eq take_bit_nat_eq_self del: unat_u16_less)
  note u = this
  then have rng: "(ucast ?len :: u64) < ucast max_len + 1" using assms by (simp add: word_less_nat_alt)
  have body: "coded (\<lambda>w. Ok (fold (\<lambda>b. write_bits (ucast b) 8) bs (writer_align w))) (ethen reader_align (read_octets (length bs) [])) bs"
    using coded_bind [OF coded_align, of "put_all put_octet bs" "\<lambda>_. get_all get_octet (length bs) []" bs] octet.list [of bs "[]"]
    by (simp add: fold_octets read_octets_all ethen_def list_all_iff)
  have "coded (\<lambda>w. rbind (put_bits (ucast ?len) (bits_needed (ucast max_len + 1)) w) (\<lambda>w. Ok (fold (\<lambda>b. write_bits (ucast b) 8) bs (writer_align w))))
      (ebind (get_bits (bits_needed (ucast max_len + 1))) (\<lambda>len. ethen reader_align (read_octets (unat len) []))) bs"
    by (rule coded_bind [OF coded_range [OF rng]]) (use body u in simp)
  then show ?thesis
    using assms len by (simp add: coded_def encode_octet_string_def decode_octet_string_def Let_def word_less_nat_alt)
qed

lemma coded_small_int:
  assumes "lo \<le> val" "val \<le> hi" "hi - lo \<noteq> 255"
  shows "coded (encode_small_int val lo hi) (decode_small_int lo hi) val"
proof -
  let ?n = "bits_needed (ucast (hi - lo + 1) :: u64)"
  have le: "\<not> hi < lo" "\<not> val < lo" using assms by auto
  have d: "unat (val - lo) = unat val - unat lo" "unat (hi - lo) = unat hi - unat lo"
    using assms by (simp_all add: unat_sub)
  have "unat (hi - lo) \<noteq> 255" using assms(3) by (simp add: word_unat_eq_iff)
  then have "unat (hi - lo) < 255" using unat_u8_less [of "hi - lo"] by linarith
  then have r: "unat (hi - lo + 1) = unat hi - unat lo + 1" using d by (simp add: unat_word_ariths)
  have u: "unat (ucast (b :: u8) :: u64) = unat b" for b
    by (simp add: unsigned_ucast_eq take_bit_nat_eq_self order_less_trans [OF unat_u8_less])
  have "(ucast (val - lo) :: u64) < ucast (hi - lo + 1)"
    using assms(1,2) d r by (simp add: word_less_nat_alt word_le_nat_alt u)
  note c = coded_range [OF this]
  have v: "ucast (ucast (val - lo) :: u64) = val - lo" by (rule bit_word_eqI) (auto simp: bit_simps)
  have sum: "unat (val - lo) + unat lo < 256" using d(1) assms(1) unat_u8_less [of val] by (simp add: word_le_nat_alt del: unat_u8_less)
  show ?thesis
  proof (cases "0 < ?n")
    case True
    then show ?thesis
      using c le assms(3) v sum
      by (fastforce simp: coded_def encode_small_int_def decode_small_int_def put_bits_def get_bits_def Let_def)
  next
    case False
    then have "unat (hi - lo + 1) \<le> 1"
      using bits_needed_fits(1) [of "ucast (hi - lo)" "ucast (hi - lo + 1)"] r d(2) by (simp add: word_less_nat_alt u)
    then have "val = lo" using r assms(1,2) by (simp add: word_unat_eq_iff word_le_nat_alt)
    then show ?thesis using False le assms(3) coded_ret [of lo] by (simp add: coded_def encode_small_int_def decode_small_int_def Let_def)
  qed
qed

end
