(* ===== verification/T38_Ifp.thy ===== *)
theory T38_Ifp
  imports T38_Per
begin

text \<open>
  The Internet facsimile packets of T.38 (\<open>t38/ifp.rs\<close>) in the packed encoding rules: indicators and data
  fields, and the theorem that decoding inverts encoding.
\<close>

section \<open>Packets\<close>

datatype t30_indicator =
    NoSignal | Cng | Ced | V21Preamble
  | V27Ter2400Preamble | V27Ter4800Preamble | V297200Preamble | V299600Preamble
  | V177200ShortPreamble | V177200LongPreamble | V179600ShortPreamble | V179600LongPreamble
  | V1712000ShortPreamble | V1712000LongPreamble | V1714400ShortPreamble | V1714400LongPreamble
  | V8AnsAm | V8Signal | V34Preamble | V34ControlChannel
  | V34CcRetrain | V3312000Training | V3314400Training

definition t30_indicators :: "t30_indicator list" where
  "t30_indicators =
    [NoSignal, Cng, Ced, V21Preamble, V27Ter2400Preamble,
     V27Ter4800Preamble, V297200Preamble, V299600Preamble, V177200ShortPreamble, V177200LongPreamble,
     V179600ShortPreamble, V179600LongPreamble, V1712000ShortPreamble, V1712000LongPreamble, V1714400ShortPreamble,
     V1714400LongPreamble, V8AnsAm, V8Signal, V34Preamble, V34ControlChannel,
     V34CcRetrain, V3312000Training, V3314400Training]"

text \<open>An enumeration value as a number is its position, and \<open>from_u8\<close> is the inverse match.\<close>

fun position :: "'a \<Rightarrow> 'a list \<Rightarrow> nat" where
  "position x [] = 0"
| "position x (y # ys) = (if x = y then 0 else 1 + position x ys)"

definition t30_indicator_u8 :: "t30_indicator \<Rightarrow> u8" where
  "t30_indicator_u8 i = of_nat (position i t30_indicators)"

definition t30_indicator_from_u8 :: "u8 \<Rightarrow> t30_indicator option" where
  "t30_indicator_from_u8 v = (if unat v < length t30_indicators then Some (t30_indicators ! unat v) else None)"

definition T30_INDICATOR_MAX_VAL :: u8 where "T30_INDICATOR_MAX_VAL = 22"

datatype data_field_type =
    HdlcData | HdlcSigEnd | HdlcFcsOk | HdlcFcsBad
  | HdlcFcsOkSigEnd | HdlcFcsBadSigEnd | T4NonEcm | T4NonEcmSigEnd

definition data_field_types :: "data_field_type list" where
  "data_field_types =
    [HdlcData, HdlcSigEnd, HdlcFcsOk, HdlcFcsBad, HdlcFcsOkSigEnd,
     HdlcFcsBadSigEnd, T4NonEcm, T4NonEcmSigEnd]"

definition data_field_type_u8 :: "data_field_type \<Rightarrow> u8" where
  "data_field_type_u8 t = of_nat (position t data_field_types)"

definition data_field_type_from_u8 :: "u8 \<Rightarrow> data_field_type option" where
  "data_field_type_from_u8 v = (if unat v < length data_field_types then Some (data_field_types ! unat v) else None)"

definition DATA_FIELD_MAX_VAL :: u8 where "DATA_FIELD_MAX_VAL = 7"

record data_field =
  field_type :: data_field_type
  field_data :: bytes

datatype ifp_packet = T30Indicator "t30_indicator list" | T30Data "data_field list"

definition put_indicator :: "t30_indicator \<Rightarrow> writing" where
  "put_indicator i = encode_small_int (t30_indicator_u8 i) 0 T30_INDICATOR_MAX_VAL"

definition put_field :: "data_field \<Rightarrow> writing" where
  "put_field f w =
     rbind (encode_small_int (data_field_type_u8 (field_type f)) 0 DATA_FIELD_MAX_VAL w) (encode_octet_string (field_data f) 65535)"

definition ifp_encode :: "ifp_packet \<Rightarrow> rtc_error fault + bytes" where
  "ifp_encode p =
     (let type_of_msg = (case p of T30Indicator _ \<Rightarrow> 0 | T30Data _ \<Rightarrow> 1) in
      rbind (encode_int type_of_msg 0 1 bit_writer_new) (\<lambda>w.
      rbind (case p of
          T30Indicator indicators \<Rightarrow>
            rbind (encode_choice_index 0 2 w) (\<lambda>w.
            rbind (encode_length (length indicators) (Some 31) w) (put_all put_indicator indicators))
        | T30Data fs \<Rightarrow>
            rbind (encode_choice_index 1 2 w) (\<lambda>w.
            rbind (encode_length (length fs) (Some 31) w) (put_all put_field fs))) (\<lambda>w.
      Ok (into_bytes w))))"

definition get_indicator :: "t30_indicator reading" where
  "get_indicator =
     ebind (decode_small_int 0 T30_INDICATOR_MAX_VAL) (\<lambda>val.
     case t30_indicator_from_u8 val of
       None \<Rightarrow> efail (Protocol (''invalid T30Indicator: '' @ show_nat (unat val)))
     | Some i \<Rightarrow> ret i)"

definition get_field :: "data_field reading" where
  "get_field =
     ebind (decode_small_int 0 DATA_FIELD_MAX_VAL) (\<lambda>ft.
     case data_field_type_from_u8 ft of
       None \<Rightarrow> efail (Protocol (''invalid DataFieldType: '' @ show_nat (unat ft)))
     | Some t \<Rightarrow> ebind (decode_octet_string 65535) (\<lambda>bs. ret \<lparr>field_type = t, field_data = bs\<rparr>))"

definition ifp_reader :: "ifp_packet reading" where
  "ifp_reader =
     ebind (decode_int 0 1) (\<lambda>type_of_msg.
     if type_of_msg = 0
     then
       ebind (decode_choice_index 2) (\<lambda>_.
       ebind (decode_length (Some 31)) (\<lambda>count.
       ebind (get_all get_indicator count []) (\<lambda>indicators. ret (T30Indicator indicators))))
     else if type_of_msg = 1
     then
       ebind (decode_choice_index 2) (\<lambda>_.
       ebind (decode_length (Some 31)) (\<lambda>count.
       ebind (get_all get_field count []) (\<lambda>fs. ret (T30Data fs))))
     else efail (Protocol (''unknown IFP packet type: '' @ show_nat (unat type_of_msg))))"

definition ifp_decode :: "bytes \<Rightarrow> rtc_error fault + ifp_packet" where
  "ifp_decode bs = fst (ifp_reader (bit_reader_new bs))"

section \<open>Decoding inverts encoding\<close>

lemma position_nth: "x \<in> set xs \<Longrightarrow> position x xs < length xs \<and> xs ! position x xs = x"
  by (induction xs) auto

lemma t30_indicator_back:
  "t30_indicator_from_u8 (t30_indicator_u8 i) = Some i" "t30_indicator_u8 i \<le> T30_INDICATOR_MAX_VAL"
proof -
  have "i \<in> set t30_indicators" by (cases i) (simp_all add: t30_indicators_def)
  note p = position_nth [OF this]
  have "length t30_indicators = 23" by (simp add: t30_indicators_def)
  then have "unat (of_nat (position i t30_indicators) :: u8) = position i t30_indicators" using p by (intro unat_of_nat_u8) simp
  then show "t30_indicator_from_u8 (t30_indicator_u8 i) = Some i" "t30_indicator_u8 i \<le> T30_INDICATOR_MAX_VAL"
    using p \<open>length t30_indicators = 23\<close>
    by (simp_all add: t30_indicator_from_u8_def t30_indicator_u8_def T30_INDICATOR_MAX_VAL_def word_le_nat_alt)
qed

lemma data_field_type_back:
  "data_field_type_from_u8 (data_field_type_u8 t) = Some t" "data_field_type_u8 t \<le> DATA_FIELD_MAX_VAL"
proof -
  have "t \<in> set data_field_types" by (cases t) (simp_all add: data_field_types_def)
  note p = position_nth [OF this]
  have "length data_field_types = 8" by (simp add: data_field_types_def)
  then have "unat (of_nat (position t data_field_types) :: u8) = position t data_field_types" using p by (intro unat_of_nat_u8) simp
  then show "data_field_type_from_u8 (data_field_type_u8 t) = Some t" "data_field_type_u8 t \<le> DATA_FIELD_MAX_VAL"
    using p \<open>length data_field_types = 8\<close>
    by (simp_all add: data_field_type_from_u8_def data_field_type_u8_def DATA_FIELD_MAX_VAL_def word_le_nat_alt)
qed

lemma coded_case:
  "coded m g v \<Longrightarrow> k v = ret u \<Longrightarrow> coded m (ebind g k) u"
  unfolding coded_def by (fastforce simp: eff_app)

interpretation ind: codec put_indicator get_indicator "\<lambda>_. True"
proof
  fix i
  have "coded (put_indicator i) (decode_small_int 0 T30_INDICATOR_MAX_VAL) (t30_indicator_u8 i)"
    unfolding put_indicator_def by (rule coded_small_int) (simp, rule t30_indicator_back(2), simp add: T30_INDICATOR_MAX_VAL_def)
  then show "coded (put_indicator i) get_indicator i"
    unfolding get_indicator_def by (rule coded_case) (simp add: t30_indicator_back)
qed

interpretation fld: codec put_field get_field "\<lambda>f. length (field_data f) \<le> 65535"
proof
  fix f :: data_field
  assume len: "length (field_data f) \<le> 65535"
  have t: "coded (encode_small_int (data_field_type_u8 (field_type f)) 0 DATA_FIELD_MAX_VAL) (decode_small_int 0 DATA_FIELD_MAX_VAL)
      (data_field_type_u8 (field_type f))"
    by (rule coded_small_int) (simp, rule data_field_type_back(2), simp add: DATA_FIELD_MAX_VAL_def)
  have d: "coded (encode_octet_string (field_data f) 65535) (decode_octet_string 65535) (field_data f)"
    by (rule coded_octet_string) (use len in simp)
  have "coded (encode_octet_string (field_data f) 65535)
      (ebind (decode_octet_string 65535) (\<lambda>bs. ret \<lparr>field_type = field_type f, field_data = bs\<rparr>)) f"
    by (rule coded_case [OF d]) (cases f, simp)
  then have "coded (\<lambda>w. rbind (encode_small_int (data_field_type_u8 (field_type f)) 0 DATA_FIELD_MAX_VAL w) (encode_octet_string (field_data f) 65535))
      get_field f"
    unfolding get_field_def by (intro coded_bind [OF t]) (simp add: data_field_type_back)
  then show "coded (put_field f) get_field f" by (simp add: coded_def put_field_def)
qed

lemma of_nat_less_u64: "m < n \<Longrightarrow> n < 2 ^ 64 \<Longrightarrow> (of_nat m :: u64) < of_nat n"
  by (simp add: word_less_nat_alt unat_of_nat)

lemma unat_of_nat_u64: "n < 2 ^ 64 \<Longrightarrow> unat (of_nat n :: u64) = n"
  by (simp add: unat_of_nat)

lemma coded_choice: "n < num \<Longrightarrow> num < 2 ^ 64 \<Longrightarrow> coded (encode_choice_index n num) (decode_choice_index num) n"
  using coded_map [OF coded_range [OF of_nat_less_u64 [of n num]], of unat n] unat_of_nat_u64 [of n]
  by (simp add: coded_def encode_choice_index_def decode_choice_index_def)

lemma coded_length: "n \<le> limit \<Longrightarrow> limit < 2 ^ 63 \<Longrightarrow> coded (encode_length n (Some limit)) (decode_length (Some limit)) n"
  using coded_map [OF coded_range [OF of_nat_less_u64 [of n "limit + 1"]], of unat n] unat_of_nat_u64 [of n]
  by (simp add: coded_def encode_length_def decode_length_def)

lemma coded_int: "v < 2 \<Longrightarrow> coded (encode_int v 0 1) (decode_int 0 1) v"
proof -
  assume v: "v < 2"
  have "\<not> 1 < v" using v by (simp add: word_less_nat_alt)
  moreover have "coded (put_bits v (bits_needed 2)) (ebind (get_bits (bits_needed 2)) (\<lambda>offset.
      if 2 ^ 64 \<le> unat offset + unat (of_int 0 :: u64) then elift Panicked else ret (offset + of_int 0))) v"
    using unsigned_less [of v, where ?'a = nat] by (intro coded_case [OF coded_range [OF v]]) simp
  ultimately show ?thesis by (simp add: coded_def encode_int_def decode_int_def)
qed

text \<open>A packet that fits the length fields.\<close>

definition ifp_fits :: "ifp_packet \<Rightarrow> bool" where
  "ifp_fits p = (case p of T30Indicator inds \<Rightarrow> length inds \<le> 31
     | T30Data fs \<Rightarrow> length fs \<le> 31 \<and> list_all (\<lambda>f. length (field_data f) \<le> 65535) fs)"

definition ifp_body :: "ifp_packet \<Rightarrow> writing" where
  "ifp_body p w = (case p of
     T30Indicator indicators \<Rightarrow>
       rbind (encode_choice_index 0 2 w) (\<lambda>w.
       rbind (encode_length (length indicators) (Some 31) w) (put_all put_indicator indicators))
   | T30Data fs \<Rightarrow>
       rbind (encode_choice_index 1 2 w) (\<lambda>w.
       rbind (encode_length (length fs) (Some 31) w) (put_all put_field fs)))"

lemma coded_ifp:
  assumes "ifp_fits p"
  shows "coded (\<lambda>w. rbind (encode_int (case p of T30Indicator _ \<Rightarrow> 0 | T30Data _ \<Rightarrow> 1) 0 1 w) (ifp_body p)) ifp_reader p"
proof (cases p)
  case (T30Indicator inds)
  have l: "coded (put_all put_indicator inds) (ebind (get_all get_indicator (length inds) []) (\<lambda>indicators. ret (T30Indicator indicators))) p"
    using coded_map [OF ind.list [of inds "[]"]] T30Indicator by (simp add: list_all_iff)
  have "coded (ifp_body p) (ebind (decode_choice_index 2) (\<lambda>_. ebind (decode_length (Some 31)) (\<lambda>count.
       ebind (get_all get_indicator count []) (\<lambda>indicators. ret (T30Indicator indicators))))) p"
  proof -
    have "length inds \<le> 31" using assms T30Indicator by (simp add: ifp_fits_def)
    then have "coded (\<lambda>w. rbind (encode_length (length inds) (Some 31) w) (put_all put_indicator inds)) (ebind (decode_length (Some 31)) (\<lambda>count.
         ebind (get_all get_indicator count []) (\<lambda>indicators. ret (T30Indicator indicators)))) p"
      by (intro coded_bind [OF coded_length] l) simp_all
    then have "coded (\<lambda>w. rbind (encode_choice_index 0 2 w) (\<lambda>w. rbind (encode_length (length inds) (Some 31) w) (put_all put_indicator inds)))
         (ebind (decode_choice_index 2) (\<lambda>_. ebind (decode_length (Some 31)) (\<lambda>count.
         ebind (get_all get_indicator count []) (\<lambda>indicators. ret (T30Indicator indicators))))) p"
      by (intro coded_bind [OF coded_choice]) simp_all
    then show ?thesis using T30Indicator by (simp add: coded_def ifp_body_def)
  qed
  then show ?thesis
    unfolding ifp_reader_def using T30Indicator by (intro coded_bind [OF coded_int]) simp_all
next
  case (T30Data fs)
  have l: "coded (put_all put_field fs) (ebind (get_all get_field (length fs) []) (\<lambda>fs. ret (T30Data fs))) p"
    using coded_map [OF fld.list [of fs "[]"]] T30Data assms by (simp add: ifp_fits_def)
  have "coded (ifp_body p) (ebind (decode_choice_index 2) (\<lambda>_. ebind (decode_length (Some 31)) (\<lambda>count.
       ebind (get_all get_field count []) (\<lambda>fs. ret (T30Data fs))))) p"
  proof -
    have "length fs \<le> 31" using assms T30Data by (simp add: ifp_fits_def)
    then have "coded (\<lambda>w. rbind (encode_length (length fs) (Some 31) w) (put_all put_field fs)) (ebind (decode_length (Some 31)) (\<lambda>count.
         ebind (get_all get_field count []) (\<lambda>fs. ret (T30Data fs)))) p"
      by (intro coded_bind [OF coded_length] l) simp_all
    then have "coded (\<lambda>w. rbind (encode_choice_index 1 2 w) (\<lambda>w. rbind (encode_length (length fs) (Some 31) w) (put_all put_field fs)))
         (ebind (decode_choice_index 2) (\<lambda>_. ebind (decode_length (Some 31)) (\<lambda>count.
         ebind (get_all get_field count []) (\<lambda>fs. ret (T30Data fs))))) p"
      by (intro coded_bind [OF coded_choice]) simp_all
    then show ?thesis using T30Data by (simp add: coded_def ifp_body_def)
  qed
  then show ?thesis
    unfolding ifp_reader_def using T30Data by (intro coded_bind [OF coded_int]) simp_all
qed

text \<open>
  Every IFP packet with at most 31 entries and data of at most 65535 bytes is encoded, and decoding the bytes
  gives the packet back.
\<close>

lemma ifp_roundtrip:
  assumes "ifp_fits p"
  shows "\<exists>bs. ifp_encode p = Ok bs \<and> ifp_decode bs = Ok p"
proof -
  obtain w where w: "rbind (encode_int (case p of T30Indicator _ \<Rightarrow> 0 | T30Data _ \<Rightarrow> 1) 0 1 bit_writer_new) (ifp_body p) = Ok w" "bw_ok w"
      "\<And>D. holds D w \<Longrightarrow> ifp_reader \<lparr>br_data = D, br_pos = 0\<rparr> = (Ok p, \<lparr>br_data = D, br_pos = bw_pos w\<rparr>)"
    using coded_ifp [OF assms] bw_ok_new unfolding coded_def bit_writer_new_def by fastforce
  have "ifp_encode p = Ok (into_bytes w)"
    using w(1) by (auto simp: ifp_encode_def ifp_body_def rbind_Inr_iff Let_def)
  moreover have "ifp_decode (into_bytes w) = Ok p"
    using w(3) [OF into_bytes_holds [OF w(2)]] by (simp add: ifp_decode_def bit_reader_new_def)
  ultimately show ?thesis by blast
qed

lemma ifp_roundtrip_example:
  "\<exists>bs. ifp_encode (T30Data [\<lparr>field_type = HdlcFcsOk, field_data = [0xFF, 1, 2]\<rparr>, \<lparr>field_type = HdlcSigEnd, field_data = []\<rparr>]) = Ok bs
    \<and> ifp_decode bs = Ok (T30Data [\<lparr>field_type = HdlcFcsOk, field_data = [0xFF, 1, 2]\<rparr>, \<lparr>field_type = HdlcSigEnd, field_data = []\<rparr>])"
  by (rule ifp_roundtrip) (simp add: ifp_fits_def)

section \<open>Arbitrary bytes\<close>

definition quiet :: "'a reading \<Rightarrow> bool" where
  "quiet m \<longleftrightarrow> (\<forall>r. fst (m r) \<noteq> Panicked)"

lemma quiet_basic [simp]: "quiet (ret x)" "quiet (efail e)" "quiet (emod f)"
  by (simp_all add: quiet_def eff_app)

lemma quiet_bind: "quiet m \<Longrightarrow> (\<And>x. quiet (k x)) \<Longrightarrow> quiet (ebind m k)"
  unfolding quiet_def by (simp add: eff_app split: prod.split sum.split) (metis fst_conv)

lemma quiet_read: "quiet read_bit" "quiet (read_loop n v)" "quiet (get_bits n)" "quiet reader_align"
proof -
  show b: "quiet read_bit" by (simp add: quiet_def read_bit_def eff_app Let_def)
  show l: "quiet (read_loop n v)" for n v by (induction n arbitrary: v) (auto intro: quiet_bind b)
  then show "quiet (get_bits n)" by (simp add: get_bits_def read_bits_def)
  show "quiet reader_align" by (simp add: reader_align_def)
qed

lemma quiet_small_int: "hi \<noteq> 255 \<Longrightarrow> quiet (decode_small_int 0 hi)"
proof -
  assume hi: "hi \<noteq> 255"
  have "fst (read_bits n r) \<noteq> Panicked" for n r using quiet_read(2) [of n 0] by (simp add: quiet_def read_bits_def)
  moreover have "unat (v :: u8) < 256" for v by simp
  ultimately show ?thesis
    using hi by (auto simp: quiet_def decode_small_int_def Let_def eff_app not_le split: prod.splits sum.splits fault.splits)
      (metis fst_conv, metis unat_u8_less linorder_not_le)
qed

lemma quiet_octets: "quiet (decode_octet_string m)"
proof -
  have "quiet (read_octets n acc)" for n acc
    using quiet_read(2) by (induction n arbitrary: acc) (auto intro: quiet_bind simp: read_bits_def)
  then show ?thesis
    unfolding decode_octet_string_def ethen_def by (intro quiet_bind quiet_read)
qed

lemma quiet_all: "quiet m \<Longrightarrow> quiet (get_all m n acc)"
  by (induction n arbitrary: acc) (auto intro: quiet_bind)

lemma ifp_decode_no_panic: "ifp_decode bs \<noteq> Panicked"
proof -
  have ind: "quiet get_indicator"
    unfolding get_indicator_def by (intro quiet_bind quiet_small_int) (auto simp: T30_INDICATOR_MAX_VAL_def split: option.split)
  have fld: "quiet get_field"
    unfolding get_field_def
    by (intro quiet_bind quiet_small_int) (auto simp: DATA_FIELD_MAX_VAL_def split: option.split intro!: quiet_bind quiet_octets)
  have "quiet (decode_int 0 1)"
  proof -
    have "\<not> 2 ^ 64 \<le> unat (x :: u64) + unat (of_int 0 :: u64)" for x using unsigned_less [of x, where ?'a = nat] by simp
    then show ?thesis unfolding decode_int_def by (intro quiet_bind quiet_read) (simp only: if_False quiet_basic)
  qed
  then have "quiet ifp_reader"
    unfolding ifp_reader_def decode_choice_index_def decode_length_def Let_def
    by (intro quiet_bind quiet_read; auto intro!: quiet_bind quiet_read quiet_all ind fld)
  then show ?thesis by (simp add: ifp_decode_def quiet_def)
qed

end
