(* ===== verification/T38_Wire.thy ===== *)
theory T38_Wire
  imports T38_Ifp
begin

text \<open>
  The wire format of T.38 (\<open>t38/wire.rs\<close>): encoding of indicators and of data with its fields, the decoder, and
  the receiver with its sequence numbers. The numbers that the source keeps as \<open>i32\<close> are integers; none of
  them leaves the range of \<open>i32\<close>.
\<close>

section \<open>Encoding\<close>

definition ACCEPTABLE_SEQ_NO_OFFSET :: int where "ACCEPTABLE_SEQ_NO_OFFSET = 2000"
definition IND_MAX_BASE :: int where "IND_MAX_BASE = 15"
definition IND_EXT_BASE :: int where "IND_EXT_BASE = 16"
definition IND_MAX :: int where "IND_MAX = 22"
definition DATA_MAX_BASE :: int where "DATA_MAX_BASE = 8"
definition DATA_EXT_BASE :: int where "DATA_EXT_BASE = 9"
definition DATA_MAX :: int where "DATA_MAX = 14"
definition FIELD_MAX_BASE :: int where "FIELD_MAX_BASE = 7"
definition FIELD_EXT_BASE :: int where "FIELD_EXT_BASE = 8"
definition FIELD_MAX :: int where "FIELD_MAX = 11"

lemmas wire_consts = ACCEPTABLE_SEQ_NO_OFFSET_def IND_MAX_BASE_def IND_EXT_BASE_def IND_MAX_def DATA_MAX_BASE_def DATA_EXT_BASE_def
  DATA_MAX_def FIELD_MAX_BASE_def FIELD_EXT_BASE_def FIELD_MAX_def

record wire_data_field =
  wire_type :: int
  wire_data :: bytes

definition encode_wire_indicator :: "u8 \<Rightarrow> int \<Rightarrow> bytes option" where
  "encode_wire_indicator version indicator =
     (if 0 \<le> indicator \<and> indicator \<le> IND_MAX_BASE then Some [push_bit 1 (of_int indicator)]
      else if version \<noteq> 0 \<and> IND_EXT_BASE \<le> indicator \<and> indicator \<le> IND_MAX
      then Some (u16_be (0x2000 OR push_bit 6 (of_int (indicator - IND_EXT_BASE))))
      else None)"

definition present_bit :: "bool \<Rightarrow> u8" where
  "present_bit b = (if b then 0x80 else 0)"

definition wire_field_header :: "u8 \<Rightarrow> wire_data_field \<Rightarrow> bytes option" where
  "wire_field_header version f =
     (let present = present_bit (wire_data f \<noteq> []); t = wire_type f in
      if version = 0
      then if \<not> (0 \<le> t \<and> t \<le> FIELD_MAX_BASE) then None else Some [present OR push_bit 4 (of_int t)]
      else if 0 \<le> t \<and> t \<le> FIELD_MAX_BASE then Some [present OR push_bit 3 (of_int t)]
      else if FIELD_EXT_BASE \<le> t \<and> t \<le> FIELD_MAX
      then
        let off = of_int (t - FIELD_EXT_BASE) in
        Some [present OR 0x40 OR drop_bit 2 off, push_bit 6 off AND 0xC0]
      else None)"

definition wire_field :: "u8 \<Rightarrow> wire_data_field \<Rightarrow> bytes option" where
  "wire_field version f =
     (case wire_field_header version f of
        None \<Rightarrow> None
      | Some head \<Rightarrow>
          if wire_data f \<noteq> []
          then if 65535 < length (wire_data f) then None
            else Some (head @ u16_be (of_nat (length (wire_data f) - 1)) @ wire_data f)
          else Some head)"

fun wire_fields :: "u8 \<Rightarrow> wire_data_field list \<Rightarrow> bytes option" where
  "wire_fields version [] = Some []"
| "wire_fields version (f # fs) =
     (case wire_field version f of
        None \<Rightarrow> None
      | Some bs \<Rightarrow> (case wire_fields version fs of None \<Rightarrow> None | Some rest \<Rightarrow> Some (bs @ rest)))"

text \<open>The count of a fragment and the number of fields that follow it.\<close>

definition wire_count :: "nat \<Rightarrow> bytes \<times> nat" where
  "wire_count value =
     (if value < 0x80 then ([of_nat value], value)
      else if value < 0x4000 then (u16_be (0x8000 OR of_nat value), value)
      else let multiplier = min (value div 0x4000) 4 in ([0xC0 OR of_nat multiplier], 0x4000 * multiplier))"

function wire_fragments :: "u8 \<Rightarrow> wire_data_field list \<Rightarrow> bytes option" where
  "wire_fragments version fs =
     (case wire_count (length fs) of (count, enclen) \<Rightarrow>
        case wire_fields version (take enclen fs) of
          None \<Rightarrow> None
        | Some body \<Rightarrow>
            if enclen = length fs \<and> enclen < 16384 then Some (count @ body)
            else (case wire_fragments version (drop enclen fs) of None \<Rightarrow> None | Some rest \<Rightarrow> Some (count @ body @ rest)))"
  by pat_completeness auto
termination
  by (relation "measure (\<lambda>(v, fs). length fs)")
    (auto simp: wire_count_def Let_def div_greater_zero_iff min_def split: if_splits)

declare wire_fragments.simps [simp del]

definition encode_wire_data :: "u8 \<Rightarrow> int \<Rightarrow> wire_data_field list \<Rightarrow> bytes option" where
  "encode_wire_data version data_type fs =
     (let dfp = present_bit (fs \<noteq> []) in
      case (if 0 \<le> data_type \<and> data_type \<le> DATA_MAX_BASE then Some [dfp OR 0x40 OR push_bit 1 (of_int data_type)]
            else if version \<noteq> 0 \<and> DATA_EXT_BASE \<le> data_type \<and> data_type \<le> DATA_MAX
            then Some (u16_be (push_bit 8 (ucast dfp) OR 0x6000 OR push_bit 6 (of_int (data_type - DATA_EXT_BASE))))
            else None) of
        None \<Rightarrow> None
      | Some head \<Rightarrow>
          if fs \<noteq> [] then (case wire_fragments version fs of None \<Rightarrow> None | Some body \<Rightarrow> Some (head @ body)) else Some head)"

section \<open>Decoding\<close>

datatype wire_rx_event =
    Indicator_event int
  | Data_event int int bytes
  | Missing_event int int

datatype wire_rx_error = Truncated | Protocol_violation | BadLength

text \<open>The two-octet form of an extended value.\<close>

definition extended :: "u8 \<Rightarrow> u8 \<Rightarrow> int" where
  "extended a b = int (unat ((push_bit 2 a AND 0x3C) OR (drop_bit 6 b AND 0x3)))"

text \<open>One field header: whether data follow, the type, and the new position with the half of the byte that is next.\<close>

definition rx_field_header :: "u8 \<Rightarrow> bytes \<Rightarrow> nat \<Rightarrow> bool \<Rightarrow> wire_rx_error fault + bool \<times> int \<times> nat \<times> bool" where
  "rx_field_header version buf ptr other_half =
     rbind (at8 buf ptr) (\<lambda>b.
       if version = 0
       then
         if other_half then Ok (bit b 3, int (unat (b AND 0x7)), ptr + 1, False)
         else
           let present = bit b 7; t = int (unat (drop_bit 4 b AND 0x7)) in
           if FIELD_MAX_BASE < t then Fail Protocol_violation
           else Ok (present, t, if present then ptr + 1 else ptr, \<not> present)
       else if b AND 0x40 \<noteq> 0
       then
         if length buf < ptr + 2 then Fail Truncated
         else rbind (at8 buf (ptr + 1)) (\<lambda>b2.
           let t = FIELD_EXT_BASE + extended b b2 in
           if FIELD_MAX < t then Fail Protocol_violation else Ok (bit b 7, t, ptr + 2, other_half))
       else Ok (bit b 7, int (unat (drop_bit 3 b AND 0x7)), ptr + 1, other_half))"

fun rx_fields :: "u8 \<Rightarrow> int \<Rightarrow> bytes \<Rightarrow> nat \<Rightarrow> nat \<Rightarrow> bool \<Rightarrow> wire_rx_event list \<Rightarrow> wire_rx_error fault + nat \<times> wire_rx_event list" where
  "rx_fields version data_type buf 0 ptr other_half events = Ok (if other_half then ptr + 1 else ptr, events)"
| "rx_fields version data_type buf (Suc n) ptr other_half events =
     (if length buf \<le> ptr then Fail Truncated
      else rbind (rx_field_header version buf ptr other_half) (\<lambda>(present, t, ptr, other_half).
        if present
        then
          if length buf < ptr + 2 then Fail Truncated
          else rbind (at16 buf ptr) (\<lambda>len.
            let end_pos = ptr + 2 + (unat len + 1) in
            if length buf < end_pos then Fail Truncated
            else rbind (slice buf (ptr + 2) end_pos) (\<lambda>payload_bytes.
              rx_fields version data_type buf n end_pos other_half (events @ [Data_event data_type t payload_bytes])))
        else rx_fields version data_type buf n ptr other_half (events @ [Data_event data_type t []])))"

definition rx_ifp_stream :: "u8 \<Rightarrow> bytes \<Rightarrow> wire_rx_event list \<Rightarrow> wire_rx_error fault + nat \<times> wire_rx_event list" where
  "rx_ifp_stream version buf events =
     (if length buf < 1 then Fail Truncated
      else rbind (at8 buf 0) (\<lambda>b.
        let dfp = bit b 7 in
        if \<not> bit b 6
        then
          if dfp then Fail Protocol_violation
          else if b AND 0x20 \<noteq> 0
          then
            if length buf < 2 then Fail Truncated
            else rbind (at8 buf 1) (\<lambda>b2.
              let v = IND_EXT_BASE + extended b b2 in
              if IND_MAX < v then Fail Protocol_violation else Ok (2, events @ [Indicator_event v]))
          else Ok (1, events @ [Indicator_event (int (unat (drop_bit 1 b AND 0xF)))])
        else
          rbind (if b AND 0x20 \<noteq> 0
                 then if length buf < 2 then Fail Truncated
                   else rbind (at8 buf 1) (\<lambda>b2.
                     let v = DATA_EXT_BASE + extended b b2 in if DATA_MAX < v then Fail Protocol_violation else Ok (v, 2))
                 else
                   let t = int (unat (drop_bit 1 b AND 0xF)) in if DATA_MAX_BASE < t then Fail Protocol_violation else Ok (t, 1))
            (\<lambda>(data_type, ptr).
             if \<not> dfp then Ok (ptr, events)
             else if length buf \<le> ptr then Fail Truncated
             else rbind (at8 buf ptr) (\<lambda>count.
               rbind (rx_fields version data_type buf (unat count) (ptr + 1) False events) (\<lambda>(ptr, events).
                 if length buf < ptr then Fail Truncated else Ok (ptr, events))))))"

datatype wire_packet = Wire_indicator "t30_indicator list" | Wire_data u8 "wire_data_field list"

fun data_fields_of :: "wire_rx_event list \<Rightarrow> wire_data_field list" where
  "data_fields_of [] = []"
| "data_fields_of (Data_event d t bs # es) = \<lparr>wire_type = t, wire_data = bs\<rparr> # data_fields_of es"
| "data_fields_of (e # es) = data_fields_of es"

definition decode_wire :: "bytes \<Rightarrow> wire_rx_error fault + wire_packet" where
  "decode_wire buf =
     rbind (rx_ifp_stream 3 buf []) (\<lambda>(consumed, events).
       if consumed \<noteq> length buf then Fail BadLength
       else case events of
         Indicator_event ind # _ \<Rightarrow>
           (case t30_indicator_from_u8 (of_int ind) of None \<Rightarrow> Fail Protocol_violation | Some t \<Rightarrow> Ok (Wire_indicator [t]))
       | Data_event data_type _ _ # _ \<Rightarrow> Ok (Wire_data (of_int data_type) (data_fields_of events))
       | _ \<Rightarrow> Fail Protocol_violation)"

section \<open>The receiver\<close>

definition classify_seq_no_offset :: "int \<Rightarrow> int \<Rightarrow> int" where
  "classify_seq_no_offset expected actual =
     (if actual < expected
      then if actual + 0x10000 - ACCEPTABLE_SEQ_NO_OFFSET < expected then 1
        else if expected < actual + ACCEPTABLE_SEQ_NO_OFFSET then -1 else 0
      else if actual < expected + ACCEPTABLE_SEQ_NO_OFFSET then 1
        else if expected + 0x10000 - ACCEPTABLE_SEQ_NO_OFFSET < actual then -1 else 0)"

record t38_core_rx =
  t38_version :: u8
  check_sequence_numbers :: bool
  expected_seq_no :: int
  missing_packets :: nat

definition t38_core_rx_new :: "u8 \<Rightarrow> t38_core_rx" where
  "t38_core_rx_new version = \<lparr>t38_version = version, check_sequence_numbers = True, expected_seq_no = -1, missing_packets = 0\<rparr>"

text \<open>A difference of sequence numbers is cast to \<open>u32\<close>; the counter saturates.\<close>

definition add_missing :: "int \<Rightarrow> t38_core_rx \<Rightarrow> t38_core_rx" where
  "add_missing n c = c\<lparr>missing_packets := min (2 ^ 32 - 1) (missing_packets c + unat (of_int n :: u32))\<rparr>"

definition feed_bytes :: "u16 \<Rightarrow> bytes \<Rightarrow> t38_core_rx \<Rightarrow> (wire_rx_error fault + wire_rx_event list) \<times> t38_core_rx" where
  "feed_bytes seq_no buf c =
     (let seq = int (unat seq_no);
          rest = (\<lambda>events c.
            if buf = [] then (Fail Truncated, c)
            else
              let c = c\<lparr>expected_seq_no := (expected_seq_no c + 1) mod 0x10000\<rparr> in
              case rx_ifp_stream (t38_version c) buf events of
                Inl f \<Rightarrow> (Inl f, c)
              | Inr (ptr, events) \<Rightarrow> if ptr \<noteq> length buf then (Fail BadLength, c) else (Ok events, c)) in
      if check_sequence_numbers c \<and> seq \<noteq> expected_seq_no c
      then
        if expected_seq_no c = -1 then rest [] (c\<lparr>expected_seq_no := seq\<rparr>)
        else if (seq + 1) mod 0x10000 = expected_seq_no c then (Ok [], c)
        else if classify_seq_no_offset (expected_seq_no c) seq = -1 then (Ok [], c)
        else if classify_seq_no_offset (expected_seq_no c) seq = 1
        then rest [Missing_event (expected_seq_no c) seq]
          ((add_missing (seq - expected_seq_no c) c)\<lparr>expected_seq_no := seq\<rparr>)
        else rest [Missing_event (-1) (-1)] ((add_missing 1 c)\<lparr>expected_seq_no := seq\<rparr>)
      else rest [] c)"

section \<open>Decoding inverts encoding\<close>

definition wire_field_ok :: "wire_data_field \<Rightarrow> bool" where
  "wire_field_ok f \<longleftrightarrow> 0 \<le> wire_type f \<and> wire_type f \<le> FIELD_MAX \<and> length (wire_data f) \<le> 65535"

lemma int_upto_11: "0 \<le> (t :: int) \<Longrightarrow> t \<le> 11 \<Longrightarrow> t \<in> {0, 1, 2, 3, 4, 5, 6, 7, 8, 9, 10, 11}"
  by (simp only: insert_iff empty_iff) arith

lemma int_upto_14: "0 \<le> (t :: int) \<Longrightarrow> t \<le> 14 \<Longrightarrow> t \<in> {0, 1, 2, 3, 4, 5, 6, 7, 8, 9, 10, 11, 12, 13, 14}"
  by (simp only: insert_iff empty_iff) arith

lemma at8_after: "at8 (pre @ b # post) (length pre) = Ok b" "at8 (pre @ a # b # post) (Suc (length pre)) = Ok b"
  by (simp_all add: at8_def nth_append)

lemma field_header_back:
  assumes "wire_field_ok f" and v: "v \<noteq> 0"
  shows "\<exists>h. wire_field_header v f = Some h \<and> 0 < length h \<and>
    (\<forall>pre post. rx_field_header v (pre @ h @ post) (length pre) False = Ok (wire_data f \<noteq> [], wire_type f, length pre + length h, False))"
proof -
  have t: "wire_type f \<in> {0, 1, 2, 3, 4, 5, 6, 7, 8, 9, 10, 11}"
    using assms(1) by (intro int_upto_11) (simp_all add: wire_field_ok_def wire_consts)
  show ?thesis
  proof (cases "wire_data f = []")
    case True
    with t v show ?thesis
      by (elim insertE emptyE) (simp_all add: wire_field_header_def rx_field_header_def present_bit_def wire_consts extended_def at8_after Let_def)
  next
    case False
    with t v show ?thesis
      by (elim insertE emptyE) (simp_all add: wire_field_header_def rx_field_header_def present_bit_def wire_consts extended_def at8_after Let_def)
  qed
qed

lemma rx_one_field:
  assumes f: "wire_field_ok f" and v: "v \<noteq> 0"
  shows "\<exists>bs. wire_field v f = Some bs \<and> (\<forall>pre post n d ev. rx_fields v d (pre @ bs @ post) (Suc n) (length pre) False ev
      = rx_fields v d (pre @ bs @ post) n (length pre + length bs) False (ev @ [Data_event d (wire_type f) (wire_data f)]))"
proof -
  obtain h where h: "wire_field_header v f = Some h" "0 < length h"
      "\<And>pre post. rx_field_header v (pre @ h @ post) (length pre) False = Ok (wire_data f \<noteq> [], wire_type f, length pre + length h, False)"
    using field_header_back [OF f v] by blast
  show ?thesis
  proof (cases "wire_data f = []")
    case True
    then show ?thesis using h by (intro exI [of _ h]) (simp add: wire_field_def)
  next
    case False
    obtain l :: u16 where l: "l = of_nat (length (wire_data f) - 1)" by simp
    then have n: "unat l + 1 = length (wire_data f)"
      using f False by (cases "wire_data f") (simp_all add: wire_field_ok_def)
    have w: "wire_field v f = Some (h @ u16_be l @ wire_data f)"
      using h(1) f False unfolding l by (simp add: wire_field_def wire_field_ok_def)
    have at: "at16 (pre @ h @ u16_be l @ wire_data f @ post) (length pre + length h) = (Ok l :: wire_rx_error fault + _)" for pre post
      by (simp add: read_simps)
    have sl: "slice (pre @ h @ u16_be l @ wire_data f @ post) (length pre + length h + 2) (length pre + length h + 2 + length (wire_data f))
        = (Ok (wire_data f) :: wire_rx_error fault + _)" for pre post
      by (simp add: slice_def)
    show ?thesis
      unfolding w using h(2,3) False at sl by (auto simp: Let_def add.assoc n [symmetric])
  qed
qed

lemma rx_all_fields:
  assumes "list_all wire_field_ok fs" and v: "v \<noteq> 0"
  shows "\<exists>bs. wire_fields v fs = Some bs \<and> (\<forall>pre post d ev. rx_fields v d (pre @ bs @ post) (length fs) (length pre) False ev
      = Ok (length pre + length bs, ev @ map (\<lambda>f. Data_event d (wire_type f) (wire_data f)) fs))"
  using assms(1)
proof (induction fs)
  case (Cons f fs)
  obtain b where b: "wire_field v f = Some b" "\<And>pre post n d ev. rx_fields v d (pre @ b @ post) (Suc n) (length pre) False ev
      = rx_fields v d (pre @ b @ post) n (length pre + length b) False (ev @ [Data_event d (wire_type f) (wire_data f)])"
    using rx_one_field [of f v] Cons.prems v by auto
  obtain bs where bs: "wire_fields v fs = Some bs" "\<And>pre post d ev. rx_fields v d (pre @ bs @ post) (length fs) (length pre) False ev
      = Ok (length pre + length bs, ev @ map (\<lambda>f. Data_event d (wire_type f) (wire_data f)) fs)"
    using Cons by auto
  have "rx_fields v d (pre @ (b @ bs) @ post) (Suc (length fs)) (length pre) False ev
      = Ok (length pre + length (b @ bs), ev @ map (\<lambda>f. Data_event d (wire_type f) (wire_data f)) (f # fs))" for pre post d ev
    using b(2) [where post = "bs @ post"] bs(2) [where pre = "pre @ b"] by simp
  then show ?case using b(1) bs(1) by (intro exI [of _ "b @ bs"]) (simp del: rx_fields.simps)
qed simp

lemma rx_stream_data:
  assumes fs: "list_all wire_field_ok fs" "length fs < 128" "fs \<noteq> []" and v: "v \<noteq> 0" and d: "0 \<le> d" "d \<le> DATA_MAX"
  shows "\<exists>bs. encode_wire_data v d fs = Some bs \<and>
    (\<forall>ev. rx_ifp_stream v bs ev = Ok (length bs, ev @ map (\<lambda>f. Data_event d (wire_type f) (wire_data f)) fs))"
proof -
  obtain body where b: "wire_fields v fs = Some body"
      "\<And>pre post ev. rx_fields v d (pre @ body @ post) (length fs) (length pre) False ev
        = Ok (length pre + length body, ev @ map (\<lambda>f. Data_event d (wire_type f) (wire_data f)) fs)"
    using rx_all_fields [OF fs(1) v] by blast
  have w: "wire_fragments v fs = Some (of_nat (length fs) # body)"
    using fs(2) b(1) by (subst wire_fragments.simps) (simp add: wire_count_def)
  have n: "unat (of_nat (length fs) :: u8) = length fs"
    using fs(2) by simp
  have t: "d \<in> {0, 1, 2, 3, 4, 5, 6, 7, 8, 9, 10, 11, 12, 13, 14}"
    using d by (intro int_upto_14) (simp_all add: wire_consts)
  have short: "rx_fields v d (a # c # body) (length fs) (Suc (Suc 0)) False ev
        = Ok (length body + 2, ev @ map (\<lambda>f. Data_event d (wire_type f) (wire_data f)) fs)" for a c ev
    using b(2) [of "[a, c]" "[]"] by simp
  have long: "rx_fields v d (a # a' # c # body) (length fs) 3 False ev
        = Ok (Suc (Suc (Suc (length body))), ev @ map (\<lambda>f. Data_event d (wire_type f) (wire_data f)) fs)" for a a' c ev
    using b(2) [of "[a, a', c]" "[]"] by (simp add: numeral_3_eq_3)
  show ?thesis
    using t fs(3) v short long
    by (elim insertE emptyE) (simp_all add: encode_wire_data_def w rx_ifp_stream_def present_bit_def wire_consts extended_def at8_def n Let_def u16_be_def)
qed

lemma int_upto_22:
  assumes "0 \<le> (t :: int)" "t \<le> 22"
  shows "t \<in> {0, 1, 2, 3, 4, 5, 6, 7, 8, 9, 10, 11, 12, 13, 14} \<or> t \<in> {15, 16, 17, 18, 19, 20, 21, 22}"
  using assms by (simp only: insert_iff empty_iff) arith

lemma rx_stream_indicator:
  assumes v: "v \<noteq> 0" and d: "0 \<le> i" "i \<le> IND_MAX"
  shows "\<exists>bs. encode_wire_indicator v i = Some bs \<and> (\<forall>ev. rx_ifp_stream v bs ev = Ok (length bs, ev @ [Indicator_event i]))"
proof -
  have "i \<in> {0, 1, 2, 3, 4, 5, 6, 7, 8, 9, 10, 11, 12, 13, 14} \<or> i \<in> {15, 16, 17, 18, 19, 20, 21, 22}"
    using d by (intro int_upto_22) (simp_all add: wire_consts)
  then show ?thesis
    using v by (elim disjE insertE emptyE)
      (simp_all add: encode_wire_indicator_def rx_ifp_stream_def wire_consts extended_def at8_def Let_def u16_be_def)
qed

lemma data_fields_of_map: "data_fields_of (map (\<lambda>f. Data_event d (wire_type f) (wire_data f)) fs) = fs"
  by (induction fs) simp_all

text \<open>
  The wire format carries every packet: in every extended version of T.38, an indicator from 0 to 22 is encoded, and the
  receiver reads back that indicator from all of the bytes; data of type 0 to 14 with between 1 and 127 fields of types 0
  to 11 of at most 65535 bytes are encoded, and the decoder returns the same type and the same fields.
\<close>

lemma wire_roundtrip:
  assumes v: "v \<noteq> 0"
  shows "(0 \<le> i \<and> i \<le> IND_MAX \<longrightarrow>
      (\<exists>bs. encode_wire_indicator v i = Some bs \<and> rx_ifp_stream v bs [] = Ok (length bs, [Indicator_event i]))) \<and>
    (0 \<le> d \<and> d \<le> DATA_MAX \<and> list_all wire_field_ok fs \<and> fs \<noteq> [] \<and> length fs < 128 \<longrightarrow>
      (\<exists>bs. encode_wire_data 3 d fs = Some bs \<and> decode_wire bs = Ok (Wire_data (of_int d) fs)))"
proof (intro conjI impI)
  assume "0 \<le> i \<and> i \<le> IND_MAX"
  then show "\<exists>bs. encode_wire_indicator v i = Some bs \<and> rx_ifp_stream v bs [] = Ok (length bs, [Indicator_event i])"
    using rx_stream_indicator [OF v, of i] by auto
next
  assume d: "0 \<le> d \<and> d \<le> DATA_MAX \<and> list_all wire_field_ok fs \<and> fs \<noteq> [] \<and> length fs < 128"
  then obtain bs where bs: "encode_wire_data 3 d fs = Some bs"
      "rx_ifp_stream 3 bs [] = Ok (length bs, map (\<lambda>f. Data_event d (wire_type f) (wire_data f)) fs)"
    using rx_stream_data [of fs 3 d] by auto
  obtain f fs' where "fs = f # fs'" using d by (cases fs) auto
  then have "decode_wire bs = Ok (Wire_data (of_int d) fs)"
    using bs(2) data_fields_of_map [of d fs] by (simp add: decode_wire_def)
  with bs(1) show "\<exists>bs. encode_wire_data 3 d fs = Some bs \<and> decode_wire bs = Ok (Wire_data (of_int d) fs)" by blast
qed

lemma wire_roundtrip_example:
  "(1 :: u8) \<noteq> 0 \<and>
   (\<exists>bs. encode_wire_indicator 1 19 = Some bs \<and> rx_ifp_stream 1 bs [] = Ok (length bs, [Indicator_event 19])) \<and>
   (\<exists>bs. encode_wire_data 3 10 [\<lparr>wire_type = 0, wire_data = [1, 2]\<rparr>, \<lparr>wire_type = 9, wire_data = []\<rparr>] = Some bs \<and>
      decode_wire bs = Ok (Wire_data 10 [\<lparr>wire_type = 0, wire_data = [1, 2]\<rparr>, \<lparr>wire_type = 9, wire_data = []\<rparr>]))"
  using wire_roundtrip [of 1 19 10 "[\<lparr>wire_type = 0, wire_data = [1, 2]\<rparr>, \<lparr>wire_type = 9, wire_data = []\<rparr>]"]
  by (simp add: wire_consts wire_field_ok_def)

section \<open>A session of the receiver\<close>

text \<open>The classification is the serial comparison of sequence numbers with a window of 2000.\<close>

lemma mod_shift: "- 65536 \<le> (x :: int) \<Longrightarrow> x < 0 \<Longrightarrow> x mod 65536 = x + 65536"
  using mod_pos_pos_trivial [of "x + 65536" 65536] by simp

lemma classify_serial:
  assumes "0 \<le> e" "e < 0x10000" "0 \<le> a" "a < 0x10000"
  shows "classify_seq_no_offset e a =
    (if (a - e) mod 0x10000 < ACCEPTABLE_SEQ_NO_OFFSET then 1
     else if (e - a) mod 0x10000 < ACCEPTABLE_SEQ_NO_OFFSET then -1 else 0)"
proof (cases "a < e")
  case True
  have "(a - e) mod 0x10000 = a - e + 0x10000" "(e - a) mod 0x10000 = e - a"
    using assms True by (simp_all add: mod_shift)
  with True show ?thesis by (simp add: classify_seq_no_offset_def wire_consts)
next
  case False
  have "(a - e) mod 0x10000 = a - e" using assms False by simp
  moreover have "(e - a) mod 0x10000 = e - a + 0x10000" if "a \<noteq> e" using assms False that by (simp add: mod_shift)
  ultimately show ?thesis using False by (cases "a = e") (simp_all add: classify_seq_no_offset_def wire_consts)
qed

text \<open>A packet of a session is an indicator or data with fields.\<close>

datatype wire_item = Item_indicator int | Item_data int "wire_data_field list"

fun item_ok :: "wire_item \<Rightarrow> bool" where
  "item_ok (Item_indicator i) \<longleftrightarrow> 0 \<le> i \<and> i \<le> IND_MAX"
| "item_ok (Item_data d fs) \<longleftrightarrow> 0 \<le> d \<and> d \<le> DATA_MAX \<and> list_all wire_field_ok fs \<and> fs \<noteq> [] \<and> length fs < 128"

fun encode_item :: "u8 \<Rightarrow> wire_item \<Rightarrow> bytes option" where
  "encode_item v (Item_indicator i) = encode_wire_indicator v i"
| "encode_item v (Item_data d fs) = encode_wire_data v d fs"

fun item_events :: "wire_item \<Rightarrow> wire_rx_event list" where
  "item_events (Item_indicator i) = [Indicator_event i]"
| "item_events (Item_data d fs) = map (\<lambda>f. Data_event d (wire_type f) (wire_data f)) fs"

text \<open>The sender numbers its packets one after the other; each of them arrives \<open>k\<close> + 1 times.\<close>

fun arrivals :: "u8 \<Rightarrow> u16 \<Rightarrow> (wire_item \<times> nat) list \<Rightarrow> (u16 \<times> bytes) list" where
  "arrivals v n [] = []"
| "arrivals v n ((x, k) # xs) = replicate (Suc k) (n, case encode_item v x of None \<Rightarrow> [] | Some bs \<Rightarrow> bs) @ arrivals v (n + 1) xs"

fun feed_all :: "(u16 \<times> bytes) list \<Rightarrow> t38_core_rx \<Rightarrow> (wire_rx_error fault + wire_rx_event list) \<times> t38_core_rx" where
  "feed_all [] c = (Ok [], c)"
| "feed_all ((n, bs) # ps) c =
     (case feed_bytes n bs c of
        (Inl f, c) \<Rightarrow> (Inl f, c)
      | (Inr ev, c) \<Rightarrow>
          (case feed_all ps c of (Inl f, c) \<Rightarrow> (Inl f, c) | (Inr evs, c) \<Rightarrow> (Inr (ev @ evs), c)))"

lemma next_seq: "uint (n + 1 :: u16) = (uint n + 1) mod 0x10000"
  by (simp add: uint_word_ariths)

lemma encode_item_back:
  assumes "item_ok x" and "v \<noteq> 0"
  shows "\<exists>bs. encode_item v x = Some bs \<and> rx_ifp_stream v bs [] = Ok (length bs, item_events x) \<and> bs \<noteq> []"
proof -
  have "\<exists>bs. encode_item v x = Some bs \<and> rx_ifp_stream v bs [] = Ok (length bs, item_events x)"
    using assms rx_stream_indicator [of v] rx_stream_data [of _ v] by (cases x) fastforce+
  moreover have "rx_ifp_stream v [] [] = Fail Truncated" by (simp add: rx_ifp_stream_def)
  ultimately show ?thesis by (metis Inl_Inr_False)
qed

lemma feed_next:
  assumes "rx_ifp_stream v bs [] = Ok (length bs, ev)" "bs \<noteq> []" "t38_version c = v" "check_sequence_numbers c"
    and "expected_seq_no c \<in> {-1, uint n}"
  shows "feed_bytes n bs c = (Ok ev, c\<lparr>expected_seq_no := uint (n + 1)\<rparr>)"
proof (cases "expected_seq_no c = uint n")
  case True
  with assms show ?thesis by (simp add: feed_bytes_def Let_def next_seq)
next
  case False
  with assms have "expected_seq_no c = -1" by simp
  with False assms show ?thesis by (simp add: feed_bytes_def Let_def next_seq)
qed

lemma feed_again:
  assumes "check_sequence_numbers c" "expected_seq_no c = uint (n + 1)"
  shows "feed_bytes n bs c = (Ok [], c)"
proof -
  have "uint n \<noteq> uint (n + 1)" by (simp flip: word_uint_eq_iff)
  moreover have "uint (n + 1) \<noteq> -1" using uint_ge_0 [of "n + 1"] by linarith
  moreover have "(uint n + 1) mod 0x10000 = uint (n + 1)" by (simp add: next_seq)
  ultimately show ?thesis using assms by (simp add: feed_bytes_def Let_def)
qed

lemma feed_repeated:
  assumes "check_sequence_numbers c" "expected_seq_no c = uint (n + 1)"
  shows "feed_all (replicate k (n, bs) @ ps) c = feed_all ps c"
  using assms by (induction k) (simp_all add: feed_again split: prod.splits sum.splits)

lemma feed_session:
  assumes v: "v \<noteq> 0"
  shows "list_all (\<lambda>x. item_ok (fst x)) xs \<Longrightarrow> t38_version c = v \<Longrightarrow> check_sequence_numbers c \<Longrightarrow>
    expected_seq_no c \<in> {-1, uint n} \<Longrightarrow>
    \<exists>e. feed_all (arrivals v n xs) c = (Ok (concat (map (\<lambda>x. item_events (fst x)) xs)), c\<lparr>expected_seq_no := e\<rparr>)"
proof (induction xs arbitrary: n c)
  case Nil
  show ?case by (intro exI [of _ "expected_seq_no c"]) simp
next
  case (Cons y xs)
  obtain x k where y: "y = (x, k)" by (cases y)
  obtain bs where bs: "encode_item v x = Some bs" "rx_ifp_stream v bs [] = Ok (length bs, item_events x)" "bs \<noteq> []"
    using encode_item_back [OF _ v, of x] Cons.prems(1) y by auto
  let ?c = "c\<lparr>expected_seq_no := uint (n + 1)\<rparr>"
  obtain e where "feed_all (arrivals v (n + 1) xs) ?c = (Ok (concat (map (\<lambda>x. item_events (fst x)) xs)), ?c\<lparr>expected_seq_no := e\<rparr>)"
    using Cons.IH [of ?c "n + 1"] Cons.prems by auto
  then show ?case
    using feed_next [OF bs(2,3) Cons.prems(2-4)] feed_repeated [of ?c n k bs] Cons.prems(3) y bs(1) by auto
qed

text \<open>
  C20: A T.38 session over a channel that neither loses nor reorders packets, but may deliver each several times in a row: in
  every extended version (not 0), when indicators from 0 to 22 and data of type 0 to 14 with 1 to 127 fields are numbered one
  after the other from any number, across the wrap of the counter, the receiver reports for every packet, once, exactly
  the indicator or the fields that were encoded, in the order sent, and counts no packet as missing.
\<close>

theorem wire_session_exact:
  assumes "v \<noteq> 0" and "list_all (\<lambda>x. item_ok (fst x)) xs"
  shows "\<exists>c. feed_all (arrivals v n xs) (t38_core_rx_new v) = (Ok (concat (map (\<lambda>x. item_events (fst x)) xs)), c) \<and> missing_packets c = 0"
  using feed_session [OF assms, of "t38_core_rx_new v" n] by (auto simp: t38_core_rx_new_def)

theorem wire_session_exact_witness:
  "\<exists>c. feed_all (arrivals 1 0xFFFF [(Item_indicator 3, 2), (Item_data 1 [\<lparr>wire_type = 0, wire_data = [7]\<rparr>], 0)]) (t38_core_rx_new 1)
     = (Ok [Indicator_event 3, Data_event 1 0 [7]], c) \<and> missing_packets c = 0"
  using wire_session_exact [where v = 1 and n = "0xFFFF" and xs = "[(Item_indicator 3, 2), (Item_data 1 [\<lparr>wire_type = 0, wire_data = [7]\<rparr>], 0)]"]
  by (simp add: wire_consts wire_field_ok_def del: arrivals.simps)

text \<open>
  When packets are lost across the wrap of the counter, the difference is negative and the count of missing packets grows by
  almost 2 to the power 32 instead of by the number lost.
\<close>

lemma missing_across_wrap:
  "missing_packets (snd (feed_bytes 2 [0x02] (snd (feed_bytes 0xFFFD [0x02] (t38_core_rx_new 0))))) = 4294901764"
  by (simp add: feed_bytes_def t38_core_rx_new_def classify_seq_no_offset_def wire_consts add_missing_def rx_ifp_stream_def at8_def Let_def)

end
