(* ===== verification/Spec2Isabelle.thy ===== *)
theory Spec2Isabelle
  imports Rtp_Ext Twcc Jitter Stun Dtls_Flow Sctp_Link Srtp_Link T38_Wire
begin

text \<open>
  Verification of the protocol core of \<open>rustrtc\<close>, a WebRTC, RTP/SRTP and T.38 library in Rust.
\<close>

end
